(* ===== verification/Prelude.thy ===== *)
theory Prelude
  imports Complex_Main "HOL-Library.Multiset" "HOL-Library.Product_Lexorder"
begin

text \<open>
  Shared ground of the development: Python exceptions and JSON values, database tables as
  lists of rows in rowid order, and the lemmas about them that every component uses.

  A table is the list of its rows, oldest rowid first. The row operations below are the SQL
  statements the platform issues: \<open>find_row\<close> is a lookup by primary key, \<open>upd_where\<close>
  an \<open>UPDATE ... WHERE\<close>, \<open>del_where\<close> a \<open>DELETE ... WHERE\<close> and \<open>next_rowid\<close> the
  id SQLite gives to a new row of an \<open>INTEGER PRIMARY KEY\<close> table (the largest id plus one,
  1 in an empty table). Times are microseconds since the epoch (\<open>int\<close>);
  \<open>CURRENT_TIMESTAMP\<close>, which has one-second resolution, is \<open>cur_ts\<close>.
\<close>

section \<open>Exceptions, JSON, timestamps\<close>

named_theorems tbl "row-level facts of tables, for the simplifier"

datatype exn =
    ValueError string
  | RuntimeError string
  | PermissionError string
  | FileNotFoundError string
  | KeyError string
  | TypeError string
  | IntegrityError string
  | AttributeError string
  | PolicyValidationError string
  | RecursionError
  | OtherError string

text \<open>JSON as \<open>json.dumps\<close> takes it; a dict is an association list in insertion order.\<close>

datatype json =
    JNull
  | JBool bool
  | JInt int
  | JNum rat
  | JStr string
  | JList "json list"
  | JObj "(string \<times> json) list"

text \<open>
  A TEXT column that should hold JSON: either the value \<open>json.loads\<close> returns for it, or a
  text on which \<open>json.loads\<close> raises. \<open>json.dumps\<close> followed by \<open>json.loads\<close> is the
  identity on the values used here, so a column written by the platform is \<open>Parsed\<close>.
\<close>

datatype jtext = Parsed json | Malformed string

text \<open>A TEXT column that should hold an ISO-8601 time.\<close>

datatype timestr = At int | BadTime string

type_synonym time = int

definition cur_ts :: "time \<Rightarrow> int" where
  "cur_ts now = now div 1000000"

text \<open>\<open>d.get(k)\<close> on a dict: the last binding of a key would win, but keys are unique.\<close>

definition jget :: "(string \<times> json) list \<Rightarrow> string \<Rightarrow> json option" where
  "jget d k = map_of d k"

text \<open>Python's truth value of a JSON value.\<close>

fun jtruthy :: "json \<Rightarrow> bool" where
  "jtruthy JNull = False"
| "jtruthy (JBool b) = b"
| "jtruthy (JInt i) = (i \<noteq> 0)"
| "jtruthy (JNum r) = (r \<noteq> 0)"
| "jtruthy (JStr s) = (s \<noteq> [])"
| "jtruthy (JList xs) = (xs \<noteq> [])"
| "jtruthy (JObj d) = (d \<noteq> [])"

definition starts_with :: "string \<Rightarrow> string \<Rightarrow> bool" where
  "starts_with s p = (take (length p) s = p)"

lemma starts_with_append [simp]: "starts_with (p @ s) p"
  by (simp add: starts_with_def)

text \<open>Decimal digits of an integer, as an f-string prints it.\<close>

fun digits_of :: "nat \<Rightarrow> string" where
  "digits_of n =
     (if n < 10 then [char_of (48 + n)] else digits_of (n div 10) @ [char_of (48 + n mod 10)])"

declare digits_of.simps [simp del]

definition show_int :: "int \<Rightarrow> string" where
  "show_int i = (if i < 0 then ''-'' @ digits_of (nat (- i)) else digits_of (nat i))"

section \<open>Tables\<close>

definition find_row :: "('r \<Rightarrow> int) \<Rightarrow> int \<Rightarrow> 'r list \<Rightarrow> 'r option" where
  "find_row key i rows = List.find (\<lambda>r. key r = i) rows"

definition upd_where :: "('r \<Rightarrow> bool) \<Rightarrow> ('r \<Rightarrow> 'r) \<Rightarrow> 'r list \<Rightarrow> 'r list" where
  "upd_where P f rows = map (\<lambda>r. if P r then f r else r) rows"

definition upd_row :: "('r \<Rightarrow> int) \<Rightarrow> int \<Rightarrow> ('r \<Rightarrow> 'r) \<Rightarrow> 'r list \<Rightarrow> 'r list" where
  "upd_row key i f rows = upd_where (\<lambda>r. key r = i) f rows"

definition del_where :: "('r \<Rightarrow> bool) \<Rightarrow> 'r list \<Rightarrow> 'r list" where
  "del_where P rows = filter (\<lambda>r. \<not> P r) rows"

definition next_rowid :: "('r \<Rightarrow> int) \<Rightarrow> 'r list \<Rightarrow> int" where
  "next_rowid key rows = fold max (map key rows) 0 + 1"

text \<open>SQL's \<open>LIMIT n\<close>: a negative limit is no limit.\<close>

definition sql_limit :: "int \<Rightarrow> 'a list \<Rightarrow> 'a list" where
  "sql_limit n xs = (if n < 0 then xs else take (nat n) xs)"

text \<open>Rows have distinct ids, all positive.\<close>

definition wf_ids :: "('r \<Rightarrow> int) \<Rightarrow> 'r list \<Rightarrow> bool" where
  "wf_ids key rows = distinct (map key rows)"

subsection \<open>Facts about tables\<close>

lemma find_row_Nil [simp]: "find_row key i [] = None"
  by (simp add: find_row_def)

lemma find_row_Cons [simp]:
  "find_row key i (r # rs) = (if key r = i then Some r else find_row key i rs)"
  by (simp add: find_row_def)

lemma find_row_append:
  "find_row key i (rs @ ss) =
     (case find_row key i rs of Some r \<Rightarrow> Some r | None \<Rightarrow> find_row key i ss)"
  by (induction rs) auto

lemma find_row_Some: "find_row key i rs = Some r \<Longrightarrow> r \<in> set rs \<and> key r = i"
  by (induction rs) (auto split: if_splits)

lemma find_row_key [tbl]: "find_row key i rs = Some r \<Longrightarrow> key r = i"
  by (simp add: find_row_Some)

lemma find_row_in: "find_row key i rs = Some r \<Longrightarrow> r \<in> set rs"
  by (simp add: find_row_Some)

lemma find_row_None: "find_row key i rs = None \<longleftrightarrow> (\<forall>r \<in> set rs. key r \<noteq> i)"
  by (induction rs) auto

lemma find_row_of_mem: "r \<in> set rs \<Longrightarrow> \<exists>r'. find_row key (key r) rs = Some r'"
  by (induction rs) auto

lemma find_row_distinct:
  "wf_ids key rs \<Longrightarrow> r \<in> set rs \<Longrightarrow> find_row key (key r) rs = Some r"
  by (induction rs) (auto simp: wf_ids_def)

lemma upd_where_Nil [simp]: "upd_where P f [] = []"
  by (simp add: upd_where_def)

lemma upd_where_Cons [simp]:
  "upd_where P f (r # rs) = (if P r then f r else r) # upd_where P f rs"
  by (simp add: upd_where_def)

lemma length_upd_where [simp]: "length (upd_where P f rs) = length rs"
  by (simp add: upd_where_def)

lemma set_upd_where:
  "set (upd_where P f rs) = (\<lambda>r. if P r then f r else r) ` set rs"
  by (simp add: upd_where_def)

lemma find_row_upd_where [tbl]:
  assumes "\<And>r. key (f r) = key r"
  shows "find_row key i (upd_where P f rs) =
     map_option (\<lambda>r. if P r then f r else r) (find_row key i rs)"
  using assms by (induction rs) auto

lemma map_key_upd_where:
  assumes "\<And>r. key (f r) = key r"
  shows "map key (upd_where P f rs) = map key rs"
  using assms by (induction rs) auto

lemma wf_ids_upd_where:
  "(\<And>r. key (f r) = key r) \<Longrightarrow> wf_ids key (upd_where P f rs) = wf_ids key rs"
  by (simp add: wf_ids_def map_key_upd_where)

lemma next_rowid_upd_where:
  "(\<And>r. key (f r) = key r) \<Longrightarrow> next_rowid key (upd_where P f rs) = next_rowid key rs"
  by (simp add: next_rowid_def map_key_upd_where)

lemma find_row_upd_row [tbl]:
  assumes "\<And>r. key (f r) = key r"
  shows "find_row key i (upd_row key j f rs) =
     (if i = j then map_option f (find_row key i rs) else find_row key i rs)"
  using assms by (induction rs) (auto simp: upd_row_def)

lemma map_key_upd_row:
  "(\<And>r. key (f r) = key r) \<Longrightarrow> map key (upd_row key j f rs) = map key rs"
  by (simp add: upd_row_def map_key_upd_where)

lemma wf_ids_upd_row:
  "(\<And>r. key (f r) = key r) \<Longrightarrow> wf_ids key (upd_row key j f rs) = wf_ids key rs"
  by (simp add: upd_row_def wf_ids_upd_where)

lemma set_del_where [simp]: "set (del_where P rs) = {r \<in> set rs. \<not> P r}"
  by (auto simp: del_where_def)

lemma find_row_del_where [tbl]:
  assumes "wf_ids key rs"
  shows "find_row key i (del_where P rs) =
     (case find_row key i rs of None \<Rightarrow> None | Some r \<Rightarrow> if P r then None else Some r)"
  using assms
proof (induction rs)
  case Nil
  then show ?case by (simp add: del_where_def)
next
  case (Cons a rs)
  then have wf: "wf_ids key rs" and "key a \<notin> key ` set rs"
    by (auto simp: wf_ids_def)
  then have nd: "find_row key (key a) rs = None"
    by (metis find_row_None imageI)
  have "del_where P (a # rs) = (if P a then del_where P rs else a # del_where P rs)"
    by (simp add: del_where_def)
  then show ?case using Cons.IH [OF wf] nd by auto
qed

lemma wf_ids_del_where: "wf_ids key rs \<Longrightarrow> wf_ids key (del_where P rs)"
  by (induction rs) (auto simp: wf_ids_def del_where_def)

subsection \<open>Fresh row ids\<close>

lemma fold_max_ge:
  fixes m :: int
  shows "m \<le> fold max xs m \<and> (\<forall>x \<in> set xs. x \<le> fold max xs m)"
proof (induction xs arbitrary: m)
  case Nil
  then show ?case by simp
next
  case (Cons x xs)
  have "max x m \<le> fold max xs (max x m)" and "\<forall>y \<in> set xs. y \<le> fold max xs (max x m)"
    using Cons.IH [of "max x m"] by auto
  then show ?case by auto
qed

lemma next_rowid_gt: "r \<in> set rs \<Longrightarrow> key r < next_rowid key rs"
  using fold_max_ge [of 0 "map key rs"] by (fastforce simp: next_rowid_def)

lemma next_rowid_pos [simp]: "0 < next_rowid key rs"
  using fold_max_ge [of 0 "map key rs"] by (simp add: next_rowid_def)

lemma find_row_next_rowid [simp]: "find_row key (next_rowid key rs) rs = None"
  by (metis find_row_None next_rowid_gt order_less_irrefl)

lemma wf_ids_insert:
  "wf_ids key rs \<Longrightarrow> key r = next_rowid key rs \<Longrightarrow> wf_ids key (rs @ [r])"
  by (auto simp: wf_ids_def dest: next_rowid_gt [where key = key])

lemma next_rowid_append:
  "next_rowid key (rs @ [r]) = max (key r + 1) (next_rowid key rs)"
  by (simp add: next_rowid_def)

subsection \<open>\<open>ORDER BY ... LIMIT 1\<close>\<close>

text \<open>The first row with the smallest key; rows with equal keys keep their rowid order.\<close>

fun first_by :: "('r \<Rightarrow> 'k::linorder) \<Rightarrow> 'r list \<Rightarrow> 'r option" where
  "first_by k [] = None"
| "first_by k (r # rs) =
     (case first_by k rs of
        None \<Rightarrow> Some r
      | Some s \<Rightarrow> if k r \<le> k s then Some r else Some s)"

lemma first_by_None [simp]: "first_by k rs = None \<longleftrightarrow> rs = []"
  by (cases rs) (auto split: option.splits)

lemma first_by_in: "first_by k rs = Some r \<Longrightarrow> r \<in> set rs"
  by (induction rs) (auto split: option.splits if_splits)

lemma first_by_min: "first_by k rs = Some r \<Longrightarrow> s \<in> set rs \<Longrightarrow> k r \<le> k s"
proof (induction rs arbitrary: r)
  case Nil
  then show ?case by simp
next
  case (Cons a rs)
  show ?case
  proof (cases "first_by k rs")
    case None
    then show ?thesis using Cons.prems by simp
  next
    case (Some t)
    then have "s = a \<or> k t \<le> k s" using Cons.IH Cons.prems(2) by auto
    moreover have "r = (if k a \<le> k t then a else t)" using Cons.prems(1) Some by (simp split: if_splits)
    ultimately show ?thesis by auto
  qed
qed

text \<open>Taking the first row again and again is the stable sort.\<close>

lemma first_by_filter_before:
  "first_by k rs = Some r \<Longrightarrow> filter (\<lambda>x. k x = k r) rs = r # filter (\<lambda>x. k x = k r) (remove1 r rs)"
proof (induction rs)
  case Nil
  then show ?case by simp
next
  case (Cons a rs)
  show ?case
  proof (cases "r = a")
    case True
    then show ?thesis by simp
  next
    case False
    then obtain s where s: "first_by k rs = Some s" "s = r" "\<not> k a \<le> k r"
      using Cons.prems by (auto split: option.splits if_splits)
    then have "k a \<noteq> k r" by auto
    then show ?thesis using Cons.IH s False by simp
  qed
qed

lemma filter_remove1_other: "\<not> P r \<Longrightarrow> filter P (remove1 r rs) = filter P rs"
  by (induction rs) auto

lemma sort_key_first_by:
  assumes r: "first_by k rs = Some r"
  shows "sort_key k rs = r # sort_key k (remove1 r rs)"
proof (rule properties_for_sort_key)
  have mem: "r \<in> set rs" by (rule first_by_in [OF r])
  show "mset (r # sort_key k (remove1 r rs)) = mset rs"
    using mem by simp
  have "filter (\<lambda>x. k x = k j) (r # sort_key k (remove1 r rs)) = filter (\<lambda>x. k x = k j) rs" for j
  proof (cases "k j = k r")
    case True
    then show ?thesis using first_by_filter_before [OF r] by (simp add: sort_key_stable)
  next
    case False
    then show ?thesis
      using filter_remove1_other [of "\<lambda>x. k x = k j" r rs] by (simp add: sort_key_stable)
  qed
  then show "filter (\<lambda>x. k j = k x) (r # sort_key k (remove1 r rs)) = filter (\<lambda>x. k j = k x) rs" for j
    by (simp only: eq_commute [of "k j"])
  show "sorted (map k (r # sort_key k (remove1 r rs)))"
    using first_by_min [OF r] set_remove1_subset [of r rs] by auto
qed

section \<open>The error monad\<close>

definition xbind :: "exn + 'a \<Rightarrow> ('a \<Rightarrow> exn + 'b) \<Rightarrow> exn + 'b" where
  "xbind x f = (case x of Inl e \<Rightarrow> Inl e | Inr a \<Rightarrow> f a)"

lemma xbind_simps [simp]: "xbind (Inl e) f = Inl e" "xbind (Inr a) f = f a"
  by (simp_all add: xbind_def)

lemma xbind_Inr: "xbind x f = Inr b \<longleftrightarrow> (\<exists>a. x = Inr a \<and> f a = Inr b)"
  by (cases x) simp_all

fun map_x :: "('a \<Rightarrow> exn + 'b) \<Rightarrow> 'a list \<Rightarrow> exn + 'b list" where
  "map_x f [] = Inr []"
| "map_x f (x # xs) = xbind (f x) (\<lambda>y. xbind (map_x f xs) (\<lambda>ys. Inr (y # ys)))"

text \<open>\<open>d.get(k, default)\<close>, after the lookup.\<close>

definition dflt :: "'a \<Rightarrow> 'a option \<Rightarrow> 'a" where
  "dflt d v = (case v of None \<Rightarrow> d | Some x \<Rightarrow> x)"

section \<open>The contract of a table with a primary key\<close>

text \<open>
  What a client of a table relies on: an insert gives a fresh id and makes exactly that row
  visible, an update touches exactly the rows it selects. The components state their row types
  and interpret the contract on them.
\<close>

locale keyed_table =
  fixes key :: "'r \<Rightarrow> int"
    and put_id :: "int \<Rightarrow> 'r \<Rightarrow> 'r"
  assumes key_put: "key (put_id i r) = i"
begin

definition insert_row :: "'r \<Rightarrow> 'r list \<Rightarrow> int \<times> 'r list" where
  "insert_row r rows = (let i = next_rowid key rows in (i, rows @ [put_id i r]))"

lemma insert_row_find:
  "insert_row r rows = (i, rows') \<Longrightarrow>
     find_row key j rows' = (if j = i then Some (put_id i r) else find_row key j rows)"
  by (auto simp: insert_row_def Let_def find_row_append key_put split: option.splits)

lemma insert_row_fresh: "insert_row r rows = (i, rows') \<Longrightarrow> find_row key i rows = None"
  by (auto simp: insert_row_def Let_def)

lemma insert_row_wf:
  "wf_ids key rows \<Longrightarrow> insert_row r rows = (i, rows') \<Longrightarrow> wf_ids key rows'"
  by (auto simp: insert_row_def Let_def key_put intro!: wf_ids_insert)

end

section \<open>The contract of a lifecycle\<close>

text \<open>
  A status column with its allowed edges and its final statuses. Clients rely on a final status
  never changing again, over any number of steps that take an edge or leave the status alone.
\<close>

locale lifecycle =
  fixes edge :: "'s \<Rightarrow> 's \<Rightarrow> bool" and final :: "'s \<Rightarrow> bool"
  assumes final_stuck: "final s \<Longrightarrow> \<not> edge s t"
begin

definition move :: "'s \<Rightarrow> 's \<Rightarrow> bool" where
  "move s t = (s = t \<or> edge s t)"

lemma final_absorbing: "move\<^sup>*\<^sup>* s t \<Longrightarrow> final s \<Longrightarrow> t = s"
  by (induction rule: rtranclp_induct) (auto simp: move_def final_stuck)

end

end
