(* ===== verification/Circuit_Breaker.thy ===== *)
theory Circuit_Breaker
  imports Prelude
begin

text \<open>
  The circuit breaker of the AI providers (\<open>agent/circuit_breaker.py\<close>) and the retry loop
  that uses it (\<open>retry_with_breaker\<close> of \<open>agent/providers/retry.py\<close>).

  \<open>time.monotonic()\<close> and delays are microseconds. The provider call \<open>fn\<close> is outside the
  program: the model takes the outcome and the duration of its k-th call, and the k-th random
  jitter, from a record \<open>world\<close>.
\<close>

section \<open>The breaker\<close>

datatype breaker_state = CLOSED | OPEN | HALF_OPEN

record breaker =
  bname :: string
  failure_threshold :: int
  recovery_timeout :: time
  bstate :: breaker_state
  failure_count :: int
  last_failure_time :: time

definition CircuitBreaker :: "string \<Rightarrow> int \<Rightarrow> time \<Rightarrow> breaker" where
  "CircuitBreaker name thr rec =
     \<lparr> bname = name, failure_threshold = thr, recovery_timeout = rec, bstate = CLOSED,
       failure_count = 0, last_failure_time = 0 \<rparr>"

definition allow_request :: "time \<Rightarrow> breaker \<Rightarrow> bool \<times> breaker" where
  "allow_request now b =
     (case bstate b of
        CLOSED \<Rightarrow> (True, b)
      | OPEN \<Rightarrow>
          if now - last_failure_time b \<ge> recovery_timeout b
          then (True, b\<lparr> bstate := HALF_OPEN \<rparr>)
          else (False, b)
      | HALF_OPEN \<Rightarrow> (True, b))"

definition record_success :: "breaker \<Rightarrow> breaker" where
  "record_success b = b\<lparr> failure_count := 0, bstate := CLOSED \<rparr>"

definition record_failure :: "time \<Rightarrow> breaker \<Rightarrow> breaker" where
  "record_failure now b =
     (let b1 = b\<lparr> failure_count := failure_count b + 1, last_failure_time := now \<rparr> in
      if bstate b1 = HALF_OPEN then b1\<lparr> bstate := OPEN \<rparr>
      else if failure_count b1 \<ge> failure_threshold b1 then b1\<lparr> bstate := OPEN \<rparr>
      else b1)"

text \<open>The registry of breakers, one per provider, created from the configuration on demand.\<close>

record breaker_config =
  cfg_threshold :: int
  cfg_recovery :: time

definition get_breaker ::
    "breaker_config \<Rightarrow> string \<Rightarrow> (string \<rightharpoonup> breaker) \<Rightarrow> breaker \<times> (string \<rightharpoonup> breaker)" where
  "get_breaker cfg provider reg =
     (case reg provider of
        Some b \<Rightarrow> (b, reg)
      | None \<Rightarrow> (let b = CircuitBreaker provider (cfg_threshold cfg) (cfg_recovery cfg) in
                 (b, reg(provider \<mapsto> b))))"

definition reset_breakers :: "(string \<rightharpoonup> breaker) \<Rightarrow> (string \<rightharpoonup> breaker)" where
  "reset_breakers reg = Map.empty"

section \<open>The retry loop\<close>

text \<open>The exceptions a provider call can raise, as \<open>default_is_retryable\<close> tells them apart.\<close>

datatype api_exc =
    HTTPStatusError int
  | ConnectError
  | TimeoutException
  | ImportError
  | StatusError int
  | OtherError string

fun default_is_retryable :: "api_exc \<Rightarrow> bool" where
  "default_is_retryable (HTTPStatusError c) = (c \<ge> 500)"
| "default_is_retryable ConnectError = True"
| "default_is_retryable TimeoutException = True"
| "default_is_retryable ImportError = False"
| "default_is_retryable (StatusError c) = (\<not> (400 \<le> c \<and> c < 500))"
| "default_is_retryable (OtherError _) = True"

record 'a world =
  outcome :: "nat \<Rightarrow> api_exc + 'a"
  duration :: "nat \<Rightarrow> time"
  jitter :: "nat \<Rightarrow> time"

datatype retry_error = CircuitOpenError | Raised api_exc | RaisedNone

text \<open>The state of the loop: the breaker, the clock and the number of calls made.\<close>

record rstate =
  brk :: breaker
  clock :: time
  ncalls :: nat

text \<open>
  \<open>attempt\<close> counts up from 0 while \<open>left\<close> attempts remain, so \<open>left\<close> is
  \<open>max_attempts - attempt\<close>. Falling out of the loop raises the last error; with no attempt
  at all \<open>raise None\<close> is itself an error.
\<close>

fun retry_loop ::
    "'a world \<Rightarrow> (api_exc \<Rightarrow> bool) \<Rightarrow> time \<Rightarrow> nat \<Rightarrow> nat \<Rightarrow> api_exc option \<Rightarrow> rstate \<Rightarrow>
     (retry_error + 'a) \<times> rstate" where
  "retry_loop w retryable base attempt 0 err st =
     (Inl (case err of Some e \<Rightarrow> Raised e | None \<Rightarrow> RaisedNone), st)"
| "retry_loop w retryable base attempt (Suc left) err st =
     (case allow_request (clock st) (brk st) of
        (False, b) \<Rightarrow> (Inl CircuitOpenError, st\<lparr> brk := b \<rparr>)
      | (True, b) \<Rightarrow>
          (let k = ncalls st;
               st1 = st\<lparr> brk := b, clock := clock st + duration w k, ncalls := k + 1 \<rparr>
           in case outcome w k of
                Inr v \<Rightarrow> (Inr v, st1\<lparr> brk := record_success (brk st1) \<rparr>)
              | Inl e \<Rightarrow>
                  if \<not> retryable e then (Inl (Raised e), st1)
                  else
                    let st2 = st1\<lparr> brk := record_failure (clock st1) (brk st1) \<rparr>;
                        st3 = (if left > 0
                               then st2\<lparr> clock := clock st2 + base * 2 ^ attempt + jitter w k \<rparr>
                               else st2)
                    in retry_loop w retryable base (attempt + 1) left (Some e) st3))"

definition retry_with_breaker ::
    "'a world \<Rightarrow> (api_exc \<Rightarrow> bool) \<Rightarrow> int \<Rightarrow> time \<Rightarrow> breaker \<Rightarrow> time \<Rightarrow> (retry_error + 'a) \<times> rstate" where
  "retry_with_breaker w retryable max_attempts base b now =
     retry_loop w retryable base 0 (nat max_attempts) None \<lparr> brk = b, clock = now, ncalls = 0 \<rparr>"

section \<open>The contract of a breaker\<close>

text \<open>
  What a caller relies on: a tripped breaker refuses until its recovery time, without changing,
  and a success closes it again.
\<close>

locale breaker_contract =
  fixes allow :: "time \<Rightarrow> 's \<Rightarrow> bool \<times> 's"
    and succ :: "'s \<Rightarrow> 's"
    and tripped :: "'s \<Rightarrow> bool"
    and closed :: "'s \<Rightarrow> bool"
    and retry_at :: "'s \<Rightarrow> time"
  assumes refuse: "tripped s \<Longrightarrow> now < retry_at s \<Longrightarrow> allow now s = (False, s)"
    and pass: "closed s \<Longrightarrow> allow now s = (True, s)"
    and probe: "tripped s \<Longrightarrow> retry_at s \<le> now \<Longrightarrow> fst (allow now s) \<and> \<not> tripped (snd (allow now s))"
    and success: "closed (succ s)"
begin

text \<open>The answers of a breaker to a sequence of requests.\<close>

fun answers :: "time list \<Rightarrow> 's \<Rightarrow> bool list \<times> 's" where
  "answers [] s = ([], s)"
| "answers (t # ts) s =
     (case allow t s of (a, s') \<Rightarrow> (a # fst (answers ts s'), snd (answers ts s')))"

lemma answers_refused:
  "tripped s \<Longrightarrow> \<forall>t \<in> set ts. t < retry_at s \<Longrightarrow> answers ts s = (replicate (length ts) False, s)"
  by (induction ts) (simp_all add: refuse)

lemma answers_after_success: "fst (answers ts (succ s)) = replicate (length ts) True"
proof -
  have "closed s \<Longrightarrow> answers ts s = (replicate (length ts) True, s)" for s
    by (induction ts) (simp_all add: pass)
  then show ?thesis using success by simp
qed

end

interpretation cb: breaker_contract allow_request record_success
    "\<lambda>b. bstate b = OPEN" "\<lambda>b. bstate b = CLOSED" "\<lambda>b. last_failure_time b + recovery_timeout b"
  by unfold_locales (auto simp: allow_request_def record_success_def)

section \<open>Runs of a breaker\<close>

text \<open>What callers do to a breaker, each at its own time.\<close>

datatype breaker_op = Allow time | Success | Failure time

fun breaker_run :: "breaker_op list \<Rightarrow> breaker \<Rightarrow> breaker" where
  "breaker_run [] b = b"
| "breaker_run (Allow t # ops) b = breaker_run ops (snd (allow_request t b))"
| "breaker_run (Success # ops) b = breaker_run ops (record_success b)"
| "breaker_run (Failure t # ops) b = breaker_run ops (record_failure t b)"

text \<open>The number of failures since the last success, on top of \<open>n\<close>.\<close>

fun failures_since :: "int \<Rightarrow> breaker_op list \<Rightarrow> int" where
  "failures_since n [] = n"
| "failures_since n (Allow _ # ops) = failures_since n ops"
| "failures_since n (Success # ops) = failures_since 0 ops"
| "failures_since n (Failure _ # ops) = failures_since (n + 1) ops"

definition breaker_ok :: "breaker \<Rightarrow> bool" where
  "breaker_ok b = ((bstate b = CLOSED) = (failure_count b < failure_threshold b))"

lemma breaker_run_ok:
  "breaker_ok b \<Longrightarrow> 0 < failure_threshold b \<Longrightarrow>
     breaker_ok (breaker_run ops b) \<and>
     failure_count (breaker_run ops b) = failures_since (failure_count b) ops \<and>
     failure_threshold (breaker_run ops b) = failure_threshold b"
proof (induction ops b rule: breaker_run.induct)
  case (2 t ops b)
  have "breaker_ok (snd (allow_request t b))" "failure_count (snd (allow_request t b)) = failure_count b"
    "failure_threshold (snd (allow_request t b)) = failure_threshold b"
    using 2(2) by (auto simp: breaker_ok_def allow_request_def split: breaker_state.splits)
  then show ?case using 2 by simp
next
  case (4 t ops b)
  have "breaker_ok (record_failure t b)" "failure_count (record_failure t b) = failure_count b + 1"
    "failure_threshold (record_failure t b) = failure_threshold b"
    using 4(2) by (auto simp: breaker_ok_def record_failure_def Let_def)
  then show ?case using 4 by simp
qed (simp_all add: breaker_ok_def record_success_def)

section \<open>The calls of the retry loop\<close>

text \<open>
  What the loop has done when it returns: it made \<open>m\<close> calls, all but the last raised
  retryable errors, and the result is explained by the last call.
\<close>

definition retry_explained ::
    "'a world \<Rightarrow> (api_exc \<Rightarrow> bool) \<Rightarrow> nat \<Rightarrow> api_exc option \<Rightarrow> nat \<Rightarrow> nat \<Rightarrow> retry_error + 'a \<Rightarrow> bool"
where
  "retry_explained w retryable k err left m res =
     (let retried = (\<lambda>i. \<exists>e. outcome w i = Inl e \<and> retryable e) in
      case res of
        Inr v \<Rightarrow> 0 < m \<and> outcome w (k + m - 1) = Inr v \<and> (\<forall>i. k \<le> i \<and> i < k + m - 1 \<longrightarrow> retried i)
      | Inl CircuitOpenError \<Rightarrow> m < left \<and> (\<forall>i. k \<le> i \<and> i < k + m \<longrightarrow> retried i)
      | Inl RaisedNone \<Rightarrow> m = 0 \<and> left = 0 \<and> err = None
      | Inl (Raised e) \<Rightarrow>
          (if m = 0 then left = 0 \<and> err = Some e
           else outcome w (k + m - 1) = Inl e \<and> (\<forall>i. k \<le> i \<and> i < k + m - 1 \<longrightarrow> retried i) \<and>
                (retryable e \<longrightarrow> m = left)))"

lemma retried_split:
  "(\<forall>i. k \<le> i \<and> i < k + Suc n \<longrightarrow> P i) \<longleftrightarrow> P k \<and> (\<forall>i. Suc k \<le> i \<and> i < Suc k + n \<longrightarrow> P i)"
proof
  assume all: "P k \<and> (\<forall>i. Suc k \<le> i \<and> i < Suc k + n \<longrightarrow> P i)"
  show "\<forall>i. k \<le> i \<and> i < k + Suc n \<longrightarrow> P i"
  proof (intro allI impI)
    fix i assume i: "k \<le> i \<and> i < k + Suc n"
    show "P i"
    proof (cases "i = k")
      case False
      then have "Suc k \<le> i \<and> i < Suc k + n" using i by simp
      then show ?thesis using all by blast
    qed (use all in simp)
  qed
qed auto

lemma explained_step:
  assumes o: "outcome w k = Inl e" "retryable e"
    and r: "retry_explained w retryable (Suc k) (Some e) left d res"
  shows "retry_explained w retryable k err (Suc left) (Suc d) res"
proof (cases res)
  case (Inr v)
  then obtain d' where "d = Suc d'" using r by (cases d) (auto simp: retry_explained_def)
  then show ?thesis using r o Inr retried_split [of k d'] by (simp add: retry_explained_def Let_def)
next
  case (Inl x)
  show ?thesis
  proof (cases x)
    case CircuitOpenError
    then show ?thesis using r o Inl retried_split [of k d] by (simp add: retry_explained_def Let_def)
  next
    case (Raised e')
    show ?thesis
    proof (cases d)
      case 0
      then show ?thesis using r o Inl Raised by (auto simp: retry_explained_def Let_def)
    next
      case (Suc d')
      then show ?thesis using r o Inl Raised retried_split [of k d']
        by (simp add: retry_explained_def Let_def)
    qed
  next
    case RaisedNone
    then show ?thesis using r Inl by (simp add: retry_explained_def Let_def)
  qed
qed

lemma retry_loop_explained:
  "retry_loop w retryable base attempt left err st = (res, st') \<Longrightarrow>
     ncalls st \<le> ncalls st' \<and> ncalls st' - ncalls st \<le> left \<and>
     retry_explained w retryable (ncalls st) err left (ncalls st' - ncalls st) res"
proof (induction left arbitrary: attempt err st)
  case 0
  then show ?case by (auto simp: retry_explained_def split: option.splits)
next
  case (Suc left)
  obtain a b where a: "allow_request (clock st) (brk st) = (a, b)" by fastforce
  show ?case
  proof (cases a)
    case False
    then show ?thesis using Suc.prems a by (auto simp: retry_explained_def)
  next
    case True
    show ?thesis
    proof (cases "outcome w (ncalls st)")
      case (Inr v)
      then show ?thesis using Suc.prems a True by (auto simp: retry_explained_def Let_def)
    next
      case (Inl e)
      show ?thesis
      proof (cases "retryable e")
        case False
        then show ?thesis using Suc.prems a True Inl by (auto simp: retry_explained_def Let_def)
      next
        case ret: True
        let ?st1 = "st\<lparr> brk := b, clock := clock st + duration w (ncalls st), ncalls := ncalls st + 1 \<rparr>"
        let ?st2 = "?st1\<lparr> brk := record_failure (clock ?st1) (brk ?st1) \<rparr>"
        let ?st3 = "if left > 0
          then ?st2\<lparr> clock := clock ?st2 + base * 2 ^ attempt + jitter w (ncalls st) \<rparr> else ?st2"
        have "retry_loop w retryable base (attempt + 1) left (Some e) ?st3 = (res, st')"
          using Suc.prems a True Inl ret by (cases "left > 0") (simp_all add: Let_def)
        moreover have "ncalls ?st3 = Suc (ncalls st)" by simp
        ultimately obtain st3 where n: "ncalls st3 = Suc (ncalls st)"
          and l: "retry_loop w retryable base (attempt + 1) left (Some e) st3 = (res, st')" by blast
        have st3: "Suc (ncalls st) \<le> ncalls st' \<and> ncalls st' - Suc (ncalls st) \<le> left \<and>
            retry_explained w retryable (Suc (ncalls st)) (Some e) left (ncalls st' - Suc (ncalls st)) res"
          using Suc.IH [OF l] n by simp
        then have "retry_explained w retryable (ncalls st) err (Suc left)
            (Suc (ncalls st' - Suc (ncalls st))) res"
          using explained_step [of w "ncalls st" e retryable left _ res err] Inl ret by blast
        moreover have "Suc (ncalls st' - Suc (ncalls st)) = ncalls st' - ncalls st"
          using conjunct1 [OF st3] by linarith
        ultimately show ?thesis using st3 by auto
      qed
    qed
  qed
qed

section \<open>Properties\<close>

text \<open>The answers to a sequence of requests made while no outcome is reported.\<close>

fun requests :: "time list \<Rightarrow> breaker \<Rightarrow> bool list \<times> breaker" where
  "requests [] b = ([], b)"
| "requests (t # ts) b =
     (let (a, b') = allow_request t b; (as, b'') = requests ts b' in (a # as, b''))"

lemma requests_answers: "requests ts b = cb.answers ts b"
  by (induction ts arbitrary: b) (simp_all add: split_def Let_def)

lemma requests_half_open:
  "bstate b = HALF_OPEN \<Longrightarrow> requests ts b = (replicate (length ts) True, b)"
  by (induction ts) (simp_all add: allow_request_def)

text \<open>The breaker counts consecutive failures. After any sequence of requests, successes and
  failures, its count is the number of failures since the last success, and it is closed exactly
  while that number is below the threshold.\<close>

theorem breaker_closed_iff:
  assumes "0 < thr"
  shows "failure_count (breaker_run ops (CircuitBreaker nm thr rec)) = failures_since 0 ops \<and>
    (bstate (breaker_run ops (CircuitBreaker nm thr rec)) = CLOSED \<longleftrightarrow> failures_since 0 ops < thr)"
proof -
  have "breaker_ok (CircuitBreaker nm thr rec)"
    using assms by (simp add: breaker_ok_def CircuitBreaker_def)
  from breaker_run_ok [OF this, of ops] assms show ?thesis
    by (auto simp: breaker_ok_def CircuitBreaker_def)
qed

theorem breaker_closed_iff_witness:
  "bstate (breaker_run [Failure 1, Success, Failure 2, Failure 3, Allow 4] (CircuitBreaker ''p'' 2 60)) \<noteq> CLOSED"
  using breaker_closed_iff [of 2 "[Failure 1, Success, Failure 2, Failure 3, Allow 4]" "''p''" 60] by simp

text \<open>Fast failure. While the circuit is open and its recovery time has not passed, every
  request is refused and the breaker does not change; the first request after the recovery time
  passes.\<close>

theorem breaker_fast_fail:
  assumes "bstate b = OPEN" and "\<forall>t \<in> set ts. t < last_failure_time b + recovery_timeout b"
    and "last_failure_time b + recovery_timeout b \<le> u"
  shows "requests (ts @ [u]) b = (replicate (length ts) False @ [True], b\<lparr> bstate := HALF_OPEN \<rparr>)"
proof -
  have "requests (xs @ ys) c =
      (fst (requests xs c) @ fst (requests ys (snd (requests xs c))), snd (requests ys (snd (requests xs c))))"
    for xs ys c
    by (induction xs arbitrary: c) (simp_all add: split_def Let_def)
  then show ?thesis
    using cb.answers_refused [of b ts] assms by (simp add: requests_answers [of ts] allow_request_def)
qed

theorem breaker_fast_fail_witness:
  "fst (requests ([10, 20] @ [70]) (CircuitBreaker ''p'' 2 60\<lparr> bstate := OPEN, last_failure_time := 5 \<rparr>)) =
     [False, False, True]"
  using breaker_fast_fail [of "CircuitBreaker ''p'' 2 60\<lparr> bstate := OPEN, last_failure_time := 5 \<rparr>" "[10, 20]" 70]
  by (simp add: CircuitBreaker_def)

text \<open>The half-open circuit does not ration its probes: once the recovery time has passed,
  every request made before the first outcome is reported passes, however many there are.\<close>

theorem half_open_admits_all:
  assumes "bstate b = OPEN" and "last_failure_time b + recovery_timeout b \<le> t"
  shows "fst (requests (t # ts) b) = replicate (Suc (length ts)) True"
  using assms requests_half_open [of "b\<lparr> bstate := HALF_OPEN \<rparr>" ts]
  by (simp add: allow_request_def)

theorem half_open_admits_all_witness:
  "fst (requests [100, 101, 102] (CircuitBreaker ''p'' 2 60\<lparr> bstate := OPEN, last_failure_time := 5 \<rparr>)) =
     [True, True, True]"
  using half_open_admits_all [of "CircuitBreaker ''p'' 2 60\<lparr> bstate := OPEN, last_failure_time := 5 \<rparr>" 100 "[101, 102]"]
  by (simp add: CircuitBreaker_def)

text \<open>The retry loop. It calls the provider at most \<open>max_attempts\<close> times; a value comes
  from the last call and every earlier call raised a retryable error; an error that is raised is
  that of the last call, and is retryable only when the attempts are used up; \<open>CircuitOpenError\<close>
  stops the loop early.\<close>

theorem retry_with_breaker_spec:
  assumes "retry_with_breaker w retryable maxa base b now = (res, st)"
  shows "ncalls st \<le> nat maxa \<and> retry_explained w retryable 0 None (nat maxa) (ncalls st) res"
proof -
  let ?st0 = "\<lparr> brk = b, clock = now, ncalls = 0 \<rparr>"
  have "retry_loop w retryable base 0 (nat maxa) None ?st0 = (res, st)"
    using assms by (simp add: retry_with_breaker_def)
  from retry_loop_explained [OF this] show ?thesis by simp
qed

theorem retry_with_breaker_spec_witness:
  "\<exists>st. retry_with_breaker \<lparr> outcome = (\<lambda>k. if k < 2 then Inl ConnectError else Inr k), duration = (\<lambda>_. 5),
       jitter = (\<lambda>_. 1) \<rparr> default_is_retryable 3 10 (CircuitBreaker ''p'' 5 60) 0 = (Inr 2, st) \<and> ncalls st \<le> 3"
proof -
  let ?w = "\<lparr> outcome = (\<lambda>k. if k < 2 then Inl ConnectError else Inr k), duration = (\<lambda>_. 5), jitter = (\<lambda>_. 1) \<rparr>"
  obtain res st where r: "retry_with_breaker ?w default_is_retryable 3 10 (CircuitBreaker ''p'' 5 60) 0 = (res, st)"
    by fastforce
  have "res = Inr 2"
    using r by (simp add: retry_with_breaker_def eval_nat_numeral allow_request_def CircuitBreaker_def
        record_failure_def Let_def)
  then show ?thesis using retry_with_breaker_spec [OF r] r by auto
qed

end
