(* ===== verification/Trust_Types.thy ===== *)
theory Trust_Types
  imports Prelude
begin

text \<open>
  The trust vocabulary of the platform: the integrity lattice (\<open>core/trust/integrity.py\<close>),
  output types, agent types and the agent capability table (\<open>core/trust/types.py\<close>), and the
  per-arc capability grants that templates declare (\<open>core/trust/capabilities.py\<close>).

  The enums of the source are subclasses of \<open>str\<close>: a member equals its value string. Here the
  members are the constructors, the \<open>*_value\<close> functions give the strings and the
  \<open>validate_*\<close> functions turn a string from outside into a member or raise
  \<open>ValueError\<close>. The package registry that \<open>resolve_capability_tools\<close> consults is a
  parameter, a function from a package name to its registered verbs.
\<close>

section \<open>The integrity lattice\<close>

datatype integrity_level = TRUSTED | CONSTRAINED | UNTRUSTED

fun integrity_value :: "integrity_level \<Rightarrow> string" where
  "integrity_value TRUSTED = ''trusted''"
| "integrity_value CONSTRAINED = ''constrained''"
| "integrity_value UNTRUSTED = ''untrusted''"

fun level_order :: "integrity_level \<Rightarrow> nat" where
  "level_order TRUSTED = 0"
| "level_order CONSTRAINED = 1"
| "level_order UNTRUSTED = 2"

lemma level_order_inj: "level_order a = level_order b \<longleftrightarrow> a = b"
  by (cases a; cases b) simp_all

text \<open>The source orders the levels by \<open>_ORDER\<close>; so does the type class.\<close>

instantiation integrity_level :: linorder
begin

definition less_eq_integrity_level :: "integrity_level \<Rightarrow> integrity_level \<Rightarrow> bool" where
  "less_eq_integrity_level a b = (level_order a \<le> level_order b)"

definition less_integrity_level :: "integrity_level \<Rightarrow> integrity_level \<Rightarrow> bool" where
  "less_integrity_level a b = (level_order a < level_order b)"

instance
  by standard (auto simp: less_eq_integrity_level_def less_integrity_level_def level_order_inj)

end

definition join :: "integrity_level \<Rightarrow> integrity_level \<Rightarrow> integrity_level" where
  "join a b = (if level_order a \<ge> level_order b then a else b)"

text \<open>\<open>IntegrityLevel(value)\<close>, the lookup of a member by its value.\<close>

definition integrity_of :: "string \<Rightarrow> exn + integrity_level" where
  "integrity_of s =
     (if s = ''trusted'' then Inr TRUSTED
      else if s = ''constrained'' then Inr CONSTRAINED
      else if s = ''untrusted'' then Inr UNTRUSTED
      else Inl (ValueError ''not an IntegrityLevel''))"

definition join_str :: "string \<Rightarrow> string \<Rightarrow> exn + integrity_level" where
  "join_str a b =
     (case integrity_of a of Inl e \<Rightarrow> Inl e
      | Inr x \<Rightarrow> (case integrity_of b of Inl e \<Rightarrow> Inl e | Inr y \<Rightarrow> Inr (join x y)))"

definition is_trusted :: "integrity_level \<Rightarrow> bool" where
  "is_trusted l = (l = TRUSTED)"

definition is_non_trusted :: "integrity_level \<Rightarrow> bool" where
  "is_non_trusted l = (l \<noteq> TRUSTED)"

definition validate_integrity_level :: "string \<Rightarrow> exn + string" where
  "validate_integrity_level s =
     (case integrity_of s of
        Inl _ \<Rightarrow> Inl (ValueError ''Invalid integrity_level'')
      | Inr l \<Rightarrow> Inr (integrity_value l))"

lemma integrity_of_value [simp]: "integrity_of (integrity_value l) = Inr l"
  by (cases l) (simp_all add: integrity_of_def)

lemma integrity_of_Inr: "integrity_of s = Inr l \<longleftrightarrow> s = integrity_value l"
  by (cases l) (auto simp: integrity_of_def split: if_splits)

lemma join_max: "join a b = max a b"
  by (cases a; cases b) (simp_all add: join_def max_def less_eq_integrity_level_def)

lemma join_TRUSTED [simp]: "join a TRUSTED = a" "join TRUSTED a = a"
  by (cases a; simp add: join_def)+

lemma join_eq_TRUSTED [simp]: "join a b = TRUSTED \<longleftrightarrow> a = TRUSTED \<and> b = TRUSTED"
  by (cases a; cases b) (simp_all add: join_def)

subsection \<open>The contract of a label join\<close>

text \<open>
  What the security code relies on when it folds labels: the bottom label is the only one that
  joins to the bottom, so one bad label is never lost in a fold.
\<close>

locale label_join =
  fixes jn :: "'l \<Rightarrow> 'l \<Rightarrow> 'l" and bot :: 'l
  assumes assoc: "jn (jn a b) c = jn a (jn b c)"
    and comm: "jn a b = jn b a"
    and idem: "jn a a = a"
    and neutral: "jn bot a = a"
    and bot_only: "jn a b = bot \<Longrightarrow> a = bot \<and> b = bot"
begin

lemma bot_iff: "jn a b = bot \<longleftrightarrow> a = bot \<and> b = bot"
  using bot_only neutral by blast

lemma fold_bot: "fold (\<lambda>x acc. jn acc x) xs a = bot \<longleftrightarrow> a = bot \<and> (\<forall>x \<in> set xs. x = bot)"
  by (induction xs arbitrary: a) (auto simp: bot_iff)

lemma fold_absorb: "x \<in> set xs \<Longrightarrow> jn (fold (\<lambda>x acc. jn acc x) xs a) x = fold (\<lambda>x acc. jn acc x) xs a"
proof (induction xs arbitrary: a)
  case Nil
  then show ?case by simp
next
  case (Cons y ys)
  have swap: "jn (jn a b) x = jn (jn a x) b" for a b x
    by (metis assoc comm)
  have pull: "fold (\<lambda>x acc. jn acc x) zs (jn a b) = jn (fold (\<lambda>x acc. jn acc x) zs a) b" for zs a b
    by (induction zs arbitrary: a) (simp_all add: swap [of _ b])
  show ?case
  proof (cases "x = y")
    case True
    then show ?thesis by (simp add: pull assoc idem)
  next
    case False
    then show ?thesis using Cons by simp
  qed
qed

end

interpretation integ: label_join join TRUSTED
  by unfold_locales (auto simp: join_max max.assoc max.commute max_def
      less_eq_integrity_level_def level_order_inj split: if_splits
      elim: level_order.elims)

section \<open>Output types and agent types\<close>

datatype output_type = OUT_PYTHON | OUT_TEXT | OUT_JSON | OUT_UNKNOWN

fun output_value :: "output_type \<Rightarrow> string" where
  "output_value OUT_PYTHON = ''python''"
| "output_value OUT_TEXT = ''text''"
| "output_value OUT_JSON = ''json''"
| "output_value OUT_UNKNOWN = ''unknown''"

definition validate_output_type :: "string \<Rightarrow> exn + output_type" where
  "validate_output_type s =
     (if s = ''python'' then Inr OUT_PYTHON
      else if s = ''text'' then Inr OUT_TEXT
      else if s = ''json'' then Inr OUT_JSON
      else if s = ''unknown'' then Inr OUT_UNKNOWN
      else Inl (ValueError ''Invalid output_type''))"

datatype agent_type = PLANNER | EXECUTOR | REVIEWER | JUDGE | CHAT | SUPERVISOR

fun agent_value :: "agent_type \<Rightarrow> string" where
  "agent_value PLANNER = ''PLANNER''"
| "agent_value EXECUTOR = ''EXECUTOR''"
| "agent_value REVIEWER = ''REVIEWER''"
| "agent_value JUDGE = ''JUDGE''"
| "agent_value CHAT = ''CHAT''"
| "agent_value SUPERVISOR = ''SUPERVISOR''"

definition validate_agent_type :: "string \<Rightarrow> exn + agent_type" where
  "validate_agent_type s =
     (if s = ''PLANNER'' then Inr PLANNER
      else if s = ''EXECUTOR'' then Inr EXECUTOR
      else if s = ''REVIEWER'' then Inr REVIEWER
      else if s = ''JUDGE'' then Inr JUDGE
      else if s = ''CHAT'' then Inr CHAT
      else if s = ''SUPERVISOR'' then Inr SUPERVISOR
      else Inl (ValueError ''Invalid agent_type''))"

lemma validate_agent_type_Inr: "validate_agent_type s = Inr a \<longleftrightarrow> s = agent_value a"
  by (cases a) (auto simp: validate_agent_type_def split: if_splits)

lemma validate_output_type_Inr: "validate_output_type s = Inr t \<longleftrightarrow> s = output_value t"
  by (cases t) (auto simp: validate_output_type_def split: if_splits)

section \<open>Agent capabilities\<close>

text \<open>\<open>allowed_tools = None\<close> stands for every tool.\<close>

record capability =
  can_create_untrusted_arcs :: bool
  allowed_tools :: "string set option"

definition planner_tools :: "string set" where
  "planner_tools = {''arc.create'', ''arc.add_child'', ''arc.cancel'', ''arc.update_status'',
     ''arc.get'', ''arc.get_children'', ''arc.get_history'', ''arc.get_plan'',
     ''arc.get_children_plan'', ''state.get'', ''state.list'', ''messaging.send'',
     ''messaging.ask'', ''resource.create'', ''resource.write'',
     ''web.fetch_webpage_to_resource''}"

definition reviewer_tools :: "string set" where
  "reviewer_tools = {''arc.get'', ''arc.get_children'', ''arc.get_history'', ''arc.get_plan'',
     ''arc.get_children_plan'', ''state.get'', ''state.set'', ''state.list'', ''files.read'',
     ''files.write'', ''files.list'', ''messaging.send'', ''messaging.ask'',
     ''review.submit_verdict'', ''resource.finalize'', ''resource.write'', ''resource.create'',
     ''web.fetch_webpage_to_resource''}"

fun default_agent_capabilities :: "agent_type \<Rightarrow> capability" where
  "default_agent_capabilities PLANNER =
     \<lparr> can_create_untrusted_arcs = True, allowed_tools = Some planner_tools \<rparr>"
| "default_agent_capabilities EXECUTOR =
     \<lparr> can_create_untrusted_arcs = False, allowed_tools = None \<rparr>"
| "default_agent_capabilities REVIEWER =
     \<lparr> can_create_untrusted_arcs = False, allowed_tools = Some reviewer_tools \<rparr>"
| "default_agent_capabilities JUDGE =
     \<lparr> can_create_untrusted_arcs = False,
       allowed_tools = Some {''resource.submit_verdict''} \<rparr>"
| "default_agent_capabilities CHAT =
     \<lparr> can_create_untrusted_arcs = True, allowed_tools = None \<rparr>"
| "default_agent_capabilities SUPERVISOR =
     \<lparr> can_create_untrusted_arcs = True, allowed_tools = Some planner_tools \<rparr>"

text \<open>One agent type's entry of the configuration file: each key may be absent.\<close>

datatype tools_cfg = ToolsNull | ToolsList "string list" | ToolsOther

record cap_config =
  cfg_can_create :: "bool option"
  cfg_tools :: "tools_cfg option"

definition merge_tools :: "tools_cfg option \<Rightarrow> string set option \<Rightarrow> string set option" where
  "merge_tools cfg base =
     (case cfg of
        None \<Rightarrow> base
      | Some ToolsNull \<Rightarrow> None
      | Some (ToolsList ts) \<Rightarrow> Some (set ts)
      | Some ToolsOther \<Rightarrow> base)"

definition get_agent_capabilities ::
    "(string \<times> cap_config) list \<Rightarrow> agent_type \<Rightarrow> capability" where
  "get_agent_capabilities cfg a =
     (let d = default_agent_capabilities a in
      case map_of cfg (agent_value a) of
        None \<Rightarrow> d
      | Some e \<Rightarrow>
          \<lparr> can_create_untrusted_arcs =
              (case cfg_can_create e of Some b \<Rightarrow> b | None \<Rightarrow> can_create_untrusted_arcs d),
            allowed_tools = merge_tools (cfg_tools e) (allowed_tools d) \<rparr>)"

section \<open>Per-arc capability grants\<close>

fun capability_tool_grants :: "string \<Rightarrow> string set option" where
  "capability_tool_grants c =
     (if c = ''kb.write'' then Some {''kb.add'', ''kb.edit'', ''kb.delete''}
      else if c = ''kb.read'' then Some {''state.get'', ''state.list''}
      else if c = ''system.read'' then
        Some {''state.get'', ''state.list'', ''arc.get'', ''arc.get_children'',
              ''arc.get_history'', ''arc.get_plan'', ''arc.get_children_plan''}
      else None)"

declare capability_tool_grants.simps [simp del]

definition scope_bypass_capabilities :: "string set" where
  "scope_bypass_capabilities = {''system.read''}"

text \<open>A JSON value that Python can hash, so that it can be an element of a set.\<close>

fun hashable :: "json \<Rightarrow> bool" where
  "hashable (JList _) = False"
| "hashable (JObj _) = False"
| "hashable _ = True"

text \<open>
  \<open>get_arc_capabilities\<close> on the \<open>value_json\<close> column of the arc's \<open>_capabilities\<close> key
  (\<open>None\<close>: no row). Text that is not JSON and lists with an unhashable element are caught.
\<close>

definition get_arc_capabilities :: "jtext option \<Rightarrow> json set" where
  "get_arc_capabilities cell =
     (case cell of
        Some (Parsed (JList xs)) \<Rightarrow> if list_all hashable xs then set xs else {}
      | _ \<Rightarrow> {})"

text \<open>The tools one capability grants; an element that is not a string has no \<open>startswith\<close>.\<close>

fun capability_tools :: "(string \<Rightarrow> string set) \<Rightarrow> json \<Rightarrow> string set" where
  "capability_tools verbs_for_package (JStr c) =
     (case capability_tool_grants c of Some ts \<Rightarrow> ts | None \<Rightarrow> {}) \<union>
     (if starts_with c ''pkg.'' \<and> drop 4 c \<noteq> [] then verbs_for_package (drop 4 c) else {})"
| "capability_tools _ _ = {}"

fun is_JStr :: "json \<Rightarrow> bool" where
  "is_JStr (JStr _) = True"
| "is_JStr _ = False"

definition resolve_capability_tools ::
    "(string \<Rightarrow> string set) \<Rightarrow> json set \<Rightarrow> exn + string set" where
  "resolve_capability_tools verbs_for_package caps =
     (if \<forall>c \<in> caps. is_JStr c then Inr (\<Union>c \<in> caps. capability_tools verbs_for_package c)
      else Inl (AttributeError ''startswith''))"

lemma starts_with_iff: "starts_with s p \<longleftrightarrow> (\<exists>t. s = p @ t)"
  by (auto simp: starts_with_def) (metis append_take_drop_id)

lemma resolve_capability_tools_mem:
  assumes "resolve_capability_tools verbs caps = Inr ts"
  shows "t \<in> ts \<longleftrightarrow>
    (\<exists>c. JStr c \<in> caps \<and>
      ((\<exists>g. capability_tool_grants c = Some g \<and> t \<in> g) \<or>
       (\<exists>p. c = ''pkg.'' @ p \<and> p \<noteq> [] \<and> t \<in> verbs p)))"
proof -
  have all: "\<forall>c \<in> caps. is_JStr c" and ts: "ts = (\<Union>c \<in> caps. capability_tools verbs c)"
    using assms by (auto simp: resolve_capability_tools_def split: if_splits)
  have one: "t \<in> capability_tools verbs (JStr c) \<longleftrightarrow>
      (\<exists>g. capability_tool_grants c = Some g \<and> t \<in> g) \<or>
       (\<exists>p. c = ''pkg.'' @ p \<and> p \<noteq> [] \<and> t \<in> verbs p)" for c
    by (auto simp: starts_with_iff split: option.splits)
  have "t \<in> ts \<longleftrightarrow> (\<exists>c. JStr c \<in> caps \<and> t \<in> capability_tools verbs (JStr c))"
    using all ts by (metis UN_iff is_JStr.elims(2))
  then show ?thesis using one by blast
qed

end
