(* ===== verification/Work_Queue.thy ===== *)
theory Work_Queue
  imports Prelude
begin

text \<open>
  The work queue (\<open>core/engine/work_queue.py\<close>): one row per work item, deduplicated by
  idempotency key, claimed in the order of priority and age, retried up to \<open>max_retries\<close>.

  The payload is the JSON the item carries. Two SQL statements of one transaction are one step
  here, because SQLite serialises writers. An \<open>INSERT OR IGNORE\<close> that hits the unique index
  on \<open>idempotency_key\<close> leaves the table as it is and makes \<open>enqueue\<close> return \<open>None\<close>.
\<close>

section \<open>Rows\<close>

datatype wq_status = WPending | WClaimed | WComplete | WDeadLetter

record work_item =
  wid :: int
  event_type :: string
  payload :: json
  wstatus :: wq_status
  wretry_count :: int
  wmax_retries :: int
  idempotency_key :: "string option"
  werror :: "string option"
  wcreated_at :: int
  claimed_at :: "int option"
  wcompleted_at :: "int option"
  scheduled_at :: "timestr option"
  wpriority :: int

definition SINGLE_ATTEMPT :: int where
  "SINGLE_ATTEMPT = 1"

section \<open>Operations\<close>

definition finished :: "work_item \<Rightarrow> bool" where
  "finished r = (wstatus r = WComplete \<or> wstatus r = WDeadLetter)"

definition clear_finished :: "string option \<Rightarrow> work_item list \<Rightarrow> work_item list" where
  "clear_finished ik q =
     (case ik of
        None \<Rightarrow> q
      | Some k \<Rightarrow> del_where (\<lambda>r. idempotency_key r = Some k \<and> finished r) q)"

definition key_taken :: "string option \<Rightarrow> work_item list \<Rightarrow> bool" where
  "key_taken ik q = (ik \<noteq> None \<and> list_ex (\<lambda>r. idempotency_key r = ik) q)"

definition enqueue ::
    "time \<Rightarrow> string \<Rightarrow> json \<Rightarrow> string option \<Rightarrow> int \<Rightarrow> timestr option \<Rightarrow> int \<Rightarrow>
     work_item list \<Rightarrow> int option \<times> work_item list" where
  "enqueue now ev pl ik maxr sched prio q =
     (let q1 = clear_finished ik q in
      if key_taken ik q1 then (None, q1)
      else
        let i = next_rowid wid q1 in
        (Some i, q1 @ [\<lparr> wid = i, event_type = ev, payload = pl, wstatus = WPending,
            wretry_count = 0, wmax_retries = maxr, idempotency_key = ik, werror = None,
            wcreated_at = cur_ts now, claimed_at = None, wcompleted_at = None,
            scheduled_at = sched, wpriority = prio \<rparr>]))"

text \<open>
  \<open>datetime(scheduled_at) <= datetime('now')\<close>: both sides at one-second resolution; text
  that is not a time is NULL and never compares.
\<close>

definition wq_ready :: "time \<Rightarrow> work_item \<Rightarrow> bool" where
  "wq_ready now r =
     (wstatus r = WPending \<and>
      (case scheduled_at r of
         None \<Rightarrow> True
       | Some (At t) \<Rightarrow> cur_ts t \<le> cur_ts now
       | Some (BadTime _) \<Rightarrow> False))"

definition wq_order :: "work_item \<Rightarrow> int \<times> int" where
  "wq_order r = (wpriority r, wcreated_at r)"

definition mark_claimed :: "time \<Rightarrow> work_item \<Rightarrow> work_item" where
  "mark_claimed now r = r\<lparr> wstatus := WClaimed, claimed_at := Some (cur_ts now) \<rparr>"

definition claim :: "time \<Rightarrow> work_item list \<Rightarrow> work_item option \<times> work_item list" where
  "claim now q =
     (case first_by wq_order (filter (wq_ready now) q) of
        None \<Rightarrow> (None, q)
      | Some r \<Rightarrow> (Some (mark_claimed now r), upd_row wid (wid r) (mark_claimed now) q))"

definition complete :: "time \<Rightarrow> int \<Rightarrow> work_item list \<Rightarrow> work_item list" where
  "complete now i q =
     upd_row wid i (\<lambda>r. r\<lparr> wstatus := WComplete, wcompleted_at := Some (cur_ts now) \<rparr>) q"

definition mark_dead :: "time \<Rightarrow> string \<Rightarrow> work_item \<Rightarrow> work_item" where
  "mark_dead now err r = r\<lparr> wstatus := WDeadLetter, werror := Some err,
     wcompleted_at := Some (cur_ts now), wretry_count := wretry_count r + 1 \<rparr>"

definition mark_retry :: "string \<Rightarrow> work_item \<Rightarrow> work_item" where
  "mark_retry err r = r\<lparr> wstatus := WPending, werror := Some err,
     wretry_count := wretry_count r + 1, claimed_at := None \<rparr>"

definition fail_item :: "time \<Rightarrow> int \<Rightarrow> string \<Rightarrow> work_item list \<Rightarrow> work_item list" where
  "fail_item now i err q =
     (case find_row wid i q of
        None \<Rightarrow> q
      | Some item \<Rightarrow>
          if wretry_count item + 1 \<ge> wmax_retries item
          then upd_row wid i (mark_dead now err) q
          else upd_row wid i (mark_retry err) q)"

definition get_item :: "int \<Rightarrow> work_item list \<Rightarrow> work_item option" where
  "get_item i q = find_row wid i q"

text \<open>
  \<open>ORDER BY completed_at DESC\<close>; SQLite puts NULL last in a descending order.
\<close>

definition completed_desc :: "work_item \<Rightarrow> int \<times> int" where
  "completed_desc r = (case wcompleted_at r of Some t \<Rightarrow> (0, - t) | None \<Rightarrow> (1, 0))"

definition get_dead_letter_items :: "work_item list \<Rightarrow> work_item list" where
  "get_dead_letter_items q = sort_key completed_desc (filter (\<lambda>r. wstatus r = WDeadLetter) q)"

section \<open>Well-formed queues\<close>

text \<open>
  Ids are unique, an idempotency key names at most one row, and a row that may still run has
  attempts left (the first one, or one below its maximum).
\<close>

definition keys_of :: "work_item list \<Rightarrow> string list" where
  "keys_of q = List.map_filter idempotency_key q"

definition live_item :: "work_item \<Rightarrow> bool" where
  "live_item r = (wstatus r = WPending \<or> wstatus r = WClaimed)"

definition item_ok :: "work_item \<Rightarrow> bool" where
  "item_ok r =
     (0 \<le> wretry_count r \<and> wretry_count r \<le> max 1 (wmax_retries r) \<and>
      (live_item r \<longrightarrow> wretry_count r = 0 \<or> wretry_count r < wmax_retries r) \<and>
      (wstatus r = WDeadLetter \<longrightarrow> wretry_count r \<ge> wmax_retries r))"

definition wq_inv :: "work_item list \<Rightarrow> bool" where
  "wq_inv q = (wf_ids wid q \<and> distinct (keys_of q) \<and> list_all item_ok q)"

lemma marks_wid [simp]:
  "wid (mark_claimed now r) = wid r" "wid (mark_dead now e r) = wid r"
  "wid (mark_retry e r) = wid r"
  by (simp_all add: mark_claimed_def mark_dead_def mark_retry_def)

lemma marks_key [simp]:
  "idempotency_key (mark_claimed now r) = idempotency_key r"
  "idempotency_key (mark_dead now e r) = idempotency_key r"
  "idempotency_key (mark_retry e r) = idempotency_key r"
  by (simp_all add: mark_claimed_def mark_dead_def mark_retry_def)

lemma keys_of_Nil [simp]: "keys_of [] = []"
  by (simp add: keys_of_def List.map_filter_def)

lemma keys_of_Cons [simp]:
  "keys_of (r # rs) = (case idempotency_key r of None \<Rightarrow> keys_of rs | Some k \<Rightarrow> k # keys_of rs)"
  by (simp add: keys_of_def List.map_filter_def split: option.splits)

lemma keys_of_append [simp]: "keys_of (rs @ ss) = keys_of rs @ keys_of ss"
  by (induction rs) (auto split: option.splits)

lemma set_keys_of: "k \<in> set (keys_of q) \<longleftrightarrow> (\<exists>r \<in> set q. idempotency_key r = Some k)"
  by (induction q) (auto split: option.splits)

lemma keys_of_upd_where:
  "(\<And>r. idempotency_key (f r) = idempotency_key r) \<Longrightarrow> keys_of (upd_where P f q) = keys_of q"
  by (induction q) (auto split: option.splits)

lemma distinct_keys_del: "distinct (keys_of q) \<Longrightarrow> distinct (keys_of (del_where P q))"
  by (induction q) (auto simp: set_keys_of del_where_def split: option.splits)

lemma upd_row_inv:
  assumes "wq_inv q" "\<And>r. wid (f r) = wid r" "\<And>r. idempotency_key (f r) = idempotency_key r"
    and "\<And>r. find_row wid i q = Some r \<Longrightarrow> item_ok r \<Longrightarrow> item_ok (f r)"
  shows "wq_inv (upd_row wid i f q)"
proof -
  have "item_ok (if wid r = i then f r else r)" if "r \<in> set q" for r
    using assms that find_row_distinct [of wid q r] by (auto simp: wq_inv_def list_all_iff)
  then have "list_all item_ok (upd_where (\<lambda>r. wid r = i) f q)"
    unfolding list_all_iff set_upd_where by blast
  then show ?thesis
    using assms(1-3) by (simp add: wq_inv_def upd_row_def wf_ids_upd_where keys_of_upd_where)
qed

lemma clear_finished_inv: "wq_inv q \<Longrightarrow> wq_inv (clear_finished ik q)"
  by (cases ik) (auto simp: clear_finished_def wq_inv_def wf_ids_del_where list_all_iff
      distinct_keys_del)

lemma enqueue_inv: "wq_inv q \<Longrightarrow> wq_inv (snd (enqueue now ev pl ik maxr sched prio q))"
  using clear_finished_inv [of q ik]
  by (auto simp: enqueue_def Let_def wq_inv_def key_taken_def list_ex_iff set_keys_of item_ok_def
      intro!: wf_ids_insert split: option.splits)

lemma claim_inv: "wq_inv q \<Longrightarrow> wq_inv (snd (claim now q))"
proof (cases "first_by wq_order (filter (wq_ready now) q)")
  case None
  then show "wq_inv q \<Longrightarrow> ?thesis" by (simp add: claim_def)
next
  case (Some r)
  assume inv: "wq_inv q"
  have r: "r \<in> set q" "wstatus r = WPending"
    using first_by_in [OF Some] by (auto simp: wq_ready_def)
  then have "find_row wid (wid r) q = Some r"
    using inv by (simp add: wq_inv_def find_row_distinct)
  then have "wq_inv (upd_row wid (wid r) (mark_claimed now) q)"
    using r by (intro upd_row_inv [OF inv])
      (auto simp: item_ok_def mark_claimed_def live_item_def)
  then show ?thesis using Some by (simp add: claim_def)
qed

lemma complete_inv: "wq_inv q \<Longrightarrow> wq_inv (complete now i q)"
  unfolding complete_def by (rule upd_row_inv) (auto simp: item_ok_def live_item_def)

lemma fail_inv:
  assumes inv: "wq_inv q" and live: "\<And>r. find_row wid i q = Some r \<Longrightarrow> live_item r"
  shows "wq_inv (fail_item now i err q)"
proof (cases "find_row wid i q")
  case None
  then show ?thesis using inv by (simp add: fail_item_def)
next
  case (Some r)
  then have "live_item r" by (rule live)
  then show ?thesis
    using Some by (auto simp: fail_item_def item_ok_def mark_dead_def mark_retry_def live_item_def
        intro!: upd_row_inv [OF inv])
qed

lemmas wq_preserves = enqueue_inv claim_inv complete_inv fail_inv

section \<open>Runs\<close>

text \<open>
  What the platform does to its queue: handlers and triggers enqueue, workers claim, and the
  worker that claimed an item completes it or fails it (\<open>core/engine/main_loop.py\<close> calls
  \<open>complete\<close> and \<open>fail\<close> only on the item it has just claimed).
\<close>

inductive wq_step :: "work_item list \<Rightarrow> work_item list \<Rightarrow> bool" where
  step_enqueue: "wq_step q (snd (enqueue now ev pl ik maxr sched prio q))"
| step_claim: "wq_step q (snd (claim now q))"
| step_complete: "find_row wid i q = Some r \<Longrightarrow> wstatus r = WClaimed \<Longrightarrow> wq_step q (complete now i q)"
| step_fail: "find_row wid i q = Some r \<Longrightarrow> wstatus r = WClaimed \<Longrightarrow>
    wq_step q (fail_item now i err q)"

inductive wq_reach :: "work_item list \<Rightarrow> bool" where
  reach_empty: "wq_reach []"
| reach_step: "wq_reach q \<Longrightarrow> wq_step q q' \<Longrightarrow> wq_reach q'"

lemma wq_step_inv: "wq_step q q' \<Longrightarrow> wq_inv q \<Longrightarrow> wq_inv q'"
  by (induction rule: wq_step.induct) (auto intro!: wq_preserves simp: live_item_def)

lemma wq_reach_inv: "wq_reach q \<Longrightarrow> wq_inv q"
proof (induction rule: wq_reach.induct)
  case reach_empty
  then show ?case by (simp add: wq_inv_def wf_ids_def)
next
  case (reach_step q q')
  then show ?case by (blast intro: wq_step_inv)
qed

section \<open>What the queue promises its clients\<close>

text \<open>
  Handlers that may be triggered twice for the same thing (a dispatch, a supervisor wake) rely
  on a queue that keeps one row per key.
\<close>

lemma distinct_singleton: "distinct xs \<Longrightarrow> set xs = {k} \<Longrightarrow> xs = [k]"
proof (cases xs)
  case (Cons y ys)
  assume "distinct xs" "set xs = {k}"
  then have "y = k" "ys = []" using Cons by (auto simp: subset_singleton_iff)
  then show ?thesis using Cons by simp
qed simp

locale dedup_queue =
  fixes enq :: "'k \<Rightarrow> 'i \<Rightarrow> 'q \<Rightarrow> 'q"
    and keys :: "'q \<Rightarrow> 'k list"
  assumes enq_keys: "distinct (keys q) \<Longrightarrow> distinct (keys (enq k i q))"
    and enq_set: "set (keys (enq k i q)) = insert k (set (keys q))"
begin

lemma enq_many:
  "distinct (keys q) \<Longrightarrow>
     distinct (keys (fold (\<lambda>(k, i). enq k i) xs q)) \<and>
     set (keys (fold (\<lambda>(k, i). enq k i) xs q)) = set (keys q) \<union> fst ` set xs"
proof (induction xs arbitrary: q)
  case Nil
  then show ?case by simp
next
  case (Cons x xs)
  obtain k i where x: "x = (k, i)" by (cases x)
  show ?case
    using Cons.IH [OF enq_keys [OF Cons.prems, of k i]] enq_set [of k i q] by (auto simp: x)
qed

text \<open>However often one key is enqueued, its rows number one.\<close>

lemma enq_same_key:
  assumes "distinct (keys q)" "keys q = []" "xs \<noteq> []" "\<forall>x \<in> set xs. fst x = k"
  shows "keys (fold (\<lambda>(k, i). enq k i) xs q) = [k]"
proof -
  have "fst ` set xs = {k}" using assms(3,4) by (cases xs) auto
  then have "set (keys (fold (\<lambda>(k, i). enq k i) xs q)) = {k}"
    and "distinct (keys (fold (\<lambda>(k, i). enq k i) xs q))"
    using enq_many [OF assms(1), of xs] assms(2) by auto
  then show ?thesis
    by (blast intro: distinct_singleton)
qed

end

text \<open>The keyed \<open>enqueue\<close>, with the event, payload and options of the call as one tuple.\<close>

definition enqueue_keyed ::
    "string \<Rightarrow> time \<times> string \<times> json \<times> int \<times> timestr option \<times> int \<Rightarrow> work_item list \<Rightarrow> work_item list"
where
  "enqueue_keyed k i q =
     (case i of (now, ev, pl, maxr, sched, prio) \<Rightarrow> snd (enqueue now ev pl (Some k) maxr sched prio q))"

lemma keys_of_clear_finished:
  "x \<noteq> k \<Longrightarrow> x \<in> set (keys_of (clear_finished (Some k) q)) \<longleftrightarrow> x \<in> set (keys_of q)"
  unfolding clear_finished_def by (fastforce simp: set_keys_of)

lemma key_taken_Some: "key_taken (Some k) q \<longleftrightarrow> k \<in> set (keys_of q)"
  by (auto simp: key_taken_def list_ex_iff set_keys_of)

lemma keys_of_enqueue_keyed:
  "keys_of (enqueue_keyed k i q) =
     (let ks = keys_of (clear_finished (Some k) q) in if k \<in> set ks then ks else ks @ [k])"
  by (cases i) (simp add: enqueue_keyed_def enqueue_def Let_def key_taken_Some)

lemma enqueue_keyed_set: "set (keys_of (enqueue_keyed k i q)) = insert k (set (keys_of q))"
proof (rule set_eqI)
  fix x
  show "x \<in> set (keys_of (enqueue_keyed k i q)) \<longleftrightarrow> x \<in> insert k (set (keys_of q))"
    by (cases "x = k") (simp_all add: keys_of_enqueue_keyed Let_def keys_of_clear_finished)
qed

lemma clear_finished_distinct:
  "distinct (keys_of q) \<Longrightarrow> distinct (keys_of (clear_finished ik q))"
  by (cases ik) (simp_all add: clear_finished_def distinct_keys_del)

lemma enqueue_keyed_distinct: "distinct (keys_of q) \<Longrightarrow> distinct (keys_of (enqueue_keyed k i q))"
  using clear_finished_distinct [of q "Some k"] by (simp add: keys_of_enqueue_keyed Let_def)

interpretation wq: dedup_queue enqueue_keyed keys_of
  by unfold_locales (simp_all add: enqueue_keyed_distinct enqueue_keyed_set)

section \<open>Draining the queue\<close>

text \<open>A worker that claims at most \<open>n\<close> items in a row at one moment (the main loop).\<close>

fun drain :: "time \<Rightarrow> nat \<Rightarrow> work_item list \<Rightarrow> work_item list \<times> work_item list" where
  "drain now 0 q = ([], q)"
| "drain now (Suc n) q =
     (case claim now q of
        (None, q') \<Rightarrow> ([], q')
      | (Some r, q') \<Rightarrow> (let (rs, q'') = drain now n q' in (r # rs, q'')))"

lemma claim_None: "claim now q = (None, q') \<longleftrightarrow> filter (wq_ready now) q = [] \<and> q' = q"
  by (auto simp: claim_def split: option.splits)

lemma claim_Some:
  assumes "claim now q = (Some r', q')"
  obtains r where "first_by wq_order (filter (wq_ready now) q) = Some r"
    "r' = mark_claimed now r" "q' = upd_row wid (wid r) (mark_claimed now) q"
  using assms by (auto simp: claim_def split: option.splits)

lemma filter_upd_row_out:
  "wf_ids wid q \<Longrightarrow> r \<in> set q \<Longrightarrow> \<not> P (f r) \<Longrightarrow>
     filter P (upd_row wid (wid r) f q) = remove1 r (filter P q)"
proof (induction q)
  case (Cons a q)
  show ?case
  proof (cases "a = r")
    case True
    have "\<forall>x \<in> set q. wid x \<noteq> wid r" using Cons.prems(1) True by (auto simp: wf_ids_def image_iff)
    then have "upd_row wid (wid r) f q = q" and "r \<notin> set q"
      by (auto simp: upd_row_def upd_where_def intro!: map_idI)
    then show ?thesis using True Cons.prems(3)
      by (auto simp: upd_row_def remove1_idem)
  next
    case False
    then have "wid a \<noteq> wid r" "r \<in> set q" "wf_ids wid q"
      using Cons.prems by (auto simp: wf_ids_def)
    then show ?thesis using Cons.IH Cons.prems(3) False by (auto simp: upd_row_def)
  qed
qed simp

lemma drain_sorted_aux:
  "wf_ids wid q \<Longrightarrow> length (filter (wq_ready now) q) \<le> n \<Longrightarrow>
     fst (drain now n q) = map (mark_claimed now) (sort_key wq_order (filter (wq_ready now) q))"
proof (induction n arbitrary: q)
  case 0
  then show ?case by simp
next
  case (Suc n)
  show ?case
  proof (cases "claim now q")
    case (Pair res q')
    show ?thesis
    proof (cases res)
      case None
      then have "claim now q = (None, q')" using Pair by simp
      then show ?thesis by (simp add: claim_None [THEN iffD1])
    next
      case (Some r')
      obtain r where r: "first_by wq_order (filter (wq_ready now) q) = Some r"
        "r' = mark_claimed now r" "q' = upd_row wid (wid r) (mark_claimed now) q"
        using Pair Some by (auto elim: claim_Some)
      have mem: "r \<in> set (filter (wq_ready now) q)" by (rule first_by_in [OF r(1)])
      have "\<not> wq_ready now (mark_claimed now r)" by (simp add: wq_ready_def mark_claimed_def)
      then have rest: "filter (wq_ready now) q' = remove1 r (filter (wq_ready now) q)"
        using filter_upd_row_out [of q r "wq_ready now" "mark_claimed now"] Suc.prems(1) mem r(3)
        by simp
      have wf: "wf_ids wid q'" using Suc.prems(1) r(3) by (simp add: wf_ids_upd_row)
      have len: "length (filter (wq_ready now) q') \<le> n"
        using Suc.prems(2) mem by (simp add: rest length_remove1)
      show ?thesis
        using Suc.IH [OF wf len] sort_key_first_by [OF r(1)] Pair Some r(2)
        by (simp add: rest split_def Let_def)
    qed
  qed
qed

section \<open>Retries\<close>

lemma fail_item_find:
  "find_row wid j (fail_item now i err q) =
     (if j \<noteq> i then find_row wid j q
      else map_option (\<lambda>r. if wretry_count r + 1 \<ge> wmax_retries r then mark_dead now err r
             else mark_retry err r) (find_row wid i q))"
  by (auto simp: fail_item_def tbl split: option.splits)

lemma fail_iterate:
  assumes "find_row wid i q = Some r" "wretry_count r = 0"
  shows "\<exists>r'. find_row wid i ((fail_item now i err ^^ n) q) = Some r' \<and>
    wretry_count r' = int n \<and> wmax_retries r' = wmax_retries r \<and>
    (0 < n \<longrightarrow> wstatus r' = (if wmax_retries r \<le> int n then WDeadLetter else WPending))"
proof (induction n)
  case 0
  then show ?case using assms by simp
next
  case (Suc n)
  then obtain r' where "find_row wid i ((fail_item now i err ^^ n) q) = Some r'"
    "wretry_count r' = int n" "wmax_retries r' = wmax_retries r" by blast
  then show ?case by (auto simp: fail_item_find mark_dead_def mark_retry_def)
qed

section \<open>Properties\<close>

lemma length_filter_key: "length (filter (\<lambda>r. idempotency_key r = Some k) q) = count_list (keys_of q) k"
  by (induction q) (auto split: option.splits)

lemma count_list_distinct: "distinct xs \<Longrightarrow> count_list xs x = (if x \<in> set xs then 1 else 0)"
  by (induction xs) auto

lemma not_finished_live: "\<not> finished r \<longleftrightarrow> live_item r"
  by (cases "wstatus r") (auto simp: finished_def live_item_def)

text \<open>A small queue for the examples: three items, the second urgent, the third deferred.\<close>

definition demo_queue :: "work_item list" where
  "demo_queue =
     snd (enqueue 3000000 ''c'' JNull None 3 (Some (At 9000000)) 100
      (snd (enqueue 2000000 ''b'' JNull (Some ''kb'') 2 None 50
       (snd (enqueue 1000000 ''a'' JNull (Some ''ka'') 3 None 100 [])))))"

lemma demo_queue_reach: "wq_reach demo_queue"
  unfolding demo_queue_def by (intro reach_step [OF _ step_enqueue] reach_empty)

lemma demo_queue_ids: "map wid demo_queue = [1, 2, 3]"
  by (simp add: demo_queue_def enqueue_def clear_finished_def key_taken_def del_where_def
      finished_def next_rowid_def)

text \<open>A worker that keeps claiming receives exactly the ready items, each once, in the order
  of priority and then of age (items of equal priority and age in insertion order): the sequence
  of claims is the stable sort of the pending items whose schedule has come.\<close>

theorem wq_drain_order:
  assumes "wf_ids wid q"
  shows "map wid (fst (drain now (length q) q)) =
    map wid (sort_key wq_order (filter (wq_ready now) q))"
proof -
  have "length (filter (wq_ready now) q) \<le> length q" by (rule length_filter_le)
  then show ?thesis using drain_sorted_aux [OF assms] by simp
qed

theorem wq_drain_order_witness:
  "map wid (fst (drain 5000000 (length demo_queue) demo_queue)) =
     map wid (sort_key wq_order (filter (wq_ready 5000000) demo_queue))"
  by (rule wq_drain_order) (simp add: wf_ids_def demo_queue_ids)

text \<open>Deduplication. Enqueuing under a key is refused exactly when a pending or claimed item
  already has the key; afterwards exactly one item has the key, and items with other keys (or
  none) are untouched.\<close>

theorem wq_enqueue_dedup:
  assumes "wq_inv q" and "enqueue now ev pl (Some k) maxr sched prio q = (res, q')"
  shows "(res = None \<longleftrightarrow> (\<exists>r \<in> set q. idempotency_key r = Some k \<and> live_item r)) \<and>
    length (filter (\<lambda>r. idempotency_key r = Some k) q') = 1 \<and>
    filter (\<lambda>r. idempotency_key r \<noteq> Some k) q' = filter (\<lambda>r. idempotency_key r \<noteq> Some k) q"
proof -
  have q': "q' = enqueue_keyed k (now, ev, pl, maxr, sched, prio) q"
    using assms(2) by (simp add: enqueue_keyed_def)
  have "distinct (keys_of q)" using assms(1) by (simp add: wq_inv_def)
  then have "length (filter (\<lambda>r. idempotency_key r = Some k) q') = 1"
    unfolding length_filter_key q' by (simp add: count_list_distinct wq.enq_keys wq.enq_set)
  moreover have "res = None \<longleftrightarrow> (\<exists>r \<in> set q. idempotency_key r = Some k \<and> live_item r)"
    using assms(2) by (auto simp: enqueue_def Let_def clear_finished_def key_taken_def list_ex_iff
        not_finished_live split: if_splits)
  moreover have "filter (\<lambda>r. idempotency_key r \<noteq> Some k) q' =
      filter (\<lambda>r. idempotency_key r \<noteq> Some k) (clear_finished (Some k) q)"
    using assms(2) by (auto simp: enqueue_def Let_def split: if_splits)
  moreover have "filter (\<lambda>r. idempotency_key r \<noteq> Some k) (clear_finished (Some k) q) =
      filter (\<lambda>r. idempotency_key r \<noteq> Some k) q"
    by (auto simp: clear_finished_def del_where_def intro: filter_cong)
  ultimately show ?thesis by simp
qed

theorem wq_enqueue_dedup_witness:
  "\<exists>q'. enqueue 7 ''b'' JNull (Some ''kb'') 2 None 50 demo_queue = (None, q') \<and>
     length (filter (\<lambda>r. idempotency_key r = Some ''kb'') q') = 1"
proof -
  obtain res q' where e: "enqueue 7 ''b'' JNull (Some ''kb'') 2 None 50 demo_queue = (res, q')"
    by fastforce
  have "\<exists>r \<in> set demo_queue. idempotency_key r = Some ''kb'' \<and> live_item r"
    by (simp add: demo_queue_def enqueue_def clear_finished_def key_taken_def del_where_def
        finished_def next_rowid_def live_item_def)
  then show ?thesis
    using wq_enqueue_dedup [OF wq_reach_inv [OF demo_queue_reach] e] e by auto
qed

text \<open>Bounded retries. An item that starts with no failures and fails \<open>n\<close> times (\<open>n >= 1\<close>)
  has its count at \<open>n\<close> and is in the dead-letter state once \<open>n\<close> has reached
  \<open>max_retries\<close>, pending before that: it is attempted at most \<open>max 1 max_retries\<close> times.\<close>

theorem wq_fail_exhausts:
  assumes "find_row wid i q = Some r" and "wretry_count r = 0" and "1 \<le> n"
  shows "\<exists>r'. find_row wid i ((fail_item now i err ^^ n) q) = Some r' \<and> wretry_count r' = int n \<and>
    wstatus r' = (if int n \<ge> wmax_retries r then WDeadLetter else WPending)"
  using fail_iterate [OF assms(1,2), of n now err] assms(3) by auto

theorem wq_fail_exhausts_witness:
  "\<exists>r'. find_row wid 2 ((fail_item 9 2 ''boom'' ^^ 2) demo_queue) = Some r' \<and>
     wstatus r' = WDeadLetter"
proof -
  obtain r where "find_row wid 2 demo_queue = Some r" "wretry_count r = 0" "wmax_retries r = 2"
    by (simp add: demo_queue_def enqueue_def clear_finished_def key_taken_def del_where_def
        finished_def next_rowid_def)
  then show ?thesis using wq_fail_exhausts [of 2 demo_queue r 2 9 "''boom''"] by auto
qed

text \<open>In every queue a run of the platform can reach, ids are unique, each idempotency key
  names at most one row, and a row that may still run has an attempt left.\<close>

theorem wq_reachable_ok:
  assumes "wq_reach q"
  shows "wf_ids wid q \<and> distinct (keys_of q) \<and>
    (\<forall>r \<in> set q. live_item r \<longrightarrow> wretry_count r = 0 \<or> wretry_count r < wmax_retries r)"
  using wq_reach_inv [OF assms] by (auto simp: wq_inv_def list_all_iff item_ok_def)

theorem wq_reachable_ok_witness: "distinct (keys_of demo_queue)"
  using wq_reachable_ok [OF demo_queue_reach] by simp

end
