(* ===== verification/Event_Bus.thy ===== *)
theory Event_Bus
  imports Work_Queue
begin

text \<open>
  The event bus (\<open>core/engine/event_bus.py\<close>), its filter language
  (\<open>core/engine/_utils.py\<close>) and the event an arc transition emits
  (\<open>core/engine/triggers/arc_lifecycle.py\<close>).

  Payloads are JSON objects, as association lists. \<open>json_eq\<close> is Python's \<open>==\<close> on JSON
  values: numbers and booleans compare by value, objects regardless of the order of keys. An
  exception in \<open>process_events\<close> leaves the database as it was (nothing was committed).
\<close>

section \<open>Python equality of JSON values\<close>

fun jnum :: "json \<Rightarrow> rat option" where
  "jnum (JBool b) = Some (if b then 1 else 0)"
| "jnum (JInt i) = Some (of_int i)"
| "jnum (JNum r) = Some r"
| "jnum _ = None"

lemma size_zip_left [termination_simp]:
  "(a, b) \<in> set (zip xs ys) \<Longrightarrow> size a < Suc (size_list size xs)"
  by (meson le_imp_less_Suc set_zip_leftD size_list_estimation' order_refl)

fun json_eq :: "json \<Rightarrow> json \<Rightarrow> bool" where
  "json_eq JNull y = (y = JNull)"
| "json_eq (JBool b) y = (jnum y = jnum (JBool b))"
| "json_eq (JInt i) y = (jnum y = jnum (JInt i))"
| "json_eq (JNum r) y = (jnum y = jnum (JNum r))"
| "json_eq (JStr s) y = (y = JStr s)"
| "json_eq (JList xs) y =
     (case y of
        JList ys \<Rightarrow> length xs = length ys \<and> list_all (\<lambda>(a, b). json_eq a b) (zip xs ys)
      | _ \<Rightarrow> False)"
| "json_eq (JObj xs) y =
     (case y of
        JObj ys \<Rightarrow> length xs = length ys \<and>
          list_all (\<lambda>(k, v). case map_of ys k of None \<Rightarrow> False | Some w \<Rightarrow> json_eq v w) xs
      | _ \<Rightarrow> False)"

section \<open>Filters\<close>

type_synonym jdict = "(string \<times> json) list"

text \<open>\<open>d.get(k)\<close>: \<open>None\<close> (JSON null) when the key is absent.\<close>

definition dget :: "jdict \<Rightarrow> string \<Rightarrow> json" where
  "dget d k = (case map_of d k of Some v \<Rightarrow> v | None \<Rightarrow> JNull)"

text \<open>\<open>v in container\<close>, for a container that came out of JSON.\<close>

fun json_in :: "json \<Rightarrow> json \<Rightarrow> exn + bool" where
  "json_in v (JList xs) = Inr (list_ex (\<lambda>x. json_eq v x) xs)"
| "json_in (JStr a) (JStr b) = Inr (\<exists>i \<in> set [0 ..< Suc (length b)]. starts_with (drop i b) a)"
| "json_in _ (JStr b) = Inl (TypeError ''in <string> requires string'')"
| "json_in (JStr k) (JObj d) = Inr (map_of d k \<noteq> None)"
| "json_in (JList _) (JObj d) = Inl (TypeError ''unhashable type'')"
| "json_in (JObj _) (JObj d) = Inl (TypeError ''unhashable type'')"
| "json_in _ (JObj d) = Inr False"
| "json_in _ _ = Inl (TypeError ''argument is not iterable'')"

text \<open>The literal comparison: the key is present with an equal value.\<close>

definition literal_ok :: "jdict \<Rightarrow> string \<Rightarrow> json \<Rightarrow> bool" where
  "literal_ok p k v = (case map_of p k of None \<Rightarrow> False | Some w \<Rightarrow> json_eq w v)"

text \<open>One key of the filter; an operator is a dict with exactly one entry.\<close>

definition entry_ok :: "jdict \<Rightarrow> string \<Rightarrow> json \<Rightarrow> exn + bool" where
  "entry_ok p k v =
     (case v of
        JObj [(opn, x)] \<Rightarrow>
          if opn = ''$ne'' then Inr (\<not> json_eq (dget p k) x)
          else if opn = ''$nin'' then
            (case json_in (dget p k) x of Inl e \<Rightarrow> Inl e | Inr b \<Rightarrow> Inr (\<not> b))
          else if opn = ''$starts_with'' then
            (case dget p k of
               JStr s \<Rightarrow> (case x of JStr pre \<Rightarrow> Inr (starts_with s pre)
                          | _ \<Rightarrow> Inl (TypeError ''startswith''))
             | _ \<Rightarrow> Inr False)
          else if opn = ''$is_null'' then Inr (jtruthy x = (dget p k = JNull))
          else Inr (literal_ok p k v)
      | _ \<Rightarrow> Inr (literal_ok p k v))"

fun entries_ok :: "jdict \<Rightarrow> jdict \<Rightarrow> exn + bool" where
  "entries_ok p [] = Inr True"
| "entries_ok p ((k, v) # f) =
     (case entry_ok p k v of
        Inl e \<Rightarrow> Inl e
      | Inr False \<Rightarrow> Inr False
      | Inr True \<Rightarrow> entries_ok p f)"

text \<open>The stored filter: \<open>None\<close>, JSON text, or text that does not parse (matches).\<close>

definition filter_matches :: "jtext option \<Rightarrow> jdict \<Rightarrow> exn + bool" where
  "filter_matches f p =
     (case f of
        None \<Rightarrow> Inr True
      | Some (Malformed _) \<Rightarrow> Inr True
      | Some (Parsed (JObj d)) \<Rightarrow> entries_ok p d
      | Some (Parsed _) \<Rightarrow> Inl (AttributeError ''items''))"

section \<open>Events and matchers\<close>

record event_row =
  eid :: int
  etype :: string
  epayload :: jdict
  esource :: "string option"
  eprocessed :: bool
  epriority :: int
  ekey :: "string option"
  ecreated_at :: int

record matcher_row =
  mid :: int
  marc_id :: "int option"
  mtype :: string
  mfilter :: "jtext option"
  mtimeout_at :: "time option"
  mcreated_at :: int

definition new_event ::
    "time \<Rightarrow> string \<Rightarrow> jdict \<Rightarrow> string option \<Rightarrow> int \<Rightarrow> string option \<Rightarrow> event_row list \<Rightarrow> event_row"
where
  "new_event now ty p src prio key evs =
     \<lparr> eid = next_rowid eid evs, etype = ty, epayload = p, esource = src, eprocessed = False,
       epriority = prio, ekey = key, ecreated_at = cur_ts now \<rparr>"

definition record_event ::
    "time \<Rightarrow> string \<Rightarrow> jdict \<Rightarrow> string option \<Rightarrow> int \<Rightarrow> string option \<Rightarrow> event_row list \<Rightarrow>
     int option \<times> event_row list" where
  "record_event now ty p src prio key evs =
     (if key \<noteq> None \<and> list_ex (\<lambda>e. ekey e = key) evs then (None, evs)
      else (Some (next_rowid eid evs), evs @ [new_event now ty p src prio key evs]))"

text \<open>An empty filter dict is falsy and stored as NULL; the arc must exist (foreign key).\<close>

definition register_matcher ::
    "(int \<Rightarrow> bool) \<Rightarrow> time \<Rightarrow> string \<Rightarrow> int option \<Rightarrow> jdict option \<Rightarrow> time option \<Rightarrow>
     matcher_row list \<Rightarrow> exn + (int \<times> matcher_row list)" where
  "register_matcher arc_exists now ty a f tmo ms =
     (if (case a of Some i \<Rightarrow> \<not> arc_exists i | None \<Rightarrow> False)
      then Inl (IntegrityError ''FOREIGN KEY'')
      else
        let i = next_rowid mid ms in
        Inr (i, ms @ [\<lparr> mid = i, marc_id = a, mtype = ty,
             mfilter = (case f of Some (x # xs) \<Rightarrow> Some (Parsed (JObj (x # xs))) | _ \<Rightarrow> None),
             mtimeout_at = tmo, mcreated_at = cur_ts now \<rparr>]))"

definition matcher_key :: "matcher_row \<Rightarrow> event_row \<Rightarrow> string" where
  "matcher_key m e = ''matcher-'' @ show_int (mid m) @ ''-event-'' @ show_int (eid e)"

definition work_payload :: "matcher_row \<Rightarrow> event_row \<Rightarrow> json" where
  "work_payload m e = JObj
     [(''event_id'', JInt (eid e)),
      (''arc_id'', case marc_id m of Some i \<Rightarrow> JInt i | None \<Rightarrow> JNull),
      (''event_type'', JStr (etype e)),
      (''payload'', JObj (epayload e))]"

text \<open>
  The direct \<open>INSERT OR IGNORE\<close> of \<open>process_events\<close>: the column defaults (three retries,
  priority 100), and no clearing of finished rows, unlike \<open>enqueue\<close>.
\<close>

definition insert_or_ignore :: "time \<Rightarrow> string \<Rightarrow> json \<Rightarrow> string \<Rightarrow> work_item list \<Rightarrow> work_item list" where
  "insert_or_ignore now ev pl k q =
     (if key_taken (Some k) q then q
      else q @ [\<lparr> wid = next_rowid wid q, event_type = ev, payload = pl, wstatus = WPending,
            wretry_count = 0, wmax_retries = 3, idempotency_key = Some k, werror = None,
            wcreated_at = cur_ts now, claimed_at = None, wcompleted_at = None,
            scheduled_at = None, wpriority = 100 \<rparr>])"

text \<open>The inner loop over the matchers selected for one event.\<close>

fun match_all ::
    "time \<Rightarrow> event_row \<Rightarrow> matcher_row list \<Rightarrow> matcher_row list \<times> work_item list \<times> nat \<Rightarrow>
     exn + (matcher_row list \<times> work_item list \<times> nat)" where
  "match_all now e [] st = Inr st"
| "match_all now e (m # sel) (ms, q, n) =
     (case filter_matches (mfilter m) (epayload e) of
        Inl x \<Rightarrow> Inl x
      | Inr False \<Rightarrow> match_all now e sel (ms, q, n)
      | Inr True \<Rightarrow>
          match_all now e sel
            (del_where (\<lambda>r. mid r = mid m) ms,
             insert_or_ignore now (etype e) (work_payload m e) (matcher_key m e) q, n + 1))"

text \<open>The outer loop over the unprocessed events.\<close>

fun process_loop ::
    "time \<Rightarrow> event_row list \<Rightarrow>
     event_row list \<times> matcher_row list \<times> work_item list \<times> nat \<Rightarrow>
     exn + (event_row list \<times> matcher_row list \<times> work_item list \<times> nat)" where
  "process_loop now [] st = Inr st"
| "process_loop now (e # sel) (evs, ms, q, n) =
     (case match_all now e (filter (\<lambda>m. mtype m = etype e) ms) (ms, q, n) of
        Inl x \<Rightarrow> Inl x
      | Inr (ms', q', n') \<Rightarrow>
          process_loop now sel
            (upd_row eid (eid e) (\<lambda>r. r\<lparr> eprocessed := True \<rparr>) evs, ms', q', n'))"

definition event_order :: "event_row \<Rightarrow> int \<times> int" where
  "event_order e = (- epriority e, ecreated_at e)"

definition unprocessed :: "event_row list \<Rightarrow> event_row list" where
  "unprocessed evs = sort_key event_order (filter (\<lambda>e. \<not> eprocessed e) evs)"

definition process_events ::
    "time \<Rightarrow> event_row list \<times> matcher_row list \<times> work_item list \<Rightarrow>
     exn + (nat \<times> event_row list \<times> matcher_row list \<times> work_item list)" where
  "process_events now st =
     (case st of (evs, ms, q) \<Rightarrow>
        (case process_loop now (unprocessed evs) (evs, ms, q, 0) of
           Inl x \<Rightarrow> Inl x
         | Inr (evs', ms', q', n) \<Rightarrow> Inr (n, evs', ms', q')))"

definition expired :: "time \<Rightarrow> matcher_row \<Rightarrow> bool" where
  "expired now m = (case mtimeout_at m of Some t \<Rightarrow> t < now | None \<Rightarrow> False)"

definition timeout_payload :: "matcher_row \<Rightarrow> jdict" where
  "timeout_payload m =
     [(''matcher_id'', JInt (mid m)),
      (''arc_id'', case marc_id m of Some i \<Rightarrow> JInt i | None \<Rightarrow> JNull),
      (''original_event_type'', JStr (mtype m))]"

fun timeout_loop ::
    "time \<Rightarrow> matcher_row list \<Rightarrow> event_row list \<times> matcher_row list \<times> nat \<Rightarrow>
     event_row list \<times> matcher_row list \<times> nat" where
  "timeout_loop now [] st = st"
| "timeout_loop now (m # sel) (evs, ms, n) =
     timeout_loop now sel
       (evs @ [new_event now ''matcher.timeout'' (timeout_payload m) (Some ''system'') 0 None evs],
        del_where (\<lambda>r. mid r = mid m) ms, n + 1)"

definition check_timeouts ::
    "time \<Rightarrow> event_row list \<times> matcher_row list \<Rightarrow> nat \<times> event_row list \<times> matcher_row list" where
  "check_timeouts now st =
     (case st of (evs, ms) \<Rightarrow>
        (case timeout_loop now (filter (expired now) ms) (evs, ms, 0) of
           (evs', ms', n) \<Rightarrow> (n, evs', ms')))"

definition get_event :: "int \<Rightarrow> event_row list \<Rightarrow> event_row option" where
  "get_event i evs = find_row eid i evs"

text \<open>An empty event type is falsy and selects every matcher.\<close>

definition get_matchers :: "string option \<Rightarrow> matcher_row list \<Rightarrow> matcher_row list" where
  "get_matchers ty ms =
     (case ty of
        Some (c # cs) \<Rightarrow> filter (\<lambda>m. mtype m = c # cs) ms
      | _ \<Rightarrow> ms)"

section \<open>The lifecycle event of an arc\<close>

definition opt_entry :: "string \<Rightarrow> string option \<Rightarrow> jdict" where
  "opt_entry k v = (case v of Some s \<Rightarrow> [(k, JStr s)] | None \<Rightarrow> [])"

definition status_changed_key :: "int \<Rightarrow> string \<Rightarrow> string \<Rightarrow> string" where
  "status_changed_key a old new = ''arc-'' @ show_int a @ ''-'' @ old @ ''-'' @ new"

definition status_changed_payload ::
    "int \<Rightarrow> string \<Rightarrow> string \<Rightarrow> string option \<Rightarrow> string option \<Rightarrow> int option \<Rightarrow>
     string option \<Rightarrow> string option \<Rightarrow> jdict" where
  "status_changed_payload a old new nm role par ag tmpl =
     [(''arc_id'', JInt a), (''old_status'', JStr old), (''new_status'', JStr new),
      (''is_root'', JBool (par = None))]
     @ opt_entry ''arc_name'' nm @ opt_entry ''arc_role'' role
     @ (case par of Some p \<Rightarrow> [(''parent_id'', JInt p)] | None \<Rightarrow> [])
     @ opt_entry ''agent_type'' ag @ opt_entry ''template_name'' tmpl"

definition emit_status_changed ::
    "time \<Rightarrow> int \<Rightarrow> string \<Rightarrow> string \<Rightarrow> string option \<Rightarrow> string option \<Rightarrow> int option \<Rightarrow>
     string option \<Rightarrow> string option \<Rightarrow> event_row list \<Rightarrow> int option \<times> event_row list" where
  "emit_status_changed now a old new nm role par ag tmpl evs =
     record_event now ''arc.status_changed'' (status_changed_payload a old new nm role par ag tmpl)
       (Some (''arc:'' @ show_int a)) 0 (Some (status_changed_key a old new)) evs"

section \<open>Facts about the bus\<close>

definition hit :: "event_row \<Rightarrow> matcher_row \<Rightarrow> bool" where
  "hit e m = (mtype m = etype e \<and> filter_matches (mfilter m) (epayload e) = Inr True)"

lemma match_all_Inr:
  "match_all now e sel (ms, q, n) = Inr (ms', q', n') \<Longrightarrow>
     (let H = filter (\<lambda>m. filter_matches (mfilter m) (epayload e) = Inr True) sel in
      ms' = filter (\<lambda>r. mid r \<notin> mid ` set H) ms \<and> n' = n + length H)"
proof (induction sel arbitrary: ms q n)
  case Nil
  then show ?case by simp
next
  case (Cons m sel)
  then show ?case
    by (fastforce simp: Let_def del_where_def split: sum.splits bool.splits intro: filter_cong)
qed

lemma match_all_event:
  assumes "wf_ids mid ms"
    and "match_all now e (filter (\<lambda>m. mtype m = etype e) ms) (ms, q, n) = Inr (ms', q', n')"
  shows "ms' = filter (\<lambda>m. \<not> hit e m) ms" and "n' + length ms' = n + length ms"
proof -
  let ?H = "filter (hit e) ms"
  have H: "filter (\<lambda>m. filter_matches (mfilter m) (epayload e) = Inr True)
      (filter (\<lambda>m. mtype m = etype e) ms) = ?H"
    by (auto simp: hit_def intro: filter_cong)
  have r: "ms' = filter (\<lambda>r. mid r \<notin> mid ` set ?H) ms" "n' = n + length ?H"
    using match_all_Inr [OF assms(2)] unfolding H by (simp_all add: Let_def)
  have "mid r \<notin> mid ` set ?H \<longleftrightarrow> \<not> hit e r" if "r \<in> set ms" for r
    using assms(1) that by (auto simp: wf_ids_def inj_on_def distinct_map)
  then show "ms' = filter (\<lambda>m. \<not> hit e m) ms" unfolding r by (auto intro: filter_cong)
  then show "n' + length ms' = n + length ms"
    using sum_length_filter_compl [of "hit e" ms] r by simp
qed

lemma wf_ids_filter: "wf_ids key rs \<Longrightarrow> wf_ids key (filter P rs)"
  by (simp add: wf_ids_def distinct_map_filter)

lemma process_loop_Inr:
  "wf_ids mid ms \<Longrightarrow> process_loop now sel (evs, ms, q, n) = Inr (evs', ms', q', n') \<Longrightarrow>
     ms' = filter (\<lambda>m. \<not> (\<exists>e \<in> set sel. hit e m)) ms \<and> n' + length ms' = n + length ms \<and>
     evs' = upd_where (\<lambda>r. eid r \<in> eid ` set sel) (\<lambda>r. r\<lparr> eprocessed := True \<rparr>) evs"
proof (induction sel arbitrary: evs ms q n)
  case Nil
  then show ?case by (simp add: upd_where_def)
next
  case (Cons e sel)
  obtain ms1 q1 n1 where one:
    "match_all now e (filter (\<lambda>m. mtype m = etype e) ms) (ms, q, n) = Inr (ms1, q1, n1)"
    using Cons.prems(2) by (auto split: sum.splits)
  let ?evs = "upd_row eid (eid e) (\<lambda>r. r\<lparr> eprocessed := True \<rparr>) evs"
  note ms1 = match_all_event [OF Cons.prems(1) one]
  have wf: "wf_ids mid ms1" using Cons.prems(1) ms1(1) by (simp add: wf_ids_filter)
  have "process_loop now sel (?evs, ms1, q1, n1) = Inr (evs', ms', q', n')"
    using Cons.prems(2) one by simp
  note rest = Cons.IH [OF wf this]
  have "upd_where (\<lambda>r. eid r \<in> eid ` set sel) (\<lambda>r. r\<lparr> eprocessed := True \<rparr>) ?evs =
      upd_where (\<lambda>r. eid r \<in> eid ` set (e # sel)) (\<lambda>r. r\<lparr> eprocessed := True \<rparr>) evs"
    by (auto simp: upd_row_def upd_where_def)
  moreover have "filter (\<lambda>m. \<not> (\<exists>e \<in> set sel. hit e m)) ms1 =
      filter (\<lambda>m. \<not> (\<exists>e \<in> set (e # sel). hit e m)) ms"
    unfolding ms1(1) by (auto intro: filter_cong)
  moreover have "n' + length ms' = n + length ms" using rest ms1(2) by linarith
  ultimately show ?case using rest by metis
qed

lemma set_unprocessed: "set (unprocessed evs) = {e \<in> set evs. \<not> eprocessed e}"
  by (auto simp: unprocessed_def)

lemma timeout_loop_spec:
  "timeout_loop now sel (evs, ms, n) = (evs', ms', n') \<Longrightarrow>
     ms' = filter (\<lambda>r. mid r \<notin> mid ` set sel) ms \<and> n' = n + length sel \<and>
     (\<exists>new. evs' = evs @ new \<and> map epayload new = map timeout_payload sel \<and>
        list_all (\<lambda>e. etype e = ''matcher.timeout'' \<and> \<not> eprocessed e) new)"
proof (induction sel arbitrary: evs ms n)
  case Nil
  then show ?case by simp
next
  case (Cons m sel)
  let ?e = "new_event now ''matcher.timeout'' (timeout_payload m) (Some ''system'') 0 None evs"
  have "timeout_loop now sel (evs @ [?e], del_where (\<lambda>r. mid r = mid m) ms, n + 1) = (evs', ms', n')"
    using Cons.prems by simp
  from Cons.IH [OF this] obtain new where new:
    "ms' = filter (\<lambda>r. mid r \<notin> mid ` set sel) (del_where (\<lambda>r. mid r = mid m) ms)"
    "n' = n + 1 + length sel" "evs' = (evs @ [?e]) @ new"
    "map epayload new = map timeout_payload sel"
    "list_all (\<lambda>e. etype e = ''matcher.timeout'' \<and> \<not> eprocessed e) new"
    by blast
  have "evs' = evs @ (?e # new)" "map epayload (?e # new) = map timeout_payload (m # sel)"
    "list_all (\<lambda>e. etype e = ''matcher.timeout'' \<and> \<not> eprocessed e) (?e # new)"
    using new by (simp_all add: new_event_def)
  moreover have "ms' = filter (\<lambda>r. mid r \<notin> mid ` set (m # sel)) ms"
    unfolding new(1) by (auto simp: del_where_def intro: filter_cong)
  ultimately show ?case using new(2) by auto
qed

subsection \<open>Idempotent events\<close>

definition ekeys :: "event_row list \<Rightarrow> string list" where
  "ekeys evs = List.map_filter ekey evs"

lemma ekeys_append: "ekeys (xs @ ys) = ekeys xs @ ekeys ys"
  by (induction xs) (auto simp: ekeys_def List.map_filter_def)

lemma set_ekeys: "k \<in> set (ekeys evs) \<longleftrightarrow> list_ex (\<lambda>e. ekey e = Some k) evs"
  by (auto simp: ekeys_def List.map_filter_def list_ex_iff image_iff)

definition record_keyed ::
    "string \<Rightarrow> time \<times> string \<times> jdict \<times> string option \<times> int \<Rightarrow> event_row list \<Rightarrow> event_row list" where
  "record_keyed k i evs =
     (case i of (now, ty, p, src, prio) \<Rightarrow> snd (record_event now ty p src prio (Some k) evs))"

lemma ekeys_record_keyed:
  "ekeys (record_keyed k i evs) = (if k \<in> set (ekeys evs) then ekeys evs else ekeys evs @ [k])"
  by (cases i) (auto simp: record_keyed_def record_event_def ekeys_append set_ekeys
      new_event_def ekeys_def [of "[_]"] List.map_filter_def)

interpretation ev: dedup_queue record_keyed ekeys
  by unfold_locales (auto simp: ekeys_record_keyed)

section \<open>Properties\<close>

definition demo_matchers :: "matcher_row list" where
  "demo_matchers =
     [\<lparr> mid = 1, marc_id = Some 7, mtype = ''done'', mfilter = Some (Parsed (JObj
          [(''who'', JObj [(''$ne'', JStr ''bot'')])])), mtimeout_at = None, mcreated_at = 0 \<rparr>,
      \<lparr> mid = 2, marc_id = Some 8, mtype = ''done'', mfilter = Some (Parsed (JObj
          [(''who'', JStr ''bot'')])), mtimeout_at = Some 5, mcreated_at = 0 \<rparr>,
      \<lparr> mid = 3, marc_id = None, mtype = ''start'', mfilter = None, mtimeout_at = None,
        mcreated_at = 0 \<rparr>]"

definition demo_events :: "event_row list" where
  "demo_events = snd (record_event 0 ''done'' [(''who'', JStr ''ann'')] None 0 None [])"

text \<open>Matchers are one-shot and no event is lost. After a successful \<open>process_events\<close> the
  matchers left are exactly those no unprocessed event of their type satisfied, every event is
  processed, and the number returned is the number of matchers consumed.\<close>

theorem bus_one_shot:
  assumes "wf_ids mid ms" and "process_events now (evs, ms, q) = Inr (n, evs', ms', q')"
  shows "ms' = filter (\<lambda>m. \<not> (\<exists>e \<in> set evs. \<not> eprocessed e \<and> hit e m)) ms \<and>
    (\<forall>e \<in> set evs'. eprocessed e) \<and> length evs' = length evs \<and>
    n + length ms' = length ms"
proof -
  have loop: "process_loop now (unprocessed evs) (evs, ms, q, 0) = Inr (evs', ms', q', n)"
    using assms(2) by (auto simp: process_events_def split: sum.splits)
  note r = process_loop_Inr [OF assms(1) loop]
  have "ms' = filter (\<lambda>m. \<not> (\<exists>e \<in> set evs. \<not> eprocessed e \<and> hit e m)) ms"
    using r by (auto simp: set_unprocessed intro: filter_cong)
  moreover have "\<forall>e \<in> set evs'. eprocessed e"
    using r by (auto simp: set_unprocessed set_upd_where image_iff)
  moreover have "n + length ms' = length ms" using r by linarith
  moreover have "length evs' = length evs" using r by auto
  ultimately show ?thesis by blast
qed

theorem bus_one_shot_witness:
  "\<exists>evs' ms' q'. process_events 0 (demo_events, demo_matchers, []) = Inr (1, evs', ms', q') \<and>
     1 + length ms' = length demo_matchers"
proof -
  obtain n evs' ms' q' where p: "process_events 0 (demo_events, demo_matchers, []) = Inr (n, evs', ms', q')"
    and n: "n = 1"
    by (simp add: process_events_def demo_events_def demo_matchers_def record_event_def
        new_event_def unprocessed_def filter_matches_def entry_ok_def literal_ok_def dget_def)
  have "wf_ids mid demo_matchers" by (simp add: wf_ids_def demo_matchers_def)
  from bus_one_shot [OF this p] p n show ?thesis by blast
qed

text \<open>Timeouts. \<open>check_timeouts\<close> removes exactly the matchers whose timeout has passed, and
  appends one unprocessed \<open>matcher.timeout\<close> event for each, in order, carrying its ids.\<close>

theorem bus_timeouts:
  assumes "wf_ids mid ms" and "check_timeouts now (evs, ms) = (n, evs', ms')"
  shows "ms' = filter (\<lambda>m. \<not> expired now m) ms \<and> n = length (filter (expired now) ms) \<and>
    (\<exists>new. evs' = evs @ new \<and> map epayload new = map timeout_payload (filter (expired now) ms) \<and>
       list_all (\<lambda>e. etype e = ''matcher.timeout'' \<and> \<not> eprocessed e) new)"
proof -
  have loop: "timeout_loop now (filter (expired now) ms) (evs, ms, 0) = (evs', ms', n)"
    using assms(2) by (auto simp: check_timeouts_def split: prod.splits)
  have "mid r \<notin> mid ` set (filter (expired now) ms) \<longleftrightarrow> \<not> expired now r" if "r \<in> set ms" for r
    using assms(1) that by (auto simp: wf_ids_def inj_on_def distinct_map)
  then have "filter (\<lambda>r. mid r \<notin> mid ` set (filter (expired now) ms)) ms =
      filter (\<lambda>m. \<not> expired now m) ms"
    by (auto intro: filter_cong)
  then show ?thesis using timeout_loop_spec [OF loop] by simp
qed

theorem bus_timeouts_witness:
  "\<exists>evs' ms'. check_timeouts 6 ([], demo_matchers) = (1, evs', ms') \<and> map mid ms' = [1, 3]"
proof -
  obtain n evs' ms' where c: "check_timeouts 6 ([], demo_matchers) = (n, evs', ms')"
    by (cases "check_timeouts 6 ([], demo_matchers)") auto
  have "wf_ids mid demo_matchers" by (simp add: wf_ids_def demo_matchers_def)
  from bus_timeouts [OF this c] c show ?thesis by (auto simp: demo_matchers_def expired_def)
qed

text \<open>A status event is emitted at most once per edge in the whole life of an arc: however
  many times the arc takes the edge \<open>old -> new\<close>, and whatever happens to the other keyed
  events, the log keeps one event for it, so a repeated legitimate transition (an arc that goes
  active, waiting, active again) is invisible to subscribers.\<close>

theorem emit_once_per_edge:
  assumes "ekeys evs = []"
  shows "ekeys (fold (\<lambda>now evs. snd (emit_status_changed now a old new nm role par ag tmpl evs)) ts evs) =
    (if ts = [] then [] else [status_changed_key a old new])"
proof -
  let ?k = "status_changed_key a old new"
  let ?f = "\<lambda>now. (now, ''arc.status_changed'', status_changed_payload a old new nm role par ag tmpl,
    Some (''arc:'' @ show_int a), 0)"
  have f: "(\<lambda>now evs. snd (emit_status_changed now a old new nm role par ag tmpl evs)) =
      (\<lambda>now. record_keyed ?k (?f now))"
    by (simp add: emit_status_changed_def record_keyed_def fun_eq_iff)
  have "fold (\<lambda>now. record_keyed ?k (?f now)) ts evs =
      fold (\<lambda>(k, i). record_keyed k i) (map (\<lambda>now. (?k, ?f now)) ts) evs"
    by (simp add: fold_map comp_def)
  then show ?thesis
    using ev.enq_same_key [of evs "map (\<lambda>now. (?k, ?f now)) ts" ?k] assms f by auto
qed

theorem emit_once_per_edge_witness:
  "ekeys (fold (\<lambda>now evs. snd (emit_status_changed now 5 ''waiting'' ''active'' None None None None None evs))
     [1, 2, 3] []) = [status_changed_key 5 ''waiting'' ''active'']"
  using emit_once_per_edge [of "[]" 5 "''waiting''" "''active''" None None None None None "[1, 2, 3]"]
  by (simp add: ekeys_def List.map_filter_def)

end
