(* ===== verification/Arc_Store.thy ===== *)
theory Arc_Store
  imports Trust_Types Event_Bus
begin

text \<open>
  The database as the arc engine sees it (\<open>schema.sql\<close>): one list of rows per table, and the
  elementary statements on them (lookups, the per-arc key-value state, history and audit
  entries).

  Columns with a default that no code of the model writes as NULL are total; enum-valued columns
  hold the enum. \<open>updated_at\<close> and the other ISO times are microseconds. Foreign keys are on
  (\<open>db.py\<close>), so an insert that names a missing row raises \<open>IntegrityError\<close>. Messages to
  people (\<open>notifications.notify\<close>) go to the list \<open>outbox\<close> as pairs of priority and category,
  oldest first.
\<close>

section \<open>Rows\<close>

datatype arc_status = Pending | Active | Waiting | Completed | Failed | Cancelled | Escalated

fun status_value :: "arc_status \<Rightarrow> string" where
  "status_value Pending = ''pending''"
| "status_value Active = ''active''"
| "status_value Waiting = ''waiting''"
| "status_value Completed = ''completed''"
| "status_value Failed = ''failed''"
| "status_value Cancelled = ''cancelled''"
| "status_value Escalated = ''escalated''"

datatype arc_role = COORDINATOR | WORKER | VERIFIER

fun role_value :: "arc_role \<Rightarrow> string" where
  "role_value COORDINATOR = ''coordinator''"
| "role_value WORKER = ''worker''"
| "role_value VERIFIER = ''verifier''"

record arc =
  aid :: int
  parent_id :: "int option"
  aname :: string
  goal :: "string option"
  astatus :: arc_status
  step_order :: int
  depth :: int
  code_file_id :: "int option"
  template_id :: "int option"
  step_role :: "string option"
  from_template :: bool
  template_mutable :: bool
  timeout_minutes :: "int option"
  ainteg :: integrity_level
  aoutput :: output_type
  aagent :: agent_type
  descendant_tokens :: int
  descendant_executions :: int
  descendant_arc_count :: int
  model_policy_id :: "int option"
  wait_until :: "timestr option"
  output_contract :: "string option"
  arole :: arc_role
  verification_target_id :: "int option"
  apriority :: int
  origin_kind :: "string option"
  origin_ref :: "string option"
  acreated_at :: int
  aupdated_at :: "time option"

record history_row =
  hid :: int
  h_arc :: int
  entry_type :: string
  h_content :: json
  h_code_file :: "int option"
  h_actor :: "string option"
  h_created_at :: int

record state_row =
  sid :: int
  s_arc :: int
  s_key :: string
  s_value :: jtext
  s_updated_at :: int

datatype grant_depth = Self | Subtree

record grant_row =
  gid :: int
  g_reader :: int
  g_target :: int
  g_depth :: grant_depth
  g_reason :: "string option"
  g_by :: "string option"
  g_created_at :: int

record audit_row =
  auid :: int
  au_arc :: "int option"
  au_type :: string
  au_details :: "jdict option"
  au_created_at :: int

record policy_row =
  pid :: int
  p_name :: "string option"
  p_model :: "string option"
  p_agent_role :: "string option"
  p_temperature :: "rat option"
  p_max_tokens :: "int option"
  p_json :: "jtext option"
  p_created_at :: int

datatype verdict = VPending | VApproved | VRejected

record resource =
  rid :: int
  content_type :: string
  file_path :: "string option"
  byte_size :: "int option"
  content_hash :: "string option"
  produced_by_arc_id :: "int option"
  produced_by_template :: "string option"
  template_verdict :: "verdict option"
  source_descriptor :: "string option"
  rkind :: "string option"
  pinned :: bool
  retain_until :: "time option"
  rcreated_at :: int
  deprecated_at :: "time option"
  deleted_at :: "time option"

datatype link_role = LInput | LOutput

record link_row =
  lid :: int
  l_arc :: int
  l_resource :: int
  l_role :: link_role
  l_created_at :: int

record db =
  arcs :: "arc list"
  history :: "history_row list"
  state :: "state_row list"
  grants :: "grant_row list"
  activations :: "(int \<times> string) list"
  events :: "event_row list"
  queue :: "work_item list"
  audit :: "audit_row list"
  policies :: "policy_row list"
  resources :: "resource list"
  arc_links :: "link_row list"
  conv_arcs :: "(int \<times> int) list"
  templates :: "(int \<times> string) list"
  code_files :: "(int \<times> int option) list"
  outbox :: "(string \<times> string) list"

text \<open>
  The outcome of an operation that commits in several steps: the value or the exception, and
  the database with everything that was committed before.
\<close>

type_synonym 'a act = "(exn + 'a) \<times> db"

section \<open>Elementary statements\<close>

abbreviation find_arc :: "int \<Rightarrow> db \<Rightarrow> arc option" where
  "find_arc i d \<equiv> find_row aid i (arcs d)"

definition set_arc :: "int \<Rightarrow> (arc \<Rightarrow> arc) \<Rightarrow> db \<Rightarrow> db" where
  "set_arc i f d = d\<lparr> arcs := upd_row aid i f (arcs d) \<rparr>"

definition arc_exists :: "int \<Rightarrow> db \<Rightarrow> bool" where
  "arc_exists i d = (find_arc i d \<noteq> None)"

definition history_entry ::
    "time \<Rightarrow> int \<Rightarrow> string \<Rightarrow> json \<Rightarrow> int option \<Rightarrow> string option \<Rightarrow> history_row list \<Rightarrow> history_row" where
  "history_entry now a ty c cf actor hs =
     \<lparr> hid = next_rowid hid hs, h_arc = a, entry_type = ty, h_content = c, h_code_file = cf,
       h_actor = actor, h_created_at = cur_ts now \<rparr>"

definition log_history ::
    "time \<Rightarrow> int \<Rightarrow> string \<Rightarrow> json \<Rightarrow> int option \<Rightarrow> string option \<Rightarrow> db \<Rightarrow> db" where
  "log_history now a ty c cf actor d =
     d\<lparr> history := history d @ [history_entry now a ty c cf actor (history d)] \<rparr>"

subsection \<open>Per-arc state\<close>

definition state_cell :: "int \<Rightarrow> string \<Rightarrow> db \<Rightarrow> jtext option" where
  "state_cell a k d = map_option s_value (List.find (\<lambda>r. s_arc r = a \<and> s_key r = k) (state d))"

text \<open>\<open>INSERT ... ON CONFLICT(arc_id, key) DO UPDATE\<close>.\<close>

definition put_state_rows :: "time \<Rightarrow> int \<Rightarrow> string \<Rightarrow> jtext \<Rightarrow> state_row list \<Rightarrow> state_row list" where
  "put_state_rows now a k v rows =
     (if list_ex (\<lambda>r. s_arc r = a \<and> s_key r = k) rows
      then upd_where (\<lambda>r. s_arc r = a \<and> s_key r = k)
             (\<lambda>r. r\<lparr> s_value := v, s_updated_at := cur_ts now \<rparr>) rows
      else rows @ [\<lparr> sid = next_rowid sid rows, s_arc = a, s_key = k, s_value = v,
                     s_updated_at = cur_ts now \<rparr>])"

definition put_state :: "time \<Rightarrow> int \<Rightarrow> string \<Rightarrow> jtext \<Rightarrow> db \<Rightarrow> db" where
  "put_state now a k v d = d\<lparr> state := put_state_rows now a k v (state d) \<rparr>"

definition log_trust_event :: "time \<Rightarrow> int option \<Rightarrow> string \<Rightarrow> jdict option \<Rightarrow> db \<Rightarrow> int \<times> db" where
  "log_trust_event now a ty details d =
     (let i = next_rowid auid (audit d) in
      (i, d\<lparr> audit := audit d @ [\<lparr> auid = i, au_arc = a, au_type = ty,
            au_details = (case details of Some (x # xs) \<Rightarrow> Some (x # xs) | _ \<Rightarrow> None),
            au_created_at = cur_ts now \<rparr>] \<rparr>))"

subsection \<open>Facts about the store\<close>

abbreviation cell_upd :: "time \<Rightarrow> int \<Rightarrow> string \<Rightarrow> jtext \<Rightarrow> state_row list \<Rightarrow> state_row list" where
  "cell_upd now a k v rows \<equiv> upd_where (\<lambda>r. s_arc r = a \<and> s_key r = k)
     (\<lambda>r. r\<lparr> s_value := v, s_updated_at := cur_ts now \<rparr>) rows"

lemma find_cell_upd_other:
  "\<not> (a' = a \<and> k' = k) \<Longrightarrow>
     map_option s_value (List.find (\<lambda>r. s_arc r = a' \<and> s_key r = k') (cell_upd now a k v rows)) =
     map_option s_value (List.find (\<lambda>r. s_arc r = a' \<and> s_key r = k') rows)"
  by (induction rows) auto

lemma find_cell_upd_same:
  "list_ex (\<lambda>r. s_arc r = a \<and> s_key r = k) rows \<Longrightarrow>
     map_option s_value (List.find (\<lambda>r. s_arc r = a \<and> s_key r = k) (cell_upd now a k v rows)) = Some v"
  by (induction rows) auto

lemma find_append_row:
  "List.find P (rows @ [r]) = (case List.find P rows of Some x \<Rightarrow> Some x | None \<Rightarrow> if P r then Some r else None)"
  by (induction rows) auto

lemma find_put_state:
  "map_option s_value (List.find (\<lambda>r. s_arc r = a' \<and> s_key r = k') (put_state_rows now a k v rows)) =
     (if a' = a \<and> k' = k then Some v
      else map_option s_value (List.find (\<lambda>r. s_arc r = a' \<and> s_key r = k') rows))"
proof (cases "list_ex (\<lambda>r. s_arc r = a \<and> s_key r = k) rows")
  case True
  then show ?thesis
    using find_cell_upd_other [of a' a k' k now v rows] find_cell_upd_same [OF True, of now v]
    by (simp add: put_state_rows_def)
next
  case False
  then have "List.find (\<lambda>r. s_arc r = a \<and> s_key r = k) rows = None"
    by (simp add: find_None_iff list_ex_iff)
  then show ?thesis
    using False by (auto simp: put_state_rows_def find_append_row split: option.splits)
qed

lemma state_cell_put_state [tbl]:
  "state_cell a' k' (put_state now a k v d) =
     (if a' = a \<and> k' = k then Some v else state_cell a' k' d)"
  unfolding state_cell_def put_state_def using find_put_state [of a' k' now a k v "state d"] by simp

lemma put_state_frame [simp]:
  "arcs (put_state now a k v d) = arcs d" "events (put_state now a k v d) = events d"
  "queue (put_state now a k v d) = queue d" "history (put_state now a k v d) = history d"
  "grants (put_state now a k v d) = grants d" "policies (put_state now a k v d) = policies d"
  "outbox (put_state now a k v d) = outbox d" "resources (put_state now a k v d) = resources d"
  "audit (put_state now a k v d) = audit d"
  by (simp_all add: put_state_def)

lemma log_history_frame [simp]:
  "arcs (log_history now a ty c cf ac d) = arcs d" "state (log_history now a ty c cf ac d) = state d"
  "events (log_history now a ty c cf ac d) = events d" "queue (log_history now a ty c cf ac d) = queue d"
  "grants (log_history now a ty c cf ac d) = grants d" "resources (log_history now a ty c cf ac d) = resources d"
  "audit (log_history now a ty c cf ac d) = audit d" "outbox (log_history now a ty c cf ac d) = outbox d"
  "policies (log_history now a ty c cf ac d) = policies d"
  by (simp_all add: log_history_def)

lemma log_trust_event_frame [simp]:
  "arcs (snd (log_trust_event now a ty c d)) = arcs d"
  "state (snd (log_trust_event now a ty c d)) = state d"
  "queue (snd (log_trust_event now a ty c d)) = queue d"
  "history (snd (log_trust_event now a ty c d)) = history d"
  "resources (snd (log_trust_event now a ty c d)) = resources d"
  by (simp_all add: log_trust_event_def Let_def)

lemma set_arc_frame [simp]:
  "state (set_arc i f d) = state d" "events (set_arc i f d) = events d"
  "queue (set_arc i f d) = queue d" "history (set_arc i f d) = history d"
  "grants (set_arc i f d) = grants d" "resources (set_arc i f d) = resources d"
  "outbox (set_arc i f d) = outbox d" "audit (set_arc i f d) = audit d"
  "arcs (set_arc i f d) = upd_row aid i f (arcs d)"
  by (simp_all add: set_arc_def)

section \<open>Blank rows\<close>

text \<open>An empty database, and an arc with every column at its default; examples start from them.\<close>

definition empty_db :: db where
  "empty_db = \<lparr> arcs = [], history = [], state = [], grants = [], activations = [], events = [],
     queue = [], audit = [], policies = [], resources = [], arc_links = [], conv_arcs = [],
     templates = [], code_files = [], outbox = [] \<rparr>"

definition blank_arc :: "int \<Rightarrow> arc" where
  "blank_arc i = \<lparr> aid = i, parent_id = None, aname = ''a'', goal = None, astatus = Pending,
     step_order = 0, depth = 0, code_file_id = None, template_id = None, step_role = None,
     from_template = False, template_mutable = False, timeout_minutes = None, ainteg = TRUSTED,
     aoutput = OUT_PYTHON, aagent = EXECUTOR, descendant_tokens = 0, descendant_executions = 0,
     descendant_arc_count = 0, model_policy_id = None, wait_until = None, output_contract = None,
     arole = WORKER, verification_target_id = None, apriority = 100, origin_kind = None,
     origin_ref = None, acreated_at = 0, aupdated_at = None \<rparr>"

lemma blank_arc_sel [simp]:
  "aid (blank_arc i) = i" "parent_id (blank_arc i) = None" "astatus (blank_arc i) = Pending"
  "ainteg (blank_arc i) = TRUSTED" "aagent (blank_arc i) = EXECUTOR"
  "descendant_arc_count (blank_arc i) = 0" "step_order (blank_arc i) = 0" "depth (blank_arc i) = 0"
  "from_template (blank_arc i) = False" "template_mutable (blank_arc i) = False"
  "aname (blank_arc i) = ''a''" "goal (blank_arc i) = None" "aoutput (blank_arc i) = OUT_PYTHON"
  "apriority (blank_arc i) = 100" "arole (blank_arc i) = WORKER"
  "model_policy_id (blank_arc i) = None" "template_id (blank_arc i) = None"
  "origin_kind (blank_arc i) = None" "origin_ref (blank_arc i) = None"
  by (simp_all add: blank_arc_def)

lemma empty_db_sel [simp]:
  "arcs empty_db = []" "history empty_db = []" "state empty_db = []" "grants empty_db = []"
  "activations empty_db = []" "events empty_db = []" "queue empty_db = []" "audit empty_db = []"
  "policies empty_db = []" "resources empty_db = []" "arc_links empty_db = []"
  "conv_arcs empty_db = []" "templates empty_db = []" "code_files empty_db = []" "outbox empty_db = []"
  by (simp_all add: empty_db_def)

end
