(* ===== verification/Arc_Tree.thy ===== *)
theory Arc_Tree
  imports Arc_Store
begin

text \<open>
  The tree structure of arcs: the walks up the parent chain that several modules make
  (\<open>core/arcs/performance_counters.py\<close>, \<open>has_read_grant\<close> and
  \<open>_find_supervisor_ancestor\<close> of \<open>core/arcs/manager.py\<close>), the recursive subtree query and
  the descendant counters.

  A walk is a loop that could run forever on a cyclic table. It is written with fuel, the number
  of the arc it starts from: in a well-formed table a parent has a smaller id than its child, so
  the walk from arc \<open>i\<close> ends within \<open>i\<close> steps, and more fuel gives the same result
  (\<open>walk_enough\<close>). The recursive query is modelled by its result: the rows whose walk meets
  the root of the subtree, which is the least set closed under "child of" (\<open>subtree_step\<close>).
\<close>

section \<open>Walks and subtrees\<close>

definition parent_of :: "arc list \<Rightarrow> int \<Rightarrow> int option" where
  "parent_of as i = (case find_row aid i as of None \<Rightarrow> None | Some a \<Rightarrow> parent_id a)"

fun walk :: "nat \<Rightarrow> arc list \<Rightarrow> int \<Rightarrow> int list" where
  "walk 0 as i = []"
| "walk (Suc n) as i = (case parent_of as i of None \<Rightarrow> [] | Some p \<Rightarrow> p # walk n as p)"

definition walk_ancestors :: "arc list \<Rightarrow> int \<Rightarrow> int list" where
  "walk_ancestors as i = walk (nat i) as i"

definition children_rows :: "arc list \<Rightarrow> int \<Rightarrow> arc list" where
  "children_rows as i = filter (\<lambda>a. parent_id a = Some i) as"

definition get_children :: "int \<Rightarrow> db \<Rightarrow> arc list" where
  "get_children i d = sort_key step_order (children_rows (arcs d) i)"

definition subtree_rows :: "arc list \<Rightarrow> int \<Rightarrow> arc list" where
  "subtree_rows as i = filter (\<lambda>a. i \<in> set (walk_ancestors as (aid a))) as"

definition get_subtree :: "int \<Rightarrow> db \<Rightarrow> arc list" where
  "get_subtree i d = sort_key (\<lambda>a. (depth a, step_order a)) (subtree_rows (arcs d) i)"

section \<open>Well-formed tables\<close>

definition wf_tree :: "arc list \<Rightarrow> bool" where
  "wf_tree as =
     (wf_ids aid as \<and>
      (\<forall>a \<in> set as. 0 < aid a \<and>
         (\<forall>p. parent_id a = Some p \<longrightarrow> p < aid a \<and> find_row aid p as \<noteq> None)))"

lemma parent_of_lt:
  assumes "wf_tree as" "parent_of as i = Some p"
  shows "0 < p" "p < i" "find_row aid p as \<noteq> None" "find_row aid i as \<noteq> None"
proof -
  obtain a where a: "find_row aid i as = Some a" "parent_id a = Some p"
    using assms(2) by (auto simp: parent_of_def split: option.splits)
  have am: "a \<in> set as" "aid a = i" using find_row_Some [OF a(1)] by auto
  then show "p < i" "find_row aid p as \<noteq> None" "find_row aid i as \<noteq> None"
    using assms(1) a by (auto simp: wf_tree_def)
  then obtain b where "find_row aid p as = Some b" by blast
  from find_row_Some [OF this] have "b \<in> set as" "aid b = p" by auto
  then show "0 < p" using assms(1) by (auto simp: wf_tree_def)
qed

lemma walk_enough_aux:
  "wf_tree as \<Longrightarrow> nat i \<le> m \<Longrightarrow> nat i \<le> n \<Longrightarrow> walk m as i = walk n as i"
proof (induction "nat i" arbitrary: i m n rule: less_induct)
  case less
  show ?case
  proof (cases "parent_of as i")
    case None
    then show ?thesis by (cases m; cases n) simp_all
  next
    case (Some p)
    note p = parent_of_lt [OF less.prems(1) Some]
    obtain m' n' where mn: "m = Suc m'" "n = Suc n'"
      using less.prems p(1,2) by (cases m; cases n) auto
    have "walk m' as p = walk n' as p"
      by (rule less.hyps [OF _ less.prems(1)]) (use p mn less.prems in auto)
    then show ?thesis using Some mn by simp
  qed
qed

lemma walk_enough: "wf_tree as \<Longrightarrow> nat i \<le> n \<Longrightarrow> walk n as i = walk_ancestors as i"
  unfolding walk_ancestors_def by (rule walk_enough_aux) simp_all

lemma walk_unfold:
  assumes "wf_tree as"
  shows "walk_ancestors as i = (case parent_of as i of None \<Rightarrow> [] | Some p \<Rightarrow> p # walk_ancestors as p)"
proof (cases "parent_of as i")
  case None
  then show ?thesis unfolding walk_ancestors_def by (cases "nat i") simp_all
next
  case (Some p)
  note p = parent_of_lt [OF assms Some]
  then obtain n where n: "nat i = Suc n" by (cases "nat i") auto
  have "walk n as p = walk_ancestors as p" by (rule walk_enough [OF assms]) (use p n in auto)
  then show ?thesis using Some n by (simp add: walk_ancestors_def)
qed

lemma walk_less: "wf_tree as \<Longrightarrow> p \<in> set (walk_ancestors as i) \<Longrightarrow> 0 < p \<and> p < i"
proof (induction "nat i" arbitrary: i rule: less_induct)
  case less
  show ?case
  proof (cases "parent_of as i")
    case None
    then show ?thesis using less.prems walk_unfold [OF less.prems(1), of i] by simp
  next
    case (Some q)
    note q = parent_of_lt [OF less.prems(1) Some]
    have "p = q \<or> p \<in> set (walk_ancestors as q)"
      using less.prems(2) Some walk_unfold [OF less.prems(1), of i] by simp
    then show ?thesis using less.hyps [of q] q less.prems(1) by auto
  qed
qed

lemma distinct_walk: "wf_tree as \<Longrightarrow> distinct (walk_ancestors as i)"
proof (induction "nat i" arbitrary: i rule: less_induct)
  case less
  show ?case
  proof (cases "parent_of as i")
    case None
    then show ?thesis using walk_unfold [OF less.prems(1), of i] by simp
  next
    case (Some q)
    note q = parent_of_lt [OF less.prems(1) Some]
    have "distinct (walk_ancestors as q)" using less.hyps [of q] q less.prems by simp
    moreover have "q \<notin> set (walk_ancestors as q)" using walk_less [OF less.prems, of q q] by auto
    ultimately show ?thesis using Some walk_unfold [OF less.prems, of i] by simp
  qed
qed

text \<open>Walks see only the parent column.\<close>

lemma walk_cong: "(\<And>i. parent_of as' i = parent_of as i) \<Longrightarrow> walk n as' i = walk n as i"
  by (induction n arbitrary: i) (auto split: option.splits)

lemma parent_of_upd_where:
  assumes "\<And>a. aid (f a) = aid a" "\<And>a. parent_id (f a) = parent_id a"
  shows "parent_of (upd_where P f as) i = parent_of as i"
  using assms by (auto simp: parent_of_def find_row_upd_where split: option.splits)

lemma walk_upd_where:
  assumes "\<And>a. aid (f a) = aid a" "\<And>a. parent_id (f a) = parent_id a"
  shows "walk_ancestors (upd_where P f as) i = walk_ancestors as i"
  unfolding walk_ancestors_def by (rule walk_cong) (simp add: parent_of_upd_where assms)

lemma ball_upd_where:
  "(\<And>a. Q (f a) = Q a) \<Longrightarrow> (\<forall>a \<in> set (upd_where P f as). Q a) = (\<forall>a \<in> set as. Q a)"
  by (induction as) auto

lemma wf_tree_upd_where:
  assumes "\<And>a. aid (f a) = aid a" "\<And>a. parent_id (f a) = parent_id a"
  shows "wf_tree (upd_where P f as) = wf_tree as"
  using assms unfolding wf_tree_def
  by (simp add: wf_ids_upd_where find_row_upd_where ball_upd_where)

lemma walk_step:
  "wf_tree as \<Longrightarrow> q \<in> set (walk_ancestors as i) \<longleftrightarrow>
     (\<exists>p. parent_of as i = Some p \<and> (q = p \<or> q \<in> set (walk_ancestors as p)))"
  using walk_unfold [of as i] by (auto split: option.splits)

lemma walk_trans:
  "wf_tree as \<Longrightarrow> p \<in> set (walk_ancestors as i) \<Longrightarrow> q \<in> set (walk_ancestors as p) \<Longrightarrow>
     q \<in> set (walk_ancestors as i)"
proof (induction "nat i" arbitrary: i rule: less_induct)
  case less
  obtain r where r: "parent_of as i = Some r" "p = r \<or> p \<in> set (walk_ancestors as r)"
    using less.prems(1,2) walk_step by blast
  have "q \<in> set (walk_ancestors as r)"
    using r(2) less.hyps [of r] less.prems parent_of_lt [OF less.prems(1) r(1)] by auto
  then show ?case using r(1) walk_step [OF less.prems(1), of q i] by blast
qed

text \<open>An arc is below the top of its own chain or below a child of it.\<close>

lemma subtree_step:
  assumes "wf_tree as" "a \<in> set as"
  shows "a \<in> set (subtree_rows as i) \<longleftrightarrow>
    parent_id a = Some i \<or> (\<exists>b \<in> set (subtree_rows as i). parent_id a = Some (aid b))"
proof -
  have pa: "parent_of as (aid a) = parent_id a"
    using find_row_distinct [of aid as a] assms by (simp add: parent_of_def wf_tree_def)
  have "i \<in> set (walk_ancestors as p) \<longleftrightarrow> (\<exists>b \<in> set (subtree_rows as i). aid b = p)"
    if pp: "parent_id a = Some p" for p
  proof -
    have "find_row aid p as \<noteq> None" using pp assms by (auto simp: wf_tree_def)
    then obtain b where "find_row aid p as = Some b" by blast
    from find_row_Some [OF this] have "b \<in> set as" "aid b = p" by auto
    then show ?thesis using assms(1)
      by (auto simp: subtree_rows_def)
  qed
  then show ?thesis
    using assms walk_step [OF assms(1), of i "aid a"] pa by (auto simp: subtree_rows_def)
qed

section \<open>Adding an arc\<close>

lemma parent_of_append:
  "find_row aid (aid c) as = None \<Longrightarrow>
     parent_of (as @ [c]) i = (if i = aid c then parent_id c else parent_of as i)"
  by (auto simp: parent_of_def find_row_append split: option.splits)

lemma wf_tree_append:
  assumes "wf_tree as" "find_row aid (aid c) as = None" "0 < aid c"
    and "\<And>p. parent_id c = Some p \<Longrightarrow> p < aid c \<and> find_row aid p as \<noteq> None"
  shows "wf_tree (as @ [c])"
  using assms by (auto simp: wf_tree_def wf_ids_def find_row_append find_row_None split: option.splits)

lemma walk_append_old:
  assumes "wf_tree as" "find_row aid (aid c) as = None"
  shows "i \<noteq> aid c \<Longrightarrow> walk n (as @ [c]) i = walk n as i"
proof (induction n arbitrary: i)
  case (Suc n)
  have "p \<noteq> aid c" if "parent_of as i = Some p" for p
    using parent_of_lt(3) [OF assms(1) that] assms(2) by auto
  then show ?case using Suc by (auto simp: parent_of_append [OF assms(2)] split: option.splits)
qed simp

lemma walk_ancestors_append:
  assumes "wf_tree as" "find_row aid (aid c) as = None" "0 < aid c"
    and p: "\<And>p. parent_id c = Some p \<Longrightarrow> p < aid c \<and> find_row aid p as \<noteq> None"
  shows "walk_ancestors (as @ [c]) i =
    (if i = aid c then (case parent_id c of None \<Rightarrow> [] | Some p \<Rightarrow> p # walk_ancestors as p)
     else walk_ancestors as i)"
proof (cases "i = aid c")
  case False
  then show ?thesis using walk_append_old [OF assms(1,2)] by (simp add: walk_ancestors_def)
next
  case True
  have wf: "wf_tree (as @ [c])" by (rule wf_tree_append [OF assms])
  show ?thesis
  proof (cases "parent_id c")
    case None
    then show ?thesis using True walk_unfold [OF wf, of i] by (simp add: parent_of_append [OF assms(2)])
  next
    case (Some q)
    then have "q \<noteq> aid c" using p [of q] by auto
    then have "walk_ancestors (as @ [c]) q = walk_ancestors as q"
      using walk_append_old [OF assms(1,2)] by (simp add: walk_ancestors_def)
    then show ?thesis using True Some walk_unfold [OF wf, of i] by (simp add: parent_of_append [OF assms(2)])
  qed
qed

section \<open>Descendant counters\<close>

definition bump_arc_count :: "time \<Rightarrow> arc \<Rightarrow> arc" where
  "bump_arc_count now a =
     a\<lparr> descendant_arc_count := descendant_arc_count a + 1, aupdated_at := Some now \<rparr>"

definition increment_ancestor_arc_count :: "time \<Rightarrow> int \<Rightarrow> db \<Rightarrow> db" where
  "increment_ancestor_arc_count now i d =
     fold (\<lambda>p. set_arc p (bump_arc_count now)) (walk_ancestors (arcs d) i) d"

definition increment_ancestor_executions :: "time \<Rightarrow> int \<Rightarrow> db \<Rightarrow> db" where
  "increment_ancestor_executions now i d =
     fold (\<lambda>p. set_arc p (\<lambda>a. a\<lparr> descendant_executions := descendant_executions a + 1,
                                aupdated_at := Some now \<rparr>)) (walk_ancestors (arcs d) i) d"

definition increment_ancestor_tokens :: "time \<Rightarrow> int \<Rightarrow> int \<Rightarrow> db \<Rightarrow> db" where
  "increment_ancestor_tokens now i tokens d =
     (if tokens \<le> 0 then d
      else fold (\<lambda>p. set_arc p (\<lambda>a. a\<lparr> descendant_tokens := descendant_tokens a + tokens,
                                     aupdated_at := Some now \<rparr>)) (walk_ancestors (arcs d) i) d)"

definition counts_ok :: "arc list \<Rightarrow> bool" where
  "counts_ok as = (\<forall>a \<in> set as. descendant_arc_count a = int (length (subtree_rows as (aid a))))"

lemma fold_set_arc:
  assumes "\<And>a. aid (f a) = aid a"
  shows "distinct ps \<Longrightarrow> arcs (fold (\<lambda>p. set_arc p f) ps d) = upd_where (\<lambda>a. aid a \<in> set ps) f (arcs d)"
proof (induction ps arbitrary: d)
  case Nil
  then show ?case by (simp add: upd_where_def)
next
  case (Cons p ps)
  have "upd_where (\<lambda>a. aid a \<in> set ps) f (upd_row aid p f as) = upd_where (\<lambda>a. aid a \<in> set (p # ps)) f as" for as
    using Cons.prems assms by (induction as) (auto simp: upd_row_def)
  then show ?case using Cons by simp
qed

lemma bump_arc_count_sel [simp]:
  "aid (bump_arc_count now a) = aid a" "parent_id (bump_arc_count now a) = parent_id a"
  "astatus (bump_arc_count now a) = astatus a"
  "descendant_arc_count (bump_arc_count now a) = descendant_arc_count a + 1"
  by (simp_all add: bump_arc_count_def)

lemma length_subtree_upd_where:
  assumes "\<And>a. aid (f a) = aid a" "\<And>a. parent_id (f a) = parent_id a"
  shows "length (subtree_rows (upd_where P f as) i) = length (subtree_rows as i)"
proof -
  have "length (filter (\<lambda>a. i \<in> set (walk_ancestors ws (aid a))) (upd_where P f as)) =
      length (filter (\<lambda>a. i \<in> set (walk_ancestors ws (aid a))) as)" for ws
    using assms by (induction as) auto
  then show ?thesis by (simp add: subtree_rows_def walk_upd_where assms)
qed

lemma counts_ok_add:
  assumes "wf_tree as" "find_row aid (aid c) as = None" "0 < aid c" "counts_ok as"
    and "\<And>p. parent_id c = Some p \<Longrightarrow> p < aid c \<and> find_row aid p as \<noteq> None"
    and "descendant_arc_count c = 0"
  shows "counts_ok (upd_where (\<lambda>a. aid a \<in> set (walk_ancestors (as @ [c]) (aid c)))
    (bump_arc_count now) (as @ [c]))"
proof -
  let ?as = "as @ [c]" and ?W = "set (walk_ancestors (as @ [c]) (aid c))"
  have wf: "wf_tree ?as" by (rule wf_tree_append [OF assms(1-3,5)])
  have notc: "aid a \<noteq> aid c" if "a \<in> set as" for a
    using that assms(2) by (auto simp: find_row_None)
  have len: "length (subtree_rows ?as i) = length (subtree_rows as i) + (if i \<in> ?W then 1 else 0)"
    for i
  proof -
    have "filter (\<lambda>a. i \<in> set (walk_ancestors ?as (aid a))) as =
        filter (\<lambda>a. i \<in> set (walk_ancestors as (aid a))) as"
      using notc by (intro filter_cong) (auto simp: walk_ancestors_append [OF assms(1-3,5)])
    then show ?thesis by (simp add: subtree_rows_def)
  qed
  have cW: "aid c \<notin> ?W" using walk_less [OF wf, of "aid c" "aid c"] by auto
  have c0: "subtree_rows as (aid c) = []"
  proof -
    have "aid c \<notin> set (walk_ancestors as i)" for i
    proof
      assume "aid c \<in> set (walk_ancestors as i)"
      then have "find_row aid (aid c) as \<noteq> None"
      proof (induction "nat i" arbitrary: i rule: less_induct)
        case less
        obtain p where p: "parent_of as i = Some p" "aid c = p \<or> aid c \<in> set (walk_ancestors as p)"
          using less.prems walk_step [OF assms(1)] by blast
        then show ?case
          using less.hyps [of p] parent_of_lt [OF assms(1) p(1)] by auto
      qed
      then show False using assms(2) by simp
    qed
    then show ?thesis by (simp add: subtree_rows_def)
  qed
  show ?thesis unfolding counts_ok_def
  proof
    fix a assume "a \<in> set (upd_where (\<lambda>a. aid a \<in> ?W) (bump_arc_count now) ?as)"
    then obtain b where b: "b \<in> set ?as" "a = (if aid b \<in> ?W then bump_arc_count now b else b)"
      unfolding set_upd_where by blast
    have "descendant_arc_count b = int (length (subtree_rows as (aid b)))"
      using b(1) assms(4,6) c0 by (auto simp: counts_ok_def)
    then have "descendant_arc_count a = int (length (subtree_rows ?as (aid b)))"
      using b(2) len [of "aid b"] by auto
    then show "descendant_arc_count a =
        int (length (subtree_rows (upd_where (\<lambda>a. aid a \<in> ?W) (bump_arc_count now) ?as) (aid a)))"
      using b(2) by (simp add: length_subtree_upd_where)
  qed
qed

section \<open>Read grants\<close>

text \<open>\<open>INSERT OR REPLACE\<close>: a conflicting row is deleted first.\<close>

definition grant_read_access ::
    "time \<Rightarrow> int \<Rightarrow> int \<Rightarrow> string \<Rightarrow> string option \<Rightarrow> string option \<Rightarrow> db \<Rightarrow> exn + (int \<times> db)" where
  "grant_read_access now reader target dp reason by d =
     (if dp \<noteq> ''self'' \<and> dp \<noteq> ''subtree'' then Inl (ValueError ''Invalid depth'')
      else if \<not> arc_exists reader d then Inl (ValueError ''Reader arc not found'')
      else if \<not> arc_exists target d then Inl (ValueError ''Target arc not found'')
      else
        let i = next_rowid gid (grants d);
            rows = del_where (\<lambda>g. g_reader g = reader \<and> g_target g = target) (grants d)
        in Inr (i, d\<lparr> grants := rows @ [\<lparr> gid = i, g_reader = reader, g_target = target,
             g_depth = (if dp = ''self'' then Self else Subtree), g_reason = reason, g_by = by,
             g_created_at = cur_ts now \<rparr>] \<rparr>))"

definition has_grant_row :: "int \<Rightarrow> int \<Rightarrow> db \<Rightarrow> bool" where
  "has_grant_row reader target d =
     list_ex (\<lambda>g. g_reader g = reader \<and> g_target g = target) (grants d)"

definition has_subtree_grant :: "int \<Rightarrow> int \<Rightarrow> db \<Rightarrow> bool" where
  "has_subtree_grant reader target d =
     list_ex (\<lambda>g. g_reader g = reader \<and> g_target g = target \<and> g_depth g = Subtree) (grants d)"

text \<open>The upward loop of \<open>has_read_grant\<close>, guarded by \<open>range(100)\<close>.\<close>

fun grant_walk :: "nat \<Rightarrow> int \<Rightarrow> int \<Rightarrow> db \<Rightarrow> bool" where
  "grant_walk 0 reader cur d = False"
| "grant_walk (Suc n) reader cur d =
     (case parent_of (arcs d) cur of
        None \<Rightarrow> False
      | Some p \<Rightarrow> has_subtree_grant reader p d \<or> grant_walk n reader p d)"

definition has_read_grant :: "int \<Rightarrow> int \<Rightarrow> db \<Rightarrow> bool" where
  "has_read_grant reader target d =
     (has_grant_row reader target d \<or> grant_walk 100 reader target d)"

definition list_read_grants :: "int \<Rightarrow> db \<Rightarrow> grant_row list" where
  "list_read_grants i d = sort_key gid (filter (\<lambda>g. g_reader g = i) (grants d))"

lemma grant_walk_spec:
  "grant_walk n reader cur d \<longleftrightarrow>
     (\<exists>p \<in> set (walk n (arcs d) cur). has_subtree_grant reader p d)"
  by (induction n arbitrary: cur) (auto split: option.splits)

lemma walk_take: "wf_tree as \<Longrightarrow> walk n as i = take n (walk_ancestors as i)"
proof (induction n arbitrary: i)
  case (Suc n)
  then show ?case using walk_unfold [OF Suc.prems, of i] by (simp split: option.splits)
qed simp

end
