(* ===== verification/Model_Health.thy ===== *)
theory Model_Health
  imports Prelude "HOL-Library.AList" "HOL-Library.List_Lexorder" "HOL-Library.Char_ord"
begin

text \<open>
  Model health tracking (\<open>core/models/health.py\<close>): the sliding window of calls per model in
  the \<open>model_calls\<close> table, and the in-memory cache of the health computed from it.

  The cache and the last errors are dicts, as association lists with unique keys in insertion
  order. Rates are exact rationals. The clock is the argument \<open>now\<close> of each operation; the
  three configuration values are a record. A row's timestamp and the expiry times are
  microseconds; their ISO texts compare in the same way.
\<close>

datatype model_health = HEALTHY | DEGRADED | UNHEALTHY | CIRCUIT_OPEN

record health_state =
  hs_model :: string
  health :: model_health
  success_rate :: rat
  consecutive_failures :: nat
  total_attempts :: nat
  backoff_multiplier :: rat
  circuit_open_until :: "time option"
  last_success_at :: "time option"
  last_failure_at :: "time option"
  last_error :: "string option"

record provider_health =
  ph_provider :: string
  ph_health :: model_health
  ph_model_count :: nat
  ph_circuit_open_count :: nat

record health_config =
  window_size :: int
  breaker_threshold :: int
  breaker_recovery :: int

record call_row =
  cid :: int
  call_model :: string
  call_success :: bool
  call_error :: "string option"
  call_provider :: string
  called_at :: time

record tracker =
  calls :: "call_row list"
  cache :: "(string \<times> health_state) list"
  last_errors :: "(string \<times> string) list"

section \<open>The sliding window\<close>

definition newest_first :: "string \<Rightarrow> call_row list \<Rightarrow> call_row list" where
  "newest_first m rows = sort_key (\<lambda>r. - called_at r) (filter (\<lambda>r. call_model r = m) rows)"

definition window :: "health_config \<Rightarrow> string \<Rightarrow> call_row list \<Rightarrow> call_row list" where
  "window cfg m rows = sql_limit (window_size cfg) (newest_first m rows)"

definition extract_provider :: "string \<Rightarrow> string" where
  "extract_provider m =
     (if CHR '':'' \<in> set m then takeWhile (\<lambda>c. c \<noteq> CHR '':'') m else ''anthropic'')"

section \<open>Recalculation\<close>

definition default_state :: "string \<Rightarrow> health_state" where
  "default_state m =
     \<lparr> hs_model = m, health = HEALTHY, success_rate = 1, consecutive_failures = 0,
       total_attempts = 0, backoff_multiplier = 1, circuit_open_until = None,
       last_success_at = None, last_failure_at = None, last_error = None \<rparr>"

definition first_time :: "bool \<Rightarrow> call_row list \<Rightarrow> time option" where
  "first_time ok rows = map_option called_at (List.find (\<lambda>r. call_success r = ok) rows)"

definition or_else :: "'a option \<Rightarrow> 'a option \<Rightarrow> 'a option" where
  "or_else a b = (case a of Some x \<Rightarrow> Some x | None \<Rightarrow> b)"

text \<open>The verdict from the number of consecutive failures and the success rate.\<close>

definition classify :: "health_config \<Rightarrow> time \<Rightarrow> nat \<Rightarrow> rat \<Rightarrow> model_health \<times> rat \<times> time option" where
  "classify cfg now consec rate =
     (if int consec \<ge> breaker_threshold cfg
      then (CIRCUIT_OPEN, 4, Some (now + breaker_recovery cfg * 1000000))
      else if rate < 1 / 2 then (UNHEALTHY, 4, None)
      else if rate < 4 / 5 then (DEGRADED, 2, None)
      else (HEALTHY, 1, None))"

definition recalculate_health ::
    "health_config \<Rightarrow> time \<Rightarrow> string \<Rightarrow> bool option \<Rightarrow> time option \<Rightarrow> tracker \<Rightarrow> tracker" where
  "recalculate_health cfg now m success ts t =
     (let rows = window cfg m (calls t);
          total = length rows;
          ts_ok = (if success = Some True then ts else None);
          ts_bad = (if success = Some False then ts else None)
      in if total = 0
         then t\<lparr> cache := AList.update m ((default_state m)\<lparr> last_success_at := ts_ok,
                   last_failure_at := ts_bad \<rparr>) (cache t) \<rparr>
         else
           let rate = of_nat (length (filter call_success rows)) / of_nat total;
               consec = length (takeWhile (\<lambda>r. \<not> call_success r) rows);
               (h, fac, until) = classify cfg now consec rate
           in t\<lparr> cache := AList.update m
                \<lparr> hs_model = m, health = h, success_rate = rate, consecutive_failures = consec,
                  total_attempts = total, backoff_multiplier = fac, circuit_open_until = until,
                  last_success_at = or_else (first_time True rows) ts_ok,
                  last_failure_at = or_else (first_time False rows) ts_bad,
                  last_error = map_of (last_errors t) m \<rparr> (cache t) \<rparr>)"

section \<open>Operations\<close>

definition trim_window :: "health_config \<Rightarrow> string \<Rightarrow> call_row list \<Rightarrow> call_row list" where
  "trim_window cfg m rows =
     (let old = drop (nat (window_size cfg)) (newest_first m rows)
      in del_where (\<lambda>r. cid r \<in> cid ` set old) rows)"

definition record_model_call ::
    "health_config \<Rightarrow> time \<Rightarrow> string \<Rightarrow> bool \<Rightarrow> string option \<Rightarrow> string option \<Rightarrow> tracker \<Rightarrow> tracker"
where
  "record_model_call cfg now m success err_type err_msg t =
     (let errs = (if success then AList.delete m (last_errors t)
                  else case err_msg of
                         Some (c # cs) \<Rightarrow> AList.update m (c # cs) (last_errors t)
                       | _ \<Rightarrow> last_errors t);
          row = \<lparr> cid = next_rowid cid (calls t), call_model = m, call_success = success,
                  call_error = err_type, call_provider = extract_provider m, called_at = now \<rparr>;
          rows = trim_window cfg m (calls t @ [row])
      in recalculate_health cfg now m (Some success) (Some now)
           (t\<lparr> calls := rows, last_errors := errs \<rparr>))"

definition get_model_health :: "health_config \<Rightarrow> time \<Rightarrow> string \<Rightarrow> tracker \<Rightarrow> health_state \<times> tracker"
where
  "get_model_health cfg now m t =
     (case map_of (cache t) m of
        Some s \<Rightarrow>
          (case circuit_open_until s of
             Some until \<Rightarrow>
               if now \<ge> until
               then let t' = recalculate_health cfg now m None None t
                    in (the (map_of (cache t') m), t')
               else (s, t)
           | None \<Rightarrow> (s, t))
      | None \<Rightarrow>
          (let t' = recalculate_health cfg now m None None t
           in (case map_of (cache t') m of Some s \<Rightarrow> s | None \<Rightarrow> default_state m, t')))"

definition get_backoff_multiplier :: "health_config \<Rightarrow> time \<Rightarrow> string \<Rightarrow> tracker \<Rightarrow> rat \<times> tracker" where
  "get_backoff_multiplier cfg now m t =
     (let (s, t') = get_model_health cfg now m t in (backoff_multiplier s, t'))"

definition should_circuit_break :: "health_config \<Rightarrow> time \<Rightarrow> string \<Rightarrow> tracker \<Rightarrow> bool \<times> tracker" where
  "should_circuit_break cfg now m t =
     (let (s, t') = get_model_health cfg now m t in (health s = CIRCUIT_OPEN, t'))"

record registry_entry =
  re_provider :: string
  re_model :: string
  re_cost_out :: rat

definition all_cloud_models_circuit_open :: "registry_entry list \<Rightarrow> tracker \<Rightarrow> bool" where
  "all_cloud_models_circuit_open reg t =
     (let ids = map (\<lambda>e. re_provider e @ '':'' @ re_model e) (filter (\<lambda>e. re_cost_out e > 0) reg);
          tracked = filter (\<lambda>m. map_of (cache t) m \<noteq> None) ids
      in list_all (\<lambda>m. case map_of (cache t) m of
                         Some s \<Rightarrow> health s = CIRCUIT_OPEN | None \<Rightarrow> True) ids \<and> tracked \<noteq> [])"

fun severity :: "model_health \<Rightarrow> int" where
  "severity HEALTHY = 0"
| "severity DEGRADED = 1"
| "severity UNHEALTHY = 2"
| "severity CIRCUIT_OPEN = -1"

fun worst_of :: "health_state list \<Rightarrow> model_health \<Rightarrow> model_health" where
  "worst_of [] w = w"
| "worst_of (s # ss) w =
     (if health s \<noteq> CIRCUIT_OPEN \<and> severity (health s) > severity w
      then worst_of ss (health s) else worst_of ss w)"

definition provider_states :: "string \<Rightarrow> tracker \<Rightarrow> health_state list" where
  "provider_states p t =
     filter (\<lambda>s. extract_provider (hs_model s) = p) (map snd (cache t))"

definition get_provider_health :: "string \<Rightarrow> tracker \<Rightarrow> provider_health" where
  "get_provider_health p t =
     (let states = provider_states p t;
          n = length (filter (\<lambda>s. health s = CIRCUIT_OPEN) states)
      in \<lparr> ph_provider = p,
           ph_health = (if states = [] then HEALTHY
                        else if n = length states then CIRCUIT_OPEN
                        else worst_of states HEALTHY),
           ph_model_count = length states,
           ph_circuit_open_count = n \<rparr>)"

definition get_all_provider_health :: "tracker \<Rightarrow> provider_health list" where
  "get_all_provider_health t =
     map (\<lambda>p. get_provider_health p t)
       (sort (remdups (map (\<lambda>(k, s). extract_provider (hs_model s)) (cache t))))"

definition get_all_model_health :: "health_config \<Rightarrow> time \<Rightarrow> tracker \<Rightarrow> health_state list \<times> tracker" where
  "get_all_model_health cfg now t =
     fold (\<lambda>m (acc, t). let (s, t') = get_model_health cfg now m t in (acc @ [s], t'))
       (sort (remdups (map call_model (calls t)))) ([], t)"

definition reset_circuit_breaker :: "health_config \<Rightarrow> time \<Rightarrow> string \<Rightarrow> tracker \<Rightarrow> tracker" where
  "reset_circuit_breaker cfg now m t =
     recalculate_health cfg now m None None (t\<lparr> cache := AList.delete m (cache t) \<rparr>)"

definition cleanup_old_calls :: "time \<Rightarrow> int \<Rightarrow> tracker \<Rightarrow> nat \<times> tracker" where
  "cleanup_old_calls now days t =
     (let cutoff = now - days * 86400000000;
          old = filter (\<lambda>r. called_at r < cutoff) (calls t)
      in (length old, t\<lparr> calls := del_where (\<lambda>r. called_at r < cutoff) (calls t) \<rparr>))"

section \<open>The contract of a backoff multiplier\<close>

text \<open>
  What a retry policy relies on when it scales its delays by a model's health: the factor is at
  least one and bounded.
\<close>

locale backoff_source =
  fixes factor :: "'s \<Rightarrow> rat" and top :: rat and ok :: "'s \<Rightarrow> bool"
  assumes factor_ge: "ok s \<Longrightarrow> 1 \<le> factor s"
    and factor_le: "ok s \<Longrightarrow> factor s \<le> top"
begin

lemma scaled_bounds:
  assumes "ok s" "0 \<le> d"
  shows "d \<le> d * factor s" "d * factor s \<le> d * top"
  using mult_left_mono [OF factor_ge [OF assms(1)] assms(2)]
    mult_left_mono [OF factor_le [OF assms(1)] assms(2)] by simp_all

end

section \<open>Facts about the tracker\<close>

fun multiplier_of :: "model_health \<Rightarrow> rat" where
  "multiplier_of HEALTHY = 1"
| "multiplier_of DEGRADED = 2"
| "multiplier_of UNHEALTHY = 4"
| "multiplier_of CIRCUIT_OPEN = 4"

text \<open>A health state as \<open>recalculate_health\<close> leaves it.\<close>

definition health_state_ok :: "health_state \<Rightarrow> bool" where
  "health_state_ok s =
     (backoff_multiplier s = multiplier_of (health s) \<and>
      (health s = CIRCUIT_OPEN) = (circuit_open_until s \<noteq> None) \<and>
      consecutive_failures s \<le> total_attempts s \<and> 0 \<le> success_rate s \<and> success_rate s \<le> 1)"

definition tracker_ok :: "tracker \<Rightarrow> bool" where
  "tracker_ok t = (\<forall>m s. map_of (cache t) m = Some s \<longrightarrow> health_state_ok s)"

interpretation health_backoff: backoff_source backoff_multiplier 4 health_state_ok
proof
  fix s
  assume "health_state_ok s"
  then have "backoff_multiplier s = multiplier_of (health s)" by (simp add: health_state_ok_def)
  then show "1 \<le> backoff_multiplier s" "backoff_multiplier s \<le> 4" by (cases "health s"; simp)+
qed

lemma default_state_ok: "health_state_ok (default_state m)"
  by (simp add: health_state_ok_def default_state_def)

lemma classify_ok:
  "classify cfg now c r = (h, fac, until) \<Longrightarrow>
     fac = multiplier_of h \<and> (h = CIRCUIT_OPEN) = (until \<noteq> None)"
  by (auto simp: classify_def split: if_splits)

lemma rate_bounds:
  "0 \<le> (of_nat (length (filter P xs)) / of_nat (length xs) :: rat)"
  "(of_nat (length (filter P xs)) / of_nat (length xs) :: rat) \<le> 1"
  by (simp_all add: divide_le_eq_1)

text \<open>The new cache entry, and that nothing else of the cache changes.\<close>

definition fresh_state :: "health_config \<Rightarrow> time \<Rightarrow> string \<Rightarrow> bool option \<Rightarrow> time option \<Rightarrow> tracker \<Rightarrow> health_state"
where
  "fresh_state cfg now m success ts t = the (map_of (cache (recalculate_health cfg now m success ts t)) m)"

lemma recalculate_other [simp]:
  "m' \<noteq> m \<Longrightarrow> map_of (cache (recalculate_health cfg now m ok ts t)) m' = map_of (cache t) m'"
  by (simp add: recalculate_health_def Let_def update_conv' split: prod.splits)

lemma recalculate_same [simp]:
  "map_of (cache (recalculate_health cfg now m ok ts t)) m = Some (fresh_state cfg now m ok ts t)"
  by (simp add: fresh_state_def recalculate_health_def Let_def update_conv' split: prod.splits)

lemma recalculate_frame [simp]:
  "calls (recalculate_health cfg now m ok ts t) = calls t"
  "last_errors (recalculate_health cfg now m ok ts t) = last_errors t"
  by (simp_all add: recalculate_health_def Let_def split: prod.splits)

lemma fresh_state_empty:
  "window cfg m (calls t) = [] \<Longrightarrow> health (fresh_state cfg now m ok ts t) = HEALTHY"
  by (simp add: fresh_state_def recalculate_health_def update_conv' default_state_def)

lemma fresh_state_health:
  assumes "window cfg m (calls t) = rows" "rows \<noteq> []"
  shows "(health (fresh_state cfg now m ok ts t), backoff_multiplier (fresh_state cfg now m ok ts t),
      circuit_open_until (fresh_state cfg now m ok ts t)) =
    classify cfg now (length (takeWhile (\<lambda>r. \<not> call_success r) rows))
      (of_nat (length (filter call_success rows)) / of_nat (length rows))"
  using assms by (simp add: fresh_state_def recalculate_health_def Let_def update_conv' split: prod.splits)

lemma fresh_state_ok: "health_state_ok (fresh_state cfg now m ok ts t)"
proof (cases "window cfg m (calls t)")
  case Nil
  then show ?thesis
    by (simp add: fresh_state_def recalculate_health_def update_conv' default_state_def health_state_ok_def)
next
  case (Cons r rs)
  then show ?thesis
    using rate_bounds [of call_success "r # rs"] length_takeWhile_le [of "\<lambda>r. \<not> call_success r" "r # rs"]
    by (auto simp: fresh_state_def recalculate_health_def Let_def update_conv' health_state_ok_def
        simp del: takeWhile.simps filter.simps dest!: classify_ok split: prod.splits)
qed

lemma recalculate_ok: "tracker_ok t \<Longrightarrow> tracker_ok (recalculate_health cfg now m ok ts t)"
  unfolding tracker_ok_def
proof (intro allI impI)
  fix m' s
  assume "\<forall>m s. map_of (cache t) m = Some s \<longrightarrow> health_state_ok s"
    and "map_of (cache (recalculate_health cfg now m ok ts t)) m' = Some s"
  then show "health_state_ok s" by (cases "m' = m") (auto simp: fresh_state_ok)
qed

lemma tracker_ok_cong: "cache t' = cache t \<Longrightarrow> tracker_ok t' = tracker_ok t"
  by (simp add: tracker_ok_def)

lemma get_model_health_ok: "tracker_ok t \<Longrightarrow> tracker_ok (snd (get_model_health cfg now m t))"
  by (auto simp: get_model_health_def Let_def recalculate_ok split: option.splits)

lemma record_model_call_ok: "tracker_ok t \<Longrightarrow> tracker_ok (record_model_call cfg now m ok et em t)"
  unfolding record_model_call_def Let_def by (intro recalculate_ok) (simp add: tracker_ok_def)

lemma reset_ok: "tracker_ok t \<Longrightarrow> tracker_ok (reset_circuit_breaker cfg now m t)"
  unfolding reset_circuit_breaker_def
  by (intro recalculate_ok) (auto simp: tracker_ok_def delete_conv' split: if_splits)

lemma cleanup_ok: "tracker_ok t \<Longrightarrow> tracker_ok (snd (cleanup_old_calls now d t))"
  by (simp add: cleanup_old_calls_def Let_def tracker_ok_def)

section \<open>Runs of the tracker\<close>

datatype health_op =
    RecordCall string bool "string option" "string option"
  | Query string
  | ResetBreaker string
  | Cleanup int

fun health_step :: "health_config \<Rightarrow> time \<times> health_op \<Rightarrow> tracker \<Rightarrow> tracker" where
  "health_step cfg (now, RecordCall m ok et em) t = record_model_call cfg now m ok et em t"
| "health_step cfg (now, Query m) t = snd (get_model_health cfg now m t)"
| "health_step cfg (now, ResetBreaker m) t = reset_circuit_breaker cfg now m t"
| "health_step cfg (now, Cleanup d) t = snd (cleanup_old_calls now d t)"

lemma health_step_ok: "tracker_ok t \<Longrightarrow> tracker_ok (health_step cfg op t)"
  by (cases "(cfg, op, t)" rule: health_step.cases)
    (simp_all add: record_model_call_ok get_model_health_ok reset_ok cleanup_ok)

lemma health_run_ok: "tracker_ok t \<Longrightarrow> tracker_ok (fold (health_step cfg) ops t)"
  by (induction ops arbitrary: t) (simp_all add: health_step_ok)

section \<open>The window after a call\<close>

lemma newest_first_props:
  "mset (newest_first m rows) = mset (filter (\<lambda>r. call_model r = m) rows)"
  "set (newest_first m rows) = {r \<in> set rows. call_model r = m}"
  by (auto simp: newest_first_def)

lemma length_filter_mset: "mset xs = mset ys \<Longrightarrow> length (filter P xs) = length (filter P ys)"
  by (metis mset_filter size_mset)

lemma trim_window_length:
  shows "length (filter (\<lambda>r. call_model r = m) (trim_window cfg m rows)) \<le> nat (window_size cfg)"
proof -
  let ?S = "newest_first m rows" and ?w = "nat (window_size cfg)"
  let ?keep = "\<lambda>r. cid r \<notin> cid ` set (drop ?w ?S)"
  have "mset (filter (\<lambda>r. call_model r = m) rows) = mset ?S" by (simp add: newest_first_props)
  then have len: "length (filter ?keep (filter (\<lambda>r. call_model r = m) rows)) = length (filter ?keep ?S)"
    by (rule length_filter_mset)
  have "filter ?keep ?S = filter ?keep (take ?w ?S) @ filter ?keep (drop ?w ?S)"
    by (metis append_take_drop_id filter_append)
  moreover have "filter ?keep (drop ?w ?S) = []" by (auto simp: filter_empty_conv)
  ultimately have "length (filter ?keep ?S) \<le> ?w"
    using length_filter_le [of ?keep "take ?w ?S"] by simp
  then have "length (filter ?keep (filter (\<lambda>r. call_model r = m) rows)) \<le> ?w" using len by simp
  then show ?thesis by (simp add: trim_window_def Let_def del_where_def conj_commute)
qed

lemma trim_window_other:
  assumes "wf_ids cid rows"
  shows "filter (\<lambda>r. call_model r \<noteq> m) (trim_window cfg m rows) = filter (\<lambda>r. call_model r \<noteq> m) rows"
proof -
  have "cid r \<notin> cid ` set (drop n (newest_first m rows))" if "r \<in> set rows" "call_model r \<noteq> m" for r n
  proof
    assume "cid r \<in> cid ` set (drop n (newest_first m rows))"
    then obtain r' where "r' \<in> set rows" "call_model r' = m" "cid r' = cid r"
      using set_drop_subset [of n "newest_first m rows"] by (auto simp: newest_first_props)
    then show False using assms that by (auto simp: wf_ids_def distinct_map inj_on_def)
  qed
  then show ?thesis
    by (auto simp: trim_window_def Let_def del_where_def intro: filter_cong)
qed

section \<open>A circuit that stays open\<close>

text \<open>The answers of \<open>should_circuit_break\<close> to a sequence of queries, with no call between.\<close>

fun break_answers :: "health_config \<Rightarrow> string \<Rightarrow> time list \<Rightarrow> tracker \<Rightarrow> bool list \<times> tracker" where
  "break_answers cfg m [] t = ([], t)"
| "break_answers cfg m (now # ts) t =
     (let (b, t') = should_circuit_break cfg now m t; (bs, t'') = break_answers cfg m ts t'
      in (b # bs, t''))"

definition tripped :: "health_config \<Rightarrow> string \<Rightarrow> tracker \<Rightarrow> bool" where
  "tripped cfg m t =
     (let rows = window cfg m (calls t) in
      rows \<noteq> [] \<and> int (length (takeWhile (\<lambda>r. \<not> call_success r) rows)) \<ge> breaker_threshold cfg \<and>
      (case map_of (cache t) m of Some s \<Rightarrow> health s = CIRCUIT_OPEN | None \<Rightarrow> True))"

lemma tripped_fresh: "tripped cfg m t \<Longrightarrow> health (fresh_state cfg now m ok ts t) = CIRCUIT_OPEN"
  using fresh_state_health [of cfg m t "window cfg m (calls t)" now ok ts]
  by (auto simp: tripped_def Let_def classify_def)

lemma tripped_recalculate: "tripped cfg m t \<Longrightarrow> tripped cfg m (recalculate_health cfg now m ok ts t)"
  using tripped_fresh [of cfg m t now ok ts] by (simp add: tripped_def Let_def)

lemma tripped_query:
  assumes "tripped cfg m t" "should_circuit_break cfg now m t = (b, t')"
  shows "b \<and> tripped cfg m t'"
proof -
  have "map_of (cache t) m = Some s \<Longrightarrow> health s = CIRCUIT_OPEN" for s
    using assms(1) by (simp add: tripped_def Let_def)
  then show ?thesis
    using assms tripped_recalculate [OF assms(1), of now None None]
      tripped_fresh [OF assms(1), of now None None]
    by (auto simp: should_circuit_break_def get_model_health_def Let_def split: option.splits if_splits)
qed

lemma break_answers_tripped:
  "tripped cfg m t \<Longrightarrow> fst (break_answers cfg m ts t) = replicate (length ts) True"
proof (induction ts arbitrary: t)
  case Nil
  then show ?case by simp
next
  case (Cons now ts)
  obtain b t' where q: "should_circuit_break cfg now m t = (b, t')" by fastforce
  show ?case using Cons.IH [of t'] tripped_query [OF Cons.prems q] q by (simp add: split_def Let_def)
qed

section \<open>Aggregation\<close>

lemma worst_of_ub:
  "w \<noteq> CIRCUIT_OPEN \<Longrightarrow>
     worst_of ss w \<noteq> CIRCUIT_OPEN \<and> severity w \<le> severity (worst_of ss w) \<and>
     (\<forall>s \<in> set ss. health s \<noteq> CIRCUIT_OPEN \<longrightarrow> severity (health s) \<le> severity (worst_of ss w)) \<and>
     (worst_of ss w = w \<or> (\<exists>s \<in> set ss. health s = worst_of ss w))"
proof (induction ss arbitrary: w)
  case Nil
  then show ?case by simp
next
  case (Cons s ss)
  show ?case
  proof (cases "health s \<noteq> CIRCUIT_OPEN \<and> severity (health s) > severity w")
    case True
    then show ?thesis using Cons.IH [of "health s"] by auto
  next
    case False
    then show ?thesis using Cons.IH [OF Cons.prems] by auto
  qed
qed

lemma length_filter_all: "length (filter P xs) = length xs \<longleftrightarrow> (\<forall>x \<in> set xs. P x)"
  by (metis filter_id_conv length_filter_less less_irrefl)

section \<open>Properties\<close>

definition demo_health :: health_config where
  "demo_health = \<lparr> window_size = 3, breaker_threshold = 2, breaker_recovery = 60 \<rparr>"

definition empty_tracker :: tracker where
  "empty_tracker = \<lparr> calls = [], cache = [], last_errors = [] \<rparr>"

definition failing_ops :: "(time \<times> health_op) list" where
  "failing_ops = [(1, RecordCall ''a:m'' False None None), (2, RecordCall ''a:m'' False None None)]"

text \<open>In every state a run of calls, queries, resets and clean-ups reaches, each cached model
  has the multiplier of its health (1 healthy, 2 degraded, 4 unhealthy or open), an expiry time
  exactly when its circuit is open, and a success rate between 0 and 1; so the backoff factor is
  always between 1 and 4.\<close>

theorem health_cache_ok:
  assumes "map_of (cache (fold (health_step cfg) ops empty_tracker)) m = Some s"
  shows "backoff_multiplier s = multiplier_of (health s) \<and>
    (health s = CIRCUIT_OPEN) = (circuit_open_until s \<noteq> None) \<and>
    0 \<le> success_rate s \<and> success_rate s \<le> 1 \<and>
    1 \<le> backoff_multiplier s \<and> backoff_multiplier s \<le> 4"
proof -
  have "tracker_ok empty_tracker" by (simp add: tracker_ok_def empty_tracker_def)
  then have "health_state_ok s" using health_run_ok assms by (auto simp: tracker_ok_def)
  then show ?thesis
    using health_backoff.factor_ge health_backoff.factor_le by (auto simp: health_state_ok_def)
qed

lemma failing_run:
  "calls (fold (health_step demo_health) failing_ops empty_tracker) =
     [\<lparr> cid = 1, call_model = ''a:m'', call_success = False, call_error = None, call_provider = ''a'', called_at = 1 \<rparr>,
      \<lparr> cid = 2, call_model = ''a:m'', call_success = False, call_error = None, call_provider = ''a'', called_at = 2 \<rparr>]"
  by (simp add: failing_ops_def record_model_call_def Let_def empty_tracker_def trim_window_def
      newest_first_def demo_health_def del_where_def next_rowid_def extract_provider_def)

lemma failing_run_cached:
  "\<exists>s. map_of (cache (fold (health_step demo_health) failing_ops empty_tracker)) ''a:m'' = Some s"
  by (simp add: failing_ops_def record_model_call_def Let_def)

theorem health_cache_ok_witness:
  "\<exists>s. map_of (cache (fold (health_step demo_health) failing_ops empty_tracker)) ''a:m'' = Some s \<and>
     backoff_multiplier s \<le> 4"
  using failing_run_cached health_cache_ok [of demo_health failing_ops "''a:m''"] by blast

text \<open>The sliding window. After a call is recorded its model has at most \<open>window_size\<close>
  rows left, and the rows of the other models are untouched.\<close>

theorem health_window_bound:
  assumes "wf_ids cid (calls t)"
  shows "length (filter (\<lambda>r. call_model r = m) (calls (record_model_call cfg now m ok et em t)))
      \<le> nat (window_size cfg) \<and>
    filter (\<lambda>r. call_model r \<noteq> m) (calls (record_model_call cfg now m ok et em t)) =
      filter (\<lambda>r. call_model r \<noteq> m) (calls t)"
proof -
  define row where "row = \<lparr> cid = next_rowid cid (calls t), call_model = m, call_success = ok,
    call_error = et, call_provider = extract_provider m, called_at = now \<rparr>"
  have c: "calls (record_model_call cfg now m ok et em t) = trim_window cfg m (calls t @ [row])"
    by (simp add: record_model_call_def Let_def row_def)
  have wf: "wf_ids cid (calls t @ [row])" by (rule wf_ids_insert [OF assms]) (simp add: row_def)
  have "filter (\<lambda>r. call_model r \<noteq> m) (calls t @ [row]) = filter (\<lambda>r. call_model r \<noteq> m) (calls t)"
    by (simp add: row_def)
  then show ?thesis unfolding c using trim_window_length trim_window_other [OF wf] by simp
qed

theorem health_window_bound_witness:
  "length (filter (\<lambda>r. call_model r = ''a:m'') (calls (record_model_call demo_health 9 ''a:m'' True None None
      (fold (health_step demo_health) failing_ops empty_tracker)))) \<le> nat (window_size demo_health)"
proof -
  have "wf_ids cid (calls (fold (health_step demo_health) failing_ops empty_tracker))"
    by (simp add: failing_run wf_ids_def)
  from health_window_bound [OF this] show ?thesis by blast
qed

text \<open>An open circuit never half-opens by itself. If the window ends in at least
  \<open>threshold\<close> failures and the cached state (if any) is open, then every later query, whenever
  it is made, answers that the circuit is open, until a new call is recorded: after the recovery
  time the state is recomputed from the same rows and opens again.\<close>

theorem health_never_half_opens:
  assumes "window cfg m (calls t) = rows" "rows \<noteq> []"
    and "int (length (takeWhile (\<lambda>r. \<not> call_success r) rows)) \<ge> breaker_threshold cfg"
    and "\<forall>s. map_of (cache t) m = Some s \<longrightarrow> health s = CIRCUIT_OPEN"
  shows "fst (break_answers cfg m ts t) = replicate (length ts) True"
  by (rule break_answers_tripped) (use assms in \<open>auto simp: tripped_def split: option.splits\<close>)

definition failing_tracker :: tracker where
  "failing_tracker = (fold (health_step demo_health) failing_ops empty_tracker)\<lparr> cache := [] \<rparr>"

theorem health_never_half_opens_witness:
  "fst (break_answers demo_health ''a:m'' [10, 10 ^ 9, 10 ^ 12] failing_tracker) = [True, True, True]"
proof -
  have c: "map call_success (window demo_health ''a:m'' (calls failing_tracker)) = [False, False]"
    unfolding failing_tracker_def
    by (simp add: failing_run window_def newest_first_def sql_limit_def)
      (simp add: demo_health_def)
  then obtain a b where w: "window demo_health ''a:m'' (calls failing_tracker) = [a, b]"
    "\<not> call_success a" "\<not> call_success b" by auto
  have "cache failing_tracker = []" by (simp add: failing_tracker_def)
  then show ?thesis
    using health_never_half_opens [OF w(1), of "[10, 10 ^ 9, 10 ^ 12]"] w(2,3)
    by (simp add: demo_health_def eval_nat_numeral del: break_answers.simps)
qed

text \<open>A provider's health. With no cached model it is healthy; it is open exactly when it has
  cached models and all of them are open; otherwise it is the worst state among those that are
  not open.\<close>

theorem provider_health_spec:
  "(ph_health (get_provider_health p t) = CIRCUIT_OPEN \<longleftrightarrow>
      provider_states p t \<noteq> [] \<and> (\<forall>s \<in> set (provider_states p t). health s = CIRCUIT_OPEN)) \<and>
   (ph_health (get_provider_health p t) \<noteq> CIRCUIT_OPEN \<longrightarrow>
      (\<forall>s \<in> set (provider_states p t). health s \<noteq> CIRCUIT_OPEN \<longrightarrow>
         severity (health s) \<le> severity (ph_health (get_provider_health p t))) \<and>
      (ph_health (get_provider_health p t) = HEALTHY \<or>
       (\<exists>s \<in> set (provider_states p t). health s = ph_health (get_provider_health p t))))"
  using worst_of_ub [of HEALTHY "provider_states p t"]
    length_filter_all [of "\<lambda>s. health s = CIRCUIT_OPEN" "provider_states p t"]
  by (auto simp: get_provider_health_def Let_def)

theorem provider_health_spec_witness:
  "\<exists>s. health s = DEGRADED \<and>
     severity (health s) \<le> severity (ph_health (get_provider_health ''a''
       \<lparr> calls = [], cache = [(''a:m'', s)], last_errors = [] \<rparr>))"
proof -
  let ?s = "(default_state ''a:m'')\<lparr> health := DEGRADED \<rparr>"
  let ?t = "\<lparr> calls = [], cache = [(''a:m'', ?s)], last_errors = [] \<rparr>"
  have p: "provider_states ''a'' ?t = [?s]"
    by (simp add: provider_states_def default_state_def extract_provider_def)
  show ?thesis using provider_health_spec [of "''a''" ?t] unfolding p by (intro exI [of _ ?s]) auto
qed

end
