(* ===== verification/Arc_Retry.thy ===== *)
theory Arc_Retry
  imports Arc_Store Model_Health
begin

text \<open>
  Arc-level retries (\<open>core/arcs/retry.py\<close>) and the error record they work on
  (\<open>ErrorInfo\<close> of \<open>agent/error_classifier.py\<close>).

  The retry state of an arc lives in \<open>arc_state\<close>. Counts are read back from JSON: an integer
  or a boolean is a Python int, anything else raises \<open>TypeError\<close> when it is compared. Delays
  are exact rationals (seconds); the random number of the jitter is the argument \<open>u\<close>,
  between 0 and 1. The health multiplier comes from \<open>Model_Health\<close>, whose cache a query can
  refresh, so the tracker is threaded through.
\<close>

section \<open>Errors and configuration\<close>

record error_info =
  ei_type :: string
  ei_retry_count :: int
  ei_source :: string
  ei_message :: string
  ei_status_code :: "int option"
  ei_retry_after :: "rat option"
  ei_model :: "string option"
  ei_provider :: "string option"
  ei_raw :: "string option"
  ei_timestamp :: string

definition opt_json :: "string \<Rightarrow> ('a \<Rightarrow> json) \<Rightarrow> 'a option \<Rightarrow> jdict" where
  "opt_json k f v = (case v of Some x \<Rightarrow> [(k, f x)] | None \<Rightarrow> [])"

definition error_to_json :: "error_info \<Rightarrow> json" where
  "error_to_json e = JObj [(''error_info'', JObj
     ([(''type'', JStr (ei_type e)), (''retry_count'', JInt (ei_retry_count e)),
       (''source_location'', JStr (ei_source e)), (''message'', JStr (ei_message e))]
      @ opt_json ''status_code'' JInt (ei_status_code e)
      @ opt_json ''retry_after'' JNum (ei_retry_after e)
      @ opt_json ''model'' JStr (ei_model e) @ opt_json ''provider'' JStr (ei_provider e)
      @ opt_json ''raw_error'' JStr (ei_raw e) @ [(''timestamp'', JStr (ei_timestamp e))]))]"

text \<open>The \<open>arc_retry\<close> section of the configuration; the tables may be partial.\<close>

record retry_config =
  rc_enabled :: bool
  rc_max_retries :: "(string \<times> int) list"
  rc_escalate :: "(string \<times> bool) list"
  rc_caps :: "(string \<times> rat) list"
  rc_jitter_percent :: rat
  rc_base :: rat

definition DEFAULT_ERROR_MAX_RETRIES :: "(string \<times> int) list" where
  "DEFAULT_ERROR_MAX_RETRIES =
     [(''RateLimitError'', 5), (''APIOutageError'', 4), (''NetworkError'', 3),
      (''UnknownError'', 2), (''VerificationError'', 2), (''AuthError'', 0),
      (''ModelError'', 0), (''ClientError'', 0)]"

definition DEFAULT_ERROR_ESCALATE_ON_EXHAUST :: "(string \<times> bool) list" where
  "DEFAULT_ERROR_ESCALATE_ON_EXHAUST =
     [(''APIOutageError'', True), (''ModelError'', True), (''RateLimitError'', False),
      (''NetworkError'', False), (''AuthError'', False), (''ClientError'', False),
      (''UnknownError'', False), (''VerificationError'', False)]"

definition DEFAULT_BACKOFF_CAPS :: "(string \<times> rat) list" where
  "DEFAULT_BACKOFF_CAPS =
     [(''RateLimitError'', 600), (''APIOutageError'', 300), (''NetworkError'', 60),
      (''UnknownError'', 120), (''VerificationError'', 0)]"

text \<open>\<open>_load_config_dict\<close>: the overrides, except a key \<open>default\<close>, over the defaults.\<close>

definition load_config_dict :: "(string \<times> 'v) list \<Rightarrow> (string \<times> 'v) list \<Rightarrow> (string \<times> 'v) list" where
  "load_config_dict overrides defaults =
     fold (\<lambda>(k, v) m. if k \<noteq> ''default'' then AList.update k v m else m) overrides defaults"

definition get_error_max_retries :: "retry_config \<Rightarrow> (string \<times> int) list" where
  "get_error_max_retries cfg = load_config_dict (rc_max_retries cfg) DEFAULT_ERROR_MAX_RETRIES"

definition get_escalate_on_exhaust :: "retry_config \<Rightarrow> (string \<times> bool) list" where
  "get_escalate_on_exhaust cfg = load_config_dict (rc_escalate cfg) DEFAULT_ERROR_ESCALATE_ON_EXHAUST"

definition get_backoff_caps :: "retry_config \<Rightarrow> (string \<times> rat) list" where
  "get_backoff_caps cfg = load_config_dict (rc_caps cfg) DEFAULT_BACKOFF_CAPS"

definition or_default :: "'v option \<Rightarrow> 'v \<Rightarrow> 'v" where
  "or_default x d = (case x of Some v \<Rightarrow> v | None \<Rightarrow> d)"

section \<open>Backoff\<close>

text \<open>The base delay before health and jitter.\<close>

definition base_backoff :: "retry_config \<Rightarrow> string \<Rightarrow> nat \<Rightarrow> rat option \<Rightarrow> rat" where
  "base_backoff cfg ty attempt retry_after =
     (let caps = get_backoff_caps cfg in
      if ty = ''RateLimitError''
      then max 10 (case retry_after of Some r \<Rightarrow> if r = 0 then 10 else r | None \<Rightarrow> 10)
      else if ty = ''APIOutageError'' \<or> ty = ''NetworkError''
      then min (rc_base cfg ^ attempt)
             (or_default (map_of caps ty) (or_default (map_of caps ''default'') 120))
      else if ty = ''VerificationError'' then 0
      else if ty = ''UnknownError'' then 5
      else min (rc_base cfg ^ attempt) (or_default (map_of caps ''default'') 120))"

definition calculate_backoff ::
    "retry_config \<Rightarrow> health_config \<Rightarrow> time \<Rightarrow> rat \<Rightarrow> string \<Rightarrow> nat \<Rightarrow> rat option \<Rightarrow> string option \<Rightarrow>
     tracker \<Rightarrow> rat \<times> tracker" where
  "calculate_backoff cfg hcfg now u ty attempt retry_after model t =
     (let base0 = base_backoff cfg ty attempt retry_after;
          (base, t') = (case model of
              Some (c # cs) \<Rightarrow>
                (let (m, t') = get_backoff_multiplier hcfg now (c # cs) t in (base0 * m, t'))
            | _ \<Rightarrow> (base0, t));
          jit = base * (rc_jitter_percent cfg / 100) * (u * 2 - 1)
      in (max 1 (base + jit), t'))"

section \<open>Retry state\<close>

definition set_arc_state :: "time \<Rightarrow> int \<Rightarrow> string \<Rightarrow> json \<Rightarrow> db \<Rightarrow> exn + db" where
  "set_arc_state now a k v d =
     (if \<not> arc_exists a d then Inl (IntegrityError ''FOREIGN KEY'')
      else Inr (put_state now a k (Parsed v) d))"

text \<open>The keys that start with an underscore; text that is not JSON comes back as a string.\<close>

definition raw_json :: "jtext \<Rightarrow> json" where
  "raw_json t = (case t of Parsed j \<Rightarrow> j | Malformed s \<Rightarrow> JStr s)"

definition get_retry_state :: "int \<Rightarrow> db \<Rightarrow> jdict" where
  "get_retry_state a d =
     map (\<lambda>r. (s_key r, raw_json (s_value r)))
       (filter (\<lambda>r. s_arc r = a \<and> starts_with (s_key r) ''_'') (state d))"

fun as_int :: "json \<Rightarrow> exn + int" where
  "as_int (JInt i) = Inr i"
| "as_int (JBool b) = Inr (if b then 1 else 0)"
| "as_int _ = Inl (TypeError ''not an int'')"

record retry_decision =
  should_retry :: bool
  backoff_seconds :: rat
  escalate_on_exhaust :: bool

definition no_retry :: "bool \<Rightarrow> retry_decision" where
  "no_retry esc = \<lparr> should_retry = False, backoff_seconds = 0, escalate_on_exhaust = esc \<rparr>"

text \<open>The effective limit: the arc's own and that of the error type, whichever is smaller.\<close>

definition effective_max :: "retry_config \<Rightarrow> json \<Rightarrow> int option \<Rightarrow> exn + int" where
  "effective_max cfg arc_max error_max =
     (if arc_max = JNull
      then Inr (case error_max of
                  Some m \<Rightarrow> m
                | None \<Rightarrow> or_default (map_of (rc_max_retries cfg) ''default'') 3)
      else
        (case as_int arc_max of
           Inl e \<Rightarrow> Inl e
         | Inr a \<Rightarrow> Inr (case error_max of Some m \<Rightarrow> min a m | None \<Rightarrow> a)))"

definition should_retry_arc ::
    "retry_config \<Rightarrow> health_config \<Rightarrow> time \<Rightarrow> rat \<Rightarrow> int \<Rightarrow> error_info \<Rightarrow> db \<Rightarrow> tracker \<Rightarrow>
     (exn + retry_decision) \<times> tracker" where
  "should_retry_arc cfg hcfg now u a ei d t =
     (let st = get_retry_state a d;
          retry_count = or_default (map_of st ''_retry_count'') (JInt 0);
          arc_max = dget st ''_max_retries'';
          error_max = map_of (get_error_max_retries cfg) (ei_type ei);
          escalate = or_default (map_of (get_escalate_on_exhaust cfg) (ei_type ei)) False
      in if error_max = Some 0 then (Inr (no_retry escalate), t)
         else (case effective_max cfg arc_max error_max of
             Inl e \<Rightarrow> (Inl e, t)
           | Inr mx \<Rightarrow>
               (case as_int retry_count of
                  Inl e \<Rightarrow> (Inl e, t)
                | Inr rc \<Rightarrow>
                    if rc \<ge> mx then (Inr (no_retry escalate), t)
                    else
                      let (b, t') = calculate_backoff cfg hcfg now u (ei_type ei) (nat rc)
                                      (ei_retry_after ei) (ei_model ei) t
                      in (Inr \<lparr> should_retry = True, backoff_seconds = b,
                                escalate_on_exhaust = False \<rparr>, t'))))"

text \<open>
  \<open>int(text) + 1\<close> of the stored count, 1 when there is none or it is not the text of an
  integer (\<open>json.dumps\<close> of a boolean or a float is not).
\<close>

definition next_count :: "jtext option \<Rightarrow> int" where
  "next_count cell = (case cell of Some (Parsed (JInt i)) \<Rightarrow> i + 1 | _ \<Rightarrow> 1)"

text \<open>An ISO time; the model keeps the number of microseconds.\<close>

definition iso :: "time \<Rightarrow> json" where
  "iso t = JInt t"

definition backoff_until :: "time \<Rightarrow> rat \<Rightarrow> time" where
  "backoff_until now secs = now + \<lfloor>secs * 1000000\<rfloor>"

definition retry_history :: "time \<Rightarrow> int \<Rightarrow> error_info \<Rightarrow> rat \<Rightarrow> json" where
  "retry_history now n ei secs = JObj
     [(''retry_count'', JInt n), (''error_type'', JStr (ei_type ei)),
      (''backoff_seconds'', JNum secs), (''backoff_until'', iso (backoff_until now secs)),
      (''error_message'', JStr (ei_message ei))]"

definition record_retry_attempt :: "time \<Rightarrow> int \<Rightarrow> error_info \<Rightarrow> rat \<Rightarrow> db \<Rightarrow> exn + db" where
  "record_retry_attempt now a ei secs d =
     (if \<not> arc_exists a d then Inl (IntegrityError ''FOREIGN KEY'')
      else
        let n = next_count (state_cell a ''_retry_count'' d);
            d1 = put_state now a ''_retry_count'' (Parsed (JInt n)) d;
            d2 = put_state now a ''_last_error'' (Parsed (error_to_json ei)) d1;
            d3 = put_state now a ''_last_attempt_at'' (Parsed (iso now)) d2;
            d4 = put_state now a ''_backoff_until'' (Parsed (iso (backoff_until now secs))) d3;
            d5 = (if state_cell a ''_first_error_at'' d4 = None
                  then put_state now a ''_first_error_at'' (Parsed (iso now)) d4 else d4)
        in Inr (log_history now a ''retry_attempt'' (retry_history now n ei secs) None None d5))"

definition policy_default :: "string \<Rightarrow> int" where
  "policy_default p =
     (if p = ''transient_only'' then 3 else if p = ''aggressive'' then 5
      else if p = ''conservative'' then 2 else 3)"

definition initialize_retry_state ::
    "retry_config \<Rightarrow> time \<Rightarrow> int \<Rightarrow> string \<Rightarrow> int option \<Rightarrow> db \<Rightarrow> exn + db" where
  "initialize_retry_state cfg now a policy maxr d =
     (let m0 = (case maxr of Some m \<Rightarrow> m | None \<Rightarrow> policy_default policy);
          m = (if rc_enabled cfg then m0 else 0)
      in if \<not> arc_exists a d then Inl (IntegrityError ''FOREIGN KEY'')
         else Inr
           (put_state now a ''_escalation_on_exhaust'' (Parsed (JBool (policy = ''aggressive'')))
            (put_state now a ''_retry_policy'' (Parsed (JStr policy))
             (put_state now a ''_max_retries'' (Parsed (JInt m))
              (put_state now a ''_retry_count'' (Parsed (JInt 0)) d)))))"

section \<open>Facts about the retry state\<close>

lemma get_retry_state_cell:
  assumes "starts_with k ''_''"
  shows "map_of (get_retry_state a d) k = map_option raw_json (state_cell a k d)"
proof -
  have "map_of (map (\<lambda>r. (s_key r, raw_json (s_value r)))
      (filter (\<lambda>r. s_arc r = a \<and> starts_with (s_key r) ''_'') rows)) k =
    map_option raw_json (map_option s_value (List.find (\<lambda>r. s_arc r = a \<and> s_key r = k) rows))" for rows
    using assms by (induction rows) auto
  then show ?thesis by (simp add: get_retry_state_def state_cell_def)
qed

lemma retry_keys [simp]:
  "starts_with ''_retry_count'' ''_''" "starts_with ''_max_retries'' ''_''"
  by (simp_all add: starts_with_def)

text \<open>The count and the limit as \<open>should_retry_arc\<close> reads them.\<close>

definition retry_counts :: "int \<Rightarrow> int \<Rightarrow> int \<Rightarrow> db \<Rightarrow> bool" where
  "retry_counts a n m d =
     (state_cell a ''_retry_count'' d = Some (Parsed (JInt n)) \<and>
      state_cell a ''_max_retries'' d = Some (Parsed (JInt m)))"

definition limit_of :: "int \<Rightarrow> int option \<Rightarrow> int" where
  "limit_of m e = (case e of Some x \<Rightarrow> min m x | None \<Rightarrow> m)"

lemma should_retry_arc_counted:
  assumes "retry_counts a n m d"
  shows "should_retry_arc cfg hcfg now u a ei d t =
    (let em = map_of (get_error_max_retries cfg) (ei_type ei);
         esc = or_default (map_of (get_escalate_on_exhaust cfg) (ei_type ei)) False
     in if em = Some 0 \<or> n \<ge> limit_of m em then (Inr (no_retry esc), t)
        else let (b, t') = calculate_backoff cfg hcfg now u (ei_type ei) (nat n)
                 (ei_retry_after ei) (ei_model ei) t
             in (Inr \<lparr> should_retry = True, backoff_seconds = b, escalate_on_exhaust = False \<rparr>, t'))"
proof -
  have c: "map_of (get_retry_state a d) ''_retry_count'' = Some (JInt n)"
    "map_of (get_retry_state a d) ''_max_retries'' = Some (JInt m)"
    using assms by (simp_all add: get_retry_state_cell retry_counts_def raw_json_def)
  show ?thesis
    by (simp add: should_retry_arc_def Let_def c dget_def or_default_def effective_max_def limit_of_def
        split: option.split)
qed

lemma should_retry_granted:
  assumes "retry_counts a n m d" "should_retry_arc cfg hcfg now u a ei d t = (Inr r, t')" "should_retry r"
  shows "map_of (get_error_max_retries cfg) (ei_type ei) \<noteq> Some 0"
    and "n < limit_of m (map_of (get_error_max_retries cfg) (ei_type ei))"
    and "(backoff_seconds r, t') = calculate_backoff cfg hcfg now u (ei_type ei) (nat n)
      (ei_retry_after ei) (ei_model ei) t"
  using assms(2,3) unfolding should_retry_arc_counted [OF assms(1)]
  by (auto simp: Let_def no_retry_def split: if_splits prod.splits)

lemma record_retry_counts:
  assumes "retry_counts a n m d" "record_retry_attempt now a ei secs d = Inr d'"
  shows "retry_counts a (n + 1) m d'" and "arcs d' = arcs d"
proof -
  let ?d1 = "put_state now a ''_retry_count'' (Parsed (JInt (n + 1))) d"
  let ?d4 = "put_state now a ''_backoff_until'' (Parsed (iso (backoff_until now secs)))
    (put_state now a ''_last_attempt_at'' (Parsed (iso now))
     (put_state now a ''_last_error'' (Parsed (error_to_json ei)) ?d1))"
  obtain d5 where d5: "d5 = ?d4 \<or> d5 = put_state now a ''_first_error_at'' (Parsed (iso now)) ?d4"
    and d': "d' = log_history now a ''retry_attempt'' (retry_history now (n + 1) ei secs) None None d5"
    using assms by (auto simp: record_retry_attempt_def retry_counts_def next_count_def Let_def split: if_splits)
  have "state_cell a k d' = state_cell a k d5" for k by (simp add: d' state_cell_def)
  then show "retry_counts a (n + 1) m d'" "arcs d' = arcs d"
    using d5 assms(1) by (auto simp: retry_counts_def tbl d')
qed

section \<open>Runs of failures\<close>

text \<open>
  The dispatch handler on a sequence of failures of one arc (\<open>core/arcs/dispatch_handler.py\<close>,
  \<open>core/arcs/judge_verification.py\<close>): as long as a retry is granted it is recorded; the first
  refusal (or error) ends the run. The number of retries granted is counted.
\<close>

fun retry_run ::
    "retry_config \<Rightarrow> health_config \<Rightarrow> int \<Rightarrow> (time \<times> rat \<times> error_info) list \<Rightarrow> db \<Rightarrow> tracker \<Rightarrow> nat" where
  "retry_run cfg hcfg a [] d t = 0"
| "retry_run cfg hcfg a ((now, u, ei) # fs) d t =
     (case should_retry_arc cfg hcfg now u a ei d t of
        (Inr r, t') \<Rightarrow>
          if should_retry r
          then (case record_retry_attempt now a ei (backoff_seconds r) d of
                  Inr d' \<Rightarrow> Suc (retry_run cfg hcfg a fs d' t')
                | Inl _ \<Rightarrow> 0)
          else 0
      | (Inl _, t') \<Rightarrow> 0)"

lemma retry_run_bound:
  "retry_counts a n m d \<Longrightarrow>
     \<forall>f \<in> set fs. limit_of m (map_of (get_error_max_retries cfg) (ei_type (snd (snd f)))) \<le> b \<Longrightarrow>
     int (retry_run cfg hcfg a fs d t) \<le> max 0 (b - n)"
proof (induction fs arbitrary: n d t)
  case Nil
  then show ?case by simp
next
  case (Cons f fs)
  obtain now u ei where f: "f = (now, u, ei)" by (cases f) auto
  show ?case
  proof (cases "retry_run cfg hcfg a (f # fs) d t = 0")
    case False
    then obtain r t' d' where r: "should_retry_arc cfg hcfg now u a ei d t = (Inr r, t')" "should_retry r"
      and d': "record_retry_attempt now a ei (backoff_seconds r) d = Inr d'"
      and run: "retry_run cfg hcfg a (f # fs) d t = Suc (retry_run cfg hcfg a fs d' t')"
      by (auto simp: f split: prod.splits sum.splits if_splits)
    have "n < b" using should_retry_granted(2) [OF Cons.prems(1) r] Cons.prems(2) by (auto simp: f)
    moreover have "int (retry_run cfg hcfg a fs d' t') \<le> max 0 (b - (n + 1))"
      by (rule Cons.IH [OF record_retry_counts(1) [OF Cons.prems(1) d']]) (use Cons.prems(2) in simp)
    ultimately show ?thesis using run by auto
  qed simp
qed

lemma initialize_retry_counts:
  assumes "initialize_retry_state cfg now a pol mx d = Inr d'"
  shows "retry_counts a 0 (if rc_enabled cfg then (case mx of Some m \<Rightarrow> m | None \<Rightarrow> policy_default pol) else 0) d'"
  using assms by (auto simp: initialize_retry_state_def retry_counts_def Let_def tbl split: if_splits)

section \<open>Bounds of the delay\<close>

lemma base_backoff_nonneg:
  assumes "0 \<le> rc_base cfg" "\<forall>c \<in> snd ` set (get_backoff_caps cfg). 0 \<le> c"
  shows "0 \<le> base_backoff cfg ty k ra"
proof -
  have cap: "0 \<le> or_default (map_of (get_backoff_caps cfg) x) y" if "0 \<le> y" for x y
    using that assms(2) by (fastforce simp: or_default_def dest: map_of_SomeD split: option.splits)
  have "0 \<le> rc_base cfg ^ k" using assms(1) by simp
  then show ?thesis by (auto simp: base_backoff_def Let_def cap max_def)
qed

lemma get_backoff_multiplier_bounds:
  assumes "tracker_ok t" "get_backoff_multiplier hcfg now m t = (f, t')"
  shows "1 \<le> f" "f \<le> 4"
proof -
  obtain s where s: "get_model_health hcfg now m t = (s, t')" "f = backoff_multiplier s"
    using assms(2) by (auto simp: get_backoff_multiplier_def Let_def split: prod.splits)
  have "health_state_ok s"
    using s(1) assms(1)
    by (auto simp: get_model_health_def Let_def tracker_ok_def fresh_state_ok
        split: option.splits if_splits)
  then show "1 \<le> f" "f \<le> 4"
    using s(2) health_backoff.factor_ge health_backoff.factor_le by auto
qed

lemma calculate_backoff_base:
  assumes "calculate_backoff cfg hcfg now u ty k ra model t = (b, t')" "tracker_ok t"
  obtains f where "1 \<le> f" "f \<le> 4"
    "b = max 1 (base_backoff cfg ty k ra * f * (1 + rc_jitter_percent cfg / 100 * (u * 2 - 1)))"
proof -
  define B where "B = base_backoff cfg ty k ra"
  have "\<exists>f. 1 \<le> f \<and> f \<le> 4 \<and> b = max 1 (B * f + B * f * (rc_jitter_percent cfg / 100) * (u * 2 - 1))"
  proof (cases "\<exists>c cs. model = Some (c # cs)")
    case True
    then obtain c cs where m: "model = Some (c # cs)" by blast
    obtain f t2 where f: "get_backoff_multiplier hcfg now (c # cs) t = (f, t2)" by fastforce
    have "b = max 1 (B * f + B * f * (rc_jitter_percent cfg / 100) * (u * 2 - 1))"
      using assms(1) m f by (auto simp: calculate_backoff_def Let_def B_def)
    then show ?thesis using get_backoff_multiplier_bounds [OF assms(2) f] by blast
  next
    case False
    then have "b = max 1 (B * 1 + B * 1 * (rc_jitter_percent cfg / 100) * (u * 2 - 1))"
      using assms(1) by (auto simp: calculate_backoff_def Let_def B_def split: option.splits list.splits)
    moreover have "(1::rat) \<le> 1" "(1::rat) \<le> 4" by simp_all
    ultimately show ?thesis by blast
  qed
  then show thesis using that unfolding B_def by (auto simp: algebra_simps)
qed

section \<open>Properties\<close>

text \<open>The \<open>arc_retry\<close> section of the shipped configuration (\<open>config.py\<close>).\<close>

definition default_retry_config :: retry_config where
  "default_retry_config =
     \<lparr> rc_enabled = True,
       rc_max_retries = [(''RateLimitError'', 5), (''APIOutageError'', 4), (''NetworkError'', 3),
         (''UnknownError'', 2), (''VerificationError'', 2), (''default'', 3)],
       rc_escalate = [(''RateLimitError'', False), (''APIOutageError'', True), (''ModelError'', True),
         (''VerificationError'', False), (''default'', False)],
       rc_caps = [(''RateLimitError'', 600), (''APIOutageError'', 300), (''NetworkError'', 60),
         (''VerificationError'', 0), (''default'', 120)],
       rc_jitter_percent = 10, rc_base = 2 \<rparr>"

definition demo_error :: "string \<Rightarrow> error_info" where
  "demo_error ty = \<lparr> ei_type = ty, ei_retry_count = 1, ei_source = ''s'', ei_message = ''m'',
     ei_status_code = None, ei_retry_after = None, ei_model = None, ei_provider = None,
     ei_raw = None, ei_timestamp = ''t'' \<rparr>"

definition demo_retry_db :: db where
  "demo_retry_db = empty_db\<lparr> arcs := [(blank_arc 1)\<lparr> astatus := Active \<rparr>] \<rparr>"

text \<open>C39: The retry budget. After \<open>initialize_retry_state\<close>, whatever errors the arc meets and
  whenever, the number of retries granted to it is at most the limit of its policy, and when every
  error it meets has a limit of at most \<open>b\<close>, at most \<open>b\<close>.\<close>

theorem retry_budget:
  assumes "initialize_retry_state cfg now a pol mx d = Inr d'"
    and "\<forall>(now, u, ei) \<in> set fs. \<exists>e. map_of (get_error_max_retries cfg) (ei_type ei) = Some e \<and> e \<le> b"
  shows "int (retry_run cfg hcfg a fs' d' t) \<le>
      max 0 (if rc_enabled cfg then (case mx of Some m \<Rightarrow> m | None \<Rightarrow> policy_default pol) else 0) \<and>
    int (retry_run cfg hcfg a fs d' t) \<le> max 0 b"
proof -
  let ?m = "if rc_enabled cfg then (case mx of Some m \<Rightarrow> m | None \<Rightarrow> policy_default pol) else 0"
  have c: "retry_counts a 0 ?m d'" by (rule initialize_retry_counts [OF assms(1)])
  have "int (retry_run cfg hcfg a fs' d' t) \<le> max 0 (?m - 0)"
    by (rule retry_run_bound [OF c]) (auto simp: limit_of_def split: option.split)
  moreover have "int (retry_run cfg hcfg a fs d' t) \<le> max 0 (b - 0)"
    by (rule retry_run_bound [OF c]) (use assms(2) in \<open>fastforce simp: limit_of_def split: option.split\<close>)
  ultimately show ?thesis by simp
qed

theorem retry_budget_witness:
  "\<exists>d'. initialize_retry_state default_retry_config 0 1 ''transient_only'' None demo_retry_db = Inr d' \<and>
     int (retry_run default_retry_config demo_health 1
       (replicate 9 (0, 0, demo_error ''UnknownError'')) d' empty_tracker) \<le> 2"
proof -
  obtain d' where d': "initialize_retry_state default_retry_config 0 1 ''transient_only'' None demo_retry_db = Inr d'"
    by (simp add: initialize_retry_state_def arc_exists_def demo_retry_db_def Let_def)
  have "\<forall>(now, u, ei) \<in> set (replicate 9 (0 :: time, 0 :: rat, demo_error ''UnknownError'')).
      \<exists>e. map_of (get_error_max_retries default_retry_config) (ei_type ei) = Some e \<and> e \<le> 2"
    by (simp add: demo_error_def get_error_max_retries_def load_config_dict_def default_retry_config_def
        DEFAULT_ERROR_MAX_RETRIES_def)
  from retry_budget [OF d' this] show ?thesis using d' by auto
qed

text \<open>Bounds of the delay. With a health cache a run can reach, a jitter of at most 100 percent
  and non-negative configuration values, every delay is at least one second and at most four
  times the base delay of the error plus the jitter (or one second).\<close>

theorem backoff_bounds:
  assumes "calculate_backoff cfg hcfg now u ty k ra model t = (b, t')" and "tracker_ok t"
    and "0 \<le> u" and "u < 1" and "0 \<le> rc_jitter_percent cfg" and "rc_jitter_percent cfg \<le> 100"
    and "0 \<le> rc_base cfg" and "\<forall>c \<in> snd ` set (get_backoff_caps cfg). 0 \<le> c"
  shows "1 \<le> b \<and> b \<le> max 1 (base_backoff cfg ty k ra * 4 * (1 + rc_jitter_percent cfg / 100))"
proof -
  define B where "B = base_backoff cfg ty k ra"
  define j where "j = rc_jitter_percent cfg / 100"
  have B: "0 \<le> B" using base_backoff_nonneg [OF assms(7,8)] by (simp add: B_def)
  have j: "0 \<le> j" "j \<le> 1" using assms(5,6) by (simp_all add: j_def)
  obtain f where f: "1 \<le> f" "f \<le> 4" "b = max 1 (B * f * (1 + j * (u * 2 - 1)))"
    using calculate_backoff_base [OF assms(1,2)] unfolding B_def j_def by metis
  have "j * (u * 2 - 1) \<le> j * 1" using j(1) assms(4) by (intro mult_left_mono) auto
  moreover have "j * (-1) \<le> j * (u * 2 - 1)" using j(1) assms(3) by (intro mult_left_mono) auto
  ultimately have x: "0 \<le> 1 + j * (u * 2 - 1)" "1 + j * (u * 2 - 1) \<le> 1 + j" using j by auto
  have "B * f * (1 + j * (u * 2 - 1)) \<le> B * 4 * (1 + j)"
    using B f x j by (intro mult_mono) auto
  then show ?thesis using f(3) unfolding B_def j_def by auto
qed

theorem backoff_bounds_witness:
  "\<exists>b t'. calculate_backoff default_retry_config demo_health 0 (1 / 2) ''NetworkError'' 9 None None
      empty_tracker = (b, t') \<and> 1 \<le> b \<and> b \<le> 264"
proof -
  have caps: "get_backoff_caps default_retry_config =
      [(''RateLimitError'', 600), (''APIOutageError'', 300), (''NetworkError'', 60),
       (''UnknownError'', 120), (''VerificationError'', 0)]"
    by (simp add: get_backoff_caps_def load_config_dict_def default_retry_config_def DEFAULT_BACKOFF_CAPS_def)
  obtain b t' where b: "calculate_backoff default_retry_config demo_health 0 (1 / 2) ''NetworkError'' 9 None None
      empty_tracker = (b, t')" by fastforce
  have "tracker_ok empty_tracker" by (simp add: tracker_ok_def empty_tracker_def)
  moreover have base: "base_backoff default_retry_config ''NetworkError'' 9 None = 60"
    by (simp add: base_backoff_def caps or_default_def) (simp add: default_retry_config_def)
  ultimately have "1 \<le> b \<and> b \<le> max 1 (base_backoff default_retry_config ''NetworkError'' 9 None * 4 *
      (1 + rc_jitter_percent default_retry_config / 100))"
    by (intro backoff_bounds [OF b]) (simp_all add: caps, simp_all add: default_retry_config_def)
  then show ?thesis using b unfolding base by (simp add: default_retry_config_def)
qed

text \<open>The budget kill-switch error is retried. With the shipped configuration an arc that
  fails with \<open>BudgetExceededError\<close> is granted a retry as long as its own budget lasts, although
  the classifier calls the error fatal and non-retryable.\<close>

theorem budget_error_is_retried:
  assumes "retry_counts a n m d" and "n < m" and "ei_type ei = ''BudgetExceededError''"
  shows "\<exists>r t'. should_retry_arc default_retry_config hcfg now u a ei d t = (Inr r, t') \<and> should_retry r"
proof -
  have "map_of (get_error_max_retries default_retry_config) ''BudgetExceededError'' = None"
    by (simp add: get_error_max_retries_def load_config_dict_def default_retry_config_def
        DEFAULT_ERROR_MAX_RETRIES_def)
  then show ?thesis
    using assms by (auto simp: should_retry_arc_counted limit_of_def Let_def split: prod.splits)
qed

theorem budget_error_is_retried_witness:
  "\<exists>d' r t'. initialize_retry_state default_retry_config 0 1 ''transient_only'' None demo_retry_db = Inr d' \<and>
     should_retry_arc default_retry_config demo_health 0 0 1 (demo_error ''BudgetExceededError'') d' empty_tracker
       = (Inr r, t') \<and> should_retry r"
proof -
  obtain d' where d': "initialize_retry_state default_retry_config 0 1 ''transient_only'' None demo_retry_db = Inr d'"
    by (simp add: initialize_retry_state_def arc_exists_def demo_retry_db_def Let_def)
  have "retry_counts 1 0 3 d'"
    using initialize_retry_counts [OF d'] by (simp add: default_retry_config_def policy_default_def)
  from budget_error_is_retried [OF this, of "demo_error ''BudgetExceededError''" demo_health 0 0 empty_tracker] d'
  show ?thesis by (auto simp: demo_error_def)
qed

end
