(* ===== verification/Resource_Manager.thy ===== *)
theory Resource_Manager
  imports Arc_Store
begin

text \<open>
  Resources: externally sourced content whose trust is derived from provenance
  (\<open>core/resources/manager.py\<close>, \<open>core/resources/trust.py\<close>).

  The file system is the parameter \<open>fs\<close>, the text of a path that exists. The walk of
  \<open>get_lineage\<close> has fuel, one more than the number of resources: each generation adds a resource
  not seen before, so the fuel is never used up (\<open>get_lineage_total\<close>).
\<close>

section \<open>Trust\<close>

definition resource_trusted :: "resource \<Rightarrow> bool" where
  "resource_trusted r = (produced_by_template r \<noteq> None \<and> template_verdict r = Some VApproved)"

definition resource_trust :: "resource option \<Rightarrow> string" where
  "resource_trust r =
     (case r of
        None \<Rightarrow> ''untrusted''
      | Some x \<Rightarrow>
          if produced_by_template x = None then ''untrusted''
          else if template_verdict x \<noteq> Some VApproved then ''untrusted''
          else ''trusted'')"

definition get_resource :: "int \<Rightarrow> db \<Rightarrow> resource option" where
  "get_resource i d = find_row rid i (resources d)"

definition is_trusted :: "int \<Rightarrow> db \<Rightarrow> bool" where
  "is_trusted i d =
     (case get_resource i d of None \<Rightarrow> False | Some r \<Rightarrow> resource_trust (Some r) = ''trusted'')"

lemma resource_trust_iff: "resource_trust (Some r) = ''trusted'' \<longleftrightarrow> resource_trusted r"
  by (simp add: resource_trust_def resource_trusted_def)

section \<open>Creation\<close>

definition fk_arc :: "int option \<Rightarrow> db \<Rightarrow> bool" where
  "fk_arc a d = (case a of None \<Rightarrow> True | Some i \<Rightarrow> arc_exists i d)"

definition new_resource ::
    "time \<Rightarrow> string \<Rightarrow> string option \<Rightarrow> int option \<Rightarrow> string option \<Rightarrow> verdict option \<Rightarrow>
     string option \<Rightarrow> int option \<Rightarrow> string option \<Rightarrow> bool \<Rightarrow> string option \<Rightarrow> db \<Rightarrow> exn + (int \<times> db)"
where
  "new_resource now ct fp arc tmpl ver src sz hash pin kind d =
     (if \<not> fk_arc arc d then Inl (IntegrityError ''FOREIGN KEY'')
      else
        let i = next_rowid rid (resources d) in
        Inr (i, d\<lparr> resources := resources d @ [\<lparr> rid = i, content_type = ct, file_path = fp,
             byte_size = sz, content_hash = hash, produced_by_arc_id = arc,
             produced_by_template = tmpl, template_verdict = ver, source_descriptor = src,
             rkind = kind, pinned = pin, retain_until = None, rcreated_at = cur_ts now,
             deprecated_at = None, deleted_at = None \<rparr>] \<rparr>))"

definition create_resource ::
    "time \<Rightarrow> string \<Rightarrow> string option \<Rightarrow> int option \<Rightarrow> string option \<Rightarrow> int option \<Rightarrow>
     string option \<Rightarrow> bool \<Rightarrow> string option \<Rightarrow> db \<Rightarrow> exn + (int \<times> db)" where
  "create_resource now ct fp arc src sz hash pin kind d =
     new_resource now ct fp arc None None src sz hash pin kind d"

definition verdict_of :: "string \<Rightarrow> verdict option" where
  "verdict_of s =
     (if s = ''pending'' then Some VPending else if s = ''approved'' then Some VApproved
      else if s = ''rejected'' then Some VRejected else None)"

definition derive_resource ::
    "time \<Rightarrow> string \<Rightarrow> string option \<Rightarrow> int \<Rightarrow> string \<Rightarrow> string \<Rightarrow> string option \<Rightarrow> int option \<Rightarrow>
     string option \<Rightarrow> string option \<Rightarrow> db \<Rightarrow> exn + (int \<times> db)" where
  "derive_resource now ct fp arc tmpl ver src sz hash kind d =
     (if tmpl = [] then Inl (ValueError ''produced_by_template is required'')
      else case verdict_of ver of
          None \<Rightarrow> Inl (ValueError ''Invalid template_verdict'')
        | Some v \<Rightarrow> new_resource now ct fp (Some arc) (Some tmpl) (Some v) src sz hash False kind d)"

section \<open>Verdict\<close>

definition set_resource :: "int \<Rightarrow> (resource \<Rightarrow> resource) \<Rightarrow> db \<Rightarrow> db" where
  "set_resource i f d = d\<lparr> resources := upd_row rid i f (resources d) \<rparr>"

definition mark_template_verdict :: "int \<Rightarrow> string \<Rightarrow> db \<Rightarrow> exn + db" where
  "mark_template_verdict i ver d =
     (if ver \<noteq> ''approved'' \<and> ver \<noteq> ''rejected'' then Inl (ValueError ''Invalid verdict'')
      else
        let v = (if ver = ''approved'' then VApproved else VRejected) in
        case get_resource i d of
          None \<Rightarrow> Inl (ValueError ''Resource not found'')
        | Some r \<Rightarrow>
            if produced_by_template r = None then Inl (ValueError ''raw-ingest'')
            else if template_verdict r = Some v then Inr d
            else if template_verdict r = Some VApproved \<or> template_verdict r = Some VRejected
            then Inl (ValueError ''verdict is terminal'')
            else Inr (set_resource i (\<lambda>r. r\<lparr> template_verdict := Some v \<rparr>) d))"

section \<open>Links\<close>

definition link_role_of :: "string \<Rightarrow> link_role option" where
  "link_role_of s =
     (if s = ''input'' then Some LInput else if s = ''output'' then Some LOutput else None)"

definition link_arc_resource :: "time \<Rightarrow> int \<Rightarrow> int \<Rightarrow> string \<Rightarrow> db \<Rightarrow> exn + (int \<times> db)" where
  "link_arc_resource now a i role d =
     (case link_role_of role of
        None \<Rightarrow> Inl (ValueError ''Invalid role'')
      | Some ro \<Rightarrow>
          (case find_arc a d of
             None \<Rightarrow> Inl (ValueError ''Arc not found'')
           | Some arc \<Rightarrow>
               (case get_resource i d of
                  None \<Rightarrow> Inl (ValueError ''Resource not found'')
                | Some _ \<Rightarrow>
                    if ro = LInput \<and> ainteg arc = UNTRUSTED
                    then Inl (ValueError ''Untrusted arc cannot read Resource'')
                    else
                      (case List.find (\<lambda>l. l_arc l = a \<and> l_resource l = i \<and> l_role l = ro) (arc_links d) of
                         Some l \<Rightarrow> Inr (lid l, d)
                       | None \<Rightarrow>
                           let k = next_rowid lid (arc_links d) in
                           Inr (k, d\<lparr> arc_links := arc_links d @ [\<lparr> lid = k, l_arc = a,
                                l_resource = i, l_role = ro, l_created_at = cur_ts now \<rparr>] \<rparr>)))))"

section \<open>Deprecation, pins, retention\<close>

definition deprecate_resource :: "time \<Rightarrow> int \<Rightarrow> db \<Rightarrow> db" where
  "deprecate_resource now i d =
     d\<lparr> resources := upd_where (\<lambda>r. rid r = i \<and> deprecated_at r = None)
          (\<lambda>r. r\<lparr> deprecated_at := Some now \<rparr>) (resources d) \<rparr>"

definition input_ids :: "int \<Rightarrow> db \<Rightarrow> int list" where
  "input_ids a d = map l_resource (filter (\<lambda>l. l_arc l = a \<and> l_role l = LInput) (arc_links d))"

definition deprecate_inputs_of_arc :: "time \<Rightarrow> int \<Rightarrow> db \<Rightarrow> nat \<times> db" where
  "deprecate_inputs_of_arc now a d =
     (let P = (\<lambda>r. deprecated_at r = None \<and> rid r \<in> set (input_ids a d)) in
      (length (filter P (resources d)),
       d\<lparr> resources := upd_where P (\<lambda>r. r\<lparr> deprecated_at := Some now \<rparr>) (resources d) \<rparr>))"

definition set_resource_file_path :: "int \<Rightarrow> string \<Rightarrow> db \<Rightarrow> exn + db" where
  "set_resource_file_path i fp d =
     (if get_resource i d = None then Inl (ValueError ''Resource not found'')
      else Inr (set_resource i (\<lambda>r. r\<lparr> file_path := Some fp \<rparr>) d))"

definition update_resource_content_stats :: "int \<Rightarrow> int \<Rightarrow> string \<Rightarrow> db \<Rightarrow> exn + db" where
  "update_resource_content_stats i sz hash d =
     (if get_resource i d = None then Inl (ValueError ''Resource not found'')
      else Inr (set_resource i (\<lambda>r. r\<lparr> byte_size := Some sz, content_hash := Some hash \<rparr>) d))"

definition pin :: "int \<Rightarrow> db \<Rightarrow> db" where
  "pin i d = set_resource i (\<lambda>r. r\<lparr> pinned := True \<rparr>) d"

definition unpin :: "int \<Rightarrow> db \<Rightarrow> db" where
  "unpin i d = set_resource i (\<lambda>r. r\<lparr> pinned := False \<rparr>) d"

definition set_retain_until :: "int \<Rightarrow> time option \<Rightarrow> db \<Rightarrow> db" where
  "set_retain_until i ts d = set_resource i (\<lambda>r. r\<lparr> retain_until := ts \<rparr>) d"

section \<open>Reading\<close>

text \<open>The join with the links, in the order of link creation and link id.\<close>

definition linked_resources :: "link_row list \<Rightarrow> db \<Rightarrow> resource list" where
  "linked_resources ls d = List.map_filter (\<lambda>l. get_resource (l_resource l) d) ls"

definition list_resources_for_arc :: "int \<Rightarrow> string option \<Rightarrow> db \<Rightarrow> exn + resource list" where
  "list_resources_for_arc a role d =
     (let order = sort_key (\<lambda>l. (l_created_at l, lid l)) in
      case role of
        None \<Rightarrow> Inr (linked_resources (order (filter (\<lambda>l. l_arc l = a) (arc_links d))) d)
      | Some s \<Rightarrow>
          (case link_role_of s of
             None \<Rightarrow> Inl (ValueError ''Invalid role'')
           | Some ro \<Rightarrow>
               Inr (linked_resources
                 (order (filter (\<lambda>l. l_arc l = a \<and> l_role l = ro) (arc_links d))) d)))"

definition read_resource_content ::
    "(string \<Rightarrow> string option) \<Rightarrow> int \<Rightarrow> int \<Rightarrow> int \<Rightarrow> int option \<Rightarrow> db \<Rightarrow> exn + string" where
  "read_resource_content fs i offset limit caller d =
     (if offset < 0 then Inl (ValueError ''offset must be >= 0'')
      else if limit < 0 then Inl (ValueError ''limit must be >= 0'')
      else case get_resource i d of
          None \<Rightarrow> Inl (FileNotFoundError ''not found'')
        | Some r \<Rightarrow>
            if deleted_at r \<noteq> None then Inl (FileNotFoundError ''deleted'')
            else
              let gate = (case caller of
                    None \<Rightarrow> None
                  | Some a \<Rightarrow>
                      (case find_arc a d of
                         None \<Rightarrow> Some (PermissionError ''caller arc not found'')
                       | Some arc \<Rightarrow>
                           if ainteg arc = TRUSTED \<and> resource_trust (Some r) = ''untrusted''
                           then Some (PermissionError ''Trusted arc cannot read untrusted Resource'')
                           else None))
              in case gate of
                   Some e \<Rightarrow> Inl e
                 | None \<Rightarrow>
                     (case file_path r of
                        None \<Rightarrow> Inl (FileNotFoundError ''no file_path'')
                      | Some p \<Rightarrow>
                          if p = [] then Inl (FileNotFoundError ''no file_path'')
                          else (case fs p of
                                  None \<Rightarrow> Inl (FileNotFoundError ''file missing on disk'')
                                | Some text \<Rightarrow> Inr (take (nat limit) (drop (nat offset) text)))))"

section \<open>Lineage\<close>

definition inputs_of :: "int \<Rightarrow> db \<Rightarrow> resource list" where
  "inputs_of a d = (case list_resources_for_arc a (Some ''input'') d of Inr rs \<Rightarrow> rs | Inl _ \<Rightarrow> [])"

type_synonym lineage_state = "int list \<times> resource list \<times> resource list"

text \<open>The state: the ids seen, the result so far, and the next frontier.\<close>

definition lineage_add :: "resource \<Rightarrow> lineage_state \<Rightarrow> lineage_state" where
  "lineage_add inp st =
     (case st of (seen, ordered, nxt) \<Rightarrow>
        if rid inp \<in> set seen then st else (rid inp # seen, ordered @ [inp], nxt @ [inp]))"

definition lineage_visit :: "db \<Rightarrow> resource \<Rightarrow> lineage_state \<Rightarrow> lineage_state" where
  "lineage_visit d res st =
     (case produced_by_arc_id res of
        None \<Rightarrow> st
      | Some a \<Rightarrow> fold lineage_add (inputs_of a d) st)"

fun lineage_loop :: "nat \<Rightarrow> db \<Rightarrow> resource list \<Rightarrow> int list \<Rightarrow> resource list \<Rightarrow> resource list option" where
  "lineage_loop n d [] seen ordered = Some ordered"
| "lineage_loop 0 d (f # fs) seen ordered = None"
| "lineage_loop (Suc n) d (f # fs) seen ordered =
     (case fold (lineage_visit d) (f # fs) (seen, ordered, []) of
        (seen', ordered', nxt) \<Rightarrow> lineage_loop n d nxt seen' ordered')"

definition get_lineage :: "int \<Rightarrow> db \<Rightarrow> resource list option" where
  "get_lineage i d =
     (case get_resource i d of
        None \<Rightarrow> Some []
      | Some r0 \<Rightarrow> lineage_loop (Suc (length (resources d))) d [r0] [rid r0] [r0])"

section \<open>Facts about the rows\<close>

lemma mark_template_verdict_Inr:
  assumes "mark_template_verdict i ver d = Inr d'"
  obtains v where "ver = ''approved'' \<and> v = VApproved \<or> ver = ''rejected'' \<and> v = VRejected"
    "d' = d \<or>
       (\<exists>r. get_resource i d = Some r \<and> produced_by_template r \<noteq> None \<and>
          template_verdict r \<noteq> Some VApproved \<and> template_verdict r \<noteq> Some VRejected \<and>
          d' = set_resource i (\<lambda>r. r\<lparr> template_verdict := Some v \<rparr>) d)"
  using assms that
  by (auto simp: mark_template_verdict_def Let_def split: if_splits option.splits)

text \<open>The part of a row that decides its trust.\<close>

definition provenance :: "resource \<Rightarrow> string option \<times> verdict option" where
  "provenance r = (produced_by_template r, template_verdict r)"

abbreviation prov_at :: "db \<Rightarrow> int \<Rightarrow> (string option \<times> verdict option) option" where
  "prov_at d i \<equiv> map_option provenance (get_resource i d)"

lemma prov_at_upd_where:
  assumes "\<And>r. rid (f r) = rid r" "\<And>r. provenance (f r) = provenance r"
  shows "prov_at (d\<lparr> resources := upd_where P f (resources d) \<rparr>) i = prov_at d i"
  using assms by (simp add: get_resource_def find_row_upd_where option.map_comp comp_def)
    (auto split: option.splits simp: map_option_case)

lemma prov_at_set_resource:
  assumes "\<And>r. rid (f r) = rid r"
  shows "prov_at (set_resource j f d) i =
    (if i = j then map_option (\<lambda>r. provenance (f r)) (get_resource i d) else prov_at d i)"
  using assms by (simp add: get_resource_def set_resource_def find_row_upd_row option.map_comp comp_def)

lemma prov_at_frame:
  "(\<And>r. rid (f r) = rid r) \<Longrightarrow> (\<And>r. provenance (f r) = provenance r) \<Longrightarrow>
     prov_at (set_resource j f d) i = prov_at d i"
  by (simp add: prov_at_set_resource)

text \<open>The table of resources keeps the contract of a keyed table; its insert is the code's.\<close>

interpretation res_tbl: keyed_table rid "\<lambda>i r. r\<lparr> rid := i \<rparr>"
  by unfold_locales simp

lemma new_resource_insert:
  assumes "new_resource now ct fp arc tmpl ver src sz hash pn kind d = Inr (j, d')"
  obtains r where "res_tbl.insert_row r (resources d) = (j, resources d')" "provenance r = (tmpl, ver)"
proof -
  let ?r = "\<lparr> rid = 0, content_type = ct, file_path = fp, byte_size = sz, content_hash = hash,
    produced_by_arc_id = arc, produced_by_template = tmpl, template_verdict = ver,
    source_descriptor = src, rkind = kind, pinned = pn, retain_until = None,
    rcreated_at = cur_ts now, deprecated_at = None, deleted_at = None \<rparr>"
  have "res_tbl.insert_row ?r (resources d) = (j, resources d')"
    using assms by (auto simp: new_resource_def res_tbl.insert_row_def Let_def split: if_splits)
  then show ?thesis by (rule that) (simp add: provenance_def)
qed

lemma new_resource_prov:
  assumes "new_resource now ct fp arc tmpl ver src sz hash pn kind d = Inr (j, d')"
  shows "prov_at d' i = (if i = j then Some (tmpl, ver) else prov_at d i)" "get_resource j d = None"
proof -
  obtain r where r: "res_tbl.insert_row r (resources d) = (j, resources d')" "provenance r = (tmpl, ver)"
    using new_resource_insert [OF assms] by blast
  show "prov_at d' i = (if i = j then Some (tmpl, ver) else prov_at d i)"
    using r(2) by (simp add: get_resource_def res_tbl.insert_row_find [OF r(1)] provenance_def)
  show "get_resource j d = None"
    by (simp add: get_resource_def res_tbl.insert_row_fresh [OF r(1)])
qed

section \<open>The verdict as a lifecycle\<close>

definition verdict_edge :: "verdict option \<Rightarrow> verdict option \<Rightarrow> bool" where
  "verdict_edge s t =
     ((s = None \<or> s = Some VPending) \<and> (t = Some VApproved \<or> t = Some VRejected))"

definition verdict_final :: "verdict option \<Rightarrow> bool" where
  "verdict_final s = (s = Some VApproved \<or> s = Some VRejected)"

interpretation verdicts: lifecycle verdict_edge verdict_final
  by unfold_locales (auto simp: verdict_edge_def verdict_final_def)

text \<open>Every operation on resources, as one step of the database.\<close>

inductive res_step :: "db \<Rightarrow> db \<Rightarrow> bool" where
  rs_create: "create_resource now ct fp arc src sz hash pn kind d = Inr (j, d') \<Longrightarrow> res_step d d'"
| rs_derive: "derive_resource now ct fp arc' tmpl ver src sz hash kind d = Inr (j, d') \<Longrightarrow> res_step d d'"
| rs_mark: "mark_template_verdict i ver d = Inr d' \<Longrightarrow> res_step d d'"
| rs_link: "link_arc_resource now a i role d = Inr (k, d') \<Longrightarrow> res_step d d'"
| rs_deprecate: "res_step d (deprecate_resource now i d)"
| rs_deprecate_inputs: "res_step d (snd (deprecate_inputs_of_arc now a d))"
| rs_path: "set_resource_file_path i p d = Inr d' \<Longrightarrow> res_step d d'"
| rs_stats: "update_resource_content_stats i n h d = Inr d' \<Longrightarrow> res_step d d'"
| rs_pin: "res_step d (pin i d)"
| rs_unpin: "res_step d (unpin i d)"
| rs_retain: "res_step d (set_retain_until i ts d)"

inductive_cases res_step_E: "res_step d d'"

text \<open>
  What a step does to the provenance of a row: it leaves it, moves its verdict along an edge
  (a row with a template only), or creates the row.
\<close>

definition prov_step ::
    "(string option \<times> verdict option) option \<Rightarrow> (string option \<times> verdict option) option \<Rightarrow> bool" where
  "prov_step x y =
     (y = x \<or>
      (\<exists>t v w. x = Some (Some t, v) \<and> y = Some (Some t, w) \<and> verdict_edge v w) \<or>
      (x = None \<and> (y = Some (None, None) \<or> (\<exists>t v. y = Some (Some t, Some v)))))"

lemma link_arc_resource_frame:
  "link_arc_resource now a i role d = Inr (k, d') \<Longrightarrow> resources d' = resources d"
  by (auto simp: link_arc_resource_def Let_def split: option.splits if_splits)

lemma prov_path: "set_resource_file_path j p d = Inr d' \<Longrightarrow> prov_at d' i = prov_at d i"
  unfolding set_resource_file_path_def
  by (auto simp: prov_at_frame provenance_def simp del: map_option_eq_Some split: if_splits)

lemma prov_stats: "update_resource_content_stats j n h d = Inr d' \<Longrightarrow> prov_at d' i = prov_at d i"
  unfolding update_resource_content_stats_def
  by (auto simp: prov_at_frame provenance_def simp del: map_option_eq_Some split: if_splits)

lemma prov_link: "link_arc_resource now a j role d = Inr (k, d') \<Longrightarrow> prov_at d' i = prov_at d i"
  by (simp add: link_arc_resource_frame get_resource_def)

lemma prov_deprecate: "prov_at (deprecate_resource now j d) i = prov_at d i"
  unfolding deprecate_resource_def by (rule prov_at_upd_where) (simp_all add: provenance_def)

lemma prov_deprecate_inputs: "prov_at (snd (deprecate_inputs_of_arc now a d)) i = prov_at d i"
  unfolding deprecate_inputs_of_arc_def Let_def snd_conv
  by (rule prov_at_upd_where) (simp_all add: provenance_def)

lemma prov_pins: "prov_at (pin j d) i = prov_at d i" "prov_at (unpin j d) i = prov_at d i"
  "prov_at (set_retain_until j ts d) i = prov_at d i"
  unfolding pin_def unpin_def set_retain_until_def by (simp_all add: prov_at_frame provenance_def)

lemmas prov_frames = prov_path prov_stats prov_link prov_deprecate prov_deprecate_inputs prov_pins

lemma res_step_prov:
  assumes "res_step d d'"
  shows "prov_step (prov_at d i) (prov_at d' i)"
  using assms
proof (cases rule: res_step.cases)
  case (rs_create now ct fp arc src sz hash pn kind j)
  then have n: "new_resource now ct fp arc None None src sz hash pn kind d = Inr (j, d')"
    by (simp add: create_resource_def)
  show ?thesis using new_resource_prov [OF n] by (auto simp: prov_step_def)
next
  case (rs_derive now ct fp arc' tmpl ver src sz hash kind j)
  then obtain v where n: "new_resource now ct fp (Some arc') (Some tmpl) (Some v) src sz hash False kind d = Inr (j, d')"
    by (auto simp: derive_resource_def split: if_splits option.splits)
  show ?thesis using new_resource_prov [OF n] by (auto simp: prov_step_def)
next
  case (rs_mark j ver)
  then obtain v where v: "v = VApproved \<or> v = VRejected" and dd: "d' = d \<or>
       (\<exists>r. get_resource j d = Some r \<and> produced_by_template r \<noteq> None \<and>
          template_verdict r \<noteq> Some VApproved \<and> template_verdict r \<noteq> Some VRejected \<and>
          d' = set_resource j (\<lambda>r. r\<lparr> template_verdict := Some v \<rparr>) d)"
    by (metis mark_template_verdict_Inr)
  show ?thesis
  proof (cases "d' = d")
    case False
    then obtain r where r: "get_resource j d = Some r" "produced_by_template r \<noteq> None"
      "template_verdict r \<noteq> Some VApproved" "template_verdict r \<noteq> Some VRejected"
      "d' = set_resource j (\<lambda>r. r\<lparr> template_verdict := Some v \<rparr>) d"
      using dd by blast
    have "template_verdict r = None \<or> template_verdict r = Some VPending"
      using r by (metis option.exhaust verdict.exhaust)
    then have "verdict_edge (template_verdict r) (Some v)"
      using v by (auto simp: verdict_edge_def)
    then show ?thesis using r by (auto simp: prov_at_set_resource prov_step_def provenance_def)
  qed (simp add: prov_step_def)
qed (simp_all add: prov_frames prov_step_def)

lemma prov_step_Some:
  "prov_step (Some (t, v)) y \<Longrightarrow> \<exists>w. y = Some (t, w) \<and> (w = v \<or> t \<noteq> None \<and> verdict_edge v w)"
  by (auto simp: prov_step_def)

lemma res_run_prov:
  assumes "res_step\<^sup>*\<^sup>* d d'"
  shows "get_resource i d = Some r \<Longrightarrow>
    \<exists>r'. get_resource i d' = Some r' \<and> produced_by_template r' = produced_by_template r \<and>
      (produced_by_template r = None \<longrightarrow> template_verdict r' = template_verdict r) \<and>
      verdicts.move\<^sup>*\<^sup>* (template_verdict r) (template_verdict r')"
  using assms
proof (induction rule: rtranclp_induct)
  case base
  then show ?case by simp
next
  case (step e e')
  from step.IH [OF step.prems]
  obtain r' where r': "get_resource i e = Some r'" "produced_by_template r' = produced_by_template r"
    "produced_by_template r = None \<longrightarrow> template_verdict r' = template_verdict r"
    "verdicts.move\<^sup>*\<^sup>* (template_verdict r) (template_verdict r')" by (elim exE conjE)
  have "prov_step (Some (produced_by_template r', template_verdict r')) (prov_at e' i)"
    using res_step_prov [OF step.hyps(2), of i] r'(1) by (simp add: provenance_def)
  from prov_step_Some [OF this] obtain w where w: "prov_at e' i = Some (produced_by_template r', w)"
    "w = template_verdict r' \<or> produced_by_template r' \<noteq> None \<and> verdict_edge (template_verdict r') w"
    by blast
  then obtain r'' where g: "get_resource i e' = Some r''" "provenance r'' = (produced_by_template r', w)"
    by (metis map_option_eq_Some)
  then have p: "produced_by_template r'' = produced_by_template r'" and "template_verdict r'' = w"
    by (simp_all only: provenance_def prod.inject)
  then have r'': "get_resource i e' = Some r''" "produced_by_template r'' = produced_by_template r'"
    "template_verdict r'' = template_verdict r' \<or>
      produced_by_template r' \<noteq> None \<and> verdict_edge (template_verdict r') (template_verdict r'')"
    using w(2) g(1) by blast+
  have "verdicts.move (template_verdict r') (template_verdict r'')"
    using r''(3) unfolding verdicts.move_def by metis
  with r'(4) have m: "verdicts.move\<^sup>*\<^sup>* (template_verdict r) (template_verdict r'')"
    by (rule rtranclp.rtrancl_into_rtrancl)
  have eq: "produced_by_template r'' = produced_by_template r"
    and raw: "produced_by_template r = None \<longrightarrow> template_verdict r'' = template_verdict r"
    using r'(2,3) r''(2,3) by metis+
  show ?case by (rule exI [of _ r'']) (intro conjI r''(1) eq raw m)
qed

section \<open>The lineage walk\<close>

text \<open>
  The state of the walk: the seen ids are those of the result, the result has no duplicate ids
  and holds rows of the table, and the frontier is part of the result.
\<close>

definition lineage_inv :: "db \<Rightarrow> lineage_state \<Rightarrow> bool" where
  "lineage_inv d st =
     (case st of (seen, ordered, nxt) \<Rightarrow>
        set seen = rid ` set ordered \<and> distinct (map rid ordered) \<and>
        set ordered \<subseteq> set (resources d) \<and> set nxt \<subseteq> set ordered)"

lemma inputs_of_rows: "r \<in> set (inputs_of a d) \<Longrightarrow> r \<in> set (resources d)"
  by (auto simp: inputs_of_def list_resources_for_arc_def link_role_of_def linked_resources_def
      List.map_filter_def get_resource_def dest: find_row_in split: option.splits)

text \<open>Visiting only appends: the new part of the result is the new part of the frontier.\<close>

definition lineage_ext :: "lineage_state \<Rightarrow> lineage_state \<Rightarrow> bool" where
  "lineage_ext st st' =
     (\<exists>new. fst (snd st') = fst (snd st) @ new \<and> snd (snd st') = snd (snd st) @ new)"

lemma lineage_ext_refl: "lineage_ext st st"
  by (simp add: lineage_ext_def)

lemma lineage_ext_trans: "lineage_ext a b \<Longrightarrow> lineage_ext b c \<Longrightarrow> lineage_ext a c"
  by (auto simp: lineage_ext_def)

lemma lineage_add_facts:
  assumes "lineage_inv d st" "r \<in> set (resources d)"
  shows "lineage_inv d (lineage_add r st)" "lineage_ext st (lineage_add r st)"
    "rid r \<in> rid ` set (fst (snd (lineage_add r st)))"
  using assms by (auto simp: lineage_inv_def lineage_add_def lineage_ext_def split: prod.splits)

lemma lineage_ext_mono: "lineage_ext st st' \<Longrightarrow> set (fst (snd st)) \<subseteq> set (fst (snd st'))"
  by (auto simp: lineage_ext_def)

lemma fold_lineage_add:
  "lineage_inv d st \<Longrightarrow> set rs \<subseteq> set (resources d) \<Longrightarrow>
     lineage_inv d (fold lineage_add rs st) \<and> lineage_ext st (fold lineage_add rs st) \<and>
     rid ` set rs \<subseteq> rid ` set (fst (snd (fold lineage_add rs st)))"
proof (induction rs arbitrary: st)
  case Nil
  then show ?case by (simp add: lineage_ext_refl)
next
  case (Cons r rs)
  have r: "r \<in> set (resources d)" using Cons.prems by simp
  note f = lineage_add_facts [OF Cons.prems(1) r]
  have i: "lineage_inv d (fold lineage_add rs (lineage_add r st))"
    "lineage_ext (lineage_add r st) (fold lineage_add rs (lineage_add r st))"
    "rid ` set rs \<subseteq> rid ` set (fst (snd (fold lineage_add rs (lineage_add r st))))"
    using Cons.IH [OF f(1)] Cons.prems(2) by auto
  show ?case using i lineage_ext_trans [OF f(2) i(2)] f(3) lineage_ext_mono [OF i(2)] by auto
qed

text \<open>The ids of the inputs of the arc that produced a resource.\<close>

definition sources_of :: "db \<Rightarrow> resource \<Rightarrow> int set" where
  "sources_of d r =
     (case produced_by_arc_id r of None \<Rightarrow> {} | Some a \<Rightarrow> rid ` set (inputs_of a d))"

lemma lineage_visit_facts:
  assumes "lineage_inv d st"
  shows "lineage_inv d (lineage_visit d r st) \<and> lineage_ext st (lineage_visit d r st) \<and>
    sources_of d r \<subseteq> rid ` set (fst (snd (lineage_visit d r st)))"
proof (cases "produced_by_arc_id r")
  case None
  then show ?thesis using assms by (simp add: lineage_visit_def sources_of_def lineage_ext_refl)
next
  case (Some a)
  have "set (inputs_of a d) \<subseteq> set (resources d)" by (auto dest: inputs_of_rows)
  from fold_lineage_add [OF assms this] Some show ?thesis
    by (simp add: lineage_visit_def sources_of_def)
qed

lemma fold_lineage_visit:
  "lineage_inv d st \<Longrightarrow>
     lineage_inv d (fold (lineage_visit d) fr st) \<and> lineage_ext st (fold (lineage_visit d) fr st) \<and>
     (\<forall>r \<in> set fr. sources_of d r \<subseteq> rid ` set (fst (snd (fold (lineage_visit d) fr st))))"
proof (induction fr arbitrary: st)
  case Nil
  then show ?case by (simp add: lineage_ext_refl)
next
  case (Cons r fr)
  have f: "lineage_inv d (lineage_visit d r st)" "lineage_ext st (lineage_visit d r st)"
    "sources_of d r \<subseteq> rid ` set (fst (snd (lineage_visit d r st)))"
    using lineage_visit_facts [OF Cons.prems, of r] by auto
  have i: "lineage_inv d (fold (lineage_visit d) fr (lineage_visit d r st))"
    "lineage_ext (lineage_visit d r st) (fold (lineage_visit d) fr (lineage_visit d r st))"
    "\<forall>r' \<in> set fr. sources_of d r' \<subseteq> rid ` set (fst (snd (fold (lineage_visit d) fr (lineage_visit d r st))))"
    using Cons.IH [OF f(1)] by auto
  have "sources_of d r \<subseteq> rid ` set (fst (snd (fold (lineage_visit d) fr (lineage_visit d r st))))"
    using f(3) lineage_ext_mono [OF i(2)] by blast
  then show ?case using i lineage_ext_trans [OF f(2) i(2)] by simp
qed

text \<open>A distinct selection of rows is no longer than the table.\<close>

lemma distinct_rows_length:
  assumes "distinct (map rid xs)" "set xs \<subseteq> set ys"
  shows "length xs \<le> length ys"
proof -
  have "length xs = card (set xs)" using assms(1) by (simp add: distinct_card distinct_map)
  also have "\<dots> \<le> card (set ys)" using assms(2) by (simp add: card_mono)
  also have "\<dots> \<le> length ys" by (rule card_length)
  finally show ?thesis .
qed

definition lineage_result :: "db \<Rightarrow> resource list \<Rightarrow> bool" where
  "lineage_result d rs =
     (distinct (map rid rs) \<and> set rs \<subseteq> set (resources d) \<and>
      (\<forall>r \<in> set rs. sources_of d r \<subseteq> rid ` set rs))"

lemma lineage_loop_total:
  assumes "lineage_inv d (seen, ordered, fr)" "length (resources d) < n + length ordered"
    and "\<forall>r \<in> set ordered - set fr. sources_of d r \<subseteq> rid ` set ordered"
  shows "\<exists>new. lineage_loop n d fr seen ordered = Some (ordered @ new) \<and> lineage_result d (ordered @ new)"
  using assms
proof (induction n arbitrary: seen ordered fr)
  case 0
  have "length ordered \<le> length (resources d)"
    by (rule distinct_rows_length) (use "0.prems"(1) in \<open>simp_all add: lineage_inv_def\<close>)
  then show ?case using "0.prems"(2) by simp
next
  case (Suc n)
  show ?case
  proof (cases fr)
    case Nil
    then show ?thesis using Suc.prems by (auto simp: lineage_inv_def lineage_result_def)
  next
    case (Cons f fs)
    obtain seen' ordered' nxt where st: "fold (lineage_visit d) fr (seen, ordered, []) = (seen', ordered', nxt)"
      by (cases "fold (lineage_visit d) fr (seen, ordered, [])") auto
    have inv0: "lineage_inv d (seen, ordered, [])" using Suc.prems(1) by (simp add: lineage_inv_def)
    have inv1: "lineage_inv d (seen', ordered', nxt)" and ext: "lineage_ext (seen, ordered, []) (seen', ordered', nxt)"
      and src: "\<forall>r \<in> set fr. sources_of d r \<subseteq> rid ` set ordered'"
      using fold_lineage_visit [OF inv0, of fr] st by auto
    have nxt: "ordered' = ordered @ nxt" using ext by (auto simp: lineage_ext_def)
    show ?thesis
    proof (cases nxt)
      case Nil
      then have "lineage_loop (Suc n) d fr seen ordered = Some ordered'" using st Cons by simp
      moreover have "lineage_result d ordered'"
        using inv1 src Suc.prems(3) nxt Nil by (auto simp: lineage_inv_def lineage_result_def)
      ultimately show ?thesis using nxt by auto
    next
      case (Cons y ys)
      have "\<exists>new. lineage_loop n d nxt seen' ordered' = Some (ordered' @ new) \<and> lineage_result d (ordered' @ new)"
      proof (rule Suc.IH [OF inv1])
        show "length (resources d) < n + length ordered'" using Suc.prems(2) nxt Cons by simp
        show "\<forall>r \<in> set ordered' - set nxt. sources_of d r \<subseteq> rid ` set ordered'"
          using Suc.prems(3) src nxt by auto
      qed
      then show ?thesis using st \<open>fr = f # fs\<close> nxt by auto
    qed
  qed
qed

section \<open>Properties\<close>

text \<open>A trusted and an untrusted arc, a raw page and a summary derived from it.\<close>

definition demo_page :: resource where
  "demo_page = \<lparr> rid = 1, content_type = ''html'', file_path = Some ''/p'', byte_size = None,
     content_hash = None, produced_by_arc_id = None, produced_by_template = None,
     template_verdict = None, source_descriptor = None, rkind = None, pinned = False,
     retain_until = None, rcreated_at = 0, deprecated_at = None, deleted_at = None \<rparr>"

definition demo_summary :: resource where
  "demo_summary = demo_page\<lparr> rid := 2, produced_by_arc_id := Some 2,
     produced_by_template := Some ''fetch'', template_verdict := Some VPending \<rparr>"

definition demo_res_db :: db where
  "demo_res_db = empty_db\<lparr> arcs := [blank_arc 1, (blank_arc 2)\<lparr> ainteg := CONSTRAINED \<rparr>],
     resources := [demo_page, demo_summary],
     arc_links := [\<lparr> lid = 1, l_arc = 2, l_resource = 1, l_role = LInput, l_created_at = 0 \<rparr>] \<rparr>"

text \<open>Raw content stays untrusted and verdicts are final. Over any run of resource
  operations a row keeps its provenance; a raw row is never trusted, and a row whose verdict is
  approved or rejected keeps that verdict and its trust.\<close>

theorem resource_trust_final:
  assumes "res_step\<^sup>*\<^sup>* d d'" and "get_resource i d = Some r"
  shows "\<exists>r'. get_resource i d' = Some r' \<and> produced_by_template r' = produced_by_template r \<and>
    (produced_by_template r = None \<longrightarrow> resource_trust (Some r') = ''untrusted'') \<and>
    (template_verdict r = Some VApproved \<or> template_verdict r = Some VRejected \<longrightarrow>
       template_verdict r' = template_verdict r \<and> resource_trust (Some r') = resource_trust (Some r))"
proof -
  obtain r' where r': "get_resource i d' = Some r'" "produced_by_template r' = produced_by_template r"
    "verdicts.move\<^sup>*\<^sup>* (template_verdict r) (template_verdict r')"
    using res_run_prov [OF assms] by (elim exE conjE)
  have "verdict_final (template_verdict r) \<Longrightarrow> template_verdict r' = template_verdict r"
    by (rule verdicts.final_absorbing [OF r'(3)])
  then show ?thesis using r' by (auto simp: verdict_final_def resource_trust_def)
qed

theorem resource_trust_final_witness:
  "\<exists>d' r'. mark_template_verdict 2 ''rejected'' demo_res_db = Inr d' \<and>
     get_resource 1 d' = Some r' \<and> resource_trust (Some r') = ''untrusted''"
proof -
  obtain d' where d': "mark_template_verdict 2 ''rejected'' demo_res_db = Inr d'"
    by (simp add: mark_template_verdict_def get_resource_def demo_res_db_def demo_page_def
        demo_summary_def)
  have g: "get_resource 1 demo_res_db = Some demo_page"
    by (simp add: get_resource_def demo_res_db_def demo_page_def demo_summary_def)
  have "res_step\<^sup>*\<^sup>* demo_res_db d'" using rs_mark [OF d'] by simp
  from resource_trust_final [OF this g] d' show ?thesis by (auto simp: demo_page_def)
qed

text \<open>The sources of trust. The only steps that make a resource trusted are an approval of a
  row that has a template, and \<open>derive_resource\<close> called with the verdict \<open>approved\<close>, which
  creates a trusted row without any review.\<close>

theorem resource_trust_gained:
  assumes "res_step d d'" and "is_trusted i d'" and "\<not> is_trusted i d"
  shows "mark_template_verdict i ''approved'' d = Inr d' \<or>
    (get_resource i d = None \<and>
     (\<exists>now ct fp a tmpl src sz hash kind.
        derive_resource now ct fp a tmpl ''approved'' src sz hash kind d = Inr (i, d')))"
proof -
  have tr: "is_trusted j e \<longleftrightarrow> (\<exists>t. prov_at e j = Some (Some t, Some VApproved))" for j e
    by (auto simp: is_trusted_def resource_trust_iff resource_trusted_def provenance_def
        split: option.splits)
  have ch: "prov_at d' i \<noteq> prov_at d i" using assms(2,3) unfolding tr by metis
  show ?thesis using assms(1)
  proof (cases rule: res_step.cases)
    case (rs_create now ct fp arc src sz hash pn kind j)
    then have n: "new_resource now ct fp arc None None src sz hash pn kind d = Inr (j, d')"
      by (simp add: create_resource_def)
    then show ?thesis using new_resource_prov(1) [OF n, of i] assms(2,3) tr by (auto split: if_splits)
  next
    case (rs_derive now ct fp arc' tmpl ver src sz hash kind j)
    then obtain v where v: "verdict_of ver = Some v"
      and n: "new_resource now ct fp (Some arc') (Some tmpl) (Some v) src sz hash False kind d = Inr (j, d')"
      by (auto simp: derive_resource_def split: if_splits option.splits)
    have "i = j" "v = VApproved"
      using new_resource_prov(1) [OF n, of i] assms(2,3) tr by (auto split: if_splits)
    moreover have "ver = ''approved''" using v \<open>v = VApproved\<close> by (auto simp: verdict_of_def split: if_splits)
    ultimately show ?thesis using rs_derive new_resource_prov(2) [OF n] by blast
  next
    case (rs_mark j ver)
    then obtain v where v: "ver = ''approved'' \<and> v = VApproved \<or> ver = ''rejected'' \<and> v = VRejected"
      and dd: "d' = d \<or> (\<exists>r. get_resource j d = Some r \<and>
          d' = set_resource j (\<lambda>r. r\<lparr> template_verdict := Some v \<rparr>) d)"
      by (metis mark_template_verdict_Inr)
    have "d' \<noteq> d" using ch by auto
    then have d': "d' = set_resource j (\<lambda>r. r\<lparr> template_verdict := Some v \<rparr>) d" using dd by blast
    have "i = j" using ch unfolding d' by (auto simp: prov_at_set_resource split: if_splits)
    moreover have "v = VApproved"
      using assms(2) tr \<open>i = j\<close> by (auto simp: d' prov_at_set_resource provenance_def)
    ultimately show ?thesis using rs_mark v by auto
  qed (use ch in \<open>simp_all add: prov_frames\<close>)
qed

theorem resource_trust_gained_witness:
  "\<exists>d'. derive_resource 0 ''txt'' None 2 ''fetch'' ''approved'' None None None None demo_res_db = Inr (3, d') \<and>
     (mark_template_verdict 3 ''approved'' demo_res_db = Inr d' \<or> get_resource 3 demo_res_db = None)"
proof -
  obtain d' where d': "derive_resource 0 ''txt'' None 2 ''fetch'' ''approved'' None None None None demo_res_db = Inr (3, d')"
    and t: "is_trusted 3 d'" and n: "\<not> is_trusted 3 demo_res_db"
    by (simp add: derive_resource_def verdict_of_def new_resource_def fk_arc_def arc_exists_def
        is_trusted_def get_resource_def resource_trust_def demo_res_db_def demo_page_def
        demo_summary_def next_rowid_def Let_def)
  have "res_step demo_res_db d'" by (rule rs_derive [OF d'])
  from resource_trust_gained [OF this t n] d' show ?thesis by blast
qed

text \<open>The read gate of resources. A read on behalf of an arc succeeds only if the arc
  exists, the resource exists and is not deleted, and, when the arc is trusted, the resource is
  trusted; the text returned is the requested slice of the file.\<close>

theorem read_gate_sound:
  assumes "read_resource_content fs i off lm (Some a) d = Inr text"
  shows "\<exists>arc r p full. find_arc a d = Some arc \<and> get_resource i d = Some r \<and> deleted_at r = None \<and>
    (ainteg arc = TRUSTED \<longrightarrow> resource_trust (Some r) = ''trusted'') \<and>
    file_path r = Some p \<and> fs p = Some full \<and> text = take (nat lm) (drop (nat off) full)"
proof -
  have "resource_trust (Some r) = ''trusted'' \<or> resource_trust (Some r) = ''untrusted''" for r
    by (simp add: resource_trust_def)
  then show ?thesis
    using assms
    by (auto simp: read_resource_content_def Let_def split: if_splits option.splits)
qed

theorem read_gate_sound_witness:
  "\<exists>text arc. read_resource_content (\<lambda>p. Some ''hello'') 1 1 3 (Some 2) demo_res_db = Inr text \<and>
     find_arc 2 demo_res_db = Some arc \<and> text = ''ell''"
proof -
  have "read_resource_content (\<lambda>p. Some ''hello'') 1 1 3 (Some 2) demo_res_db = Inr ''ell''"
    by (simp add: read_resource_content_def get_resource_def demo_res_db_def demo_page_def
        demo_summary_def eval_nat_numeral)
  from read_gate_sound [OF this] this show ?thesis by blast
qed

text \<open>The lineage walk ends and is complete. For an existing resource \<open>get_lineage\<close> returns
  a list that starts with it, has no id twice, holds rows of the table, and contains with each
  resource every input of the arc that produced it.\<close>

theorem get_lineage_total:
  assumes "get_resource i d = Some r"
  shows "\<exists>rest. get_lineage i d = Some (r # rest) \<and> distinct (map rid (r # rest)) \<and>
    set (r # rest) \<subseteq> set (resources d) \<and>
    (\<forall>x \<in> set (r # rest). sources_of d x \<subseteq> rid ` set (r # rest))"
proof -
  have "r \<in> set (resources d)" using assms by (auto simp: get_resource_def dest: find_row_in)
  then have inv: "lineage_inv d ([rid r], [r], [r])" by (simp add: lineage_inv_def)
  have "\<exists>new. lineage_loop (Suc (length (resources d))) d [r] [rid r] [r] = Some ([r] @ new) \<and>
      lineage_result d ([r] @ new)"
    by (rule lineage_loop_total [OF inv]) simp_all
  then show ?thesis using assms by (auto simp: get_lineage_def lineage_result_def)
qed

theorem get_lineage_total_witness:
  "\<exists>rest. get_lineage 2 demo_res_db = Some (demo_summary # rest) \<and> 1 \<in> rid ` set (demo_summary # rest)"
proof -
  have g: "get_resource 2 demo_res_db = Some demo_summary"
    by (simp add: get_resource_def demo_res_db_def demo_page_def demo_summary_def)
  have "1 \<in> sources_of demo_res_db demo_summary"
    by (simp add: sources_of_def inputs_of_def list_resources_for_arc_def link_role_of_def
        linked_resources_def List.map_filter_def get_resource_def demo_res_db_def
        demo_page_def demo_summary_def Let_def)
  then show ?thesis using get_lineage_total [OF g] by auto
qed

end
