(* ===== verification/Model_Resolver.thy ===== *)
theory Model_Resolver
  imports Prelude
begin

text \<open>
  Names of models (\<open>agent/model_resolver.py\<close>): the manifest of short identifiers, the role slots,
  the strings of the form \<open>provider:model\<close> and the escalation stacks. The configuration it
  reads is the record \<open>model_config\<close>; the model the chain provider reports is a field of it.
  A key missing from the configuration has its documented default in the record.
\<close>

section \<open>Configuration\<close>

record manifest_entry =
  me_provider :: string
  me_model_id :: string
  me_cost_tier :: string

record model_config =
  mc_models :: "(string \<times> manifest_entry) list"
  mc_roles :: "(string \<times> string) list"
  mc_provider :: string
  mc_anthropic :: string
  mc_ollama :: string
  mc_tinfoil :: string
  mc_chain :: "string option"
  mc_stacks :: "(string \<times> string list) list"

section \<open>Identifiers and cost tiers\<close>

definition COST_TIER_ORDER :: "string list" where
  "COST_TIER_ORDER = [''low'', ''medium'', ''high'']"

definition colon_join :: "string \<Rightarrow> string \<Rightarrow> string" where
  "colon_join p m = p @ '':'' @ m"

definition resolve_model_identifier :: "model_config \<Rightarrow> string \<Rightarrow> exn + string" where
  "resolve_model_identifier mc k =
     (case map_of (mc_models mc) k of
        None \<Rightarrow> Inl (ValueError ''Unknown model identifier'')
      | Some e \<Rightarrow> Inr (colon_join (me_provider e) (me_model_id e)))"

definition get_cost_tier :: "model_config \<Rightarrow> string \<Rightarrow> exn + string" where
  "get_cost_tier mc k =
     (case map_of (mc_models mc) k of
        None \<Rightarrow> Inl (ValueError ''Unknown model identifier'')
      | Some e \<Rightarrow> Inr (me_cost_tier e))"

text \<open>\<open>list.index\<close>: the first position, or \<open>ValueError\<close>.\<close>

fun index_of :: "'a \<Rightarrow> 'a list \<Rightarrow> nat option" where
  "index_of x [] = None"
| "index_of x (y # ys) = (if y = x then Some 0 else map_option Suc (index_of x ys))"

definition compare_cost_tiers :: "string \<Rightarrow> string \<Rightarrow> exn + int" where
  "compare_cost_tiers a b =
     (case index_of a COST_TIER_ORDER of
        None \<Rightarrow> Inl (ValueError ''Unknown cost tier'')
      | Some i \<Rightarrow>
          (case index_of b COST_TIER_ORDER of
             None \<Rightarrow> Inl (ValueError ''Unknown cost tier'')
           | Some j \<Rightarrow> Inr (int i - int j)))"

section \<open>Role slots\<close>

text \<open>\<open>model_roles.get(slot, "")\<close>, taken when not empty.\<close>

definition role_model :: "model_config \<Rightarrow> string \<Rightarrow> string option" where
  "role_model mc slot =
     (case map_of (mc_roles mc) slot of
        None \<Rightarrow> None
      | Some m \<Rightarrow> if m = [] then None else Some m)"

definition provider_default :: "model_config \<Rightarrow> string" where
  "provider_default mc =
     (if mc_provider mc = ''anthropic'' then colon_join ''anthropic'' (mc_anthropic mc)
      else if mc_provider mc = ''ollama'' then colon_join ''ollama'' (mc_ollama mc)
      else if mc_provider mc = ''tinfoil'' then colon_join ''tinfoil'' (mc_tinfoil mc)
      else if mc_provider mc = ''chain''
      then (case mc_chain mc of
              Some m \<Rightarrow> if m = [] then ''chain:default'' else colon_join ''chain'' m
            | None \<Rightarrow> ''chain:default'')
      else colon_join ''anthropic'' (mc_anthropic mc))"

definition get_model_for_role :: "model_config \<Rightarrow> string \<Rightarrow> string" where
  "get_model_for_role mc slot =
     (case role_model mc slot of
        Some m \<Rightarrow> m
      | None \<Rightarrow> (case role_model mc ''default'' of Some m \<Rightarrow> m | None \<Rightarrow> provider_default mc))"

section \<open>Model strings\<close>

definition before_colon :: "string \<Rightarrow> string" where
  "before_colon s = takeWhile (\<lambda>c. c \<noteq> CHR '':'') s"

definition after_colon :: "string \<Rightarrow> string" where
  "after_colon s = drop 1 (dropWhile (\<lambda>c. c \<noteq> CHR '':'') s)"

definition parse_model_string :: "model_config \<Rightarrow> string \<Rightarrow> exn + (string \<times> string)" where
  "parse_model_string mc s =
     (if CHR '':'' \<notin> set s then Inr (mc_provider mc, s)
      else if before_colon s = [] \<or> after_colon s = []
      then Inl (ValueError ''Invalid model string'')
      else Inr (before_colon s, after_colon s))"

section \<open>Escalation stacks\<close>

definition get_escalation_stack :: "model_config \<Rightarrow> string \<Rightarrow> string list" where
  "get_escalation_stack mc task =
     (case map_of (mc_stacks mc) task of
        Some (m # ms) \<Rightarrow> m # ms
      | _ \<Rightarrow> (case map_of (mc_stacks mc) ''general'' of Some ms \<Rightarrow> ms | None \<Rightarrow> []))"

definition get_next_model :: "model_config \<Rightarrow> string \<Rightarrow> string \<Rightarrow> string option" where
  "get_next_model mc current task =
     (case get_escalation_stack mc task of
        [] \<Rightarrow> None
      | m # ms \<Rightarrow>
          (case index_of current (m # ms) of
             None \<Rightarrow> Some m
           | Some i \<Rightarrow>
               if int i \<ge> int (length (m # ms)) - 1 then None else Some ((m # ms) ! (i + 1))))"

section \<open>Facts\<close>

lemma index_of_Some: "index_of x xs = Some i \<Longrightarrow> i < length xs \<and> xs ! i = x \<and> x \<notin> set (take i xs)"
  by (induction xs arbitrary: i) (auto split: if_splits)

lemma index_of_None: "index_of x xs = None \<longleftrightarrow> x \<notin> set xs"
  by (induction xs) auto

lemma index_of_nth_distinct: "distinct xs \<Longrightarrow> i < length xs \<Longrightarrow> index_of (xs ! i) xs = Some i"
proof (induction xs arbitrary: i)
  case (Cons x xs)
  then show ?case by (cases i) auto
qed simp

lemma parse_colon_join:
  "p \<noteq> [] \<Longrightarrow> CHR '':'' \<notin> set p \<Longrightarrow> m \<noteq> [] \<Longrightarrow> parse_model_string mc (colon_join p m) = Inr (p, m)"
proof -
  assume a: "p \<noteq> []" "CHR '':'' \<notin> set p" "m \<noteq> []"
  have "takeWhile (\<lambda>c. c \<noteq> CHR '':'') (p @ ('':'' @ m)) = p"
    and "dropWhile (\<lambda>c. c \<noteq> CHR '':'') (p @ ('':'' @ m)) = '':'' @ m"
    using a(2) by (subst takeWhile_append2 dropWhile_append2; auto)+
  then show ?thesis using a by (simp add: parse_model_string_def before_colon_def after_colon_def colon_join_def)
qed

text \<open>
  The escalation walk: the models reached from \<open>current\<close> by following \<open>get_next_model\<close> until
  it says there is none, with fuel.
\<close>

fun climb :: "nat \<Rightarrow> model_config \<Rightarrow> string \<Rightarrow> string \<Rightarrow> string list option" where
  "climb 0 mc m task = None"
| "climb (Suc n) mc m task =
     (case get_next_model mc m task of
        None \<Rightarrow> Some []
      | Some m' \<Rightarrow> map_option ((#) m') (climb n mc m' task))"

lemma next_model_in_stack:
  assumes "distinct st" "get_escalation_stack mc task = st" "i < length st"
  shows "get_next_model mc (st ! i) task = (if Suc i < length st then Some (st ! Suc i) else None)"
proof -
  obtain m ms where st: "st = m # ms" using assms(3) by (cases st) auto
  have "index_of (st ! i) st = Some i" by (rule index_of_nth_distinct [OF assms(1,3)])
  then show ?thesis using assms(2,3) by (auto simp: get_next_model_def st)
qed

lemma climb_from:
  assumes "distinct st" "get_escalation_stack mc task = st" "i < length st"
  shows "length st \<le> i + n \<Longrightarrow> climb n mc (st ! i) task = Some (drop (Suc i) st)"
  using assms(3)
proof (induction n arbitrary: i)
  case (Suc n)
  show ?case
  proof (cases "Suc i < length st")
    case True
    then show ?thesis
      using Suc.IH [of "Suc i"] Suc.prems next_model_in_stack [OF assms(1,2), of i]
      by (simp add: Cons_nth_drop_Suc)
  next
    case False
    then show ?thesis using next_model_in_stack [OF assms(1,2), of i] Suc.prems by simp
  qed
qed simp

section \<open>Property\<close>

definition demo_models :: model_config where
  "demo_models = \<lparr> mc_models = [], mc_roles = [(''chat'', ''p:a'')], mc_provider = ''anthropic'',
     mc_anthropic = ''m'', mc_ollama = ''l'', mc_tinfoil = ''t'', mc_chain = None,
     mc_stacks = [(''general'', [''p:a'', ''p:b'', ''p:c''])] \<rparr>"

text \<open>Escalation climbs the stack and stops. From any model, repeated escalation in a stack
  without repetitions ends after at most as many steps as the stack has models, and visits exactly
  the models above the current one, in order (the whole stack when the current model is not in it).\<close>

theorem escalation_climbs:
  assumes "distinct (get_escalation_stack mc task)"
  shows "climb (Suc (length (get_escalation_stack mc task))) mc m task =
    Some (case index_of m (get_escalation_stack mc task) of
            None \<Rightarrow> get_escalation_stack mc task
          | Some i \<Rightarrow> drop (Suc i) (get_escalation_stack mc task))"
proof -
  let ?st = "get_escalation_stack mc task"
  show ?thesis
  proof (cases "index_of m ?st")
    case (Some i)
    then have i: "i < length ?st" "?st ! i = m" using index_of_Some [of m ?st i] by auto
    then show ?thesis using climb_from [OF assms refl i(1), of "Suc (length ?st)"] Some by simp
  next
    case None
    show ?thesis
    proof (cases ?st)
      case Nil
      then show ?thesis by (simp add: get_next_model_def)
    next
      case (Cons x xs)
      have "get_next_model mc m task = Some x" using None Cons by (simp add: get_next_model_def)
      moreover have "climb (length ?st) mc (?st ! 0) task = Some (drop (Suc 0) ?st)"
        by (rule climb_from [OF assms refl]) (simp_all add: Cons)
      ultimately show ?thesis using None Cons by simp
    qed
  qed
qed

theorem escalation_climbs_witness:
  "climb 4 demo_models ''p:a'' ''coding'' = Some [''p:b'', ''p:c'']"
proof -
  have s: "get_escalation_stack demo_models ''coding'' = [''p:a'', ''p:b'', ''p:c'']"
    by (simp add: get_escalation_stack_def demo_models_def)
  have "distinct (get_escalation_stack demo_models ''coding'')" by (simp add: s)
  from escalation_climbs [OF this, of "''p:a''"] show ?thesis by (simp add: s eval_nat_numeral)
qed

end
