(* ===== verification/Model_Selector.thy ===== *)
theory Model_Selector
  imports Model_Health Event_Bus
begin

text \<open>
  The model selector (\<open>core/models/selector.py\<close>): policies and their JSON form, the hard
  constraints, the health filter with its graceful degradation, and the preference-weighted
  score with the cache-loss penalty.

  The values of a policy's JSON are kept as JSON: the code compares and multiplies whatever the
  text held, so a value of the wrong type raises \<open>TypeError\<close> where it is used. Numbers are exact
  rationals. Asking for a model's health may refresh the cached health, so selection threads the
  tracker.
\<close>

section \<open>Fallible steps\<close>

fun filter_x :: "('a \<Rightarrow> exn + bool) \<Rightarrow> 'a list \<Rightarrow> exn + 'a list" where
  "filter_x f [] = Inr []"
| "filter_x f (x # xs) =
     xbind (f x) (\<lambda>b. xbind (filter_x f xs) (\<lambda>ys. Inr (if b then x # ys else ys)))"

lemma filter_x_set:
  "filter_x f xs = Inr ys \<Longrightarrow> set ys = {x \<in> set xs. f x = Inr True} \<and> (\<forall>x \<in> set xs. \<exists>b. f x = Inr b)"
proof (induction xs arbitrary: ys)
  case (Cons x xs)
  then obtain b zs where b: "f x = Inr b" "filter_x f xs = Inr zs" "ys = (if b then x # zs else zs)"
    by (auto simp: xbind_Inr)
  then show ?case using Cons.IH [OF b(2)] by (cases b) auto
qed simp

section \<open>Registry entries and policies\<close>

record model_entry =
  en_key :: string
  en_provider :: string
  en_model_id :: string
  quality_tier :: int
  cost_in :: rat
  cost_out :: rat
  cached_cost_in :: rat
  context_window :: int
  capabilities :: "string list"
  measured_speed :: "rat option"

definition entry_id :: "model_entry \<Rightarrow> string" where
  "entry_id e = en_provider e @ '':'' @ en_model_id e"

text \<open>\<open>PolicyConstraints\<close>: \<open>None\<close> is \<open>JNull\<close>.\<close>

record constraints =
  min_quality :: json
  max_quality :: json
  max_cost_out :: json
  max_latency :: json
  required_caps :: json

definition PolicyConstraints :: constraints where
  "PolicyConstraints = \<lparr> min_quality = JInt 1, max_quality = JNull, max_cost_out = JNull,
     max_latency = JNull, required_caps = JNull \<rparr>"

record model_policy =
  mp_name :: "string option"
  mp_model :: "string option"
  mp_agent_role :: "string option"
  mp_temperature :: "rat option"
  mp_max_tokens :: "int option"
  mp_constraints :: "constraints option"
  preference :: "json \<times> json \<times> json"

definition default_preference :: "json \<times> json \<times> json" where
  "default_preference = (JNum (3/10), JNum (4/10), JNum (3/10))"

subsection \<open>The JSON of a policy\<close>

definition parse_constraints :: "json \<Rightarrow> exn + constraints" where
  "parse_constraints c =
     (case c of
        JObj d \<Rightarrow> Inr \<lparr> min_quality = dflt (JInt 1) (jget d ''min_quality''),
                       max_quality = dflt JNull (jget d ''max_quality''),
                       max_cost_out = dflt JNull (jget d ''max_cost_per_mtok_out''),
                       max_latency = dflt JNull (jget d ''max_latency_s_per_ktok''),
                       required_caps = dflt JNull (jget d ''required_capabilities'') \<rparr>
      | _ \<Rightarrow> Inl (AttributeError ''get''))"

definition parse_preference :: "json option \<Rightarrow> json \<times> json \<times> json" where
  "parse_preference p =
     (case p of Some (JList [a, b, c]) \<Rightarrow> (a, b, c) | _ \<Rightarrow> default_preference)"

text \<open>
  The part of \<open>from_db_row\<close> that reads \<open>policy_json\<close>. A text that is no JSON, or is JSON but no
  dict, is logged and leaves the defaults; a \<open>constraints\<close> value that is no dict raises.
\<close>

definition policy_of_json :: "jtext option \<Rightarrow> exn + (constraints option \<times> (json \<times> json \<times> json))" where
  "policy_of_json t =
     (case t of
        Some (Parsed (JObj d)) \<Rightarrow>
          (case jget d ''constraints'' of
             None \<Rightarrow> Inr (None, parse_preference (jget d ''preference''))
           | Some c \<Rightarrow>
               xbind (parse_constraints c)
                 (\<lambda>cs. Inr (Some cs, parse_preference (jget d ''preference''))))
      | _ \<Rightarrow> Inr (None, default_preference))"

definition opt_field :: "string \<Rightarrow> json \<Rightarrow> (string \<times> json) list" where
  "opt_field k v = (if v = JNull then [] else [(k, v)])"

definition constraints_json :: "constraints \<Rightarrow> json" where
  "constraints_json c =
     JObj ([(''min_quality'', min_quality c)]
       @ opt_field ''max_quality'' (max_quality c)
       @ opt_field ''max_cost_per_mtok_out'' (max_cost_out c)
       @ opt_field ''max_latency_s_per_ktok'' (max_latency c)
       @ opt_field ''required_capabilities'' (required_caps c))"

definition pref_json :: "json \<times> json \<times> json \<Rightarrow> json" where
  "pref_json p = (case p of (a, b, c) \<Rightarrow> JList [a, b, c])"

definition to_policy_json :: "model_policy \<Rightarrow> jtext option" where
  "to_policy_json p =
     (if mp_constraints p = None \<and> json_eq (pref_json (preference p)) (pref_json default_preference)
      then None
      else Some (Parsed (JObj
        ((case mp_constraints p of None \<Rightarrow> [] | Some c \<Rightarrow> [(''constraints'', constraints_json c)])
         @ [(''preference'', pref_json (preference p))]))))"

section \<open>Hard constraints\<close>

text \<open>A number compared with a JSON value; anything but a number raises.\<close>

definition cmp_num :: "(rat \<Rightarrow> rat \<Rightarrow> bool) \<Rightarrow> rat \<Rightarrow> json \<Rightarrow> exn + bool" where
  "cmp_num R x v = (case jnum v of None \<Rightarrow> Inl (TypeError ''not supported'') | Some r \<Rightarrow> Inr (R x r))"

text \<open>What a \<open>for\<close> loop over a truthy JSON value visits.\<close>

fun json_items :: "json \<Rightarrow> exn + json list" where
  "json_items (JList xs) = Inr xs"
| "json_items (JStr s) = Inr (map (\<lambda>c. JStr [c]) s)"
| "json_items (JObj d) = Inr (map (JStr \<circ> fst) d)"
| "json_items _ = Inl (TypeError ''not iterable'')"

text \<open>\<open>cap in entry_caps\<close> on a set of strings; lists and dicts are not hashable.\<close>

fun in_caps :: "string list \<Rightarrow> json \<Rightarrow> exn + bool" where
  "in_caps caps (JStr s) = Inr (s \<in> set caps)"
| "in_caps caps (JList xs) = Inl (TypeError ''unhashable'')"
| "in_caps caps (JObj d) = Inl (TypeError ''unhashable'')"
| "in_caps caps _ = Inr False"

fun all_caps :: "string list \<Rightarrow> json list \<Rightarrow> exn + bool" where
  "all_caps caps [] = Inr True"
| "all_caps caps (c # cs) = xbind (in_caps caps c) (\<lambda>b. if b then all_caps caps cs else Inr False)"

definition passes_constraints :: "constraints \<Rightarrow> model_entry \<Rightarrow> exn + bool" where
  "passes_constraints c e =
     xbind (cmp_num (<) (of_int (quality_tier e)) (min_quality c)) (\<lambda>low. if low then Inr False else
     xbind (if max_quality c = JNull then Inr False
            else cmp_num (>) (of_int (quality_tier e)) (max_quality c)) (\<lambda>high. if high then Inr False else
     xbind (if max_cost_out c = JNull then Inr False
            else cmp_num (>) (cost_out e) (max_cost_out c)) (\<lambda>dear. if dear then Inr False else
     xbind (if max_latency c = JNull then Inr False
            else (case measured_speed e of None \<Rightarrow> Inr False
                  | Some s \<Rightarrow> cmp_num (>) s (max_latency c))) (\<lambda>slow. if slow then Inr False else
     (if jtruthy (required_caps c)
      then xbind (json_items (required_caps c)) (all_caps (capabilities e))
      else Inr True)))))"

section \<open>Health filter\<close>

fun not_broken :: "health_config \<Rightarrow> time \<Rightarrow> model_entry list \<Rightarrow> tracker \<Rightarrow> model_entry list \<times> tracker" where
  "not_broken cfg now [] t = ([], t)"
| "not_broken cfg now (e # es) t =
     (let (b, t1) = should_circuit_break cfg now (entry_id e) t;
          (ok, t2) = not_broken cfg now es t1
      in (if b then ok else e # ok, t2))"

definition keep_some :: "'a list \<Rightarrow> 'a list \<Rightarrow> 'a list" where
  "keep_some xs filtered = (if filtered = [] then xs else filtered)"

definition filter_by_health ::
    "health_config \<Rightarrow> time \<Rightarrow> model_entry list \<Rightarrow> tracker \<Rightarrow> model_entry list \<times> tracker" where
  "filter_by_health cfg now es t =
     (let (ok, t1) = not_broken cfg now es t;
          e1 = keep_some es ok;
          e2 = filter (\<lambda>e. ph_health (get_provider_health (en_provider e) t1) \<noteq> CIRCUIT_OPEN) e1
      in (keep_some e1 e2, t1))"

section \<open>Scores\<close>

record selection =
  sel_key :: string
  sel_id :: string
  sel_score :: rat

fun max_of :: "rat list \<Rightarrow> rat" where
  "max_of [] = 0"
| "max_of [x] = x"
| "max_of (x # xs) = max x (max_of xs)"

text \<open>\<open>max(...) or 1.0\<close>.\<close>

definition top_cost :: "model_entry list \<Rightarrow> rat" where
  "top_cost es = (let m = max_of (map cost_out es) in if m = 0 then 1 else m)"

definition speeds_of :: "model_entry list \<Rightarrow> rat list" where
  "speeds_of es = List.map_filter measured_speed es"

definition top_speed :: "model_entry list \<Rightarrow> rat" where
  "top_speed es = (if speeds_of es = [] then 1 else max_of (speeds_of es))"

definition median_speed :: "model_entry list \<Rightarrow> rat" where
  "median_speed es =
     (let sp = speeds_of es in
      if sp = [] then top_speed es * (1/2) else sort sp ! (length sp div 2))"

definition cost_score :: "model_entry list \<Rightarrow> model_entry \<Rightarrow> rat" where
  "cost_score es e = (if top_cost es > 0 then 1 - cost_out e / top_cost es else 1)"

definition speed_score :: "model_entry list \<Rightarrow> model_entry \<Rightarrow> rat" where
  "speed_score es e =
     (let eff = (case measured_speed e of Some s \<Rightarrow> s | None \<Rightarrow> median_speed es) in
      if top_speed es > 0
      then (if top_speed es > eff then 1 - eff / top_speed es else 0)
      else 1)"

definition current_provider :: "string option \<Rightarrow> string option" where
  "current_provider cur =
     (case cur of
        None \<Rightarrow> None
      | Some m \<Rightarrow> if CHR '':'' \<in> set m then Some (takeWhile (\<lambda>c. c \<noteq> CHR '':'') m) else None)"

definition cache_penalty :: "string option \<Rightarrow> int \<Rightarrow> model_entry \<Rightarrow> rat" where
  "cache_penalty cur cached e =
     (case current_provider cur of
        None \<Rightarrow> 0
      | Some p \<Rightarrow>
          if cached > 0 \<and> p \<noteq> [] \<and> en_provider e \<noteq> p
          then let delta = cost_in e - cached_cost_in e in
               if delta > 0 then min (of_int cached * delta / 1000000 * 5) (1/2) else 0
          else 0)"

definition score_of ::
    "rat \<times> rat \<times> rat \<Rightarrow> string option \<Rightarrow> int \<Rightarrow> model_entry list \<Rightarrow> model_entry \<Rightarrow> rat" where
  "score_of w cur cached es e =
     (case w of (cw, qw, sw) \<Rightarrow>
        cw * cost_score es e + qw * (of_int (quality_tier e) / 5) + sw * speed_score es e
          - cache_penalty cur cached e)"

definition pref_weights :: "json \<times> json \<times> json \<Rightarrow> exn + (rat \<times> rat \<times> rat)" where
  "pref_weights p =
     (case p of (a, b, c) \<Rightarrow>
        (case (jnum a, jnum b, jnum c) of
           (Some x, Some y, Some z) \<Rightarrow> Inr (x, y, z)
         | _ \<Rightarrow> Inl (TypeError ''unsupported operand'')))"

definition score_models ::
    "model_policy \<Rightarrow> string option \<Rightarrow> int \<Rightarrow> model_entry list \<Rightarrow> exn + selection list" where
  "score_models p cur cached es =
     xbind (pref_weights (preference p)) (\<lambda>w.
       Inr (sort_key (\<lambda>r. - sel_score r)
         (map (\<lambda>e. \<lparr> sel_key = en_key e, sel_id = entry_id e,
                     sel_score = score_of w cur cached es e \<rparr>) es)))"

section \<open>Selection\<close>

definition pinned :: "model_policy \<Rightarrow> string option" where
  "pinned p = (case mp_model p of None \<Rightarrow> None | Some m \<Rightarrow> if m = [] then None else Some m)"

definition policy_constraints :: "model_policy \<Rightarrow> constraints" where
  "policy_constraints p = (case mp_constraints p of None \<Rightarrow> PolicyConstraints | Some c \<Rightarrow> c)"

definition select_models ::
    "health_config \<Rightarrow> time \<Rightarrow> model_entry list \<Rightarrow> model_policy \<Rightarrow> string option \<Rightarrow> int \<Rightarrow> tracker \<Rightarrow>
     (exn + selection list) \<times> tracker" where
  "select_models cfg now reg p cur cached t =
     (case pinned p of
        Some m \<Rightarrow> (Inr [\<lparr> sel_key = m, sel_id = m, sel_score = 1 \<rparr>], t)
      | None \<Rightarrow>
          if reg = [] then (Inr [], t)
          else
            (case filter_x (passes_constraints (policy_constraints p)) reg of
               Inl e \<Rightarrow> (Inl e, t)
             | Inr es \<Rightarrow>
                 if es = [] then (Inr [], t)
                 else let (hs, t1) = filter_by_health cfg now es t in
                      (score_models p cur cached hs, t1)))"

definition select_model ::
    "health_config \<Rightarrow> time \<Rightarrow> model_entry list \<Rightarrow> model_policy \<Rightarrow> string option \<Rightarrow> int \<Rightarrow> tracker \<Rightarrow>
     (exn + selection option) \<times> tracker" where
  "select_model cfg now reg p cur cached t =
     (case select_models cfg now reg p cur cached t of
        (Inl e, t1) \<Rightarrow> (Inl e, t1)
      | (Inr [], t1) \<Rightarrow> (Inr None, t1)
      | (Inr (r # rs), t1) \<Rightarrow> (Inr (Some r), t1))"

section \<open>Facts\<close>

lemma not_broken_set:
  "not_broken cfg now es t = (ok, t') \<Longrightarrow> set ok \<subseteq> set es"
  by (induction es arbitrary: t ok t') (fastforce split: prod.splits if_splits)+

lemma keep_some_facts [simp]:
  "keep_some xs ys = [] \<longleftrightarrow> xs = [] \<and> ys = []"
  by (auto simp: keep_some_def)

lemma filter_by_health_facts:
  assumes "filter_by_health cfg now es t = (hs, t')"
  shows "set hs \<subseteq> set es" "hs = [] \<longleftrightarrow> es = []"
proof -
  obtain ok where ok: "not_broken cfg now es t = (ok, t')"
    using assms by (auto simp: filter_by_health_def Let_def split: prod.splits)
  show "set hs \<subseteq> set es" "hs = [] \<longleftrightarrow> es = []"
    using assms ok not_broken_set [OF ok]
    by (auto simp: filter_by_health_def keep_some_def Let_def split: if_splits)
qed

lemma sorted_head_max:
  "sort_key (\<lambda>r. - sel_score r) rs = x # xs \<Longrightarrow> x \<in> set rs \<and> (\<forall>r \<in> set rs. sel_score r \<le> sel_score x)"
proof -
  assume s: "sort_key (\<lambda>r. - sel_score r) rs = x # xs"
  then have "set rs = set (x # xs)" by (metis set_sort)
  moreover have "sorted (map (\<lambda>r. - sel_score r) (x # xs))" using s by (metis sorted_sort_key)
  ultimately show ?thesis by auto
qed

lemma select_model_cases:
  assumes "select_model cfg now reg p cur cached t = (Inr res, t')" "pinned p = None"
  obtains es where "filter_x (passes_constraints (policy_constraints p)) reg = Inr es"
    and "es = [] \<Longrightarrow> res = None"
    and "es \<noteq> [] \<Longrightarrow> \<exists>w r rs. pref_weights (preference p) = Inr w \<and> res = Some r \<and>
      sort_key (\<lambda>r. - sel_score r) (map (\<lambda>e. \<lparr> sel_key = en_key e, sel_id = entry_id e,
         sel_score = score_of w cur cached (fst (filter_by_health cfg now es t)) e \<rparr>)
         (fst (filter_by_health cfg now es t))) = r # rs"
proof (cases "reg = []")
  case True
  then show ?thesis using assms that [of "[]"] by (auto simp: select_model_def select_models_def)
next
  case False
  let ?f = "filter_x (passes_constraints (policy_constraints p)) reg"
  obtain es where es: "?f = Inr es"
    using assms False by (cases ?f) (auto simp: select_model_def select_models_def)
  show ?thesis
  proof (rule that [OF es])
    show "es = [] \<Longrightarrow> res = None"
      using assms False es by (auto simp: select_model_def select_models_def)
    assume ne: "es \<noteq> []"
    obtain hs t1 where h: "filter_by_health cfg now es t = (hs, t1)" by fastforce
    have hne: "hs \<noteq> []" using filter_by_health_facts(2) [OF h] ne by simp
    obtain w where w: "pref_weights (preference p) = Inr w"
      using assms False es ne h
      by (cases "pref_weights (preference p)")
        (auto simp: select_model_def select_models_def score_models_def)
    let ?l = "sort_key (\<lambda>r. - sel_score r) (map (\<lambda>e. \<lparr> sel_key = en_key e, sel_id = entry_id e,
       sel_score = score_of w cur cached hs e \<rparr>) hs)"
    have "?l \<noteq> []" using hne by (metis length_0_conv length_map length_sort)
    then obtain r rs where l: "?l = r # rs" by (cases ?l) auto
    have "res = Some r"
      using assms False es ne h w l
      by (simp add: select_model_def select_models_def score_models_def)
    then show "\<exists>w r rs. pref_weights (preference p) = Inr w \<and> res = Some r \<and>
      sort_key (\<lambda>r. - sel_score r) (map (\<lambda>e. \<lparr> sel_key = en_key e, sel_id = entry_id e,
         sel_score = score_of w cur cached (fst (filter_by_health cfg now es t)) e \<rparr>)
         (fst (filter_by_health cfg now es t))) = r # rs"
      using w l h by auto
  qed
qed

lemma of_int_eq_frac: "of_int i * 10 \<noteq> (3 :: rat)" "of_int i * 5 \<noteq> (2 :: rat)"
proof -
  have "of_int (i * 10) \<noteq> (of_int 3 :: rat)" "of_int (i * 5) \<noteq> (of_int 2 :: rat)"
    unfolding of_int_eq_iff by presburger+
  then show "of_int i * 10 \<noteq> (3 :: rat)" "of_int i * 5 \<noteq> (2 :: rat)" by simp_all
qed

section \<open>Properties\<close>

definition demo_entry :: model_entry where
  "demo_entry = \<lparr> en_key = ''haiku'', en_provider = ''a'', en_model_id = ''h'', quality_tier = 2,
     cost_in = 1, cost_out = 5, cached_cost_in = 0, context_window = 1000, capabilities = [''code''],
     measured_speed = None \<rparr>"

definition demo_registry :: "model_entry list" where
  "demo_registry = [demo_entry, demo_entry\<lparr> en_key := ''opus'', en_model_id := ''o'',
     quality_tier := 5, cost_out := 75 \<rparr>]"

definition demo_policy :: model_policy where
  "demo_policy = \<lparr> mp_name = None, mp_model = None, mp_agent_role = None, mp_temperature = None,
     mp_max_tokens = None,
     mp_constraints = Some (PolicyConstraints\<lparr> min_quality := JInt 3, required_caps := JList [JStr ''code''] \<rparr>),
     preference = default_preference \<rparr>"

text \<open>C23: What the selector returns. Without a pinned model, the result is an entry of the registry
  that passes every hard constraint and is left by the health filter; its score is the largest
  among the entries left; and if the filter found any eligible model whose circuit is not open,
  the result is one of those.\<close>

theorem select_model_sound:
  assumes sel: "select_model cfg now reg p cur cached t = (Inr (Some r), t')" and "pinned p = None"
  shows "\<exists>es hs e w. filter_x (passes_constraints (policy_constraints p)) reg = Inr es \<and>
    hs = fst (filter_by_health cfg now es t) \<and> e \<in> set hs \<and> e \<in> set reg \<and>
    passes_constraints (policy_constraints p) e = Inr True \<and>
    pref_weights (preference p) = Inr w \<and> sel_key r = en_key e \<and> sel_id r = entry_id e \<and>
    (\<forall>e' \<in> set hs. score_of w cur cached hs e' \<le> score_of w cur cached hs e) \<and>
    (fst (not_broken cfg now es t) \<noteq> [] \<longrightarrow> e \<in> set (fst (not_broken cfg now es t)))"
proof -
  obtain es where es: "filter_x (passes_constraints (policy_constraints p)) reg = Inr es"
    and em: "es = [] \<Longrightarrow> Some r = None" and
    ex: "es \<noteq> [] \<Longrightarrow> \<exists>w r' rs. pref_weights (preference p) = Inr w \<and> Some r = Some r' \<and>
      sort_key (\<lambda>r. - sel_score r) (map (\<lambda>e. \<lparr> sel_key = en_key e, sel_id = entry_id e,
         sel_score = score_of w cur cached (fst (filter_by_health cfg now es t)) e \<rparr>)
         (fst (filter_by_health cfg now es t))) = r' # rs"
    by (rule select_model_cases [OF assms]) blast
  then have ne: "es \<noteq> []" by auto
  define hs where "hs = fst (filter_by_health cfg now es t)"
  obtain w rs where w: "pref_weights (preference p) = Inr w"
    and s: "sort_key (\<lambda>r. - sel_score r) (map (\<lambda>e. \<lparr> sel_key = en_key e, sel_id = entry_id e,
       sel_score = score_of w cur cached hs e \<rparr>) hs) = r # rs"
    using ex [OF ne] unfolding hs_def by blast
  obtain e where e: "e \<in> set hs" "sel_key r = en_key e" "sel_id r = entry_id e"
    "sel_score r = score_of w cur cached hs e"
    using sorted_head_max [OF s] by auto
  have mx: "\<forall>e' \<in> set hs. score_of w cur cached hs e' \<le> score_of w cur cached hs e"
    using sorted_head_max [OF s] e(4) by auto
  have sub: "set hs \<subseteq> set es" unfolding hs_def by (metis filter_by_health_facts(1) prod.collapse)
  have nb: "fst (not_broken cfg now es t) \<noteq> [] \<longrightarrow> e \<in> set (fst (not_broken cfg now es t))"
    using e(1) unfolding hs_def filter_by_health_def
    by (auto simp: keep_some_def Let_def split: prod.splits if_splits)
  show ?thesis
    using es hs_def e w mx nb filter_x_set [OF es] sub by blast
qed

lemma demo_select:
  "select_model demo_health 0 demo_registry demo_policy None 0 empty_tracker =
     (Inr (Some \<lparr> sel_key = ''opus'', sel_id = ''a:o'', sel_score = 11/20 \<rparr>),
      snd (select_model demo_health 0 demo_registry demo_policy None 0 empty_tracker))"
proof -
  have f: "filter_x (passes_constraints (policy_constraints demo_policy)) demo_registry =
      Inr [demo_entry\<lparr> en_key := ''opus'', en_model_id := ''o'', quality_tier := 5, cost_out := 75 \<rparr>]"
    by (simp add: demo_policy_def demo_registry_def demo_entry_def passes_constraints_def
        policy_constraints_def PolicyConstraints_def cmp_num_def)
  let ?e = "demo_entry\<lparr> en_key := ''opus'', en_model_id := ''o'', quality_tier := 5, cost_out := 75 \<rparr>"
  have h: "fst (filter_by_health demo_health 0 [?e] empty_tracker) = [?e]"
    by (auto simp: filter_by_health_def keep_some_def Let_def split: prod.splits if_splits)
  have sc: "score_models demo_policy None 0 [?e] =
      Inr [\<lparr> sel_key = ''opus'', sel_id = ''a:o'', sel_score = 11/20 \<rparr>]"
    by (simp add: score_models_def demo_policy_def default_preference_def pref_weights_def
        entry_id_def demo_entry_def score_of_def cost_score_def speed_score_def top_cost_def
        top_speed_def speeds_of_def median_speed_def cache_penalty_def current_provider_def
        List.map_filter_def)
  obtain t1 where h1: "filter_by_health demo_health 0 [?e] empty_tracker = ([?e], t1)"
    using h by (metis prod.collapse)
  have "pinned demo_policy = None" "demo_registry \<noteq> []"
    by (simp_all add: demo_policy_def pinned_def demo_registry_def)
  then show ?thesis by (simp add: select_model_def select_models_def f h1 sc)
qed

theorem select_model_sound_witness:
  "\<exists>r. fst (select_model demo_health 0 demo_registry demo_policy None 0 empty_tracker) = Inr (Some r) \<and>
     (\<exists>e \<in> set demo_registry. sel_id r = entry_id e \<and>
        passes_constraints (policy_constraints demo_policy) e = Inr True)"
proof -
  have "pinned demo_policy = None" by (simp add: demo_policy_def pinned_def)
  from select_model_sound [OF demo_select this] demo_select show ?thesis by (metis fst_conv)
qed

text \<open>Health never starves the selector. Without a pinned model, when selection raises nothing
  it returns no model exactly if no entry of the registry passes the hard constraints, whatever the
  state of the circuits.\<close>

theorem select_none_iff:
  assumes "select_model cfg now reg p cur cached t = (Inr res, t')" and "pinned p = None"
  shows "res = None \<longleftrightarrow> (\<forall>e \<in> set reg. passes_constraints (policy_constraints p) e = Inr False)"
proof -
  obtain es where es: "filter_x (passes_constraints (policy_constraints p)) reg = Inr es"
    and r: "res = None \<longleftrightarrow> es = []"
  proof (rule select_model_cases [OF assms])
    fix es
    assume f: "filter_x (passes_constraints (policy_constraints p)) reg = Inr es"
      and n: "es = [] \<Longrightarrow> res = None"
      and s: "es \<noteq> [] \<Longrightarrow> \<exists>w r rs. pref_weights (preference p) = Inr w \<and> res = Some r \<and>
        sort_key (\<lambda>r. - sel_score r) (map (\<lambda>e. \<lparr> sel_key = en_key e, sel_id = entry_id e,
           sel_score = score_of w cur cached (fst (filter_by_health cfg now es t)) e \<rparr>)
           (fst (filter_by_health cfg now es t))) = r # rs"
    show ?thesis by (rule that [OF f]) (use n s in \<open>cases "es = []"; auto\<close>)
  qed
  have "es = [] \<longleftrightarrow> set es = {}" by simp
  also have "\<dots> \<longleftrightarrow> (\<forall>e \<in> set reg. passes_constraints (policy_constraints p) e = Inr False)"
    using filter_x_set [OF es] by (auto, metis (full_types))
  finally show ?thesis using r by simp
qed

theorem select_none_iff_witness:
  "\<not> (\<forall>e \<in> set demo_registry. passes_constraints (policy_constraints demo_policy) e = Inr False)"
proof -
  have "pinned demo_policy = None" by (simp add: demo_policy_def pinned_def)
  from select_none_iff [OF demo_select this] show ?thesis by simp
qed

text \<open>The JSON round trip of a policy: storing a policy and reading it back gives the same
  constraints and the same preference vector.\<close>

theorem policy_json_roundtrip:
  "policy_of_json (to_policy_json p) = Inr (mp_constraints p, preference p)"
proof -
  obtain a b c where p: "preference p = (a, b, c)" by (metis prod_cases3)
  have third: "json_eq x (JNum (3/10)) \<longleftrightarrow> x = JNum (3/10)" for x
    by (cases x) (auto simp: of_int_eq_frac)
  have four: "json_eq x (JNum (2/5)) \<longleftrightarrow> x = JNum (2/5)" for x
    by (cases x) (auto simp: of_int_eq_frac)
  show ?thesis
  proof (cases "mp_constraints p")
    case None
    then show ?thesis
      by (auto simp: to_policy_json_def policy_of_json_def p pref_json_def default_preference_def
          third four jget_def parse_preference_def)
  next
    case (Some k)
    have "parse_constraints (constraints_json k) = Inr k"
      by (cases k) (auto simp: constraints_json_def parse_constraints_def opt_field_def jget_def dflt_def)
    then show ?thesis using Some
      by (auto simp: to_policy_json_def policy_of_json_def p pref_json_def jget_def parse_preference_def)
  qed
qed

end
