(* ===== verification/Arc_Manager.thy ===== *)
theory Arc_Manager
  imports Arc_Tree Arc_Retry Resource_Manager Model_Resolver Model_Selector
begin

text \<open>
  The arc manager (\<open>core/arcs/manager.py\<close>): creation, status transitions with their hooks,
  cascading cancellation, dependencies, dispatch and freezing.

  What creation and escalation consult outside the database is the record \<open>env\<close>: the model
  configuration, the retry settings, the model registry, and the health tracker. An operation that raises inside its
  transaction leaves the database as it was. One value \<open>now\<close> stands for the clock during an
  operation. Setting the wake signal of the main loop has no effect on the database and is left
  out, and so is logging.
\<close>

section \<open>Statuses and transitions\<close>

definition status_of :: "string \<Rightarrow> arc_status option" where
  "status_of s =
     (if s = ''pending'' then Some Pending else if s = ''active'' then Some Active
      else if s = ''waiting'' then Some Waiting else if s = ''completed'' then Some Completed
      else if s = ''failed'' then Some Failed else if s = ''cancelled'' then Some Cancelled
      else if s = ''escalated'' then Some Escalated else None)"

definition FROZEN_STATUSES :: "arc_status set" where
  "FROZEN_STATUSES = {Completed, Failed, Cancelled, Escalated}"

definition DONE_STATUSES :: "arc_status set" where
  "DONE_STATUSES = {Completed, Escalated}"

fun TRANSITIONS :: "arc_status \<Rightarrow> arc_status set" where
  "TRANSITIONS Pending = {Active, Cancelled}"
| "TRANSITIONS Active = {Waiting, Completed, Failed, Cancelled, Escalated}"
| "TRANSITIONS Waiting = {Active, Completed, Failed, Cancelled}"
| "TRANSITIONS Completed = {}"
| "TRANSITIONS Failed = {Escalated}"
| "TRANSITIONS Cancelled = {}"
| "TRANSITIONS Escalated = {}"

text \<open>The statuses a cancellation still touches.\<close>

definition live_status :: "arc_status \<Rightarrow> bool" where
  "live_status s = (s = Pending \<or> s = Active \<or> s = Waiting)"

interpretation arc_life: lifecycle "\<lambda>s t. t \<in> TRANSITIONS s" "\<lambda>s. s \<in> {Completed, Cancelled, Escalated}"
  by unfold_locales auto

section \<open>Model policies\<close>

record env =
  env_models :: model_config
  env_retry :: retry_config
  env_registry :: "model_entry list"
  env_health :: health_config
  env_tracker :: tracker

definition truthy_str :: "string option \<Rightarrow> bool" where
  "truthy_str s = (case s of None \<Rightarrow> False | Some x \<Rightarrow> x \<noteq> [])"

definition truthy_text :: "jtext option \<Rightarrow> bool" where
  "truthy_text t = (case t of None \<Rightarrow> False | Some x \<Rightarrow> x \<noteq> Malformed [])"

definition coalesce :: "'a option \<Rightarrow> 'a \<Rightarrow> 'a" where
  "coalesce x d = (case x of Some v \<Rightarrow> v | None \<Rightarrow> d)"

definition policy_matches ::
    "string option \<Rightarrow> string option \<Rightarrow> rat option \<Rightarrow> int option \<Rightarrow> jtext option \<Rightarrow> policy_row \<Rightarrow> bool" where
  "policy_matches model role temp toks pj p =
     (coalesce (p_model p) [] = coalesce model [] \<and>
      coalesce (p_agent_role p) [] = coalesce role [] \<and>
      coalesce (p_temperature p) (-1) = coalesce temp (-1) \<and>
      coalesce (p_max_tokens p) (-1) = coalesce toks (-1) \<and>
      p_json p = (if truthy_text pj then pj else None))"

definition get_or_create_model_policy ::
    "time \<Rightarrow> string option \<Rightarrow> string option \<Rightarrow> rat option \<Rightarrow> int option \<Rightarrow> jtext option \<Rightarrow>
     string option \<Rightarrow> db \<Rightarrow> int \<times> db" where
  "get_or_create_model_policy now model role temp toks pj nm d =
     (case List.find (policy_matches model role temp toks pj) (policies d) of
        Some p \<Rightarrow> (pid p, d)
      | None \<Rightarrow>
          let i = next_rowid pid (policies d) in
          (i, d\<lparr> policies := policies d @ [\<lparr> pid = i, p_name = nm, p_model = model,
             p_agent_role = role, p_temperature = temp, p_max_tokens = toks, p_json = pj,
             p_created_at = cur_ts now \<rparr>] \<rparr>))"

definition get_model_policy :: "int \<Rightarrow> db \<Rightarrow> policy_row option" where
  "get_model_policy i d = find_row pid i (policies d)"

definition get_policy_by_name :: "string \<Rightarrow> db \<Rightarrow> policy_row option" where
  "get_policy_by_name nm d = List.find (\<lambda>p. p_name p = Some nm) (policies d)"

definition get_policy_id_by_name :: "string \<Rightarrow> db \<Rightarrow> int option" where
  "get_policy_id_by_name nm d = map_option pid (get_policy_by_name nm d)"

text \<open>
  \<open>resolve_arc_creation_model\<close> (\<open>agent/model_resolver.py\<close>); the resolved model string is
  not used by the caller, only the policy id.
\<close>

definition resolve_arc_creation_model ::
    "env \<Rightarrow> time \<Rightarrow> string option \<Rightarrow> string option \<Rightarrow> string option \<Rightarrow> string option \<Rightarrow> rat option \<Rightarrow>
     int option \<Rightarrow> int option \<Rightarrow> db \<Rightarrow> exn + (int option \<times> db)" where
  "resolve_arc_creation_model env now model agent_model model_role agent_role temp toks policy d =
     (let m0 = (if truthy_str agent_model \<and> \<not> truthy_str model
                then (case resolve_model_identifier (env_models env) (the agent_model) of
                        Inl e \<Rightarrow> Inl e | Inr s \<Rightarrow> Inr (Some s))
                else Inr model)
      in case m0 of
           Inl e \<Rightarrow> Inl e
         | Inr m \<Rightarrow>
             if policy \<noteq> None \<or> \<not> (truthy_str m \<or> truthy_str model_role \<or> truthy_str agent_role)
             then Inr (policy, d)
             else
               let m1 = (if \<not> truthy_str m \<and> truthy_str model_role
                         then Some (get_model_for_role (env_models env) (the model_role)) else m);
                   s = (if truthy_str m1 then the m1
                        else get_model_for_role (env_models env) ''default_step'');
                   (i, d') = get_or_create_model_policy now (Some s) agent_role temp toks None None d
               in Inr (Some i, d'))"

section \<open>Creation\<close>

text \<open>The keyword arguments of \<open>create_arc\<close>; enums arrive as strings.\<close>

record create_args =
  ca_name :: string
  ca_goal :: "string option"
  ca_parent :: "int option"
  ca_code_file :: "int option"
  ca_template :: "int option"
  ca_step_role :: "string option"
  ca_from_template :: bool
  ca_template_mutable :: bool
  ca_timeout :: "int option"
  ca_step_order :: int
  ca_integrity :: string
  ca_output :: string
  ca_agent :: string
  ca_model :: "string option"
  ca_model_role :: "string option"
  ca_agent_role :: "string option"
  ca_agent_model :: "string option"
  ca_temperature :: "rat option"
  ca_max_tokens :: "int option"
  ca_policy :: "int option"
  ca_wait_until :: "timestr option"
  ca_output_contract :: "string option"
  ca_arc_role :: string
  ca_verification_target :: "int option"
  ca_priority :: "int option"
  ca_origin_kind :: "string option"
  ca_origin_ref :: "string option"

text \<open>The defaults of the parameters.\<close>

definition default_args :: "string \<Rightarrow> create_args" where
  "default_args nm =
     \<lparr> ca_name = nm, ca_goal = None, ca_parent = None, ca_code_file = None, ca_template = None,
       ca_step_role = None, ca_from_template = False, ca_template_mutable = False,
       ca_timeout = None, ca_step_order = 0, ca_integrity = ''trusted'', ca_output = ''python'',
       ca_agent = ''EXECUTOR'', ca_model = None, ca_model_role = None, ca_agent_role = None,
       ca_agent_model = None, ca_temperature = None, ca_max_tokens = None, ca_policy = None,
       ca_wait_until = None, ca_output_contract = None, ca_arc_role = ''worker'',
       ca_verification_target = None, ca_priority = None, ca_origin_kind = None,
       ca_origin_ref = None \<rparr>"

definition arc_role_of :: "string \<Rightarrow> arc_role option" where
  "arc_role_of s =
     (if s = ''coordinator'' then Some COORDINATOR else if s = ''worker'' then Some WORKER
      else if s = ''verifier'' then Some VERIFIER else None)"

definition validate_verification_target ::
    "db \<Rightarrow> int \<Rightarrow> int option \<Rightarrow> int option \<Rightarrow> exn + unit" where
  "validate_verification_target d target parent arc =
     (if arc = Some target then Inl (ValueError ''Self-verification not allowed'')
      else case find_arc target d of
          None \<Rightarrow> Inl (ValueError ''Verification target not found'')
        | Some t \<Rightarrow>
            if parent_id t \<noteq> parent then Inl (ValueError ''not a sibling'') else Inr ())"

definition or_parent :: "'a option \<Rightarrow> 'a option \<Rightarrow> 'a option" where
  "or_parent x y = (case x of Some v \<Rightarrow> Some v | None \<Rightarrow> y)"

definition str_json :: "string option \<Rightarrow> json" where
  "str_json s = (case s of Some x \<Rightarrow> JStr x | None \<Rightarrow> JNull)"

text \<open>Foreign keys of the new row: the parent, the code file and the template must exist.\<close>

definition fks_ok :: "create_args \<Rightarrow> db \<Rightarrow> bool" where
  "fks_ok ca d =
     (fk_arc (ca_parent ca) d \<and>
      (case ca_code_file ca of None \<Rightarrow> True | Some c \<Rightarrow> c \<in> fst ` set (code_files d)) \<and>
      (case ca_template ca of None \<Rightarrow> True | Some t \<Rightarrow> t \<in> fst ` set (templates d)))"

definition new_arc_row ::
    "time \<Rightarrow> create_args \<Rightarrow> integrity_level \<Rightarrow> output_type \<Rightarrow> agent_type \<Rightarrow> arc_role \<Rightarrow>
     int option \<Rightarrow> db \<Rightarrow> arc" where
  "new_arc_row now ca il ot ag ro policy d =
     (let par = (case ca_parent ca of Some p \<Rightarrow> find_arc p d | None \<Rightarrow> None) in
      \<lparr> aid = next_rowid aid (arcs d), parent_id = ca_parent ca, aname = ca_name ca,
        goal = ca_goal ca, astatus = (if ag = SUPERVISOR then Waiting else Pending),
        step_order = ca_step_order ca,
        depth = (case par of Some p \<Rightarrow> depth p + 1 | None \<Rightarrow> 0),
        code_file_id = ca_code_file ca, template_id = ca_template ca, step_role = ca_step_role ca,
        from_template = ca_from_template ca, template_mutable = ca_template_mutable ca,
        timeout_minutes = ca_timeout ca, ainteg = il, aoutput = ot, aagent = ag,
        descendant_tokens = 0, descendant_executions = 0, descendant_arc_count = 0,
        model_policy_id = policy, wait_until = ca_wait_until ca,
        output_contract = ca_output_contract ca, arole = ro,
        verification_target_id = ca_verification_target ca,
        apriority = (case ca_priority ca of Some p \<Rightarrow> p
                     | None \<Rightarrow> (case par of Some p \<Rightarrow> apriority p | None \<Rightarrow> 100)),
        origin_kind = or_parent (ca_origin_kind ca) (case par of Some p \<Rightarrow> origin_kind p | None \<Rightarrow> None),
        origin_ref = or_parent (ca_origin_ref ca) (case par of Some p \<Rightarrow> origin_ref p | None \<Rightarrow> None),
        acreated_at = cur_ts now, aupdated_at = Some now \<rparr>)"

text \<open>The part of \<open>_insert_arc\<close> up to the history entry, inside the transaction.\<close>

definition insert_arc_row :: "env \<Rightarrow> time \<Rightarrow> create_args \<Rightarrow> db \<Rightarrow> exn + (arc \<times> db)" where
  "insert_arc_row env now ca d =
     (case integrity_of (ca_integrity ca) of
        Inl e \<Rightarrow> Inl (ValueError ''Invalid integrity_level'')
      | Inr il \<Rightarrow>
     (case validate_output_type (ca_output ca) of
        Inl e \<Rightarrow> Inl e
      | Inr ot \<Rightarrow>
     (case validate_agent_type (ca_agent ca) of
        Inl e \<Rightarrow> Inl e
      | Inr ag \<Rightarrow>
     (case resolve_arc_creation_model env now (ca_model ca) (ca_agent_model ca) (ca_model_role ca)
             (ca_agent_role ca) (ca_temperature ca) (ca_max_tokens ca) (ca_policy ca) d of
        Inl e \<Rightarrow> Inl e
      | Inr (policy, d1) \<Rightarrow>
     (case arc_role_of (ca_arc_role ca) of
        None \<Rightarrow> Inl (ValueError ''Invalid arc_role'')
      | Some ro \<Rightarrow>
     (case (case ca_verification_target ca of
              None \<Rightarrow> Inr ()
            | Some t \<Rightarrow> validate_verification_target d1 t (ca_parent ca) None) of
        Inl e \<Rightarrow> Inl e
      | Inr _ \<Rightarrow>
          if \<not> fks_ok ca d1 then Inl (IntegrityError ''FOREIGN KEY'')
          else
            let a = new_arc_row now ca il ot ag ro policy d1;
                d2 = d1\<lparr> arcs := arcs d1 @ [a] \<rparr>
            in Inr (a, log_history now (aid a) ''created''
                 (JObj [(''name'', JStr (ca_name ca)), (''goal'', str_json (ca_goal ca))])
                 None (Some ''system'') d2)))))))"

definition integrity_details :: "arc \<Rightarrow> jdict" where
  "integrity_details a =
     [(''integrity_level'', JStr (integrity_value (ainteg a))),
      (''output_type'', JStr (output_value (aoutput a))),
      (''agent_type'', JStr (agent_value (aagent a)))]"

definition wait_in_future :: "time \<Rightarrow> timestr option \<Rightarrow> bool" where
  "wait_in_future now w = (case w of Some (At t) \<Rightarrow> t > now | _ \<Rightarrow> False)"

definition dispatch_key :: "int \<Rightarrow> string" where
  "dispatch_key i = ''arc_dispatch:'' @ show_int i"

definition enqueue_db ::
    "time \<Rightarrow> string \<Rightarrow> jdict \<Rightarrow> string \<Rightarrow> int \<Rightarrow> db \<Rightarrow> db" where
  "enqueue_db now ev pl key prio d =
     d\<lparr> queue := snd (enqueue now ev (JObj pl) (Some key) 3 None prio (queue d)) \<rparr>"

definition enqueue_dispatch :: "time \<Rightarrow> int \<Rightarrow> int \<Rightarrow> db \<Rightarrow> db" where
  "enqueue_dispatch now i prio d =
     enqueue_db now ''arc.dispatch'' [(''arc_id'', JInt i)] (dispatch_key i) prio d"

text \<open>
  \<open>_insert_arc\<close> with its own connection: after the commit come the retry state, the audit
  entry and, for a root arc with code, the dispatch.
\<close>

definition insert_arc :: "env \<Rightarrow> time \<Rightarrow> create_args \<Rightarrow> db \<Rightarrow> exn + (int \<times> db)" where
  "insert_arc env now ca d =
     (case insert_arc_row env now ca d of
        Inl e \<Rightarrow> Inl e
      | Inr (a, d1) \<Rightarrow>
          let i = aid a;
              d2 = (case initialize_retry_state (env_retry env) now i ''transient_only'' None d1 of
                      Inr d' \<Rightarrow> d' | Inl _ \<Rightarrow> d1);
              d3 = snd (log_trust_event now (Some i) ''integrity_assigned'' (Some (integrity_details a)) d2);
              d4 = (if ca_parent ca = None \<and> ca_code_file ca \<noteq> None \<and> \<not> wait_in_future now (ca_wait_until ca)
                    then enqueue_dispatch now i (apriority a) d3 else d3)
          in Inr (i, d4))"

definition create_arc :: "env \<Rightarrow> time \<Rightarrow> create_args \<Rightarrow> db \<Rightarrow> exn + (int \<times> db)" where
  "create_arc env now ca d =
     (case integrity_of (ca_integrity ca) of
        Inl e \<Rightarrow> Inl (ValueError ''Invalid integrity_level'')
      | Inr il \<Rightarrow>
     (case validate_output_type (ca_output ca) of
        Inl e \<Rightarrow> Inl e
      | Inr _ \<Rightarrow>
     (case validate_agent_type (ca_agent ca) of
        Inl e \<Rightarrow> Inl e
      | Inr _ \<Rightarrow>
          if is_non_trusted il then Inl (ValueError ''Cannot create individual untrusted arc'')
          else insert_arc env now ca d)))"

section \<open>Dependencies and activation\<close>

definition preceding_siblings :: "arc \<Rightarrow> int \<Rightarrow> db \<Rightarrow> arc list" where
  "preceding_siblings a p d =
     filter (\<lambda>b. parent_id b = Some p \<and> step_order b < step_order a) (arcs d)"

definition check_dependencies :: "int \<Rightarrow> db \<Rightarrow> bool" where
  "check_dependencies i d =
     (case find_arc i d of
        None \<Rightarrow> True
      | Some a \<Rightarrow>
          (case parent_id a of
             None \<Rightarrow> True
           | Some p \<Rightarrow>
               list_all (\<lambda>b. astatus b \<in> DONE_STATUSES) (preceding_siblings a p d)))"

record dependency_report =
  satisfied :: bool
  blocked_by_pending :: "int list"
  blocked_by_failed :: "int list"
  failed_predecessors :: "arc list"

definition check_dependencies_detailed :: "int \<Rightarrow> db \<Rightarrow> dependency_report" where
  "check_dependencies_detailed i d =
     (let none = \<lparr> satisfied = True, blocked_by_pending = [], blocked_by_failed = [],
                  failed_predecessors = [] \<rparr> in
      case find_arc i d of
        None \<Rightarrow> none
      | Some a \<Rightarrow>
          (case parent_id a of
             None \<Rightarrow> none
           | Some p \<Rightarrow>
               let prec = preceding_siblings a p d;
                   bad = filter (\<lambda>b. astatus b \<notin> DONE_STATUSES) prec;
                   failed = filter (\<lambda>b. astatus b = Failed) bad;
                   rest = filter (\<lambda>b. astatus b \<noteq> Failed) bad
               in \<lparr> satisfied = (rest = [] \<and> failed = []), blocked_by_pending = map aid rest,
                    blocked_by_failed = map aid failed, failed_predecessors = failed \<rparr>))"

text \<open>\<open>json_extract(payload_json, '$.arc_id')\<close> is NULL or equal to the arc.\<close>

definition payload_for :: "int \<Rightarrow> jdict \<Rightarrow> bool" where
  "payload_for i p = (let v = dget p ''arc_id'' in v = JNull \<or> jnum v = Some (of_int i))"

definition check_activation :: "int \<Rightarrow> db \<Rightarrow> bool" where
  "check_activation i d =
     (let acts = filter (\<lambda>(a, ty). a = i) (activations d) in
      acts = [] \<or>
      list_ex (\<lambda>(a, ty). list_ex (\<lambda>e. etype e = ty \<and> eprocessed e \<and> payload_for i (epayload e)) (events d)) acts)"

section \<open>Adding a child\<close>

definition max_step_order :: "arc list \<Rightarrow> int \<Rightarrow> int" where
  "max_step_order as p =
     (case map step_order (children_rows as p) of [] \<Rightarrow> -1 | x # xs \<Rightarrow> fold max xs x)"

text \<open>What runs after the commit: audit, counters, and the dispatch of a child that is ready.\<close>

definition after_add_child :: "time \<Rightarrow> create_args \<Rightarrow> arc \<Rightarrow> db \<Rightarrow> db" where
  "after_add_child now ca a d =
     (let i = aid a;
          d1 = snd (log_trust_event now (Some i) ''integrity_assigned'' (Some (integrity_details a)) d);
          d2 = increment_ancestor_arc_count now i d1
      in if wait_in_future now (ca_wait_until ca) then d2
         else if check_dependencies i d2 \<and> check_activation i d2
         then enqueue_dispatch now i
                (case find_arc i d2 of Some r \<Rightarrow> apriority r | None \<Rightarrow> 100) d2
         else d2)"

definition add_child :: "env \<Rightarrow> time \<Rightarrow> int \<Rightarrow> create_args \<Rightarrow> db \<Rightarrow> exn + (int \<times> db)" where
  "add_child env now p kw d =
     (case find_arc p d of
        None \<Rightarrow> Inl (ValueError ''Parent arc not found'')
      | Some par \<Rightarrow>
          if astatus par \<in> FROZEN_STATUSES then Inl (ValueError ''Cannot add child to arc with status'')
          else if from_template par \<and> \<not> template_mutable par
          then Inl (ValueError ''Cannot add child to arc created by template'')
          else
            let ca = kw\<lparr> ca_parent := Some p, ca_step_order := max_step_order (arcs d) p + 1 \<rparr>;
                d1 = log_history now p ''child_added'' (JObj [(''child_name'', JStr (ca_name kw))])
                       None (Some ''system'') d
            in case insert_arc_row env now ca d1 of
                 Inl e \<Rightarrow> Inl e
               | Inr (a, d2) \<Rightarrow> Inr (aid a, after_add_child now ca a d2))"

section \<open>Cancellation\<close>

definition status_json :: "arc_status \<Rightarrow> arc_status \<Rightarrow> json" where
  "status_json old new =
     JObj [(''old_status'', JStr (status_value old)), (''new_status'', JStr (status_value new))]"

definition mark_status :: "time \<Rightarrow> arc_status \<Rightarrow> arc \<Rightarrow> arc" where
  "mark_status now s a = a\<lparr> astatus := s, aupdated_at := Some now \<rparr>"

text \<open>The two statements that move one arc: the update and its history entry.\<close>

definition move_arc :: "time \<Rightarrow> string \<Rightarrow> int \<Rightarrow> arc_status \<Rightarrow> arc_status \<Rightarrow> db \<Rightarrow> db" where
  "move_arc now actor i old new d =
     log_history now i ''status_changed'' (status_json old new) None (Some actor)
       (set_arc i (mark_status now new) d)"

text \<open>
  The recursion of \<open>_cascade_cancel\<close>, with fuel: the rows selected at one level are a snapshot,
  and each child is cancelled if the snapshot shows it live, then its own children are visited
  whatever its status. A child has a larger id than its parent, so the number of the next free
  id minus the arc's own is more than the depth of its subtree (\<open>cascade_enough\<close>).
\<close>

fun cascade :: "nat \<Rightarrow> time \<Rightarrow> string \<Rightarrow> int \<Rightarrow> db \<Rightarrow> nat \<times> db" where
  "cascade 0 now actor i d = (0, d)"
| "cascade (Suc n) now actor i d =
     fold (\<lambda>c (cnt, d).
         let (k, d1) = (if live_status (astatus c)
                        then (1, move_arc now actor (aid c) (astatus c) Cancelled d) else (0, d));
             (m, d2) = cascade n now actor (aid c) d1
         in (cnt + k + m, d2))
       (children_rows (arcs d) i) (0, d)"

definition cascade_cancel :: "time \<Rightarrow> string \<Rightarrow> int \<Rightarrow> db \<Rightarrow> nat \<times> db" where
  "cascade_cancel now actor i d = cascade (nat (next_rowid aid (arcs d) - i)) now actor i d"

definition cancel_arc :: "time \<Rightarrow> int \<Rightarrow> string \<Rightarrow> db \<Rightarrow> nat \<times> db" where
  "cancel_arc now i actor d =
     (case find_arc i d of
        None \<Rightarrow> (0, d)
      | Some a \<Rightarrow>
          let (k, d1) = (if live_status (astatus a)
                         then (1, move_arc now actor i (astatus a) Cancelled d) else (0, d));
              (m, d2) = cascade_cancel now actor i d1
          in (k + m, d2))"

section \<open>Status updates\<close>

definition template_name_of :: "arc \<Rightarrow> db \<Rightarrow> string option" where
  "template_name_of a d = (case template_id a of None \<Rightarrow> None | Some t \<Rightarrow> map_of (templates d) t)"

definition emit_hook :: "time \<Rightarrow> int \<Rightarrow> arc_status \<Rightarrow> arc_status \<Rightarrow> db \<Rightarrow> db" where
  "emit_hook now i old new d =
     (case find_arc i d of
        None \<Rightarrow> d
      | Some a \<Rightarrow>
          d\<lparr> events := snd (emit_status_changed now i (status_value old) (status_value new)
                (Some (aname a)) (Some (role_value (arole a))) (parent_id a)
                (Some (agent_value (aagent a))) (template_name_of a d) (events d)) \<rparr>)"

definition is_root :: "int \<Rightarrow> db \<Rightarrow> bool" where
  "is_root i d = (case find_arc i d of None \<Rightarrow> False | Some a \<Rightarrow> parent_id a = None)"

definition summary_hook :: "time \<Rightarrow> int \<Rightarrow> arc_status \<Rightarrow> db \<Rightarrow> db" where
  "summary_hook now i new d =
     (if new = Completed \<and> is_root i d
      then enqueue_db now ''kb.work_summary'' [(''arc_id'', JInt i)]
             (''work_summary_'' @ show_int i) 100 d
      else d)"

definition notify_hook :: "time \<Rightarrow> int \<Rightarrow> arc_status \<Rightarrow> db \<Rightarrow> db" where
  "notify_hook now i new d =
     (if (new = Completed \<or> new = Failed) \<and> is_root i d \<and> list_ex (\<lambda>(c, a). a = i) (conv_arcs d)
      then enqueue_db now ''arc.chat_notify'' [(''arc_id'', JInt i)]
             (''chat_notify_'' @ show_int i) 100 d
      else d)"

text \<open>\<open>apply_auto_approve_on_completion\<close>; a bool is an int in Python.\<close>

definition auto_approve_hook :: "int \<Rightarrow> arc_status \<Rightarrow> db \<Rightarrow> db" where
  "auto_approve_hook i new d =
     (if new \<noteq> Completed then d
      else case state_cell i ''_auto_approve_resource_id'' d of
          Some (Parsed v) \<Rightarrow>
            (case as_int v of
               Inl _ \<Rightarrow> d
             | Inr r \<Rightarrow> (case mark_template_verdict r ''approved'' d of Inl _ \<Rightarrow> d | Inr d' \<Rightarrow> d'))
        | _ \<Rightarrow> d)"

text \<open>The transaction of \<open>update_status\<close>.\<close>

definition transition :: "time \<Rightarrow> int \<Rightarrow> arc_status \<Rightarrow> string \<Rightarrow> db \<Rightarrow> exn + (arc_status \<times> db)" where
  "transition now i new actor d =
     (case find_arc i d of
        None \<Rightarrow> Inl (ValueError ''Arc not found'')
      | Some a \<Rightarrow>
          if new \<notin> TRANSITIONS (astatus a) then Inl (ValueError ''Invalid transition'')
          else
            let d1 = move_arc now actor i (astatus a) new d;
                d2 = (if new = Cancelled then snd (cascade_cancel now actor i d1) else d1)
            in Inr (astatus a, d2))"

text \<open>
  The whole of \<open>update_status\<close>; \<open>on_failed\<close> is the notification of a failure
  (\<open>_notify_parent_of_failure\<close>), whose exceptions are caught, so it is a function on databases.
\<close>

definition update_status_with ::
    "(time \<Rightarrow> int \<Rightarrow> db \<Rightarrow> db) \<Rightarrow> time \<Rightarrow> int \<Rightarrow> string \<Rightarrow> string \<Rightarrow> db \<Rightarrow> exn + db" where
  "update_status_with on_failed now i new_status actor d =
     (case status_of new_status of
        None \<Rightarrow> Inl (ValueError ''Invalid status'')
      | Some new \<Rightarrow>
          (case transition now i new actor d of
             Inl e \<Rightarrow> Inl e
           | Inr (old, d1) \<Rightarrow>
               let d2 = emit_hook now i old new d1;
                   d3 = summary_hook now i new d2;
                   d4 = notify_hook now i new d3;
                   d5 = (if new = Failed then on_failed now i d4 else d4)
               in Inr (auto_approve_hook i new d5)))"

section \<open>History\<close>

definition add_history ::
    "time \<Rightarrow> int \<Rightarrow> string \<Rightarrow> json \<Rightarrow> int option \<Rightarrow> string \<Rightarrow> db \<Rightarrow> exn + (int \<times> db)" where
  "add_history now i ty c cf actor d =
     (if \<not> arc_exists i d \<or> (case cf of None \<Rightarrow> False | Some x \<Rightarrow> x \<notin> fst ` set (code_files d))
      then Inl (IntegrityError ''FOREIGN KEY'')
      else Inr (next_rowid hid (history d), log_history now i ty c cf (Some actor) d))"

definition get_history :: "int \<Rightarrow> db \<Rightarrow> history_row list" where
  "get_history i d = sort_key h_created_at (filter (\<lambda>h. h_arc h = i) (history d))"

definition get_arc :: "int \<Rightarrow> db \<Rightarrow> arc option" where
  "get_arc i d = find_arc i d"

definition is_frozen :: "int \<Rightarrow> db \<Rightarrow> bool" where
  "is_frozen i d = (case get_arc i d of None \<Rightarrow> False | Some a \<Rightarrow> astatus a \<in> FROZEN_STATUSES)"

section \<open>Dispatch and freezing\<close>

datatype dispatch_result = ExecuteCode int json | InvokeAgent int

text \<open>
  \<open>dispatch_arc\<close>: the code manager that runs the arc's code is the parameter \<open>execute\<close>, which
  may change the database. The two calls of \<open>update_status\<close> and \<open>add_history\<close> commit
  separately, so what was done before an exception stays.
\<close>

definition dispatch_arc ::
    "(time \<Rightarrow> int \<Rightarrow> db \<Rightarrow> db) \<Rightarrow> (int \<Rightarrow> int \<Rightarrow> db \<Rightarrow> (exn + json) \<times> db) \<Rightarrow> time \<Rightarrow> int \<Rightarrow> db \<Rightarrow>
     dispatch_result act" where
  "dispatch_arc on_failed execute now i d =
     (case find_arc i d of
        None \<Rightarrow> (Inl (ValueError ''Arc not found''), d)
      | Some a \<Rightarrow>
          if \<not> live_status (astatus a) then (Inl (ValueError ''Cannot dispatch arc''), d)
          else
            (case (if astatus a = Pending \<or> astatus a = Waiting
                   then update_status_with on_failed now i ''active'' ''system'' d else Inr d) of
               Inl e \<Rightarrow> (Inl e, d)
             | Inr d1 \<Rightarrow>
                 (case code_file_id a of
                    Some cf \<Rightarrow>
                      if cf = 0 then
                        (case add_history now i ''dispatched'' (JObj [(''action'', JStr ''invoke_agent'')]) None ''system'' d1 of
                           Inl e \<Rightarrow> (Inl e, d1) | Inr (_, d2) \<Rightarrow> (Inr (InvokeAgent i), d2))
                      else
                        (case execute cf i d1 of
                           (Inl e, d2) \<Rightarrow> (Inl e, d2)
                         | (Inr r, d2) \<Rightarrow>
                             (case add_history now i ''dispatched''
                                  (JObj [(''action'', JStr ''execute_code''), (''code_file_id'', JInt cf), (''result'', r)])
                                  None ''system'' d2 of
                                Inl e \<Rightarrow> (Inl e, d2) | Inr (_, d3) \<Rightarrow> (Inr (ExecuteCode i r), d3)))
                  | None \<Rightarrow>
                      (case add_history now i ''dispatched'' (JObj [(''action'', JStr ''invoke_agent'')]) None ''system'' d1 of
                         Inl e \<Rightarrow> (Inl e, d1) | Inr (_, d2) \<Rightarrow> (Inr (InvokeAgent i), d2)))))"

definition freeze_arc :: "(time \<Rightarrow> int \<Rightarrow> db \<Rightarrow> db) \<Rightarrow> time \<Rightarrow> int \<Rightarrow> db \<Rightarrow> exn + db" where
  "freeze_arc on_failed now i d =
     (let arc = get_arc i d;
          children = get_children i d;
          upd = (\<lambda>s. update_status_with on_failed now i s ''system'' d) in
      if (case arc of Some a \<Rightarrow> astatus a \<in> FROZEN_STATUSES | None \<Rightarrow> False) then Inr d
      else if children = [] then upd ''completed''
      else if list_all (\<lambda>c. astatus c \<in> DONE_STATUSES) children then upd ''completed''
      else if list_ex (\<lambda>c. astatus c = Failed) children \<and>
              list_all (\<lambda>c. astatus c \<in> FROZEN_STATUSES) children
      then (case arc of
              Some a \<Rightarrow>
                if aagent a = SUPERVISOR
                then (if astatus a = Active then upd ''waiting'' else Inr d)
                else upd ''failed''
            | None \<Rightarrow> upd ''failed'')
      else (case arc of
              Some a \<Rightarrow> if astatus a = Active then upd ''waiting'' else Inr d
            | None \<Rightarrow> Inr d))"

section \<open>Recount\<close>

text \<open>
  \<open>update_arc_counters\<close> counts over two tables of other components: \<open>execs\<close> is the column
  \<open>code_file_id\<close> of \<open>code_executions\<close> and \<open>acs\<close> the rows of \<open>api_calls\<close>. The joins with
  \<open>code_files\<close> and \<open>conversation_arcs\<close> give one row per matching pair.
\<close>

record api_call =
  ac_conv :: "int option"
  ac_arc :: "int option"
  input_tokens :: int
  output_tokens :: int

definition call_tokens :: "api_call \<Rightarrow> int" where
  "call_tokens c = input_tokens c + output_tokens c"

definition subtree_executions :: "int option list \<Rightarrow> int list \<Rightarrow> db \<Rightarrow> int" where
  "subtree_executions execs ids d =
     int (length [f. x \<leftarrow> execs, f \<leftarrow> code_files d,
            x = Some (fst f) \<and> (case snd f of None \<Rightarrow> False | Some a \<Rightarrow> a \<in> set ids)])"

definition chat_tokens :: "api_call list \<Rightarrow> int list \<Rightarrow> db \<Rightarrow> int" where
  "chat_tokens acs ids d =
     sum_list [call_tokens c. c \<leftarrow> acs, l \<leftarrow> conv_arcs d, ac_conv c = Some (fst l) \<and> snd l \<in> set ids]"

definition arc_tokens :: "api_call list \<Rightarrow> int list \<Rightarrow> int" where
  "arc_tokens acs ids =
     sum_list [call_tokens c. c \<leftarrow> acs,
       ac_conv c = None \<and> (case ac_arc c of None \<Rightarrow> False | Some a \<Rightarrow> a \<in> set ids)]"

definition update_arc_counters ::
    "int option list \<Rightarrow> api_call list \<Rightarrow> time \<Rightarrow> int \<Rightarrow> db \<Rightarrow> db" where
  "update_arc_counters execs acs now i d =
     (let ids = map aid (subtree_rows (arcs d) i) in
      set_arc i (\<lambda>a. a\<lparr> descendant_arc_count := int (length ids),
         descendant_executions := subtree_executions execs ids d,
         descendant_tokens := chat_tokens acs ids d + arc_tokens acs ids,
         aupdated_at := Some now \<rparr>) d)"

end
