(* ===== verification/Arc_Cancel.thy ===== *)
theory Arc_Cancel
  imports Arc_Manager
begin

text \<open>
  Cancellation (\<open>cancel_arc\<close> and \<open>_cascade_cancel\<close> of \<open>core/arcs/manager.py\<close>): the recursion
  over snapshots of children computes exactly the cancellation of every live arc of the subtree,
  the fuel is enough, and the number returned is the number of arcs that changed.
\<close>

section \<open>The set of arcs a cascade visits\<close>

fun dset :: "nat \<Rightarrow> arc list \<Rightarrow> int \<Rightarrow> int set" where
  "dset 0 as i = {}"
| "dset (Suc n) as i = (\<Union>c \<in> set (children_rows as i). insert (aid c) (dset n as (aid c)))"

definition below :: "arc list \<Rightarrow> int \<Rightarrow> int set" where
  "below as i = {j. find_row aid j as \<noteq> None \<and> i \<in> set (walk_ancestors as j)}"

lemma child_parent_of:
  "wf_tree as \<Longrightarrow> c \<in> set (children_rows as i) \<Longrightarrow> parent_of as (aid c) = Some i \<and> i < aid c \<and> c \<in> set as"
  by (auto simp: children_rows_def parent_of_def wf_tree_def find_row_distinct)

lemma below_step:
  assumes "wf_tree as"
  shows "below as i = (\<Union>c \<in> set (children_rows as i). insert (aid c) (below as (aid c)))"
proof (rule set_eqI)
  fix j
  have down: "i \<in> set (walk_ancestors as j) \<longleftrightarrow>
      (\<exists>c \<in> set (children_rows as i). j = aid c \<or> aid c \<in> set (walk_ancestors as j))" for j
  proof
    show "i \<in> set (walk_ancestors as j) \<Longrightarrow>
        \<exists>c \<in> set (children_rows as i). j = aid c \<or> aid c \<in> set (walk_ancestors as j)"
    proof (induction "nat j" arbitrary: j rule: less_induct)
      case less
      obtain p where p: "parent_of as j = Some p" "i = p \<or> i \<in> set (walk_ancestors as p)"
        using less.prems walk_step [OF assms] by blast
      show ?case
      proof (cases "i = p")
        case True
        obtain a where a: "find_row aid j as = Some a" "parent_id a = Some p"
          using p(1) by (auto simp: parent_of_def split: option.splits)
        then have "a \<in> set (children_rows as i)" "aid a = j"
          using True find_row_Some [OF a(1)] by (auto simp: children_rows_def)
        then show ?thesis by auto
      next
        case False
        then have ip: "i \<in> set (walk_ancestors as p)" using p(2) by simp
        obtain c where c: "c \<in> set (children_rows as i)" "p = aid c \<or> aid c \<in> set (walk_ancestors as p)"
          using less.hyps [OF _ ip] parent_of_lt [OF assms p(1)] by auto
        then have "aid c \<in> set (walk_ancestors as j)" using walk_step [OF assms, of "aid c" j] p(1) by auto
        then show ?thesis using c(1) by blast
      qed
    qed
  next
    assume "\<exists>c \<in> set (children_rows as i). j = aid c \<or> aid c \<in> set (walk_ancestors as j)"
    then obtain c where c: "c \<in> set (children_rows as i)" "j = aid c \<or> aid c \<in> set (walk_ancestors as j)"
      by blast
    have "i \<in> set (walk_ancestors as (aid c))"
      using child_parent_of [OF assms c(1)] walk_step [OF assms, of i "aid c"] by auto
    then show "i \<in> set (walk_ancestors as j)" using c(2) walk_trans [OF assms, of "aid c" j i] by auto
  qed
  have ex: "find_row aid (aid c) as \<noteq> None" if "c \<in> set (children_rows as i)" for c
    using child_parent_of [OF assms that] find_row_None [of aid "aid c" as] by auto
  show "j \<in> below as i \<longleftrightarrow> j \<in> (\<Union>c \<in> set (children_rows as i). insert (aid c) (below as (aid c)))"
    using down [of j] ex by (auto simp: below_def)
qed

lemma cascade_enough:
  assumes "wf_tree as"
  shows "nat (next_rowid aid as - i) \<le> n \<Longrightarrow> dset n as i = below as i"
proof (induction n arbitrary: i)
  case 0
  have "children_rows as i = []"
  proof (rule ccontr)
    assume "children_rows as i \<noteq> []"
    then obtain c where c: "c \<in> set (children_rows as i)" by (cases "children_rows as i") auto
    show False
      using child_parent_of [OF assms c] next_rowid_gt [of c as aid] 0 by auto
  qed
  then show ?case using below_step [OF assms, of i] by simp
next
  case (Suc n)
  have "dset n as (aid c) = below as (aid c)" if "c \<in> set (children_rows as i)" for c
    by (rule Suc.IH) (use child_parent_of [OF assms that] Suc.prems in auto)
  then show ?case using below_step [OF assms, of i] by simp
qed

lemma dset_below: "wf_tree as \<Longrightarrow> dset n as i \<subseteq> below as i"
proof (induction n arbitrary: i)
  case (Suc n)
  then show ?case using below_step [OF Suc.prems, of i] by fastforce
qed simp

section \<open>Cancelling a set of arcs\<close>

definition cancel_set :: "time \<Rightarrow> int set \<Rightarrow> arc list \<Rightarrow> arc list" where
  "cancel_set now S as =
     upd_where (\<lambda>a. aid a \<in> S \<and> live_status (astatus a)) (mark_status now Cancelled) as"

lemma mark_status_sel [simp]:
  "aid (mark_status now s a) = aid a" "parent_id (mark_status now s a) = parent_id a"
  "astatus (mark_status now s a) = s" "aagent (mark_status now s a) = aagent a"
  "descendant_arc_count (mark_status now s a) = descendant_arc_count a"
  "mark_status now s (mark_status now s a) = mark_status now s a"
  by (simp_all add: mark_status_def)

lemma not_live_Cancelled [simp]: "\<not> live_status Cancelled"
  by (simp add: live_status_def)

lemma cancel_set_empty [simp]: "cancel_set now {} as = as"
  by (simp add: cancel_set_def upd_where_def)

lemma children_cancel_set:
  "map aid (children_rows (cancel_set now S as) i) = map aid (children_rows as i)"
  by (induction as) (auto simp: children_rows_def cancel_set_def)

lemma move_arc_frame [simp]:
  "arcs (move_arc now ac i old new d) = upd_row aid i (mark_status now new) (arcs d)"
  "state (move_arc now ac i old new d) = state d" "events (move_arc now ac i old new d) = events d"
  "queue (move_arc now ac i old new d) = queue d"
  by (simp_all add: move_arc_def)

lemma cancel_set_insert_dead:
  assumes "wf_ids aid as" "c \<in> set (cancel_set now T as)" "T \<subseteq> S" "\<not> live_status (astatus c)"
  shows "cancel_set now (insert (aid c) S) as = cancel_set now S as"
proof -
  obtain c0 where c0: "c0 \<in> set as" "aid c = aid c0"
    "c = (if aid c0 \<in> T \<and> live_status (astatus c0) then mark_status now Cancelled c0 else c0)"
    using assms(2) by (auto simp: cancel_set_def set_upd_where)
  have dead: "aid c \<in> S \<or> \<not> live_status (astatus c0)"
  proof (cases "aid c0 \<in> T")
    case True
    then show ?thesis using assms(3) c0(2) by auto
  next
    case False
    then have "c = c0" using c0(3) by simp
    then show ?thesis using assms(4) by simp
  qed
  have "a = c0" if "a \<in> set as" "aid a = aid c" for a
    using assms(1) c0(1,2) that by (auto simp: wf_ids_def distinct_map inj_on_def)
  with dead show ?thesis
    unfolding cancel_set_def upd_where_def by (intro map_cong) auto
qed

lemma cancel_set_insert_live:
  assumes "wf_ids aid as" "c \<in> set (cancel_set now T as)" "live_status (astatus c)"
  shows "upd_row aid (aid c) (mark_status now Cancelled) (cancel_set now S as) =
    cancel_set now (insert (aid c) S) as"
proof -
  obtain c0 where c0: "c0 \<in> set as" "aid c = aid c0"
    "c = (if aid c0 \<in> T \<and> live_status (astatus c0) then mark_status now Cancelled c0 else c0)"
    using assms(2) by (auto simp: cancel_set_def set_upd_where)
  then have live: "live_status (astatus c0)" using assms(3) by (auto split: if_splits)
  have "a = c0" if "a \<in> set as" "aid a = aid c" for a
    using assms(1) c0(1,2) that by (auto simp: wf_ids_def distinct_map inj_on_def)
  then show ?thesis using live
    unfolding cancel_set_def upd_where_def upd_row_def map_map by (intro map_cong) auto
qed

section \<open>The cascade\<close>

text \<open>The body of the loop over the children.\<close>

definition cascade_body :: "nat \<Rightarrow> time \<Rightarrow> string \<Rightarrow> arc \<Rightarrow> nat \<times> db \<Rightarrow> nat \<times> db" where
  "cascade_body n now actor c st =
     (case st of (cnt, d) \<Rightarrow>
        let (k, d1) = (if live_status (astatus c)
                       then (1, move_arc now actor (aid c) (astatus c) Cancelled d) else (0, d));
            (m, d2) = cascade n now actor (aid c) d1
        in (cnt + k + m, d2))"

lemma cascade_Suc:
  "cascade (Suc n) now actor i d =
     fold (cascade_body n now actor) (children_rows (arcs d) i) (0, d)"
  unfolding cascade.simps by (intro arg_cong2 [where f = "\<lambda>f. fold f _"] ext)
    (auto simp: cascade_body_def fun_eq_iff)

definition live_count :: "arc list \<Rightarrow> nat" where
  "live_count as = length (filter (\<lambda>a. live_status (astatus a)) as)"

lemma live_count_cancel_insert:
  "wf_ids aid as \<Longrightarrow> c \<in> set as \<Longrightarrow> live_status (astatus c) \<Longrightarrow> aid c \<notin> S \<Longrightarrow>
     live_count (cancel_set now S as) = Suc (live_count (cancel_set now (insert (aid c) S) as))"
proof (induction as)
  case (Cons a as)
  show ?case
  proof (cases "a = c")
    case True
    have "x \<in> set as \<Longrightarrow> aid x \<noteq> aid c" for x
      using Cons.prems(1) True by (auto simp: wf_ids_def image_iff)
    then have "cancel_set now (insert (aid c) S) as = cancel_set now S as"
      unfolding cancel_set_def upd_where_def by (intro map_cong) auto
    then show ?thesis using True Cons.prems(3,4) by (simp add: cancel_set_def live_count_def)
  next
    case False
    then have "aid a \<noteq> aid c" "c \<in> set as" "wf_ids aid as" using Cons.prems by (auto simp: wf_ids_def)
    then show ?thesis using Cons.IH Cons.prems(3,4) by (simp add: cancel_set_def live_count_def)
  qed
qed simp

text \<open>
  The invariant of the loop: the table is the original with a set of arcs cancelled; one round
  adds the child and what lies below it, and the counter grows by what the table loses.
\<close>

lemma cascade_arcs:
  assumes wf: "wf_tree as"
  shows "arcs d = cancel_set now S as \<Longrightarrow> S \<inter> below as i = {} \<Longrightarrow>
    arcs (snd (cascade n now actor i d)) = cancel_set now (S \<union> dset n as i) as \<and>
    fst (cascade n now actor i d) + live_count (arcs (snd (cascade n now actor i d))) = live_count (arcs d)"
proof (induction n arbitrary: i d S)
  case 0
  then show ?case by simp
next
  case (Suc n)
  have ids: "wf_ids aid as" using wf by (simp add: wf_tree_def)
  let ?T = S
  let ?vis = "\<lambda>cs. \<Union>c \<in> set cs. insert (aid c) (dset n as (aid c))"
  have inner: "arcs (snd (fold (cascade_body n now actor) cs (cnt, e))) = cancel_set now (R \<union> ?vis cs) as \<and>
      fst (fold (cascade_body n now actor) cs (cnt, e)) +
        live_count (arcs (snd (fold (cascade_body n now actor) cs (cnt, e)))) = cnt + live_count (arcs e)"
    if "arcs e = cancel_set now R as" "?T \<subseteq> R" "set cs \<subseteq> set (children_rows (cancel_set now ?T as) i)"
      "distinct (map aid cs)" "\<forall>c \<in> set cs. R \<inter> insert (aid c) (below as (aid c)) = {}"
    for cs cnt e R
    using that
  proof (induction cs arbitrary: cnt e R)
    case Nil
    then show ?case by simp
  next
    case (Cons c cs)
    have c: "c \<in> set (cancel_set now ?T as)" "parent_id c = Some i"
      using Cons.prems(3) by (auto simp: children_rows_def)
    obtain c0 where c0: "c0 \<in> set as" "aid c = aid c0" "parent_id c0 = Some i"
      "c = (if aid c0 \<in> ?T \<and> live_status (astatus c0) then mark_status now Cancelled c0 else c0)"
      using c by (auto simp: cancel_set_def set_upd_where)
    have cR: "aid c \<notin> R" using Cons.prems(5) by auto
    define k where "k = (if live_status (astatus c) then 1 else 0 :: nat)"
    define e1 where "e1 = (if live_status (astatus c)
      then move_arc now actor (aid c) (astatus c) Cancelled e else e)"
    have e1: "arcs e1 = cancel_set now (insert (aid c) R) as"
      using cancel_set_insert_live [OF ids c(1), of R] cancel_set_insert_dead [OF ids c(1) Cons.prems(2)]
        Cons.prems(1) by (auto simp: e1_def)
    have k: "k + live_count (arcs e1) = live_count (arcs e)"
    proof (cases "live_status (astatus c)")
      case True
      then have "live_status (astatus c0)" using c0(4) by (auto split: if_splits)
      then show ?thesis
        using True live_count_cancel_insert [OF ids c0(1) _ , of R now] cR c0(2) Cons.prems(1)
        by (simp add: k_def e1)
    next
      case False
      then show ?thesis by (simp add: k_def e1_def)
    qed
    have nb: "aid c \<notin> below as (aid c)" using walk_less [OF wf, of "aid c" "aid c"] by (auto simp: below_def)
    have disj: "insert (aid c) R \<inter> below as (aid c) = {}" using Cons.prems(5) nb by auto
    obtain m e2 where m: "cascade n now actor (aid c) e1 = (m, e2)" by fastforce
    have e2: "arcs e2 = cancel_set now (insert (aid c) R \<union> dset n as (aid c)) as"
      and m2: "m + live_count (arcs e2) = live_count (arcs e1)"
      using Suc.IH [OF e1 disj] m by auto
    have body: "cascade_body n now actor c (cnt, e) = (cnt + k + m, e2)"
      using m by (cases "live_status (astatus c)") (simp_all add: cascade_body_def k_def e1_def)
    have sib: "(insert (aid c) R \<union> dset n as (aid c)) \<inter> insert (aid c') (below as (aid c')) = {}"
      if "c' \<in> set cs" for c'
    proof -
      have c': "c' \<in> set (cancel_set now ?T as)" "parent_id c' = Some i"
        using Cons.prems(3) that by (auto simp: children_rows_def)
      obtain c1 where c1: "c1 \<in> set as" "aid c' = aid c1" "parent_id c1 = Some i"
        using c' by (auto simp: cancel_set_def set_upd_where)
      have ne: "aid c' \<noteq> aid c"
        using Cons.prems(4) that by (auto simp: image_iff)
      have w: "walk_ancestors as (aid c) = i # walk_ancestors as i"
        "walk_ancestors as (aid c') = i # walk_ancestors as i"
        using walk_unfold [OF wf] c0 c1 ids by (simp_all add: parent_of_def find_row_distinct)
      have lt: "i < aid c" "i < aid c'" using wf c0 c1 by (auto simp: wf_tree_def)
      have "aid c \<notin> below as (aid c')" "aid c' \<notin> below as (aid c)"
        using w lt walk_less [OF wf, of "aid c'" i] walk_less [OF wf, of "aid c" i]
        by (auto simp: below_def)
      moreover have "below as (aid c) \<inter> below as (aid c') = {}"
      proof (rule ccontr)
        assume "below as (aid c) \<inter> below as (aid c') \<noteq> {}"
        then obtain j where "aid c \<in> set (walk_ancestors as j)" "aid c' \<in> set (walk_ancestors as j)"
          by (auto simp: below_def)
        then have "aid c \<in> set (walk_ancestors as (aid c')) \<or> aid c' \<in> set (walk_ancestors as (aid c)) \<or> aid c = aid c'"
        proof (induction "nat j" arbitrary: j rule: less_induct)
          case less
          obtain p where p: "parent_of as j = Some p" "aid c = p \<or> aid c \<in> set (walk_ancestors as p)"
            using less.prems(1) walk_step [OF wf] by blast
          have p': "aid c' = p \<or> aid c' \<in> set (walk_ancestors as p)"
            using less.prems(2) p(1) walk_step [OF wf, of "aid c'" j] by auto
          show ?case
            using less.hyps [of p] p p' parent_of_lt [OF wf p(1)] by auto
        qed
        then show False using ne w lt walk_less [OF wf, of "aid c'" i] walk_less [OF wf, of "aid c" i] by auto
      qed
      moreover have "R \<inter> insert (aid c') (below as (aid c')) = {}" using Cons.prems(5) that by auto
      ultimately show ?thesis using ne dset_below [OF wf, of n "aid c"] by auto
    qed
    have rest: "arcs (snd (fold (cascade_body n now actor) cs (cnt + k + m, e2))) =
        cancel_set now ((insert (aid c) R \<union> dset n as (aid c)) \<union> ?vis cs) as \<and>
      fst (fold (cascade_body n now actor) cs (cnt + k + m, e2)) +
        live_count (arcs (snd (fold (cascade_body n now actor) cs (cnt + k + m, e2)))) =
        cnt + k + m + live_count (arcs e2)"
      by (rule Cons.IH [OF e2]) (use Cons.prems sib in auto)
    have set: "(insert (aid c) R \<union> dset n as (aid c)) \<union> ?vis cs = R \<union> ?vis (c # cs)" by auto
    show ?case using rest k m2 unfolding fold_simps body set by auto
  qed
  have ch: "map aid (children_rows (cancel_set now S as) i) = map aid (children_rows as i)"
    by (rule children_cancel_set)
  have vis: "?vis (children_rows (cancel_set now S as) i) = dset (Suc n) as i"
  proof -
    have img: "?vis cs = (\<Union>j \<in> set (map aid cs). insert j (dset n as j))" for cs by auto
    show ?thesis unfolding dset.simps img ch by auto
  qed
  have dist: "distinct (map aid (children_rows (cancel_set now S as) i))"
    unfolding ch using ids by (simp add: children_rows_def wf_ids_def distinct_map_filter)
  have out: "\<forall>c \<in> set (children_rows (cancel_set now S as) i). S \<inter> insert (aid c) (below as (aid c)) = {}"
  proof
    fix c assume "c \<in> set (children_rows (cancel_set now S as) i)"
    then have "aid c \<in> set (map aid (children_rows as i))" unfolding ch [symmetric] by auto
    then have "insert (aid c) (below as (aid c)) \<subseteq> below as i" using below_step [OF wf, of i] by auto
    then show "S \<inter> insert (aid c) (below as (aid c)) = {}" using Suc.prems(2) by blast
  qed
  show ?case
    using inner [OF Suc.prems(1) subset_refl, of "children_rows (arcs d) i" 0] dist out vis
    unfolding cascade_Suc Suc.prems(1) by auto
qed

section \<open>What the operation computes\<close>

lemma cancel_set_cancel_set:
  "cancel_set now T (cancel_set now S as) = cancel_set now (S \<union> T) as"
  by (induction as) (auto simp: cancel_set_def)

lemma cancel_set_singleton:
  "wf_ids aid as \<Longrightarrow> find_row aid i as = Some a \<Longrightarrow>
     cancel_set now {i} as =
       (if live_status (astatus a) then upd_row aid i (mark_status now Cancelled) as else as)"
proof -
  assume wf: "wf_ids aid as" and f: "find_row aid i as = Some a"
  have a: "a \<in> set as" "aid a = i" using find_row_Some [OF f] by auto
  have "cancel_set now {} as = as" by simp
  then show ?thesis
    using cancel_set_insert_live [OF wf, of a now "{}" "{}"]
      cancel_set_insert_dead [OF wf, of a now "{}" "{}"] a by auto
qed

lemma wf_tree_cancel_set [simp]: "wf_tree (cancel_set now S as) = wf_tree as"
  by (simp add: cancel_set_def wf_tree_upd_where)

lemma next_rowid_cancel_set [simp]: "next_rowid aid (cancel_set now S as) = next_rowid aid as"
  by (simp add: cancel_set_def next_rowid_upd_where)

lemma cascade_cancel_arcs:
  assumes "wf_tree as" "arcs d = cancel_set now S as" "S \<inter> below as i = {}"
  shows "arcs (snd (cascade_cancel now actor i d)) = cancel_set now (S \<union> below as i) as \<and>
    fst (cascade_cancel now actor i d) + live_count (arcs (snd (cascade_cancel now actor i d))) =
      live_count (arcs d)"
  using cascade_arcs [OF assms, of "nat (next_rowid aid (arcs d) - i)" actor]
    cascade_enough [OF assms(1), of i "nat (next_rowid aid (arcs d) - i)"] assms(2)
  unfolding cascade_cancel_def by auto

lemma not_below_self: "wf_tree as \<Longrightarrow> i \<notin> below as i"
  using walk_less [of as i i] by (auto simp: below_def)

lemma below_subtree: "below as i = aid ` set (subtree_rows as i)"
proof -
  have "j \<in> below as i \<longleftrightarrow> (\<exists>a \<in> set as. aid a = j \<and> i \<in> set (walk_ancestors as j))" for j
    using find_row_None [of aid j as] by (auto simp: below_def)
  then show ?thesis by (auto simp: subtree_rows_def image_iff)
qed

lemma live_count_split:
  "live_count as =
     live_count (cancel_set now S as) + length (filter (\<lambda>b. aid b \<in> S \<and> live_status (astatus b)) as)"
  by (induction as) (auto simp: live_count_def cancel_set_def)

lemma cascade_frame:
  "state (snd (cascade n now actor i d)) = state d \<and> events (snd (cascade n now actor i d)) = events d \<and>
     queue (snd (cascade n now actor i d)) = queue d"
proof (induction n arbitrary: i d)
  case (Suc n)
  have "state (snd (fold (cascade_body n now actor) cs (cnt, e))) = state e \<and>
      events (snd (fold (cascade_body n now actor) cs (cnt, e))) = events e \<and>
      queue (snd (fold (cascade_body n now actor) cs (cnt, e))) = queue e" for cs cnt e
  proof (induction cs arbitrary: cnt e)
    case (Cons c cs)
    obtain cnt' e' where b: "cascade_body n now actor c (cnt, e) = (cnt', e')" by fastforce
    have "state e' = state e \<and> events e' = events e \<and> queue e' = queue e"
      using b Suc.IH [of "aid c" e]
        Suc.IH [of "aid c" "move_arc now actor (aid c) (astatus c) Cancelled e"]
      by (auto simp: cascade_body_def Let_def split: if_splits prod.splits)
    then show ?case using Cons.IH [of cnt' e'] b by simp
  qed simp
  then show ?case unfolding cascade_Suc by blast
qed simp

section \<open>Property\<close>

text \<open>A supervisor with a running child, a finished child and a grandchild below the latter.\<close>

definition demo_tree :: db where
  "demo_tree = empty_db\<lparr> arcs :=
     [(blank_arc 1)\<lparr> astatus := Waiting \<rparr>,
      (blank_arc 2)\<lparr> parent_id := Some 1, astatus := Active \<rparr>,
      (blank_arc 3)\<lparr> parent_id := Some 1, astatus := Completed \<rparr>,
      (blank_arc 4)\<lparr> parent_id := Some 3 \<rparr>, blank_arc 5] \<rparr>"

lemma demo_tree_wf: "wf_tree (arcs demo_tree)"
  by (simp add: demo_tree_def wf_tree_def wf_ids_def)

text \<open>C19: Cancelling an arc cancels exactly the live arcs among it and all its descendants, also
  those below an arc that is already finished, leaves every other row as it was, and returns the
  number of arcs that changed. Events, queue and per-arc state are not touched.\<close>

theorem cancel_arc_exact:
  assumes wf: "wf_tree (arcs d)" and f: "find_arc i d = Some a"
    and c: "cancel_arc now i actor d = (k, d')"
    and tgt: "tgt = (\<lambda>b. (aid b = i \<or> i \<in> set (walk_ancestors (arcs d) (aid b))) \<and> live_status (astatus b))"
  shows "arcs d' = upd_where tgt (mark_status now Cancelled) (arcs d) \<and>
    k = length (filter tgt (arcs d)) \<and>
    events d' = events d \<and> queue d' = queue d \<and> state d' = state d"
proof -
  let ?S = "insert i (below (arcs d) i)"
  define d1 where "d1 = (if live_status (astatus a) then move_arc now actor i (astatus a) Cancelled d else d)"
  have ids: "wf_ids aid (arcs d)" using wf by (simp add: wf_tree_def)
  have d1: "arcs d1 = cancel_set now {i} (arcs d)"
    using cancel_set_singleton [OF ids f, of now] by (simp add: d1_def)
  have res: "d' = snd (cascade_cancel now actor i d1)"
    "k = (if live_status (astatus a) then 1 else 0) + fst (cascade_cancel now actor i d1)"
    using c f by (auto simp: cancel_arc_def d1_def Let_def split: if_splits prod.splits)
  have as': "arcs d' = cancel_set now ?S (arcs d)"
    using cascade_cancel_arcs [OF wf d1, where i = i and actor = actor] not_below_self [OF wf] res(1) by auto
  have first: "live_count (arcs d) = (if live_status (astatus a) then 1 else 0) + live_count (arcs d1)"
    using live_count_cancel_insert [OF ids, of a "{}" now] find_row_Some [OF f] d1
    by (auto simp: d1_def)
  have "k + live_count (arcs d') = live_count (arcs d)"
    using cascade_cancel_arcs [OF wf d1, where i = i and actor = actor] not_below_self [OF wf] res first by auto
  then have k: "k = length (filter (\<lambda>b. aid b \<in> ?S \<and> live_status (astatus b)) (arcs d))"
    using live_count_split [of "arcs d" now ?S] as' by simp
  have tgt': "tgt b = (aid b \<in> ?S \<and> live_status (astatus b))" if "b \<in> set (arcs d)" for b
  proof -
    have "find_row aid (aid b) (arcs d) \<noteq> None" using that find_row_None [of aid "aid b"] by auto
    then show ?thesis by (auto simp: tgt below_def)
  qed
  have "filter tgt (arcs d) = filter (\<lambda>b. aid b \<in> ?S \<and> live_status (astatus b)) (arcs d)"
    by (rule filter_cong) (simp_all add: tgt')
  moreover have "upd_where tgt (mark_status now Cancelled) (arcs d) = cancel_set now ?S (arcs d)"
    unfolding cancel_set_def upd_where_def by (rule map_cong) (simp_all add: tgt')
  moreover have "events d' = events d \<and> queue d' = queue d \<and> state d' = state d"
    using cascade_frame [of "nat (next_rowid aid (arcs d1) - i)" now actor i d1] res(1)
    by (simp add: cascade_cancel_def d1_def)
  ultimately show ?thesis using as' k by simp
qed

theorem cancel_arc_exact_witness:
  "\<exists>k d'. cancel_arc 7 1 ''user'' demo_tree = (k, d') \<and> k = 3 \<and>
     map astatus (arcs d') = [Cancelled, Cancelled, Completed, Cancelled, Pending]"
proof -
  obtain k d' where c: "cancel_arc 7 1 ''user'' demo_tree = (k, d')" by fastforce
  have f: "find_arc 1 demo_tree = Some ((blank_arc 1)\<lparr> astatus := Waiting \<rparr>)"
    by (simp add: demo_tree_def)
  have "k = 3 \<and> map astatus (arcs d') = [Cancelled, Cancelled, Completed, Cancelled, Pending]"
    using cancel_arc_exact [OF demo_tree_wf f c refl]
    by (simp add: demo_tree_def walk_ancestors_def parent_of_def live_status_def
        eval_nat_numeral)
  then show ?thesis using c by (intro exI [where x = k] exI [where x = d']) simp
qed

end
