(* ===== verification/Arc_Failure.thy ===== *)
theory Arc_Failure
  imports Arc_Manager
begin

text \<open>
  What happens when an arc fails: the notification of the parent and of the nearest waiting
  SUPERVISOR (\<open>core/arcs/manager.py\<close>), the wake-up of a supervisor
  (\<open>core/arcs/supervisor_wake_handler.py\<close>), the re-invocation of a parent
  (\<open>core/arcs/child_failure_handler.py\<close>) and the escalation of failed arcs to stronger models
  (\<open>core/arcs/root_failure_handler.py\<close>).

  Handlers commit in several steps, so their outcome is a value or an exception together with the
  database that holds what was committed before it (\<open>act\<close>). Escalating sets the status
  \<open>escalated\<close>, which triggers no failure notification, so the calls do not recurse. How Python
  prints a JSON value in an f-string is the parameter \<open>fmt\<close>.
\<close>

section \<open>Notifying people\<close>

definition notify :: "string \<Rightarrow> string \<Rightarrow> db \<Rightarrow> db" where
  "notify priority category d = d\<lparr> outbox := outbox d @ [(priority, category)] \<rparr>"

section \<open>Escalation\<close>

text \<open>\<open>update_status\<close> to a status that is not \<open>failed\<close>: the failure hook does not run.\<close>

definition update_status_quiet :: "time \<Rightarrow> int \<Rightarrow> string \<Rightarrow> string \<Rightarrow> db \<Rightarrow> exn + db" where
  "update_status_quiet = update_status_with (\<lambda>now i d. d)"

definition is_value_error :: "exn \<Rightarrow> bool" where
  "is_value_error e = (case e of ValueError _ \<Rightarrow> True | _ \<Rightarrow> False)"

text \<open>\<open>INSERT INTO arc_state\<close> without a conflict clause.\<close>

definition insert_state :: "time \<Rightarrow> int \<Rightarrow> string \<Rightarrow> jtext \<Rightarrow> db \<Rightarrow> exn + db" where
  "insert_state now a k v d =
     (if \<not> arc_exists a d then Inl (IntegrityError ''FOREIGN KEY'')
      else if state_cell a k d \<noteq> None then Inl (IntegrityError ''UNIQUE'')
      else Inr (put_state now a k v d))"

definition sibling_args :: "arc \<Rightarrow> string \<Rightarrow> int \<Rightarrow> create_args" where
  "sibling_args a nm policy =
     (default_args nm)\<lparr> ca_goal := goal a, ca_parent := parent_id a, ca_step_order := step_order a,
       ca_policy := Some policy, ca_agent := agent_value (aagent a),
       ca_integrity := integrity_value (ainteg a), ca_output := output_value (aoutput a) \<rparr>"

text \<open>
  The steps both escalations share once the new policy exists: create the sibling, mark the
  original, store where the sibling came from, grant it read access.
\<close>

definition replace_arc ::
    "env \<Rightarrow> time \<Rightarrow> int \<Rightarrow> create_args \<Rightarrow> string \<Rightarrow> db \<Rightarrow> int act" where
  "replace_arc env now i ca reason d =
     (case create_arc env now ca d of
        Inl e \<Rightarrow> (Inl e, d)
      | Inr (n, d1) \<Rightarrow>
          (case (case update_status_quiet now i ''escalated'' ''system'' d1 of
                   Inr d2 \<Rightarrow> Inr d2
                 | Inl e \<Rightarrow> if is_value_error e then Inr d1 else Inl e) of
             Inl e \<Rightarrow> (Inl e, d1)
           | Inr d2 \<Rightarrow>
               (case insert_state now n ''_escalated_from'' (Parsed (JInt i)) d2 of
                  Inl e \<Rightarrow> (Inl e, d2)
                | Inr d3 \<Rightarrow>
                    (case grant_read_access now n i ''subtree'' (Some reason) (Some ''platform'') d3 of
                       Inl _ \<Rightarrow> (Inr n, d3)
                     | Inr (_, d4) \<Rightarrow> (Inr n, d4)))))"

definition escalate_arc :: "env \<Rightarrow> time \<Rightarrow> int \<Rightarrow> string \<Rightarrow> db \<Rightarrow> int option act" where
  "escalate_arc env now i next_model d =
     (case get_arc i d of
        None \<Rightarrow> (Inr None, d)
      | Some a \<Rightarrow>
          let (policy, d1) = get_or_create_model_policy now (Some next_model) None None None None None d
          in (case replace_arc env now i (sibling_args a (aname a @ '' (escalated)'') policy)
                     ''Platform escalation'' d1 of
                (Inl e, d2) \<Rightarrow> (Inl e, d2)
              | (Inr n, d2) \<Rightarrow> (Inr (Some n), d2)))"

text \<open>The model named by the arc's policy, when the arc has one; ids are never 0.\<close>

definition policy_model :: "arc \<Rightarrow> db \<Rightarrow> string option" where
  "policy_model a d =
     (case model_policy_id a of
        None \<Rightarrow> None
      | Some p \<Rightarrow>
          if p = 0 then None
          else (case get_model_policy p d of None \<Rightarrow> None | Some r \<Rightarrow> p_model r))"

definition current_model :: "env \<Rightarrow> string \<Rightarrow> arc \<Rightarrow> db \<Rightarrow> string" where
  "current_model env slot a d =
     (if truthy_str (policy_model a d) then the (policy_model a d)
      else get_model_for_role (env_models env) slot)"

definition escalate_to_next_model :: "env \<Rightarrow> time \<Rightarrow> int \<Rightarrow> db \<Rightarrow> int option act" where
  "escalate_to_next_model env now i d =
     (case get_arc i d of
        None \<Rightarrow> (Inr None, d)
      | Some a \<Rightarrow>
          if aagent a = JUDGE then (Inr None, d)
          else
            let nxt = get_next_model (env_models env) (current_model env ''default_step'' a d) ''general''
            in if truthy_str nxt then escalate_arc env now i (the nxt) d else (Inr None, d))"

definition failed_judge_in_subtree :: "int \<Rightarrow> db \<Rightarrow> int option" where
  "failed_judge_in_subtree i d =
     map_option aid (first_by aid
       (filter (\<lambda>a. (aid a = i \<or> i \<in> set (walk_ancestors (arcs d) (aid a))) \<and>
                    aagent a = JUDGE \<and> astatus a = Failed) (arcs d)))"

text \<open>\<open>min_quality + 1\<close>; a bool is an int.\<close>

fun json_succ :: "json \<Rightarrow> exn + json" where
  "json_succ (JInt i) = Inr (JInt (i + 1))"
| "json_succ (JNum r) = Inr (JNum (r + 1))"
| "json_succ (JBool b) = Inr (JInt (if b then 2 else 1))"
| "json_succ _ = Inl (TypeError ''unsupported operand'')"

definition bumped_policy :: "model_policy \<Rightarrow> json \<Rightarrow> model_policy" where
  "bumped_policy p q = p\<lparr> mp_constraints := Some ((policy_constraints p)\<lparr> min_quality := q \<rparr>) \<rparr>"

definition from_db_row :: "policy_row \<Rightarrow> exn + model_policy" where
  "from_db_row r =
     xbind (policy_of_json (p_json r)) (\<lambda>(cs, pref).
       Inr \<lparr> mp_name = p_name r, mp_model = p_model r, mp_agent_role = p_agent_role r,
             mp_temperature = p_temperature r, mp_max_tokens = p_max_tokens r,
             mp_constraints = cs, preference = pref \<rparr>)"

definition none_text :: "string option \<Rightarrow> string" where
  "none_text s = (case s of None \<Rightarrow> ''None'' | Some x \<Rightarrow> x)"

definition policy_aware_escalation ::
    "(json \<Rightarrow> string) \<Rightarrow> env \<Rightarrow> time \<Rightarrow> int \<Rightarrow> arc \<Rightarrow> policy_row \<Rightarrow> db \<Rightarrow> bool act" where
  "policy_aware_escalation fmt env now i a row d =
     (case from_db_row row of
        Inl e \<Rightarrow> (Inl e, d)
      | Inr p \<Rightarrow>
          (case cmp_num (\<le>) 5 (min_quality (policy_constraints p)) of
             Inl e \<Rightarrow> (Inl e, d)
           | Inr best \<Rightarrow>
               if best then (Inr False, d)
               else
                 (case json_succ (min_quality (policy_constraints p)) of
                    Inl e \<Rightarrow> (Inl e, d)
                  | Inr q \<Rightarrow>
                      (case fst (select_model (env_health env) now (env_registry env)
                                  (bumped_policy p q) None 0 (env_tracker env)) of
                         Inl e \<Rightarrow> (Inl e, d)
                       | Inr None \<Rightarrow> (Inr False, d)
                       | Inr (Some _) \<Rightarrow>
                           let suffix = '' (escalated q>='' @ fmt q @ '')'';
                               (policy, d1) = get_or_create_model_policy now None (p_agent_role row)
                                  (p_temperature row) (p_max_tokens row) (to_policy_json (bumped_policy p q))
                                  (Some (none_text (p_name row) @ suffix)) d
                           in (case replace_arc env now i (sibling_args a (aname a @ suffix) policy)
                                     ''Policy-aware escalation'' d1 of
                                 (Inl e, d2) \<Rightarrow> (Inl e, d2)
                               | (Inr _, d2) \<Rightarrow> (Inr True, d2))))))"

section \<open>Failure of a root arc\<close>

definition CODING_CHANGE_PREFIX :: string where
  "CODING_CHANGE_PREFIX = ''coding-change''"

text \<open>The first stack that holds the model decides, whether or not it has a next one.\<close>

fun next_in_stacks :: "string \<Rightarrow> (string \<times> string list) list \<Rightarrow> string option" where
  "next_in_stacks m [] = None"
| "next_in_stacks m ((nm, st) # rest) =
     (case index_of m st of
        None \<Rightarrow> next_in_stacks m rest
      | Some k \<Rightarrow> if k + 1 < length st then Some (st ! (k + 1)) else None)"

text \<open>The legacy escalation over all configured stacks.\<close>

definition stack_escalation :: "env \<Rightarrow> time \<Rightarrow> int \<Rightarrow> arc \<Rightarrow> db \<Rightarrow> unit act" where
  "stack_escalation env now i a d =
     (if mc_stacks (env_models env) = [] then (Inr (), notify ''normal'' ''root_failure'' d)
      else
        case next_in_stacks (current_model env ''chat'' a d) (mc_stacks (env_models env)) of
          None \<Rightarrow> (Inr (), notify ''urgent'' ''root_failure'' d)
        | Some m \<Rightarrow>
            (case escalate_arc env now i m d of
               (Inl e, d1) \<Rightarrow> (Inl e, d1)
             | (Inr _, d1) \<Rightarrow> (Inr (), d1)))"

text \<open>\<open>except (ImportError, KeyError, ValueError, sqlite3.Error)\<close>.\<close>

definition caught_by_root_handler :: "exn \<Rightarrow> bool" where
  "caught_by_root_handler e =
     (case e of ValueError _ \<Rightarrow> True | KeyError _ \<Rightarrow> True | IntegrityError _ \<Rightarrow> True | _ \<Rightarrow> False)"

definition handle_root_failure :: "(json \<Rightarrow> string) \<Rightarrow> env \<Rightarrow> time \<Rightarrow> int \<Rightarrow> db \<Rightarrow> unit act" where
  "handle_root_failure fmt env now i d =
     (case get_arc i d of
        None \<Rightarrow> (Inr (), d)
      | Some a \<Rightarrow>
          if starts_with (aname a) CODING_CHANGE_PREFIX
          then (Inr (), notify ''normal'' ''coding_change_failure'' d)
          else if failed_judge_in_subtree i d \<noteq> None
          then (Inr (), notify ''normal'' ''judge_rejected'' d)
          else
            (case model_policy_id a of
               None \<Rightarrow> stack_escalation env now i a d
             | Some p \<Rightarrow>
                 (case get_model_policy p d of
                    None \<Rightarrow> stack_escalation env now i a d
                  | Some row \<Rightarrow>
                      if truthy_text (p_json row)
                      then (case policy_aware_escalation fmt env now i a row d of
                              (Inr True, d1) \<Rightarrow> (Inr (), d1)
                            | (Inr False, d1) \<Rightarrow> stack_escalation env now i a d1
                            | (Inl e, d1) \<Rightarrow>
                                if caught_by_root_handler e then stack_escalation env now i a d1
                                else (Inl e, d1))
                      else stack_escalation env now i a d)))"

section \<open>Supervisors\<close>

definition failure_record :: "time \<Rightarrow> arc \<Rightarrow> json" where
  "failure_record now c = JObj
     [(''child_id'', JInt (aid c)), (''child_name'', JStr (aname c)),
      (''child_goal'', str_json (goal c)), (''failed_at'', iso now)]"

text \<open>The list under \<open>_pending_failures\<close>; anything that is not a list reads as empty.\<close>

definition pending_failures :: "int \<Rightarrow> db \<Rightarrow> json list" where
  "pending_failures p d =
     (case state_cell p ''_pending_failures'' d of Some (Parsed (JList xs)) \<Rightarrow> xs | _ \<Rightarrow> [])"

definition wake_key :: "int \<Rightarrow> string" where
  "wake_key p = ''supervisor_wake:'' @ show_int p"

definition notify_supervisor_parent :: "time \<Rightarrow> int \<Rightarrow> arc \<Rightarrow> db \<Rightarrow> db" where
  "notify_supervisor_parent now p c d =
     enqueue_db now ''arc.supervisor_wake'' [(''parent_id'', JInt p)] (wake_key p) 100
       (put_state now p ''_pending_failures''
          (Parsed (JList (pending_failures p d @ [failure_record now c]))) d)"

definition waiting_supervisor :: "arc \<Rightarrow> bool" where
  "waiting_supervisor a = (aagent a = SUPERVISOR \<and> astatus a = Waiting)"

definition find_supervisor_ancestor :: "int \<Rightarrow> db \<Rightarrow> int option" where
  "find_supervisor_ancestor i d =
     List.find (\<lambda>p. case get_arc p d of None \<Rightarrow> False | Some a \<Rightarrow> waiting_supervisor a)
       (walk_ancestors (arcs d) i)"

section \<open>Failure of a child\<close>

definition child_failed_payload :: "int \<Rightarrow> arc \<Rightarrow> jdict" where
  "child_failed_payload p c =
     [(''parent_id'', JInt p), (''failed_child_id'', JInt (aid c)),
      (''failed_child_name'', JStr (aname c)), (''failed_child_goal'', str_json (goal c))]"

definition child_failed_key :: "int \<Rightarrow> int \<Rightarrow> string" where
  "child_failed_key p i = ''child_failed:'' @ show_int p @ '':'' @ show_int i"

text \<open>What the direct parent's escalation policy asks for; a malformed policy raises.\<close>

definition apply_failure_policy :: "env \<Rightarrow> time \<Rightarrow> int \<Rightarrow> arc \<Rightarrow> db \<Rightarrow> unit act" where
  "apply_failure_policy env now p c d =
     (case (case state_cell p ''_escalation_policy'' d of
              None \<Rightarrow> Inr (JStr ''replan'')
            | Some (Parsed v) \<Rightarrow> Inr v
            | Some (Malformed _) \<Rightarrow> Inl (ValueError ''JSON'')) of
        Inl e \<Rightarrow> (Inl e, d)
      | Inr policy \<Rightarrow>
          if policy = JStr ''fail'' then (Inr (), d)
          else if policy = JStr ''human'' then (Inr (), notify ''normal'' ''child_failure'' d)
          else if policy = JStr ''escalate''
          then (case escalate_to_next_model env now (aid c) d of
                  (Inl e, d1) \<Rightarrow> (Inl e, d1) | (Inr _, d1) \<Rightarrow> (Inr (), d1))
          else (Inr (), enqueue_db now ''arc.child_failed'' (child_failed_payload p c)
                  (child_failed_key p (aid c)) 100 d))"

definition notify_parent_of_failure ::
    "(json \<Rightarrow> string) \<Rightarrow> env \<Rightarrow> time \<Rightarrow> int \<Rightarrow> db \<Rightarrow> unit act" where
  "notify_parent_of_failure fmt env now i d =
     (case get_arc i d of
        None \<Rightarrow> (Inr (), d)
      | Some a \<Rightarrow>
          (case parent_id a of
             None \<Rightarrow> handle_root_failure fmt env now i d
           | Some p \<Rightarrow>
               (case get_arc p d of
                  None \<Rightarrow> (Inr (), d)
                | Some par \<Rightarrow>
                    let d1 = (if waiting_supervisor par then d
                              else case find_supervisor_ancestor i d of
                                     None \<Rightarrow> d
                                   | Some s \<Rightarrow> notify_supervisor_parent now s a d)
                    in if astatus par \<noteq> Waiting then (Inr (), d1)
                       else if aagent par = SUPERVISOR
                       then (Inr (), notify_supervisor_parent now p a d1)
                       else if from_template par then (Inr (), d1)
                       else apply_failure_policy env now p a d1)))"

text \<open>The status update with the real failure hook; whatever the hook raises is caught.\<close>

definition update_status ::
    "(json \<Rightarrow> string) \<Rightarrow> env \<Rightarrow> time \<Rightarrow> int \<Rightarrow> string \<Rightarrow> string \<Rightarrow> db \<Rightarrow> exn + db" where
  "update_status fmt env =
     update_status_with (\<lambda>now i d. snd (notify_parent_of_failure fmt env now i d))"

section \<open>Waking a supervisor\<close>

definition dict_get :: "json \<Rightarrow> string \<Rightarrow> json \<Rightarrow> exn + json" where
  "dict_get j k v =
     (case j of JObj d \<Rightarrow> Inr (dflt v (jget d k)) | _ \<Rightarrow> Inl (AttributeError ''get''))"

text \<open>The lines of \<open>_format_failure_summary\<close> from the \<open>n\<close>-th failure on.\<close>

fun failure_lines :: "(json \<Rightarrow> string) \<Rightarrow> int \<Rightarrow> json list \<Rightarrow> exn + string list" where
  "failure_lines fmt n [] = Inr []"
| "failure_lines fmt n (f # fs) =
     xbind (dict_get f ''child_id'' JNull) (\<lambda>ci.
     xbind (dict_get f ''child_name'' (JStr ''?'')) (\<lambda>nm.
     xbind (dict_get f ''failed_at'' (JStr ''?'')) (\<lambda>at'.
     xbind (dict_get f ''child_goal'' JNull) (\<lambda>gl.
     xbind (failure_lines fmt (n + 1) fs) (\<lambda>rest.
       Inr ((show_int n @ ''. Arc #'' @ fmt ci @ '' ('' @ fmt nm @ '') failed at '' @ fmt at')
            # (if jtruthy gl then [''   Goal: '' @ fmt gl] else []) @ rest))))))"

definition join_lines :: "string list \<Rightarrow> string" where
  "join_lines ls = (case ls of [] \<Rightarrow> [] | x # xs \<Rightarrow> x @ concat (map (\<lambda>l. CHR 0x0A # l) xs))"

definition format_failure_summary :: "(json \<Rightarrow> string) \<Rightarrow> json list \<Rightarrow> exn + string" where
  "format_failure_summary fmt fs =
     (if fs = [] then Inr []
      else xbind (failure_lines fmt 1 fs) (\<lambda>ls.
             Inr (join_lines ([''## Pending Child Failures'', []] @ ls))))"

definition supervisor_dispatch_key :: "int \<Rightarrow> int \<Rightarrow> string" where
  "supervisor_dispatch_key p w = ''supervisor_dispatch:'' @ show_int p @ '':'' @ show_int w"

text \<open>
  \<open>handle_supervisor_wake\<close>: read and clear the pending failures in one transaction, then
  dispatch the supervisor with their summary.
\<close>

definition handle_supervisor_wake ::
    "(json \<Rightarrow> string) \<Rightarrow> time \<Rightarrow> int \<Rightarrow> int option \<Rightarrow> db \<Rightarrow> unit act" where
  "handle_supervisor_wake fmt now work parent d =
     (case parent of
        None \<Rightarrow> (Inr (), d)
      | Some p \<Rightarrow>
          (case get_arc p d of
             None \<Rightarrow> (Inr (), d)
           | Some par \<Rightarrow>
               if \<not> waiting_supervisor par then (Inr (), d)
               else
                 let failures = pending_failures p d;
                     d1 = put_state now p ''_pending_failures'' (Parsed (JList [])) d
                 in if failures = [] then (Inr (), d1)
                    else (case format_failure_summary fmt failures of
                            Inl e \<Rightarrow> (Inl e, d1)
                          | Inr s \<Rightarrow>
                              (Inr (), enqueue_db now ''arc.dispatch''
                                 [(''arc_id'', JInt p), (''supervisor_wake'', JBool True),
                                  (''failure_summary'', JStr s)]
                                 (supervisor_dispatch_key p work) 100 d1))))"

text \<open>
  \<open>handle_child_failed\<close> up to the invocation of the agent in a conversation of its own, which is
  the parameter \<open>invoke\<close>.
\<close>

definition handle_child_failed ::
    "(json \<Rightarrow> string) \<Rightarrow> env \<Rightarrow> (int \<Rightarrow> int option \<Rightarrow> db \<Rightarrow> db) \<Rightarrow> time \<Rightarrow> int option \<Rightarrow> int option \<Rightarrow>
     db \<Rightarrow> db" where
  "handle_child_failed fmt env invoke now parent child d =
     (case parent of
        None \<Rightarrow> d
      | Some p \<Rightarrow>
          (case get_arc p d of
             None \<Rightarrow> d
           | Some par \<Rightarrow>
               if astatus par \<noteq> Waiting then d
               else (case update_status fmt env now p ''active'' ''system'' d of
                       Inl _ \<Rightarrow> d
                     | Inr d1 \<Rightarrow> invoke p child d1)))"

end
