(* ===== verification/Arc_Lifecycle.thy ===== *)
theory Arc_Lifecycle
  imports Arc_Cancel Arc_Failure
begin

text \<open>
  The lifecycle of arcs over every operation of the arc engine: the columns that are written once,
  the edges the status takes, and the tree that stays well-formed. Each operation is shown to
  evolve the table of arcs (\<open>evolves\<close>), a relation that is reflexive and transitive; the step
  relation \<open>arc_step\<close> collects the operations, and the properties speak of its runs.
\<close>

section \<open>How the table of arcs may change\<close>

text \<open>All columns but the status, the time of the last change and the three counters.\<close>

definition same_core :: "arc \<Rightarrow> arc \<Rightarrow> bool" where
  "same_core a a' =
     (a' = a\<lparr> astatus := astatus a', aupdated_at := aupdated_at a',
             descendant_tokens := descendant_tokens a',
             descendant_executions := descendant_executions a',
             descendant_arc_count := descendant_arc_count a' \<rparr>)"

definition row_evolves :: "arc \<Rightarrow> arc \<Rightarrow> bool" where
  "row_evolves a a' = (same_core a a' \<and> arc_life.move\<^sup>*\<^sup>* (astatus a) (astatus a'))"

definition evolves :: "arc list \<Rightarrow> arc list \<Rightarrow> bool" where
  "evolves as as' =
     (wf_tree as \<longrightarrow> wf_tree as' \<and>
        (\<forall>i a. find_row aid i as = Some a \<longrightarrow> (\<exists>a'. find_row aid i as' = Some a' \<and> row_evolves a a')))"

lemma same_core_refl [simp]: "same_core a a"
  by (simp add: same_core_def)

lemma same_core_trans: "same_core a b \<Longrightarrow> same_core b c \<Longrightarrow> same_core a c"
  unfolding same_core_def by (cases a; cases b; cases c) simp

lemma same_core_sel:
  assumes "same_core a b"
  shows "aid b = aid a" "parent_id b = parent_id a" "ainteg b = ainteg a" "aagent b = aagent a"
    "step_order b = step_order a" "from_template b = from_template a" "aname b = aname a"
    "goal b = goal a" "depth b = depth a" "apriority b = apriority a" "aoutput b = aoutput a"
  using assms unfolding same_core_def by (cases a; cases b; simp)+

lemma row_evolves_refl [simp]: "row_evolves a a"
  by (simp add: row_evolves_def)

lemma row_evolves_trans: "row_evolves a b \<Longrightarrow> row_evolves b c \<Longrightarrow> row_evolves a c"
  unfolding row_evolves_def by (meson same_core_trans rtranclp_trans)

lemma evolves_refl [simp]: "evolves as as"
  unfolding evolves_def by auto

lemma evolves_trans: "evolves as bs \<Longrightarrow> evolves bs cs \<Longrightarrow> evolves as cs"
  unfolding evolves_def by (meson row_evolves_trans)

lemma evolves_upd_where:
  assumes "\<And>a. a \<in> set as \<Longrightarrow> P a \<Longrightarrow> row_evolves a (f a)" "\<And>a. aid (f a) = aid a"
    "\<And>a. parent_id (f a) = parent_id a"
  shows "evolves as (upd_where P f as)"
  using assms
  by (auto simp: evolves_def wf_tree_upd_where find_row_upd_where dest!: find_row_in)

lemma evolves_upd_row:
  assumes "\<And>a. find_row aid i as = Some a \<Longrightarrow> row_evolves a (f a)" "\<And>a. aid (f a) = aid a"
    "\<And>a. parent_id (f a) = parent_id a"
  shows "evolves as (upd_row aid i f as)"
  unfolding evolves_def
proof (intro impI conjI allI)
  assume "wf_tree as"
  then show "wf_tree (upd_row aid i f as)" using assms by (simp add: upd_row_def wf_tree_upd_where)
next
  fix j a assume "find_row aid j as = Some a"
  then show "\<exists>a'. find_row aid j (upd_row aid i f as) = Some a' \<and> row_evolves a a'"
    using assms by (auto simp: find_row_upd_row)
qed

lemma evolves_append:
  assumes "aid c = next_rowid aid as" "\<And>p. parent_id c = Some p \<Longrightarrow> find_row aid p as \<noteq> None"
  shows "evolves as (as @ [c])"
  unfolding evolves_def
proof (intro impI conjI allI)
  assume wf: "wf_tree as"
  have "p < aid c" if "parent_id c = Some p" for p
  proof -
    obtain b where "find_row aid p as = Some b" using assms(2) [OF \<open>parent_id c = Some p\<close>] by blast
    from find_row_Some [OF this] have "b \<in> set as" "aid b = p" by auto
    then show ?thesis using next_rowid_gt [of b as aid] assms(1) by simp
  qed
  then show "wf_tree (as @ [c])" by (intro wf_tree_append [OF wf]) (simp_all add: assms)
next
  fix j a assume "find_row aid j as = Some a"
  then show "\<exists>a'. find_row aid j (as @ [c]) = Some a' \<and> row_evolves a a'"
    by (auto simp: find_row_append)
qed

lemma mark_status_core: "same_core a (mark_status now s a)"
  by (cases a) (simp add: same_core_def mark_status_def)

lemma mark_status_evolves: "s \<in> TRANSITIONS (astatus a) \<Longrightarrow> row_evolves a (mark_status now s a)"
  unfolding row_evolves_def by (auto simp: mark_status_core arc_life.move_def)

lemma live_cancel: "live_status s \<Longrightarrow> Cancelled \<in> TRANSITIONS s"
  by (cases s) (simp_all add: live_status_def)

section \<open>The operations evolve the table\<close>

abbreviation ev :: "db \<Rightarrow> db \<Rightarrow> bool" where
  "ev d d' \<equiv> evolves (arcs d) (arcs d')"

lemma evolves_cancel_set: "evolves as (cancel_set now S as)"
  unfolding cancel_set_def by (rule evolves_upd_where) (auto intro: mark_status_evolves live_cancel)

lemma ev_cascade_cancel: "ev d (snd (cascade_cancel now actor i d))"
proof (cases "wf_tree (arcs d)")
  case True
  have "arcs (snd (cascade_cancel now actor i d)) = cancel_set now ({} \<union> below (arcs d) i) (arcs d)"
    using cascade_cancel_arcs [OF True, of d now "{}" i actor] by simp
  then show ?thesis by (simp add: evolves_cancel_set)
next
  case False
  then show ?thesis by (simp add: evolves_def)
qed

lemma ev_move_arc:
  "(\<And>a. find_arc i d = Some a \<Longrightarrow> new \<in> TRANSITIONS (astatus a)) \<Longrightarrow> ev d (move_arc now ac i old new d)"
  by (auto intro!: evolves_upd_row mark_status_evolves)

lemma ev_cancel_arc: "ev d (snd (cancel_arc now i actor d))"
proof (cases "find_arc i d")
  case None
  then show ?thesis by (simp add: cancel_arc_def)
next
  case (Some a)
  let ?d1 = "if live_status (astatus a) then move_arc now actor i (astatus a) Cancelled d else d"
  have "ev d ?d1" using Some by (auto intro!: evolves_upd_row mark_status_evolves live_cancel)
  moreover have "snd (cancel_arc now i actor d) = snd (cascade_cancel now actor i ?d1)"
    using Some by (auto simp: cancel_arc_def split: prod.splits)
  ultimately show ?thesis using evolves_trans ev_cascade_cancel by metis
qed

lemma ev_transition:
  assumes "transition now i new actor d = Inr (old, d')"
  shows "ev d d' \<and> (\<exists>a. find_arc i d = Some a \<and> old = astatus a \<and> new \<in> TRANSITIONS old)"
proof -
  obtain a where a: "find_arc i d = Some a" "new \<in> TRANSITIONS (astatus a)" "old = astatus a"
    using assms by (auto simp: transition_def Let_def split: option.splits if_splits)
  let ?d1 = "move_arc now actor i (astatus a) new d"
  have "ev d ?d1" using a by (intro ev_move_arc) simp
  moreover have "ev ?d1 d'"
    using assms a ev_cascade_cancel [of ?d1 now actor i]
    by (auto simp: transition_def Let_def split: if_splits)
  ultimately show ?thesis using a evolves_trans by blast
qed

lemma enqueue_db_frame [simp]:
  "arcs (enqueue_db now e p k pr d) = arcs d" "state (enqueue_db now e p k pr d) = state d"
  "grants (enqueue_db now e p k pr d) = grants d" "outbox (enqueue_db now e p k pr d) = outbox d"
  "policies (enqueue_db now e p k pr d) = policies d" "events (enqueue_db now e p k pr d) = events d"
  by (simp_all add: enqueue_db_def)

lemma hooks_frame [simp]:
  "arcs (emit_hook now i old new d) = arcs d" "arcs (summary_hook now i new d) = arcs d"
  "arcs (notify_hook now i new d) = arcs d"
  "state (emit_hook now i old new d) = state d" "state (summary_hook now i new d) = state d"
  "state (notify_hook now i new d) = state d"
  "grants (emit_hook now i old new d) = grants d" "grants (summary_hook now i new d) = grants d"
  "grants (notify_hook now i new d) = grants d"
  "outbox (emit_hook now i old new d) = outbox d" "outbox (summary_hook now i new d) = outbox d"
  "outbox (notify_hook now i new d) = outbox d"
  by (auto simp: emit_hook_def summary_hook_def notify_hook_def split: option.splits)

lemma mark_verdict_frame:
  "mark_template_verdict r v d = Inr d' \<Longrightarrow> arcs d' = arcs d \<and> queue d' = queue d \<and> state d' = state d \<and>
     outbox d' = outbox d \<and> grants d' = grants d"
  by (auto simp: mark_template_verdict_def set_resource_def split: if_splits option.splits)

lemma auto_approve_frame [simp]:
  "arcs (auto_approve_hook i new d) = arcs d" "queue (auto_approve_hook i new d) = queue d"
  "state (auto_approve_hook i new d) = state d" "outbox (auto_approve_hook i new d) = outbox d"
  "grants (auto_approve_hook i new d) = grants d"
  by (auto simp: auto_approve_hook_def dest: mark_verdict_frame
      split: option.splits jtext.splits sum.splits)

lemma ev_update_status_with:
  assumes "update_status_with h now i s actor d = Inr d'" "\<And>d. ev d (h now i d)"
  shows "ev d d'"
proof -
  obtain new old d1 where t: "transition now i new actor d = Inr (old, d1)"
    and d': "arcs d' = arcs (if new = Failed then h now i (notify_hook now i new (summary_hook now i new
        (emit_hook now i old new d1))) else d1)"
    using assms(1) by (auto simp: update_status_with_def Let_def split: option.splits sum.splits)
  let ?e = "notify_hook now i new (summary_hook now i new (emit_hook now i old new d1))"
  have "ev ?e (h now i ?e)" by (rule assms(2))
  then have "ev d1 d'" using d' by (cases "new = Failed") simp_all
  then show ?thesis using ev_transition [OF t] evolves_trans by blast
qed

subsection \<open>Creation\<close>

lemma get_or_create_frame:
  "get_or_create_model_policy now m r te tk pj nm d = (i, d') \<Longrightarrow>
     arcs d' = arcs d \<and> state d' = state d \<and> queue d' = queue d \<and> outbox d' = outbox d \<and>
     grants d' = grants d \<and> audit d' = audit d"
  by (auto simp: get_or_create_model_policy_def Let_def split: option.splits)

lemma resolve_frame:
  "resolve_arc_creation_model env now m am mr ar te tk po d = Inr (i, d') \<Longrightarrow>
     arcs d' = arcs d \<and> state d' = state d \<and> queue d' = queue d \<and> outbox d' = outbox d \<and>
     grants d' = grants d \<and> audit d' = audit d"
  by (auto simp: resolve_arc_creation_model_def Let_def dest: get_or_create_frame
      split: if_splits sum.splits prod.splits)

lemma insert_arc_row_spec:
  assumes "insert_arc_row env now ca d = Inr (a, d')"
  obtains il ot ag ro policy d1 where "integrity_of (ca_integrity ca) = Inr il"
    and "validate_output_type (ca_output ca) = Inr ot" and "validate_agent_type (ca_agent ca) = Inr ag"
    and "arc_role_of (ca_arc_role ca) = Some ro" and "fks_ok ca d1"
    and "resolve_arc_creation_model env now (ca_model ca) (ca_agent_model ca) (ca_model_role ca)
           (ca_agent_role ca) (ca_temperature ca) (ca_max_tokens ca) (ca_policy ca) d = Inr (policy, d1)"
    and "arcs d1 = arcs d" and "a = new_arc_row now ca il ot ag ro policy d1"
    and "arcs d' = arcs d @ [a]" and "state d' = state d" and "queue d' = queue d" and "outbox d' = outbox d"
    and "grants d' = grants d"
  using assms
  by (auto simp: insert_arc_row_def Let_def split: sum.splits option.splits if_splits prod.splits
      dest!: resolve_frame)

lemma new_arc_row_sel [simp]:
  "aid (new_arc_row now ca il ot ag ro po d) = next_rowid aid (arcs d)"
  "parent_id (new_arc_row now ca il ot ag ro po d) = ca_parent ca"
  "ainteg (new_arc_row now ca il ot ag ro po d) = il"
  "aagent (new_arc_row now ca il ot ag ro po d) = ag"
  "step_order (new_arc_row now ca il ot ag ro po d) = ca_step_order ca"
  "astatus (new_arc_row now ca il ot ag ro po d) = (if ag = SUPERVISOR then Waiting else Pending)"
  "descendant_arc_count (new_arc_row now ca il ot ag ro po d) = 0"
  "aname (new_arc_row now ca il ot ag ro po d) = ca_name ca"
  "goal (new_arc_row now ca il ot ag ro po d) = ca_goal ca"
  "model_policy_id (new_arc_row now ca il ot ag ro po d) = po"
  "aoutput (new_arc_row now ca il ot ag ro po d) = ot"
  by (simp_all add: new_arc_row_def Let_def)

lemma insert_arc_row_ev:
  assumes "insert_arc_row env now ca d = Inr (a, d')"
  shows "evolves (arcs d) (arcs d @ [a])" "arcs d' = arcs d @ [a]" "aid a = next_rowid aid (arcs d)"
    "parent_id a = ca_parent ca" "find_arc (aid a) d = None"
proof -
  obtain il ot ag ro policy d1 where f: "fks_ok ca d1" "arcs d1 = arcs d"
    "a = new_arc_row now ca il ot ag ro policy d1" "arcs d' = arcs d @ [a]"
    by (rule insert_arc_row_spec [OF assms]) blast
  then show "arcs d' = arcs d @ [a]" "aid a = next_rowid aid (arcs d)" "parent_id a = ca_parent ca"
    "find_arc (aid a) d = None"
    by simp_all
  show "evolves (arcs d) (arcs d @ [a])"
    by (rule evolves_append) (use f in \<open>auto simp: fks_ok_def fk_arc_def arc_exists_def split: option.splits\<close>)
qed

lemma initialize_retry_frame:
  "initialize_retry_state cfg now i po mx d = Inr d' \<Longrightarrow>
     arcs d' = arcs d \<and> queue d' = queue d \<and> outbox d' = outbox d \<and> grants d' = grants d"
  by (auto simp: initialize_retry_state_def Let_def set_arc_state_def split: if_splits)

lemma log_trust_event_more [simp]:
  "grants (snd (log_trust_event now a ty c d)) = grants d"
  "outbox (snd (log_trust_event now a ty c d)) = outbox d"
  "policies (snd (log_trust_event now a ty c d)) = policies d"
  by (simp_all add: log_trust_event_def Let_def)

lemma enqueue_dispatch_frame [simp]:
  "arcs (enqueue_dispatch now i p d) = arcs d" "state (enqueue_dispatch now i p d) = state d"
  "grants (enqueue_dispatch now i p d) = grants d" "outbox (enqueue_dispatch now i p d) = outbox d"
  "policies (enqueue_dispatch now i p d) = policies d"
  by (simp_all add: enqueue_dispatch_def)

lemma insert_arc_spec:
  assumes "insert_arc env now ca d = Inr (n, d')"
  obtains a d1 where "insert_arc_row env now ca d = Inr (a, d1)" and "aid a = n"
    and "arcs d' = arcs d1" and "outbox d' = outbox d1" and "grants d' = grants d1"
  using assms
  by (auto simp: insert_arc_def Let_def dest!: initialize_retry_frame
      split: sum.splits prod.splits if_splits)

lemma create_arc_insert:
  "create_arc env now ca d = Inr r \<Longrightarrow>
     insert_arc env now ca d = Inr r \<and> integrity_of (ca_integrity ca) = Inr TRUSTED"
  by (auto simp: create_arc_def is_non_trusted_def split: sum.splits if_splits)

lemma ev_create_arc:
  assumes "create_arc env now ca d = Inr (n, d')"
  shows "ev d d'"
proof -
  obtain a d1 where "insert_arc_row env now ca d = Inr (a, d1)" "arcs d' = arcs d1"
    using create_arc_insert [OF assms] by (elim conjE insert_arc_spec)
  then show ?thesis using insert_arc_row_ev(1,2) by metis
qed

lemma bump_core: "same_core a (bump_arc_count now a)"
  by (cases a) (simp add: same_core_def bump_arc_count_def)

lemma ev_bump_fold:
  assumes "\<And>a. row_evolves a (f a)"
  shows "ev d (fold (\<lambda>p. set_arc p f) ps d)"
proof (induction ps arbitrary: d)
  case (Cons p ps)
  have sel: "aid (f a) = aid a" "parent_id (f a) = parent_id a" for a
    using assms [of a] same_core_sel by (auto simp: row_evolves_def)
  have "ev d (set_arc p f d)" using assms sel by (auto intro!: evolves_upd_row)
  then show ?case using Cons evolves_trans by fastforce
qed simp

lemma ev_increment_arc_count: "ev d (increment_ancestor_arc_count now i d)"
  unfolding increment_ancestor_arc_count_def
  by (rule ev_bump_fold) (simp add: row_evolves_def bump_core)

lemma ev_increment_executions: "ev d (increment_ancestor_executions now i d)"
  unfolding increment_ancestor_executions_def
  by (rule ev_bump_fold) (simp add: row_evolves_def same_core_def)

lemma ev_increment_tokens: "ev d (increment_ancestor_tokens now i tk d)"
  unfolding increment_ancestor_tokens_def
  by (auto intro!: ev_bump_fold simp: row_evolves_def same_core_def)

lemma ev_update_counters: "ev d (update_arc_counters execs acs now i d)"
  unfolding update_arc_counters_def
  by (auto simp: Let_def row_evolves_def same_core_def intro!: evolves_upd_row)

lemma after_add_child_arcs:
  "arcs (after_add_child now ca a d) =
     arcs (increment_ancestor_arc_count now (aid a)
       (snd (log_trust_event now (Some (aid a)) ''integrity_assigned'' (Some (integrity_details a)) d)))"
  by (simp add: after_add_child_def Let_def)

lemma ev_add_child:
  assumes "add_child env now p kw d = Inr (n, d')"
  shows "ev d d'"
proof -
  obtain ca a d1 d2 where i: "insert_arc_row env now ca d1 = Inr (a, d2)" "arcs d1 = arcs d"
    "d' = after_add_child now ca a d2"
    using assms by (auto simp: add_child_def Let_def split: option.splits if_splits sum.splits prod.splits)
  have "ev d d2" using insert_arc_row_ev(1,2) [OF i(1)] i(2) by simp
  moreover have "ev d2 d'"
    unfolding i(3) after_add_child_arcs
    using ev_increment_arc_count [of "snd (log_trust_event now (Some (aid a)) ''integrity_assigned'' (Some (integrity_details a)) d2)"]
    by simp
  ultimately show ?thesis by (rule evolves_trans)
qed

subsection \<open>Failure handling\<close>

lemma ev_quiet: "update_status_quiet now i s ac d = Inr d' \<Longrightarrow> ev d d'"
  unfolding update_status_quiet_def by (erule ev_update_status_with) simp

lemma insert_state_frame:
  "insert_state now a k v d = Inr d' \<Longrightarrow>
     d' = put_state now a k v d \<and> state_cell a k d = None \<and> arc_exists a d"
  by (auto simp: insert_state_def split: if_splits)

lemma grant_frame:
  "grant_read_access now r t dp re by' d = Inr (g, d') \<Longrightarrow>
     arcs d' = arcs d \<and> state d' = state d \<and> queue d' = queue d \<and> outbox d' = outbox d"
  by (auto simp: grant_read_access_def Let_def split: if_splits)

lemma ev_replace_arc: "ev d (snd (replace_arc env now i ca reason d))"
proof (cases "create_arc env now ca d")
  case (Inl e)
  then show ?thesis by (simp add: replace_arc_def)
next
  case (Inr r)
  then obtain n d1 where c: "create_arc env now ca d = Inr (n, d1)" by (cases r) auto
  have 1: "ev d d1" by (rule ev_create_arc [OF c])
  show ?thesis
  proof (cases "update_status_quiet now i ''escalated'' ''system'' d1")
    case (Inl e)
    then show ?thesis using c 1
      by (auto simp: replace_arc_def dest!: insert_state_frame grant_frame split: sum.splits prod.splits)
  next
    case (Inr d2)
    then have "ev d1 d2" by (rule ev_quiet)
    with 1 have "ev d d2" by (rule evolves_trans)
    then show ?thesis using c Inr
      by (auto simp: replace_arc_def dest!: insert_state_frame grant_frame split: sum.splits prod.splits)
  qed
qed

lemma ev_escalate_arc: "ev d (snd (escalate_arc env now i m d))"
proof (cases "get_arc i d")
  case (Some a)
  obtain po d1 where g: "get_or_create_model_policy now (Some m) None None None None None d = (po, d1)"
    by fastforce
  have "arcs d1 = arcs d" using get_or_create_frame [OF g] by simp
  then show ?thesis
    using Some g ev_replace_arc [of d1 env now i "sibling_args a (aname a @ '' (escalated)'') po" "''Platform escalation''"]
    by (auto simp: escalate_arc_def split: prod.splits sum.splits)
qed (simp add: escalate_arc_def)

lemma ev_escalate_next: "ev d (snd (escalate_to_next_model env now i d))"
  by (auto simp: escalate_to_next_model_def Let_def ev_escalate_arc split: option.splits)

lemma ev_replace_arcD: "replace_arc env now i ca r d1 = (x, d2) \<Longrightarrow> arcs d1 = arcs d \<Longrightarrow> ev d d2"
  using ev_replace_arc [of d1 env now i ca r] by simp

lemma ev_escalateD:
  "escalate_arc env now i m d = (x, d2) \<Longrightarrow> ev d d2"
  "escalate_to_next_model env now i d = (y, d3) \<Longrightarrow> ev d d3"
  using ev_escalate_arc [of d env now i m] ev_escalate_next [of d env now i] by simp_all

lemma ev_policy_aware: "ev d (snd (policy_aware_escalation fmt env now i a row d))"
  by (auto simp: policy_aware_escalation_def Let_def dest!: get_or_create_frame
      intro: ev_replace_arcD split: sum.splits option.splits prod.splits)

lemma notify_frame [simp]:
  "arcs (notify p c d) = arcs d" "state (notify p c d) = state d" "queue (notify p c d) = queue d"
  "grants (notify p c d) = grants d"
  by (simp_all add: notify_def)

lemma ev_stack_escalation: "ev d (snd (stack_escalation env now i a d))"
  by (auto simp: stack_escalation_def dest: ev_escalateD split: option.splits prod.splits sum.splits)

lemma ev_root_failure: "ev d (snd (handle_root_failure fmt env now i d))"
proof -
  have "ev d (snd (case policy_aware_escalation fmt env now i a row d of
      (Inr True, d1) \<Rightarrow> (Inr (), d1)
    | (Inr False, d1) \<Rightarrow> stack_escalation env now i a d1
    | (Inl e, d1) \<Rightarrow> if caught_by_root_handler e then stack_escalation env now i a d1 else (Inl e, d1)))"
    for a row
  proof -
    obtain r d1 where r: "policy_aware_escalation fmt env now i a row d = (r, d1)" by fastforce
    then have "ev d d1" using ev_policy_aware [of d fmt env now i a row] by simp
    moreover from this have "ev d (snd (stack_escalation env now i a d1))"
      using ev_stack_escalation evolves_trans by blast
    ultimately show ?thesis using r by (auto split: sum.splits bool.splits)
  qed
  then show ?thesis
    by (auto simp: handle_root_failure_def ev_stack_escalation split: option.splits)
qed

lemma notify_supervisor_frame [simp]:
  "arcs (notify_supervisor_parent now p c d) = arcs d"
  "grants (notify_supervisor_parent now p c d) = grants d"
  "outbox (notify_supervisor_parent now p c d) = outbox d"
  by (simp_all add: notify_supervisor_parent_def)

lemma ev_failure_policy: "ev d (snd (apply_failure_policy env now p c d))"
  by (auto simp: apply_failure_policy_def dest: ev_escalateD
      split: option.splits jtext.splits prod.splits sum.splits)

lemma ev_notify_parent: "ev d (snd (notify_parent_of_failure fmt env now i d))"
proof (cases "get_arc i d")
  case (Some a)
  show ?thesis
  proof (cases "parent_id a")
    case None
    then show ?thesis using Some ev_root_failure by (simp add: notify_parent_of_failure_def)
  next
    case p: (Some p)
    define sup where "sup par = (if waiting_supervisor par then d
      else case find_supervisor_ancestor i d of None \<Rightarrow> d | Some s \<Rightarrow> notify_supervisor_parent now s a d)" for par
    have "arcs (sup par) = arcs d" for par by (auto simp: sup_def split: option.splits)
    then show ?thesis using Some p ev_failure_policy [of "sup _"]
      by (auto simp: notify_parent_of_failure_def Let_def sup_def [symmetric] split: option.splits)
  qed
qed (simp add: notify_parent_of_failure_def)

lemma ev_update_status: "update_status fmt env now i s ac d = Inr d' \<Longrightarrow> ev d d'"
  unfolding update_status_def by (erule ev_update_status_with) (rule ev_notify_parent)

lemma ev_supervisor_wake: "ev d (snd (handle_supervisor_wake fmt now w p d))"
  by (auto simp: handle_supervisor_wake_def Let_def split: option.splits sum.splits)

lemma ev_freeze:
  "freeze_arc (\<lambda>now i d. snd (notify_parent_of_failure fmt env now i d)) now i d = Inr d' \<Longrightarrow> ev d d'"
  using ev_update_status unfolding update_status_def
  by (fastforce simp: freeze_arc_def Let_def split: if_splits option.splits)

lemma add_history_frame: "add_history now i ty c cf ac d = Inr (h, d') \<Longrightarrow> arcs d' = arcs d"
  by (auto simp: add_history_def split: if_splits)

lemma ev_dispatch:
  assumes ex: "\<And>cf i d. ev d (snd (execute cf i d))"
  shows "ev d (snd (dispatch_arc (\<lambda>now i d. snd (notify_parent_of_failure fmt env now i d)) execute now i d))"
proof -
  let ?h = "\<lambda>now i d. snd (notify_parent_of_failure fmt env now i d)"
  have exD: "execute cf i d1 = (x, d2) \<Longrightarrow> ev d1 d2" for cf d1 x d2
    using ex [of d1 cf i] by simp
  show ?thesis
  proof (cases "find_arc i d")
    case (Some a)
    show ?thesis
    proof (cases "if astatus a = Pending \<or> astatus a = Waiting
        then update_status_with ?h now i ''active'' ''system'' d else Inr d")
      case (Inl e)
      then show ?thesis using Some by (simp add: dispatch_arc_def)
    next
      case (Inr d1)
      have "ev d d1"
      proof (cases "astatus a = Pending \<or> astatus a = Waiting")
        case True
        then show ?thesis using Inr ev_update_status unfolding update_status_def by auto
      qed (use Inr in auto)
      moreover have "live_status (astatus a) \<Longrightarrow> ev d1 (snd (dispatch_arc ?h execute now i d))"
        unfolding dispatch_arc_def Some option.case Inr sum.case
        by (auto dest: exD dest!: add_history_frame split: option.splits prod.splits sum.splits)
      ultimately show ?thesis
        using Some evolves_trans [of "arcs d" "arcs d1"] by (auto simp: dispatch_arc_def)
    qed
  qed (simp add: dispatch_arc_def)
qed

lemma record_retry_frame: "record_retry_attempt now i ei b d = Inr d' \<Longrightarrow> arcs d' = arcs d"
  by (auto simp: record_retry_attempt_def Let_def split: if_splits)

section \<open>Runs\<close>

text \<open>
  Every operation of the arc engine, with whatever arguments, at whatever time. The agent and the
  code that dispatch runs are parameters that may do what the other steps do (\<open>ev\<close>).
\<close>

definition failure_hook ::
    "(json \<Rightarrow> string) \<Rightarrow> env \<Rightarrow> time \<Rightarrow> int \<Rightarrow> db \<Rightarrow> db" where
  "failure_hook fmt env now i d = snd (notify_parent_of_failure fmt env now i d)"

inductive arc_step :: "(json \<Rightarrow> string) \<Rightarrow> env \<Rightarrow> db \<Rightarrow> db \<Rightarrow> bool" for fmt env where
  st_create: "create_arc env now ca d = Inr (i, d') \<Longrightarrow> arc_step fmt env d d'"
| st_child: "add_child env now p ca d = Inr (i, d') \<Longrightarrow> arc_step fmt env d d'"
| st_status: "update_status fmt env now i s actor d = Inr d' \<Longrightarrow> arc_step fmt env d d'"
| st_cancel: "cancel_arc now i actor d = (k, d') \<Longrightarrow> arc_step fmt env d d'"
| st_freeze: "freeze_arc (failure_hook fmt env) now i d = Inr d' \<Longrightarrow> arc_step fmt env d d'"
| st_dispatch: "\<forall>cf j e. ev e (snd (execute cf j e)) \<Longrightarrow>
    dispatch_arc (failure_hook fmt env) execute now i d = (r, d') \<Longrightarrow> arc_step fmt env d d'"
| st_escalate: "escalate_to_next_model env now i d = (x, d') \<Longrightarrow> arc_step fmt env d d'"
| st_wake: "handle_supervisor_wake fmt now w p d = (y, d') \<Longrightarrow> arc_step fmt env d d'"
| st_retry: "record_retry_attempt now i ei b d = Inr d' \<Longrightarrow> arc_step fmt env d d'"
| st_grant: "grant_read_access now r t dp reason by' d = Inr (g, d') \<Longrightarrow> arc_step fmt env d d'"
| st_executions: "arc_step fmt env d (increment_ancestor_executions now i d)"
| st_tokens: "arc_step fmt env d (increment_ancestor_tokens now i tk d)"
| st_recount: "arc_step fmt env d (update_arc_counters execs acs now i d)"

lemma arc_step_ev: "arc_step fmt env d d' \<Longrightarrow> ev d d'"
proof (induction rule: arc_step.induct)
  case (st_dispatch execute now i d r d')
  then have "ev e (snd (execute cf j e))" for cf j e by blast
  from ev_dispatch [where execute = execute, OF this, of d fmt env now i] st_dispatch(2) show ?case
    by (simp add: failure_hook_def [abs_def])
next
  case (st_cancel now i actor d k d')
  then show ?case using ev_cancel_arc [of d now i actor] by simp
next
  case (st_wake now w p d y d')
  then show ?case using ev_supervisor_wake [of d fmt now w p] by simp
qed (auto simp: failure_hook_def [abs_def] ev_increment_executions ev_increment_tokens ev_update_counters
    dest: ev_create_arc ev_add_child ev_update_status ev_freeze ev_escalateD record_retry_frame grant_frame)

lemma arc_run_ev: "(arc_step fmt env)\<^sup>*\<^sup>* d d' \<Longrightarrow> ev d d'"
  by (induction rule: rtranclp_induct) (auto intro: evolves_trans arc_step_ev)

lemma arc_run_row:
  assumes "(arc_step fmt env)\<^sup>*\<^sup>* d d'" "wf_tree (arcs d)" "find_arc i d = Some a"
  obtains a' where "find_arc i d' = Some a'" "same_core a a'"
    "arc_life.move\<^sup>*\<^sup>* (astatus a) (astatus a')"
  using arc_run_ev [OF assms(1)] assms(2,3) unfolding evolves_def row_evolves_def by blast

lemma move_failed: "arc_life.move\<^sup>*\<^sup>* s t \<Longrightarrow> s = Failed \<or> s = Escalated \<Longrightarrow> t = Failed \<or> t = Escalated"
  by (induction rule: rtranclp_induct) (auto simp: arc_life.move_def)

lemma move_pending: "arc_life.move\<^sup>*\<^sup>* s t \<Longrightarrow> t = Pending \<Longrightarrow> s = Pending"
proof (induction rule: rtranclp_induct)
  case (step y z)
  then show ?case by (cases y) (auto simp: arc_life.move_def)
qed simp

subsection \<open>One status update\<close>

lemma update_status_row:
  assumes u: "update_status fmt env now i s actor d = Inr d'" and wf: "wf_tree (arcs d)"
    and st: "status_of s = Some new" "new \<noteq> Cancelled"
  obtains a' where "find_arc i d' = Some a'" "arc_life.move\<^sup>*\<^sup>* new (astatus a')"
    "new \<noteq> Failed \<Longrightarrow> astatus a' = new"
proof -
  obtain a where a: "find_arc i d = Some a" "new \<in> TRANSITIONS (astatus a)"
    using u st by (auto simp: update_status_def update_status_with_def transition_def Let_def
        split: option.splits sum.splits if_splits)
  let ?d1 = "move_arc now actor i (astatus a) new d"
  let ?d4 = "notify_hook now i new (summary_hook now i new (emit_hook now i (astatus a) new ?d1))"
  have t: "transition now i new actor d = Inr (astatus a, ?d1)"
    using a st(2) by (simp add: transition_def Let_def)
  have wf1: "wf_tree (arcs ?d1)" using wf by (simp add: upd_row_def wf_tree_upd_where)
  have f1: "find_arc i ?d1 = Some (mark_status now new a)" using a(1) by (simp add: find_row_upd_row)
  have d': "d' = auto_approve_hook i new (if new = Failed then failure_hook fmt env now i ?d4 else ?d4)"
    using u st(1) t by (cases "new = Failed")
      (simp_all add: update_status_def update_status_with_def Let_def failure_hook_def)
  have "ev ?d1 d'"
    using ev_notify_parent [of ?d4 fmt env now i] unfolding d' by (auto simp: failure_hook_def)
  then obtain a' where "find_arc i d' = Some a'" "row_evolves (mark_status now new a) a'"
    using wf1 f1 unfolding evolves_def by blast
  moreover have "new \<noteq> Failed \<Longrightarrow> find_arc i d' = Some (mark_status now new a)"
    using f1 unfolding d' by simp
  ultimately show ?thesis using that by (auto simp: row_evolves_def)
qed

lemma move_Completed: "arc_life.move\<^sup>*\<^sup>* Completed t \<Longrightarrow> t = Completed"
  using arc_life.final_absorbing [of Completed t] by simp

lemma failure_hook_eq: "update_status_with (failure_hook fmt env) = update_status fmt env"
  by (simp add: update_status_def failure_hook_def [abs_def])

lemma status_of_values [simp]:
  "status_of ''completed'' = Some Completed" "status_of ''failed'' = Some Failed"
  "status_of ''waiting'' = Some Waiting" "status_of ''active'' = Some Active"
  "status_of ''escalated'' = Some Escalated"
  by (simp_all add: status_of_def)

text \<open>The decision of \<open>freeze_arc\<close> on an arc and its children.\<close>

definition freeze_target :: "arc \<Rightarrow> arc list \<Rightarrow> arc_status" where
  "freeze_target a cs =
     (if \<forall>c \<in> set cs. astatus c \<in> {Completed, Escalated} then Completed
      else if (\<exists>c \<in> set cs. astatus c = Failed) \<and>
              (\<forall>c \<in> set cs. astatus c \<in> {Completed, Failed, Cancelled, Escalated}) \<and> aagent a \<noteq> SUPERVISOR
      then Failed
      else Waiting)"

lemma freeze_arc_cases:
  assumes "find_arc i d = Some a" "astatus a = Active \<or> astatus a = Waiting"
  shows "freeze_arc h now i d =
    (case freeze_target a (children_rows (arcs d) i) of
       Completed \<Rightarrow> update_status_with h now i ''completed'' ''system'' d
     | Failed \<Rightarrow> update_status_with h now i ''failed'' ''system'' d
     | _ \<Rightarrow> if astatus a = Active then update_status_with h now i ''waiting'' ''system'' d else Inr d)"
proof -
  let ?cs = "children_rows (arcs d) i"
  have s: "get_children i d = [] \<longleftrightarrow> ?cs = []" "set (get_children i d) = set ?cs"
    by (simp_all add: get_children_def) (metis length_0_conv length_sort)
  show ?thesis
    using assms
    by (auto simp: freeze_arc_def get_arc_def Let_def s list_all_iff list_ex_iff freeze_target_def
        FROZEN_STATUSES_def DONE_STATUSES_def)
qed

section \<open>Properties\<close>

definition demo_env :: env where
  "demo_env = \<lparr> env_models = demo_models, env_retry = default_retry_config,
     env_registry = demo_registry, env_health = demo_health, env_tracker = empty_tracker \<rparr>"

text \<open>C18: The lifecycle of an arc. Over any run of the arc engine, an arc never disappears, the
  columns written at its creation (parent, name, integrity, agent, order, policy and the others)
  never change, a completed, cancelled or escalated arc keeps its status, a failed one can only
  become escalated, and the tree stays well-formed.\<close>

theorem arc_lifecycle:
  assumes "(arc_step fmt env)\<^sup>*\<^sup>* d d'" and "wf_tree (arcs d)" and "find_arc i d = Some a"
  shows "wf_tree (arcs d') \<and>
    (\<exists>a'. find_arc i d' = Some a' \<and> same_core a a' \<and>
       (astatus a = Completed \<or> astatus a = Cancelled \<or> astatus a = Escalated \<longrightarrow> astatus a' = astatus a) \<and>
       (astatus a = Failed \<longrightarrow> astatus a' = Failed \<or> astatus a' = Escalated))"
proof -
  have "wf_tree (arcs d')" using arc_run_ev [OF assms(1)] assms(2) by (simp add: evolves_def)
  moreover obtain a' where a': "find_arc i d' = Some a'" "same_core a a'"
    "arc_life.move\<^sup>*\<^sup>* (astatus a) (astatus a')"
    by (rule arc_run_row [OF assms])
  ultimately show ?thesis
    using arc_life.final_absorbing [OF a'(3)] move_failed [OF a'(3)] by auto
qed

theorem arc_lifecycle_witness:
  "\<exists>d' a'. cancel_arc 7 1 ''user'' demo_tree = (3, d') \<and> find_arc 3 d' = Some a' \<and> astatus a' = Completed"
proof -
  obtain d' where c: "cancel_arc 7 1 ''user'' demo_tree = (3, d')"
    by (simp add: cancel_arc_def cascade_cancel_def next_rowid_def children_rows_def demo_tree_def
        live_status_def move_arc_def set_arc_def log_history_def upd_row_def mark_status_def eval_nat_numeral)
  have s: "(arc_step (\<lambda>j. []) demo_env)\<^sup>*\<^sup>* demo_tree d'"
    using st_cancel [OF c] by (rule r_into_rtranclp [where r = "arc_step (\<lambda>j. []) demo_env"])
  have f: "find_arc 3 demo_tree = Some ((blank_arc 3)\<lparr> parent_id := Some 1, astatus := Completed \<rparr>)"
    by (simp add: demo_tree_def)
  from arc_lifecycle [OF s demo_tree_wf f] c show ?thesis by auto
qed

text \<open>Which updates are accepted. \<open>update_status\<close> succeeds exactly if the status is known, the
  arc exists and the table of transitions has the edge from the arc's status; every other request
  raises, and then nothing changes.\<close>

theorem update_status_accepts:
  "(\<exists>d'. update_status fmt env now i s actor d = Inr d') \<longleftrightarrow>
     (\<exists>new a. status_of s = Some new \<and> find_arc i d = Some a \<and> new \<in> TRANSITIONS (astatus a))"
  by (auto simp: update_status_def update_status_with_def transition_def Let_def
      split: option.splits sum.splits if_splits)

text \<open>What freezing decides. Freezing an active or waiting arc always succeeds. The arc
  completes if every child is completed or escalated (also with no child); it fails if some child
  failed, all children have ended and it is no SUPERVISOR (and its failure may escalate it at
  once); in every other case it is waiting.\<close>

theorem freeze_arc_decides:
  assumes wf: "wf_tree (arcs d)" and a: "find_arc i d = Some a"
    and act: "astatus a = Active \<or> astatus a = Waiting"
  shows "\<exists>d' a'. freeze_arc (failure_hook fmt env) now i d = Inr d' \<and> find_arc i d' = Some a' \<and>
    (let t = freeze_target a (children_rows (arcs d) i)
     in astatus a' = t \<or> (t = Failed \<and> astatus a' = Escalated))"
proof -
  let ?t = "freeze_target a (children_rows (arcs d) i)"
  have ok: "\<exists>d' a'. update_status fmt env now i s ''system'' d = Inr d' \<and> find_arc i d' = Some a' \<and>
      (astatus a' = new \<or> (new = Failed \<and> astatus a' = Escalated))"
    if s: "status_of s = Some new" "new \<in> TRANSITIONS (astatus a)" "new \<noteq> Cancelled" for s new
  proof -
    obtain d' where u: "update_status fmt env now i s ''system'' d = Inr d'"
      using update_status_accepts [of fmt env now i s "''system''" d] s a by auto
    obtain a' where a': "find_arc i d' = Some a'" "arc_life.move\<^sup>*\<^sup>* new (astatus a')"
      "new \<noteq> Failed \<Longrightarrow> astatus a' = new"
      by (rule update_status_row [OF u wf s(1,3)]) blast
    then show ?thesis using u move_failed [OF a'(2)] by (cases "new = Failed") auto
  qed
  have tc: "?t = Completed \<or> ?t = Failed \<or> ?t = Waiting" by (simp add: freeze_target_def)
  show ?thesis
    using tc ok [of "''completed''" Completed] ok [of "''failed''" Failed] ok [of "''waiting''" Waiting] act a
    by (auto simp: freeze_arc_cases [OF a act] failure_hook_eq Let_def)
qed

theorem freeze_arc_decides_witness:
  "\<exists>d' a'. freeze_arc (failure_hook (\<lambda>j. []) demo_env) 7 2 demo_tree = Inr d' \<and>
     find_arc 2 d' = Some a' \<and> astatus a' = Completed"
proof -
  have a: "find_arc 2 demo_tree = Some ((blank_arc 2)\<lparr> parent_id := Some 1, astatus := Active \<rparr>)"
    by (simp add: demo_tree_def)
  have "freeze_target x (children_rows (arcs demo_tree) 2) = Completed" for x
    by (simp add: freeze_target_def children_rows_def demo_tree_def)
  then show ?thesis
    using freeze_arc_decides [OF demo_tree_wf a, of "\<lambda>j. []" demo_env 7] by simp
qed

end
