(* ===== verification/Review_Manager.thy ===== *)
theory Review_Manager
  imports Arc_Lifecycle
begin

text \<open>
  Reviews of untrusted arcs (\<open>core/workflows/review_manager.py\<close>): review arcs, verdicts, and the
  promotion of an arc to trusted by a JUDGE. The gate of the resource tool that flips a verdict
  (\<open>tool_backends/resource.py\<close>) is here as well.

  Verdicts are entries of the target's history, read back as the JSON the platform wrote. An
  operation commits in several steps, so its outcome is an \<open>act\<close>.
\<close>

section \<open>Operations\<close>

definition review_args :: "string \<Rightarrow> string option \<Rightarrow> int \<Rightarrow> int option \<Rightarrow> create_args" where
  "review_args nm g t p =
     (default_args nm)\<lparr> ca_goal := Some (if truthy_str g then the g
          else ''Review output of arc #'' @ show_int t), ca_parent := p,
        ca_integrity := ''trusted'', ca_agent := ''REVIEWER'' \<rparr>"

definition create_review_arc :: "env \<Rightarrow> time \<Rightarrow> int \<Rightarrow> string \<Rightarrow> string option \<Rightarrow> db \<Rightarrow> int act" where
  "create_review_arc env now t nm g d =
     (case get_arc t d of
        None \<Rightarrow> (Inl (ValueError ''Target arc not found''), d)
      | Some a \<Rightarrow>
          (case create_arc env now (review_args nm g t (parent_id a)) d of
             Inl e \<Rightarrow> (Inl e, d)
           | Inr (r, d1) \<Rightarrow>
               (case insert_state now r ''_review_target'' (Parsed (JInt t)) d1 of
                  Inl e \<Rightarrow> (Inl e, d1)
                | Inr d2 \<Rightarrow>
                    (Inr r, snd (log_trust_event now (Some t) ''review_arc_created''
                       (Some [(''review_arc_id'', JInt r), (''reviewer_name'', JStr nm)]) d2)))))"

definition is_judge :: "int \<Rightarrow> db \<Rightarrow> bool" where
  "is_judge r d = (case find_arc r d of None \<Rightarrow> False | Some a \<Rightarrow> aagent a = JUDGE)"

text \<open>The id under \<open>_review_target_resource_id\<close>; a bool is an int in Python.\<close>

definition review_target_resource_id :: "int \<Rightarrow> db \<Rightarrow> int option" where
  "review_target_resource_id r d =
     (case state_cell r ''_review_target_resource_id'' d of
        Some (Parsed (JInt i)) \<Rightarrow> Some i
      | Some (Parsed (JBool b)) \<Rightarrow> Some (if b then 1 else 0)
      | _ \<Rightarrow> None)"

definition apply_resource_verdict :: "int \<Rightarrow> string \<Rightarrow> db \<Rightarrow> db" where
  "apply_resource_verdict r decision d =
     (if \<not> is_judge r d then d
      else case review_target_resource_id r d of
          None \<Rightarrow> d
        | Some i \<Rightarrow>
            (case mark_template_verdict i (if decision = ''approve'' then ''approved'' else ''rejected'') d of
               Inl _ \<Rightarrow> d | Inr d' \<Rightarrow> d'))"

definition get_verdicts :: "int \<Rightarrow> db \<Rightarrow> json list" where
  "get_verdicts t d = map h_content (filter (\<lambda>h. entry_type h = ''review_verdict'') (get_history t d))"

text \<open>\<open>v[k]\<close> on a loaded JSON value.\<close>

definition json_item :: "json \<Rightarrow> string \<Rightarrow> exn + json" where
  "json_item v k =
     (case v of
        JObj c \<Rightarrow> (case jget c k of None \<Rightarrow> Inl (KeyError k) | Some x \<Rightarrow> Inr x)
      | _ \<Rightarrow> Inl (TypeError ''not subscriptable''))"

definition from_judge :: "json \<Rightarrow> db \<Rightarrow> exn + bool" where
  "from_judge v d =
     xbind (json_item v ''reviewer_arc_id'') (\<lambda>r. Inr (case r of JInt i \<Rightarrow> is_judge i d | _ \<Rightarrow> False))"

fun first_judge :: "json list \<Rightarrow> db \<Rightarrow> exn + json option" where
  "first_judge [] d = Inr None"
| "first_judge (v # vs) d = xbind (from_judge v d) (\<lambda>b. if b then Inr (Some v) else first_judge vs d)"

definition set_trusted :: "time \<Rightarrow> arc \<Rightarrow> arc" where
  "set_trusted now a = a\<lparr> ainteg := TRUSTED, aupdated_at := Some now \<rparr>"

definition record_promotion :: "time \<Rightarrow> int \<Rightarrow> json \<Rightarrow> json \<Rightarrow> db \<Rightarrow> db" where
  "record_promotion now t decision q d =
     (let d1 = snd (log_trust_event now (Some t) ''trust_promoted''
                 (Some [(''judge_verdict'', decision), (''judge_arc_id'', q)]) d)
      in d1\<lparr> events := snd (record_event now ''trust.promoted''
               [(''arc_id'', JInt t), (''judge_arc_id'', q)] (Some ''review_manager'') 0 None (events d1)) \<rparr>)"

definition check_and_promote :: "time \<Rightarrow> int \<Rightarrow> db \<Rightarrow> bool act" where
  "check_and_promote now t d =
     (case first_judge (get_verdicts t d) d of
        Inl e \<Rightarrow> (Inl e, d)
      | Inr None \<Rightarrow> (Inr False, d)
      | Inr (Some v) \<Rightarrow>
          (case (json_item v ''decision'', json_item v ''reviewer_arc_id'') of
             (Inr dec, Inr q) \<Rightarrow>
               if dec = JStr ''reject'' then (Inr False, d)
               else
                 let d1 = (if dec = JStr ''approve'' then set_arc t (set_trusted now) d else d)
                 in (Inr True, record_promotion now t dec q d1)
           | (Inl e, _) \<Rightarrow> (Inl e, d)
           | (_, Inl e) \<Rightarrow> (Inl e, d)))"

text \<open>A status update whose \<open>ValueError\<close> is ignored.\<close>

definition try_status :: "(json \<Rightarrow> string) \<Rightarrow> env \<Rightarrow> time \<Rightarrow> int \<Rightarrow> string \<Rightarrow> db \<Rightarrow> exn + db" where
  "try_status fmt env now t s d =
     (case update_status fmt env now t s ''system'' d of
        Inr d' \<Rightarrow> Inr d'
      | Inl e \<Rightarrow> if is_value_error e then Inr d else Inl e)"

definition fail_open_target :: "(json \<Rightarrow> string) \<Rightarrow> env \<Rightarrow> time \<Rightarrow> int \<Rightarrow> db \<Rightarrow> unit act" where
  "fail_open_target fmt env now t d =
     (case get_arc t d of
        None \<Rightarrow> (Inr (), d)
      | Some a \<Rightarrow>
          if astatus a \<in> FROZEN_STATUSES then (Inr (), d)
          else
            (case try_status fmt env now t ''active'' d of
               Inl e \<Rightarrow> (Inl e, d)
             | Inr d1 \<Rightarrow>
                 (case try_status fmt env now t ''failed'' d1 of
                    Inl e \<Rightarrow> (Inl e, d1) | Inr d2 \<Rightarrow> (Inr (), d2))))"

definition handle_rejection ::
    "(json \<Rightarrow> string) \<Rightarrow> env \<Rightarrow> time \<Rightarrow> int \<Rightarrow> int \<Rightarrow> string \<Rightarrow> db \<Rightarrow> unit act" where
  "handle_rejection fmt env now t r reason d =
     (if \<not> is_judge r d then (Inr (), d)
      else case fail_open_target fmt env now t d of
          (Inl e, d1) \<Rightarrow> (Inl e, d1)
        | (Inr _, d1) \<Rightarrow>
            (case add_history now t ''escalation''
                    (JObj [(''reason'', JStr ''Judge rejected''), (''judge_arc_id'', JInt r),
                           (''rejection_reason'', JStr reason)]) None ''system'' d1 of
               Inl e \<Rightarrow> (Inl e, d1) | Inr (_, d2) \<Rightarrow> (Inr (), d2)))"

definition verdict_content :: "int \<Rightarrow> string \<Rightarrow> string \<Rightarrow> jdict" where
  "verdict_content r decision reason =
     [(''reviewer_arc_id'', JInt r), (''decision'', JStr decision), (''reason'', JStr reason)]"

text \<open>The recording of the verdict, before its effect.\<close>

definition record_verdict :: "time \<Rightarrow> int \<Rightarrow> int \<Rightarrow> string \<Rightarrow> string \<Rightarrow> db \<Rightarrow> exn + db" where
  "record_verdict now r t decision reason d =
     (case add_history now t ''review_verdict'' (JObj (verdict_content r decision reason)) None ''system'' d of
        Inl e \<Rightarrow> Inl e
      | Inr (_, d1) \<Rightarrow>
          Inr (apply_resource_verdict r decision
            (snd (log_trust_event now (Some t) ''review_verdict''
               (Some (verdict_content r decision reason)) d1))))"

definition designated :: "int \<Rightarrow> int \<Rightarrow> db \<Rightarrow> bool" where
  "designated r t d =
     (case state_cell r ''_review_target'' d of Some (Parsed v) \<Rightarrow> json_eq v (JInt t) | _ \<Rightarrow> False)"

definition submit_verdict ::
    "(json \<Rightarrow> string) \<Rightarrow> env \<Rightarrow> time \<Rightarrow> int \<Rightarrow> int \<Rightarrow> string \<Rightarrow> string \<Rightarrow> db \<Rightarrow> bool act" where
  "submit_verdict fmt env now r t decision reason d =
     (if decision \<noteq> ''approve'' \<and> decision \<noteq> ''reject'' then (Inl (ValueError ''Invalid decision''), d)
      else if \<not> designated r t d then (Inl (ValueError ''not a designated reviewer''), d)
      else
        (case record_verdict now r t decision reason d of
           Inl e \<Rightarrow> (Inl e, d)
         | Inr d1 \<Rightarrow>
             if decision = ''approve'' then check_and_promote now t d1
             else (case handle_rejection fmt env now t r reason d1 of
                     (Inl e, d2) \<Rightarrow> (Inl e, d2) | (Inr _, d2) \<Rightarrow> (Inr False, d2))))"

text \<open>The resource tool: only a JUDGE arc may flip a verdict.\<close>

definition resource_submit_verdict :: "int option \<Rightarrow> int option \<Rightarrow> string \<Rightarrow> db \<Rightarrow> exn + db" where
  "resource_submit_verdict caller i ver d =
     (if \<not> (case caller of None \<Rightarrow> False | Some r \<Rightarrow> is_judge r d)
      then Inl (PermissionError ''requires JUDGE agent_type'')
      else case i of
          None \<Rightarrow> Inl (ValueError ''requires resource_id'')
        | Some j \<Rightarrow>
            if ver \<noteq> ''approved'' \<and> ver \<noteq> ''rejected'' then Inl (ValueError ''requires verdict'')
            else mark_template_verdict j ver d)"

section \<open>Facts\<close>

lemma apply_resource_frame [simp]:
  "arcs (apply_resource_verdict r dec d) = arcs d" "history (apply_resource_verdict r dec d) = history d"
  by (auto simp: apply_resource_verdict_def mark_template_verdict_def set_resource_def Let_def
      split: option.splits sum.splits if_splits)

lemma log_trust_history [simp]: "history (snd (log_trust_event now a ty ds d)) = history d"
  by (simp add: log_trust_event_def Let_def)

lemma set_trusted_sel [simp]: "aid (set_trusted now a) = aid a" "ainteg (set_trusted now a) = TRUSTED"
  "parent_id (set_trusted now a) = parent_id a"
  by (simp_all add: set_trusted_def)

lemma is_judge_cong: "arcs d' = arcs d \<Longrightarrow> is_judge r d' = is_judge r d"
  by (simp add: is_judge_def)

lemma from_judge_cong: "arcs d' = arcs d \<Longrightarrow> from_judge v d' = from_judge v d"
  by (auto simp: from_judge_def xbind_def is_judge_cong [of d' d] split: sum.splits json.splits)

lemma first_judge_cong: "arcs d' = arcs d \<Longrightarrow> first_judge vs d' = first_judge vs d"
  by (induction vs) (auto simp: xbind_def from_judge_cong [of d' d] split: sum.splits)

lemma get_verdicts_cong: "history d' = history d \<Longrightarrow> get_verdicts t d' = get_verdicts t d"
  by (simp add: get_verdicts_def get_history_def)

lemma first_judge_Some:
  "first_judge vs d = Inr (Some v) \<Longrightarrow>
     v \<in> set vs \<and> (\<exists>q. json_item v ''reviewer_arc_id'' = Inr (JInt q) \<and> is_judge q d)"
proof (induction vs)
  case (Cons u vs)
  then obtain b where b: "from_judge u d = Inr b"
    by (auto simp: xbind_Inr)
  show ?case
  proof (cases b)
    case True
    then obtain x where "json_item u ''reviewer_arc_id'' = Inr x" "case x of JInt i \<Rightarrow> is_judge i d | _ \<Rightarrow> False"
      using b by (auto simp: from_judge_def xbind_Inr)
    then show ?thesis using Cons.prems b True by (cases x) (auto simp: xbind_def)
  next
    case False
    then show ?thesis using Cons b by (auto simp: xbind_def)
  qed
qed simp

lemma record_verdictD:
  "record_verdict now r t dec reason d = Inr d1 \<Longrightarrow> arcs d1 = arcs d \<and>
     history d1 = history d @ [history_entry now t ''review_verdict''
        (JObj (verdict_content r dec reason)) None (Some ''system'') (history d)]"
  by (auto simp: record_verdict_def add_history_def log_history_def split: if_splits)

lemma record_promotion_frame [simp]:
  "arcs (record_promotion now t dec q d) = arcs d" "history (record_promotion now t dec q d) = history d"
  by (simp_all add: record_promotion_def Let_def)

lemma check_and_promote_cases:
  assumes "check_and_promote now t d = (x, d')"
  shows "(arcs d' = arcs d \<and> (x = Inr True \<longrightarrow> (\<exists>v. first_judge (get_verdicts t d) d = Inr (Some v) \<and>
            json_item v ''decision'' \<noteq> Inr (JStr ''reject''))))
    \<or> (\<exists>v. first_judge (get_verdicts t d) d = Inr (Some v) \<and> json_item v ''decision'' = Inr (JStr ''approve'') \<and>
          x = Inr True \<and> arcs d' = upd_row aid t (set_trusted now) (arcs d) \<and> history d' = history d)"
  using assms unfolding check_and_promote_def
  by (auto simp: Let_def set_arc_def split: sum.splits option.splits prod.splits if_splits)

lemma try_status_ev: "try_status fmt env now t s d = Inr d' \<Longrightarrow> ev d d'"
  by (auto simp: try_status_def split: sum.splits if_splits dest: ev_update_status)

lemma fail_target_ev: "fail_open_target fmt env now t d = (x, d') \<Longrightarrow> ev d d'"
  unfolding fail_open_target_def
  by (auto split: option.splits if_splits sum.splits dest!: try_status_ev intro: evolves_trans)

lemma handle_rejection_ev: "handle_rejection fmt env now t r reason d = (x, d') \<Longrightarrow> ev d d'"
  unfolding handle_rejection_def
  by (auto split: if_splits sum.splits prod.splits dest!: fail_target_ev dest: add_history_frame)

lemma ev_integrity:
  "ev d d' \<Longrightarrow> wf_tree (arcs d) \<Longrightarrow> find_arc j d = Some a \<Longrightarrow> find_arc j d' = Some a' \<Longrightarrow> ainteg a' = ainteg a"
  unfolding evolves_def row_evolves_def by (metis option.inject same_core_sel(3))

text \<open>A verdict leaves the arcs to their lifecycle, or it promotes the target.\<close>

lemma submit_verdict_cases:
  assumes sub: "submit_verdict fmt env now r t dec reason d = (x, d')"
  obtains "ev d d'"
  | v where "dec = ''approve''" "x = Inr True" "first_judge (get_verdicts t d') d = Inr (Some v)"
      "json_item v ''decision'' = Inr (JStr ''approve'')" "arcs d' = upd_row aid t (set_trusted now) (arcs d)"
proof (cases "\<exists>d1. record_verdict now r t dec reason d = Inr d1 \<and> dec = ''approve'' \<and> designated r t d")
  case True
  then obtain d1 where d1: "record_verdict now r t dec reason d = Inr d1" "dec = ''approve''" "designated r t d"
    by blast
  note fr = record_verdictD [OF d1(1)]
  have c: "check_and_promote now t d1 = (x, d')"
    using sub d1 by (simp add: submit_verdict_def)
  from check_and_promote_cases [OF c] show ?thesis
  proof (elim disjE exE conjE)
    assume "arcs d' = arcs d1"
    then show ?thesis using that(1) fr by simp
  next
    fix v
    assume v: "first_judge (get_verdicts t d1) d1 = Inr (Some v)" "json_item v ''decision'' = Inr (JStr ''approve'')"
      "x = Inr True" "arcs d' = upd_row aid t (set_trusted now) (arcs d1)" "history d' = history d1"
    have "first_judge (get_verdicts t d') d = Inr (Some v)"
      using v(1,5) fr by (metis first_judge_cong get_verdicts_cong)
    then show ?thesis using that(2) d1(2) v fr by simp
  qed
next
  case False
  then have "ev d d'"
    using sub by (auto simp: submit_verdict_def split: if_splits sum.splits prod.splits
        dest!: record_verdictD handle_rejection_ev)
  then show ?thesis by (rule that(1))
qed

section \<open>Properties\<close>

text \<open>C2: Only a JUDGE promotes an arc. If an arc that was not trusted is trusted after a verdict,
  then it is the target of that verdict, the verdict approves, and the history of the target holds
  an approving verdict of an arc whose agent type is JUDGE, the first one any JUDGE gave.\<close>

theorem promotion_needs_judge:
  assumes sub: "submit_verdict fmt env now r t dec reason d = (x, d')" and wf: "wf_tree (arcs d)"
    and a: "find_arc j d = Some a" "ainteg a \<noteq> TRUSTED" and a': "find_arc j d' = Some a'" "ainteg a' = TRUSTED"
  shows "j = t \<and> dec = ''approve'' \<and> x = Inr True \<and>
    (\<exists>v q. first_judge (get_verdicts t d') d = Inr (Some v) \<and> v \<in> set (get_verdicts t d') \<and>
       json_item v ''reviewer_arc_id'' = Inr (JInt q) \<and> is_judge q d \<and>
       json_item v ''decision'' = Inr (JStr ''approve''))"
  using sub
proof (cases rule: submit_verdict_cases)
  case 1
  then show ?thesis using ev_integrity [OF _ wf a(1) a'(1)] a(2) a'(2) by simp
next
  case (2 v)
  have "j = t" using 2(5) a a' by (auto simp: find_row_upd_row split: if_splits)
  then show ?thesis using 2 first_judge_Some [OF 2(3)] by auto
qed

definition demo_review :: db where
  "demo_review = empty_db\<lparr> arcs := [(blank_arc 1)\<lparr> ainteg := UNTRUSTED, astatus := Completed \<rparr>,
       (blank_arc 2)\<lparr> aagent := JUDGE \<rparr>, (blank_arc 3)\<lparr> aagent := JUDGE \<rparr>],
     state := [\<lparr> sid = 1, s_arc = 2, s_key = ''_review_target'', s_value = Parsed (JInt 1), s_updated_at = 0 \<rparr>,
       \<lparr> sid = 2, s_arc = 3, s_key = ''_review_target'', s_value = Parsed (JInt 1), s_updated_at = 0 \<rparr>] \<rparr>"

lemma demo_approve:
  "\<exists>d'. submit_verdict (\<lambda>j. []) demo_env 5 2 1 ''approve'' ''ok'' demo_review = (Inr True, d') \<and>
     find_arc 1 d' = Some (set_trusted 5 ((blank_arc 1)\<lparr> ainteg := UNTRUSTED, astatus := Completed \<rparr>))"
  by (simp add: submit_verdict_def demo_review_def designated_def state_cell_def record_verdict_def
      add_history_def arc_exists_def apply_resource_verdict_def is_judge_def review_target_resource_id_def
      check_and_promote_def get_verdicts_def get_history_def log_history_def history_entry_def empty_db_def
      log_trust_event_def verdict_content_def from_judge_def json_item_def jget_def xbind_def Let_def
      record_promotion_def record_event_def set_arc_def find_row_upd_row set_trusted_def)

theorem promotion_needs_judge_witness:
  "\<exists>d' v. submit_verdict (\<lambda>j. []) demo_env 5 2 1 ''approve'' ''ok'' demo_review = (Inr True, d') \<and>
     v \<in> set (get_verdicts 1 d') \<and> json_item v ''decision'' = Inr (JStr ''approve'')"
proof -
  obtain d' where d': "submit_verdict (\<lambda>j. []) demo_env 5 2 1 ''approve'' ''ok'' demo_review = (Inr True, d')"
    "find_arc 1 d' = Some (set_trusted 5 ((blank_arc 1)\<lparr> ainteg := UNTRUSTED, astatus := Completed \<rparr>))"
    using demo_approve by blast
  have w: "wf_tree (arcs demo_review)"
    by (simp add: demo_review_def wf_tree_def wf_ids_def blank_arc_def)
  have f: "find_arc 1 demo_review = Some ((blank_arc 1)\<lparr> ainteg := UNTRUSTED, astatus := Completed \<rparr>)"
    by (simp add: demo_review_def blank_arc_def)
  obtain v where "v \<in> set (get_verdicts 1 d')" "json_item v ''decision'' = Inr (JStr ''approve'')"
    using promotion_needs_judge [OF d'(1) w f _ d'(2)] by (auto simp: set_trusted_def)
  then show ?thesis using d'(1) by blast
qed

lemma filter_sort_key: "filter (\<lambda>x. k = f x) (sort_key f xs) = filter (\<lambda>x. k = f x) xs"
  using sort_key_stable [of f k xs] by (simp only: eq_commute [of k])

lemma sort_key_snoc:
  "\<forall>y \<in> set xs. f y \<le> f (x :: 'a) \<Longrightarrow> sort_key (f :: 'a \<Rightarrow> int) (xs @ [x]) = sort_key f xs @ [x]"
  by (rule properties_for_sort_key)
     (auto simp: sorted_append filter_sort_key)

lemma first_judge_append:
  "first_judge vs d = Inr (Some v) \<Longrightarrow> first_judge (vs @ ws) d = Inr (Some v)"
proof (induction vs)
  case (Cons u vs)
  then show ?case by (cases "from_judge u d") (auto simp: xbind_def split: if_splits)
qed simp

text \<open>The first JUDGE verdict is final. Once the first verdict a JUDGE gave on an arc is a
  rejection, no later verdict of any reviewer, whatever it says, promotes that arc, provided the
  clock does not go back.\<close>

theorem judge_rejection_final:
  assumes sub: "submit_verdict fmt env now r t dec reason d = (x, d')" and wf: "wf_tree (arcs d)"
    and rej: "first_judge (get_verdicts t d) d = Inr (Some v)" "json_item v ''decision'' = Inr (JStr ''reject'')"
    and clock: "\<forall>h \<in> set (history d). h_created_at h \<le> cur_ts now"
    and a: "find_arc j d = Some a" "find_arc j d' = Some a'"
  shows "x \<noteq> Inr True \<and> ainteg a' = ainteg a"
proof (cases "\<exists>d1. record_verdict now r t dec reason d = Inr d1 \<and> dec = ''approve'' \<and> designated r t d")
  case True
  then obtain d1 where d1: "record_verdict now r t dec reason d = Inr d1" "dec = ''approve''" "designated r t d"
    by blast
  note fr = record_verdictD [OF d1(1)]
  have "get_verdicts t d1 = get_verdicts t d @ [JObj (verdict_content r dec reason)]"
    using fr clock by (simp add: get_verdicts_def get_history_def history_entry_def sort_key_snoc)
  then have f: "first_judge (get_verdicts t d1) d1 = Inr (Some v)"
    using first_judge_append [OF rej(1)] fr first_judge_cong by metis
  have c: "check_and_promote now t d1 = (x, d')"
    using sub d1 by (simp add: submit_verdict_def)
  have "x \<noteq> Inr True" "arcs d' = arcs d"
    using check_and_promote_cases [OF c] f rej(2) fr by auto
  then show ?thesis using a by simp
next
  case False
  then have "x \<noteq> Inr True \<and> ev d d'"
    using sub by (auto simp: submit_verdict_def split: if_splits sum.splits prod.splits
        dest!: record_verdictD handle_rejection_ev)
  then show ?thesis using ev_integrity [OF _ wf a] by simp
qed

theorem judge_rejection_final_witness:
  "\<exists>d1 x d'. submit_verdict (\<lambda>j. []) demo_env 5 2 1 ''reject'' ''no'' demo_review = (Inr False, d1) \<and>
     submit_verdict (\<lambda>j. []) demo_env 6 3 1 ''approve'' ''ok'' d1 = (x, d') \<and> x \<noteq> Inr True"
proof -
  obtain d1 where d1: "submit_verdict (\<lambda>j. []) demo_env 5 2 1 ''reject'' ''no'' demo_review = (Inr False, d1)"
    "wf_tree (arcs d1)" "\<forall>h \<in> set (history d1). h_created_at h \<le> cur_ts 6"
    "first_judge (get_verdicts 1 d1) d1 = Inr (Some (JObj (verdict_content 2 ''reject'' ''no'')))"
    "find_arc 1 d1 \<noteq> None"
    by (simp add: submit_verdict_def demo_review_def designated_def state_cell_def record_verdict_def
      add_history_def arc_exists_def apply_resource_verdict_def is_judge_def review_target_resource_id_def
      handle_rejection_def fail_open_target_def get_arc_def FROZEN_STATUSES_def
      get_verdicts_def get_history_def log_history_def history_entry_def empty_db_def
      log_trust_event_def verdict_content_def from_judge_def json_item_def jget_def xbind_def Let_def
      wf_tree_def wf_ids_def blank_arc_def cur_ts_def)
  obtain x d' where s: "submit_verdict (\<lambda>j. []) demo_env 6 3 1 ''approve'' ''ok'' d1 = (x, d')" by fastforce
  obtain a where a: "find_arc 1 d1 = Some a" using d1(5) by blast
  have "json_item (JObj (verdict_content 2 ''reject'' ''no'')) ''decision'' = Inr (JStr ''reject'')"
    by (simp add: json_item_def verdict_content_def jget_def)
  moreover obtain a' where "find_arc 1 d' = Some a'"
    using s a by (auto simp: submit_verdict_def find_row_upd_row set_trusted_def
        split: if_splits sum.splits prod.splits dest!: record_verdictD check_and_promote_cases)
  ultimately have "x \<noteq> Inr True"
    using judge_rejection_final [OF s d1(2,4) _ d1(3) a] by blast
  then show ?thesis using d1(1) s by blast
qed

end
