(* ===== verification/Py_Text.thy ===== *)
theory Py_Text
  imports Prelude
begin

text \<open>
  The string methods of Python that the platform uses, on strings of code points below 256:
  \<open>strip\<close>, \<open>rstrip\<close>, \<open>lower\<close>, \<open>startswith\<close>, \<open>endswith\<close>, \<open>split\<close>, \<open>in\<close>, \<open>isdigit\<close>, \<open>int()\<close>; and the coercions of numbers.
  Parsing a text as a float is a parameter.
\<close>

definition is_space :: "char \<Rightarrow> bool" where
  "is_space c = (let n = (of_char c :: nat) in
     (9 \<le> n \<and> n \<le> 13) \<or> (28 \<le> n \<and> n \<le> 32) \<or> n = 133 \<or> n = 160)"

definition rstrip_by :: "(char \<Rightarrow> bool) \<Rightarrow> string \<Rightarrow> string" where
  "rstrip_by P s = rev (dropWhile P (rev s))"

definition strip :: "string \<Rightarrow> string" where
  "strip s = rstrip_by is_space (dropWhile is_space s)"

definition rstrip_dots :: "string \<Rightarrow> string" where
  "rstrip_dots s = rstrip_by (\<lambda>c. c = CHR ''.'') s"

definition lower_char :: "char \<Rightarrow> char" where
  "lower_char c = (let n = (of_char c :: nat) in
     if (65 \<le> n \<and> n \<le> 90) \<or> (192 \<le> n \<and> n \<le> 222 \<and> n \<noteq> 215) then char_of (n + 32) else c)"

definition lower :: "string \<Rightarrow> string" where
  "lower s = map lower_char s"

definition ends_with :: "string \<Rightarrow> string \<Rightarrow> bool" where
  "ends_with s p = (\<exists>n \<le> length s. drop n s = p)"

lemma ends_with_code [code, simp]: "ends_with s p = (length p \<le> length s \<and> drop (length s - length p) s = p)"
proof
  assume "ends_with s p"
  then obtain n where "n \<le> length s" "drop n s = p" by (auto simp: ends_with_def)
  moreover from this have "n = length s - length p" "length p \<le> length s" by auto
  ultimately show "length p \<le> length s \<and> drop (length s - length p) s = p" by simp
next
  assume "length p \<le> length s \<and> drop (length s - length p) s = p"
  then show "ends_with s p" unfolding ends_with_def by (intro exI [where x = "length s - length p"]) simp
qed

text \<open>\<open>p in s\<close>.\<close>

fun contains :: "string \<Rightarrow> string \<Rightarrow> bool" where
  "contains [] p = (p = [])"
| "contains (x # xs) p = (starts_with (x # xs) p \<or> contains xs p)"

text \<open>\<open>s.split(c)\<close>, and \<open>s.split(c, 1)\<close> as the pair of what comes before and after.\<close>

fun split_at :: "char \<Rightarrow> string \<Rightarrow> string list" where
  "split_at c [] = [[]]"
| "split_at c (x # xs) =
     (if x = c then [] # split_at c xs
      else case split_at c xs of [] \<Rightarrow> [[x]] | w # ws \<Rightarrow> (x # w) # ws)"

definition before :: "char \<Rightarrow> string \<Rightarrow> string" where
  "before c s = takeWhile (\<lambda>x. x \<noteq> c) s"

definition after :: "char \<Rightarrow> string \<Rightarrow> string" where
  "after c s = tl (dropWhile (\<lambda>x. x \<noteq> c) s)"

definition ascii_digit :: "char \<Rightarrow> bool" where
  "ascii_digit c = (let n = (of_char c :: nat) in 48 \<le> n \<and> n \<le> 57)"

text \<open>\<open>str.isdigit\<close> also accepts the superscripts of Latin-1, which \<open>int()\<close> then refuses.\<close>

definition isdigit :: "string \<Rightarrow> bool" where
  "isdigit s = (s \<noteq> [] \<and> list_all (\<lambda>c. ascii_digit c \<or> (of_char c :: nat) \<in> {178, 179, 185}) s)"

text \<open>Digits with single underscores between them; the flag says that an underscore may follow.\<close>

fun digits_val :: "bool \<Rightarrow> int \<Rightarrow> string \<Rightarrow> int option" where
  "digits_val ok n [] = (if ok then Some n else None)"
| "digits_val ok n (c # cs) =
     (if ascii_digit c then digits_val True (10 * n + int (of_char c - 48)) cs
      else if c = CHR ''_'' \<and> ok then digits_val False n cs
      else None)"

definition py_int_of_string :: "string \<Rightarrow> int option" where
  "py_int_of_string s =
     (case strip s of
        [] \<Rightarrow> None
      | c # cs \<Rightarrow>
          if c = CHR ''-'' then map_option uminus (digits_val False 0 cs)
          else if c = CHR ''+'' then digits_val False 0 cs
          else digits_val False 0 (c # cs))"

section \<open>\<open>int()\<close>, \<open>float()\<close> and \<open>round()\<close> of a JSON value\<close>

definition py_int :: "json \<Rightarrow> exn + int" where
  "py_int v =
     (case v of
        JInt i \<Rightarrow> Inr i
      | JBool b \<Rightarrow> Inr (if b then 1 else 0)
      | JNum r \<Rightarrow> Inr (if 0 \<le> r then \<lfloor>r\<rfloor> else \<lceil>r\<rceil>)
      | JStr s \<Rightarrow> (case py_int_of_string s of None \<Rightarrow> Inl (ValueError ''int'') | Some i \<Rightarrow> Inr i)
      | _ \<Rightarrow> Inl (TypeError ''int''))"

definition py_float :: "(string \<Rightarrow> rat option) \<Rightarrow> json \<Rightarrow> exn + rat" where
  "py_float fl v =
     (case v of
        JInt i \<Rightarrow> Inr (of_int i)
      | JBool b \<Rightarrow> Inr (if b then 1 else 0)
      | JNum r \<Rightarrow> Inr r
      | JStr s \<Rightarrow> (case fl s of None \<Rightarrow> Inl (ValueError ''float'') | Some r \<Rightarrow> Inr r)
      | _ \<Rightarrow> Inl (TypeError ''float''))"

text \<open>\<open>round(x, n)\<close>: half to even.\<close>

definition round_dp :: "nat \<Rightarrow> rat \<Rightarrow> rat" where
  "round_dp n r =
     (let x = r * 10 ^ n; f = \<lfloor>x\<rfloor>; d = x - of_int f;
          k = (if d < 1/2 \<or> (d = 1/2 \<and> even f) then f else f + 1)
      in of_int k / 10 ^ n)"

text \<open>The em dash of some messages, as its UTF-8 bytes; \<open>s[:n]\<close>.\<close>

definition em_dash :: string where
  "em_dash = [CHR 0xE2, CHR 0x80, CHR 0x94]"

definition py_prefix :: "int \<Rightarrow> string \<Rightarrow> string" where
  "py_prefix n s = (if 0 \<le> n then take (nat n) s else take (length s - nat (- n)) s)"

section \<open>Facts\<close>

lemma contains_iff: "contains s p \<longleftrightarrow> (\<exists>a b. s = a @ p @ b)"
proof (induction s)
  case (Cons x s)
  have "starts_with (x # s) p \<longleftrightarrow> (\<exists>b. x # s = p @ b)"
    by (metis starts_with_def append_eq_conv_conj append_take_drop_id)
  moreover have "(\<exists>a b. x # s = a @ p @ b) \<longleftrightarrow> (\<exists>b. x # s = p @ b) \<or> (\<exists>a b. s = a @ p @ b)"
    by (metis append_Cons append_Nil neq_Nil_conv list.inject)
  ultimately show ?case using Cons.IH by simp
qed auto

lemma before_in_set: "c \<notin> set (before c s)"
  by (auto simp: before_def dest: set_takeWhileD)

lemma split_at_nonempty [simp]: "split_at c s \<noteq> []"
  by (cases s) (auto split: list.splits)

lemma split_at_no: "c \<notin> set s \<Longrightarrow> split_at c s = [s]"
  by (induction s) auto

lemma split_at_append: "c \<notin> set a \<Longrightarrow> split_at c (a @ c # b) = a # split_at c b"
  by (induction a) auto

lemma digit_char [simp]: "n < (10::nat) \<Longrightarrow> ascii_digit (char_of (48 + n))"
  by (simp add: ascii_digit_def Let_def)

lemma digit_char_val [simp]: "n < 10 \<Longrightarrow> of_char (char_of (48 + n) :: char) - 48 = (n :: nat)"
  by simp

lemma digits_val_append:
  "digits_val True m (xs @ [c]) = (case digits_val True m xs of
     None \<Rightarrow> None | Some v \<Rightarrow> if ascii_digit c then Some (10 * v + int (of_char c - 48)) else None)"
  if "list_all ascii_digit xs" using that
  by (induction xs arbitrary: m) auto

lemma digits_of_digits: "list_all ascii_digit (digits_of n)"
  by (induction n rule: digits_of.induct) (subst digits_of.simps, simp)

lemma digits_of_ne [simp]: "digits_of n \<noteq> []"
  by (subst digits_of.simps) simp

lemma digits_val_of: "digits_val True 0 (digits_of n) = Some (int n)"
proof (induction n rule: digits_of.induct)
  case (1 n)
  show ?case
  proof (cases "n < 10")
    case True
    then show ?thesis by (subst digits_of.simps) simp
  next
    case False
    have "10 * int (n div 10) + int (n mod 10) = int n" by presburger
    with False have "digits_val True 0 (digits_of (n div 10) @ [char_of (48 + n mod 10)]) = Some (int n)"
      using 1 by (simp add: digits_val_append digits_of_digits)
    then show ?thesis using False by (subst digits_of.simps) simp
  qed
qed

lemma digits_val_start: "s \<noteq> [] \<Longrightarrow> list_all ascii_digit s \<Longrightarrow> digits_val False m s = digits_val True m s"
  by (cases s) auto

lemma digit_not_space: "ascii_digit c \<Longrightarrow> \<not> is_space c"
  by (auto simp: ascii_digit_def is_space_def Let_def)

lemma rstrip_by_id: "s = [] \<or> \<not> P (last s) \<Longrightarrow> rstrip_by P s = s"
  by (cases s rule: rev_cases) (auto simp: rstrip_by_def)

lemma strip_id: "s = [] \<or> \<not> is_space (hd s) \<and> \<not> is_space (last s) \<Longrightarrow> strip s = s"
  by (cases s) (auto simp: strip_def rstrip_by_id)

lemma strip_show_int [simp]: "strip (show_int i) = show_int i"
proof (rule strip_id)
  have d: "\<not> is_space (hd (digits_of n))" "\<not> is_space (last (digits_of n))" for n
    using digits_of_digits [of n] by (auto simp: list_all_iff intro!: digit_not_space)
  moreover have "\<not> is_space CHR ''-''" by (simp add: is_space_def)
  ultimately show "show_int i = [] \<or> \<not> is_space (hd (show_int i)) \<and> \<not> is_space (last (show_int i))"
    by (simp add: show_int_def)
qed

lemma int_of_show_int [simp]: "py_int_of_string (show_int i) = Some i"
proof (cases "i < 0")
  case True
  then show ?thesis
    using strip_show_int [of i]
    by (simp add: py_int_of_string_def show_int_def digits_val_start digits_of_digits digits_val_of)
next
  case False
  obtain c cs where ds: "digits_of (nat i) = c # cs" by (cases "digits_of (nat i)") auto
  then have "ascii_digit c" using digits_of_digits [of "nat i"] by simp
  then have c: "c \<noteq> CHR ''-''" "c \<noteq> CHR ''+''" by (auto simp: ascii_digit_def)
  have "digits_val False 0 (c # cs) = Some i"
    using digits_val_start [of "c # cs" 0] digits_val_of [of "nat i"] digits_of_digits [of "nat i"] ds False by simp
  then show ?thesis
    using strip_show_int [of i] False ds c by (simp add: py_int_of_string_def show_int_def)
qed

end
