(* ===== verification/Security_Policies.thy ===== *)
theory Security_Policies
  imports Py_Text Event_Bus
begin

text \<open>
  The default-deny allowlists that validate values at trust boundaries
  (\<open>security/policies.py\<close>) and the policy-typed literals of reviewed code
  (\<open>carpenter_tools/policy/types.py\<close>).

  An allowlist is the list of its entries in the iteration order of the Python set. The values are
  JSON values, as the judge takes them from an extract. The regular expression engine is the
  parameter \<open>fm\<close>: \<open>fm p s\<close> is the outcome of \<open>re.fullmatch\<close>, or \<open>None\<close> for a pattern that
  does not compile. How Python prints a value is the parameter \<open>fmt\<close>.
\<close>

section \<open>Allowlists\<close>

definition POLICY_TYPES :: "string list" where
  "POLICY_TYPES = [''email'', ''domain'', ''url'', ''filepath'', ''command'', ''int_range'', ''enum'',
     ''bool'', ''pattern'']"

type_synonym policies = "string \<Rightarrow> string list"

definition SecurityPolicies :: policies where
  "SecurityPolicies = (\<lambda>_. [])"

definition validate_policy_type :: "string \<Rightarrow> exn + unit" where
  "validate_policy_type p =
     (if p \<in> set POLICY_TYPES then Inr () else Inl (ValueError ''Unknown policy type''))"

definition normalize_value :: "string \<Rightarrow> string \<Rightarrow> string" where
  "normalize_value p v =
     (if p = ''email'' \<or> p = ''domain'' then rstrip_dots (lower (strip v)) else v)"

definition add_policy :: "string \<Rightarrow> string \<Rightarrow> policies \<Rightarrow> exn + policies" where
  "add_policy p v pol =
     (case validate_policy_type p of
        Inl e \<Rightarrow> Inl e
      | Inr _ \<Rightarrow> Inr (pol(p := List.insert (normalize_value p v) (pol p))))"

text \<open>\<open>set.discard\<close> raises nothing, so the answer is always true.\<close>

definition remove_policy :: "string \<Rightarrow> string \<Rightarrow> policies \<Rightarrow> exn + (bool \<times> policies)" where
  "remove_policy p v pol =
     (case validate_policy_type p of
        Inl e \<Rightarrow> Inl e
      | Inr _ \<Rightarrow> Inr (True, pol(p := removeAll (normalize_value p v) (pol p))))"

definition get_allowlist :: "string \<Rightarrow> policies \<Rightarrow> exn + string set" where
  "get_allowlist p pol =
     (case validate_policy_type p of Inl e \<Rightarrow> Inl e | Inr _ \<Rightarrow> Inr (set (pol p)))"

definition clear_policies :: "string option \<Rightarrow> policies \<Rightarrow> exn + policies" where
  "clear_policies p pol =
     (case p of
        None \<Rightarrow> Inr (\<lambda>q. if q \<in> set POLICY_TYPES then [] else pol q)
      | Some q \<Rightarrow>
          (case validate_policy_type q of Inl e \<Rightarrow> Inl e | Inr _ \<Rightarrow> Inr (pol(q := []))))"

section \<open>Validation\<close>

definition denied :: "string \<Rightarrow> string \<Rightarrow> exn + bool" where
  "denied p v = Inl (PolicyValidationError (''Value '' @ v @ '' not in '' @ p @ '' allowlist''))"

definition validate_email :: "(json \<Rightarrow> string) \<Rightarrow> json \<Rightarrow> policies \<Rightarrow> exn + bool" where
  "validate_email fmt v pol =
     (case v of
        JStr s \<Rightarrow> if lower (strip s) \<in> set (pol ''email'') then Inr True else denied ''email'' s
      | _ \<Rightarrow> Inl (AttributeError ''strip''))"

definition domain_matches :: "string \<Rightarrow> string \<Rightarrow> bool" where
  "domain_matches allowed s = (s = allowed \<or> ends_with s (''.'' @ allowed))"

definition validate_domain :: "(json \<Rightarrow> string) \<Rightarrow> json \<Rightarrow> policies \<Rightarrow> exn + bool" where
  "validate_domain fmt v pol =
     (case v of
        JStr s \<Rightarrow>
          let n = rstrip_dots (lower (strip s)) in
          if list_ex (\<lambda>a. domain_matches a n) (pol ''domain'') then Inr True else denied ''domain'' s
      | _ \<Rightarrow> Inl (AttributeError ''strip''))"

definition validate_prefix :: "string \<Rightarrow> (json \<Rightarrow> string) \<Rightarrow> json \<Rightarrow> policies \<Rightarrow> exn + bool" where
  "validate_prefix p fmt v pol =
     (case v of
        JStr s \<Rightarrow> if list_ex (\<lambda>a. starts_with s a) (pol p) then Inr True else denied p s
      | _ \<Rightarrow> if pol p = [] then denied p (fmt v) else Inl (AttributeError ''startswith''))"

text \<open>Membership in a set of strings: lists and dicts are not hashable.\<close>

definition validate_exact :: "string \<Rightarrow> (json \<Rightarrow> string) \<Rightarrow> json \<Rightarrow> policies \<Rightarrow> exn + bool" where
  "validate_exact p fmt v pol =
     (case v of
        JStr s \<Rightarrow> if s \<in> set (pol p) then Inr True else denied p s
      | JList _ \<Rightarrow> Inl (TypeError ''unhashable'')
      | JObj _ \<Rightarrow> Inl (TypeError ''unhashable'')
      | _ \<Rightarrow> denied p (fmt v))"

definition int_of_json :: "json \<Rightarrow> int option" where
  "int_of_json v =
     (case v of
        JInt i \<Rightarrow> Some i
      | JBool b \<Rightarrow> Some (if b then 1 else 0)
      | JNum r \<Rightarrow> Some (if 0 \<le> r then \<lfloor>r\<rfloor> else \<lceil>r\<rceil>)
      | JStr s \<Rightarrow> py_int_of_string s
      | _ \<Rightarrow> None)"

fun in_ranges :: "int \<Rightarrow> string list \<Rightarrow> exn + bool" where
  "in_ranges i [] = Inr False"
| "in_ranges i (r # rs) =
     (case split_at (CHR '':'') r of
        [a, b] \<Rightarrow>
          (case (py_int_of_string a, py_int_of_string b) of
             (Some lo, Some hi) \<Rightarrow> if lo \<le> i \<and> i \<le> hi then Inr True else in_ranges i rs
           | _ \<Rightarrow> Inl (ValueError ''int''))
      | _ \<Rightarrow> in_ranges i rs)"

definition validate_int_range :: "(json \<Rightarrow> string) \<Rightarrow> json \<Rightarrow> policies \<Rightarrow> exn + bool" where
  "validate_int_range fmt v pol =
     (case int_of_json v of
        None \<Rightarrow> Inl (PolicyValidationError ''Not a valid integer'')
      | Some i \<Rightarrow>
          (case in_ranges i (pol ''int_range'') of
             Inl e \<Rightarrow> Inl e
           | Inr b \<Rightarrow> if b then Inr True else denied ''int_range'' (fmt v)))"

definition validate_bool :: "(json \<Rightarrow> string) \<Rightarrow> json \<Rightarrow> policies \<Rightarrow> exn + bool" where
  "validate_bool fmt v pol =
     (if (if jtruthy v then ''true'' else ''false'') \<in> set (pol ''bool'') then Inr True
      else denied ''bool'' (fmt v))"

fun match_any :: "(string \<Rightarrow> string \<Rightarrow> bool option) \<Rightarrow> json \<Rightarrow> string list \<Rightarrow> exn + bool" where
  "match_any fm v [] = Inr False"
| "match_any fm v (p # ps) =
     (case v of
        JStr s \<Rightarrow> (case fm p s of Some True \<Rightarrow> Inr True | _ \<Rightarrow> match_any fm v ps)
      | _ \<Rightarrow> if fm p [] = None then match_any fm v ps else Inl (TypeError ''expected string''))"

definition validate_pattern ::
    "(string \<Rightarrow> string \<Rightarrow> bool option) \<Rightarrow> (json \<Rightarrow> string) \<Rightarrow> json \<Rightarrow> policies \<Rightarrow> exn + bool" where
  "validate_pattern fm fmt v pol =
     (case match_any fm v (pol ''pattern'') of
        Inl e \<Rightarrow> Inl e
      | Inr b \<Rightarrow> if b then Inr True else denied ''pattern'' (fmt v))"

definition validate ::
    "(string \<Rightarrow> string \<Rightarrow> bool option) \<Rightarrow> (json \<Rightarrow> string) \<Rightarrow> string \<Rightarrow> json \<Rightarrow> policies \<Rightarrow> exn + bool" where
  "validate fm fmt p v pol =
     (case validate_policy_type p of
        Inl e \<Rightarrow> Inl e
      | Inr _ \<Rightarrow>
          if p = ''email'' then validate_email fmt v pol
          else if p = ''domain'' then validate_domain fmt v pol
          else if p = ''url'' \<or> p = ''filepath'' then validate_prefix p fmt v pol
          else if p = ''command'' \<or> p = ''enum'' then validate_exact p fmt v pol
          else if p = ''int_range'' then validate_int_range fmt v pol
          else if p = ''bool'' then validate_bool fmt v pol
          else validate_pattern fm fmt v pol)"

definition is_allowed ::
    "(string \<Rightarrow> string \<Rightarrow> bool option) \<Rightarrow> (json \<Rightarrow> string) \<Rightarrow> string \<Rightarrow> json \<Rightarrow> policies \<Rightarrow> exn + bool" where
  "is_allowed fm fmt p v pol =
     (case validate fm fmt p v pol of
        Inl (PolicyValidationError _) \<Rightarrow> Inr False
      | r \<Rightarrow> r)"

section \<open>Loading\<close>

text \<open>Rows of unknown types are skipped.\<close>

definition load_from_db :: "(string \<times> string) list \<Rightarrow> policies \<Rightarrow> policies" where
  "load_from_db rows pol =
     fold (\<lambda>(p, v) pol. case add_policy p v pol of Inl _ \<Rightarrow> pol | Inr pol' \<Rightarrow> pol') rows pol"

definition CONFIG_KEY_MAP :: "(string \<times> string) list" where
  "CONFIG_KEY_MAP = [(''email_allowlist'', ''email''), (''domain_allowlist'', ''domain''),
     (''url_allowlist'', ''url''), (''filepath_allowlist'', ''filepath''),
     (''command_allowlist'', ''command'')]"

definition load_from_config :: "(json \<Rightarrow> string) \<Rightarrow> jdict \<Rightarrow> policies \<Rightarrow> policies" where
  "load_from_config fmt cfg pol =
     fold (\<lambda>(k, p) pol.
         case jget cfg k of
           Some (JList vs) \<Rightarrow>
             fold (\<lambda>v pol. case add_policy p (fmt v) pol of Inl _ \<Rightarrow> pol | Inr pol' \<Rightarrow> pol') vs pol
         | _ \<Rightarrow> pol)
       CONFIG_KEY_MAP pol"

definition reload_policies :: "(json \<Rightarrow> string) \<Rightarrow> (string \<times> string) list \<Rightarrow> jdict \<Rightarrow> policies" where
  "reload_policies fmt rows cfg = load_from_config fmt cfg (load_from_db rows SecurityPolicies)"

text \<open>The singleton is loaded once.\<close>

definition get_policies ::
    "(json \<Rightarrow> string) \<Rightarrow> (string \<times> string) list \<Rightarrow> jdict \<Rightarrow> policies option \<Rightarrow> policies \<times> policies option" where
  "get_policies fmt rows cfg s =
     (case s of
        Some pol \<Rightarrow> (pol, s)
      | None \<Rightarrow> (reload_policies fmt rows cfg, Some (reload_policies fmt rows cfg)))"

section \<open>Policy-typed literals\<close>

datatype policy_literal =
    EmailPolicy string
  | Domain string
  | Url json
  | FilePath json
  | Command json
  | IntRange int int
  | EnumLit json
  | BoolLit json
  | Pattern json

datatype literal_class =
  CEmail | CDomain | CUrl | CFilePath | CCommand | CIntRange | CEnum | CBool | CPattern

text \<open>
  Calling a literal class with one argument: \<open>None\<close> is an exception. The constructors of email
  and domain call \<open>strip\<close> on it, \<open>IntRange\<close> takes two arguments.
\<close>

fun mk_literal :: "literal_class \<Rightarrow> json \<Rightarrow> policy_literal option" where
  "mk_literal CEmail v = (case v of JStr s \<Rightarrow> Some (EmailPolicy (lower (strip s))) | _ \<Rightarrow> None)"
| "mk_literal CDomain v = (case v of JStr s \<Rightarrow> Some (Domain (rstrip_dots (lower (strip s)))) | _ \<Rightarrow> None)"
| "mk_literal CUrl v = Some (Url v)"
| "mk_literal CFilePath v = Some (FilePath v)"
| "mk_literal CCommand v = Some (Command v)"
| "mk_literal CIntRange v = None"
| "mk_literal CEnum v = Some (EnumLit v)"
| "mk_literal CBool v = Some (BoolLit v)"
| "mk_literal CPattern v = Some (Pattern v)"

fun literal_type :: "policy_literal \<Rightarrow> string" where
  "literal_type (EmailPolicy _) = ''email''"
| "literal_type (Domain _) = ''domain''"
| "literal_type (Url _) = ''url''"
| "literal_type (FilePath _) = ''filepath''"
| "literal_type (Command _) = ''command''"
| "literal_type (IntRange _ _) = ''int_range''"
| "literal_type (EnumLit _) = ''enum''"
| "literal_type (BoolLit _) = ''bool''"
| "literal_type (Pattern _) = ''pattern''"

fun serialized_value :: "(json \<Rightarrow> string) \<Rightarrow> policy_literal \<Rightarrow> string" where
  "serialized_value fmt (IntRange lo hi) = show_int lo @ '':'' @ show_int hi"
| "serialized_value fmt (BoolLit b) = lower (fmt b)"
| "serialized_value fmt (EmailPolicy s) = s"
| "serialized_value fmt (Domain s) = s"
| "serialized_value fmt (Url s) = fmt s"
| "serialized_value fmt (FilePath s) = fmt s"
| "serialized_value fmt (Command s) = fmt s"
| "serialized_value fmt (EnumLit s) = fmt s"
| "serialized_value fmt (Pattern s) = fmt s"

text \<open>Comparison of a literal with a value of the program.\<close>

definition prefix_eq :: "json \<Rightarrow> json \<Rightarrow> exn + bool" where
  "prefix_eq p v =
     (case v of
        JStr t \<Rightarrow> (case p of JStr s \<Rightarrow> Inr (starts_with t s) | _ \<Rightarrow> Inl (TypeError ''startswith''))
      | _ \<Rightarrow> Inr (json_eq p v))"

fun literal_eq :: "(string \<Rightarrow> string \<Rightarrow> bool option) \<Rightarrow> policy_literal \<Rightarrow> json \<Rightarrow> exn + bool" where
  "literal_eq fm (EmailPolicy s) v = Inr (case v of JStr t \<Rightarrow> s = lower (strip t) | _ \<Rightarrow> False)"
| "literal_eq fm (Domain s) v =
     Inr (case v of JStr t \<Rightarrow> domain_matches s (rstrip_dots (lower (strip t))) | _ \<Rightarrow> False)"
| "literal_eq fm (Url p) v = prefix_eq p v"
| "literal_eq fm (FilePath p) v = prefix_eq p v"
| "literal_eq fm (Command s) v = Inr (json_eq s v)"
| "literal_eq fm (EnumLit s) v = Inr (json_eq s v)"
| "literal_eq fm (IntRange lo hi) v =
     Inr (case v of JInt i \<Rightarrow> lo \<le> i \<and> i \<le> hi
              | JBool b \<Rightarrow> lo \<le> (if b then 1 else 0) \<and> (if b then 1 else 0) \<le> hi
              | _ \<Rightarrow> False)"
| "literal_eq fm (BoolLit b) v = Inr (json_eq b v)"
| "literal_eq fm (Pattern p) v =
     (case v of
        JStr t \<Rightarrow> (case p of JStr q \<Rightarrow> Inr (fm q t = Some True) | _ \<Rightarrow> Inl (TypeError ''pattern''))
      | _ \<Rightarrow> Inr (json_eq p v))"

section \<open>Facts\<close>

lemma denied_ne [simp]: "denied p v \<noteq> Inr b"
  by (simp add: denied_def)

text \<open>The dispatch table of \<open>validate\<close>, one equation per type.\<close>

lemma validate_unknown: "p \<notin> set POLICY_TYPES \<Longrightarrow> validate fm fmt p v pol = Inl (ValueError ''Unknown policy type'')"
  by (simp add: validate_def validate_policy_type_def)

lemma validate_eqs:
  "validate fm fmt ''email'' v pol = validate_email fmt v pol"
  "validate fm fmt ''domain'' v pol = validate_domain fmt v pol"
  "validate fm fmt ''url'' v pol = validate_prefix ''url'' fmt v pol"
  "validate fm fmt ''filepath'' v pol = validate_prefix ''filepath'' fmt v pol"
  "validate fm fmt ''command'' v pol = validate_exact ''command'' fmt v pol"
  "validate fm fmt ''int_range'' v pol = validate_int_range fmt v pol"
  "validate fm fmt ''enum'' v pol = validate_exact ''enum'' fmt v pol"
  "validate fm fmt ''bool'' v pol = validate_bool fmt v pol"
  "validate fm fmt ''pattern'' v pol = validate_pattern fm fmt v pol"
  by (simp_all add: validate_def validate_policy_type_def POLICY_TYPES_def)

lemma policy_type_cases:
  assumes "p \<in> set POLICY_TYPES"
  obtains "p = ''email''" | "p = ''domain''" | "p = ''url''" | "p = ''filepath''" | "p = ''command''"
    | "p = ''int_range''" | "p = ''enum''" | "p = ''bool''" | "p = ''pattern''"
  using assms by (simp only: POLICY_TYPES_def list.set insert_iff empty_iff simp_thms)
    (elim disjE; erule that)

lemma validators_Inr:
  "validate_email fmt v pol = Inr b \<Longrightarrow> b \<and> pol ''email'' \<noteq> []"
  "validate_domain fmt v pol = Inr b \<Longrightarrow> b \<and> pol ''domain'' \<noteq> []"
  "validate_prefix p fmt v pol = Inr b \<Longrightarrow> b \<and> pol p \<noteq> []"
  "validate_exact p fmt v pol = Inr b \<Longrightarrow> b \<and> pol p \<noteq> []"
  "validate_int_range fmt v pol = Inr b \<Longrightarrow> b \<and> pol ''int_range'' \<noteq> []"
  "validate_bool fmt v pol = Inr b \<Longrightarrow> b \<and> pol ''bool'' \<noteq> []"
  "validate_pattern fm fmt v pol = Inr b \<Longrightarrow> b \<and> pol ''pattern'' \<noteq> []"
  by (auto simp: validate_email_def validate_domain_def validate_prefix_def validate_exact_def
      validate_int_range_def validate_bool_def validate_pattern_def Let_def
      split: json.splits if_splits sum.splits option.splits)

lemma validate_Inr:
  assumes "validate fm fmt p v pol = Inr b"
  shows "b \<and> p \<in> set POLICY_TYPES \<and> pol p \<noteq> []"
proof (cases "p \<in> set POLICY_TYPES")
  case True
  then show ?thesis
    by (rule policy_type_cases) (use assms True in \<open>auto simp only: validate_eqs dest: validators_Inr\<close>)
next
  case False
  then show ?thesis using assms by (simp add: validate_unknown)
qed

lemma dropWhile_keeps: "c \<in> set s \<Longrightarrow> \<not> P c \<Longrightarrow> c \<in> set (dropWhile P s)"
  by (induction s) auto

lemma rstrip_by_keeps: "c \<in> set s \<Longrightarrow> \<not> P c \<Longrightarrow> c \<in> set (rstrip_by P s)"
  by (simp add: rstrip_by_def dropWhile_keeps)

lemma strip_keeps: "c \<in> set s \<Longrightarrow> \<not> is_space c \<Longrightarrow> c \<in> set (strip s)"
  by (simp add: strip_def dropWhile_keeps rstrip_by_keeps)

lemma digits_val_colon: "CHR '':'' \<in> set s \<Longrightarrow> digits_val ok n s = None"
  by (induction s arbitrary: ok n) (auto simp: ascii_digit_def)

lemma int_of_colon: "CHR '':'' \<in> set s \<Longrightarrow> py_int_of_string s = None"
proof -
  assume "CHR '':'' \<in> set s"
  then have "CHR '':'' \<in> set (strip s)" by (rule strip_keeps) (simp add: is_space_def)
  then show ?thesis
    by (auto simp: py_int_of_string_def digits_val_colon ascii_digit_def split: list.splits)
qed

lemma rstrip_dots_id: "rstrip_dots s = s \<longleftrightarrow> s = [] \<or> last s \<noteq> CHR ''.''"
proof (cases s rule: rev_cases)
  case (snoc ys y)
  have "length (rstrip_by (\<lambda>c. c = CHR ''.'') (ys @ [CHR ''.''])) \<le> length ys"
    using length_dropWhile_le [of "\<lambda>c. c = CHR ''.''" "rev ys"] by (simp add: rstrip_by_def)
  then have "rstrip_dots (ys @ [CHR ''.'']) \<noteq> ys @ [CHR ''.'']"
    unfolding rstrip_dots_def by (intro notI) (drule arg_cong [where f = length], simp)
  then show ?thesis using snoc by (auto simp: rstrip_dots_def rstrip_by_def)
qed (simp add: rstrip_dots_def rstrip_by_def)

section \<open>Properties\<close>

text \<open>C37: Default deny. A validation either raises or answers yes, and it answers yes only for a
  known policy type with a non-empty allowlist, whatever the value is.\<close>

theorem policies_default_deny:
  assumes "validate fm fmt p v pol = Inr b"
  shows "b \<and> p \<in> set POLICY_TYPES \<and> pol p \<noteq> []"
  by (rule validate_Inr [OF assms])

definition demo_fmt :: "json \<Rightarrow> string" where
  "demo_fmt v = (case v of JStr s \<Rightarrow> s | JBool b \<Rightarrow> if b then ''True'' else ''False'' | JInt i \<Rightarrow> show_int i | _ \<Rightarrow> ''x'')"

definition no_regex :: "string \<Rightarrow> string \<Rightarrow> bool option" where
  "no_regex p s = Some (p = s)"

theorem policies_default_deny_witness:
  "validate no_regex demo_fmt ''domain'' (JStr ''Sub.Example.com.'') (SecurityPolicies(''domain'' := [''example.com''])) = Inr True
   \<and> (SecurityPolicies(''domain'' := [''example.com''])) ''domain'' \<noteq> []"
proof -
  have "validate no_regex demo_fmt ''domain'' (JStr ''Sub.Example.com.'')
      (SecurityPolicies(''domain'' := [''example.com''])) = Inr True"
    by code_simp
  from this policies_default_deny [OF this] show ?thesis by blast
qed

text \<open>What is allowlisted is accepted. After \<open>add\<close>, the added value itself validates, for every
  type whose entries are values; an email address only if it does not end in a dot, which \<open>add\<close>
  strips and the validator does not.\<close>

theorem allowlisted_is_accepted:
  assumes "add_policy p s pol = Inr pol'" and "p \<notin> {''int_range'', ''bool'', ''pattern''}"
    and "p = ''email'' \<longrightarrow> lower (strip s) = [] \<or> last (lower (strip s)) \<noteq> CHR ''.''"
  shows "validate fm fmt p (JStr s) pol' = Inr True"
proof -
  have p: "p \<in> set POLICY_TYPES" and pol': "pol' = pol(p := List.insert (normalize_value p s) (pol p))"
    using assms(1) by (auto simp: add_policy_def validate_policy_type_def split: if_splits)
  have self: "starts_with s s" by (simp add: starts_with_def)
  from p show ?thesis
    by (rule policy_type_cases)
      (use assms(2,3) self rstrip_dots_id [of "lower (strip s)"] in \<open>simp_all add: pol' validate_eqs
         validate_email_def validate_domain_def validate_prefix_def validate_exact_def normalize_value_def
         domain_matches_def list_ex_iff Let_def\<close>)
qed

theorem allowlisted_is_accepted_witness:
  "validate no_regex demo_fmt ''email'' (JStr '' Bob@Example.com '')
     (SecurityPolicies(''email'' := [''bob@example.com''])) = Inr True"
proof -
  have bob: "rstrip_dots (lower (strip '' Bob@Example.com '')) = ''bob@example.com''" by code_simp
  then have "add_policy ''email'' '' Bob@Example.com '' SecurityPolicies =
      Inr (SecurityPolicies(''email'' := [''bob@example.com'']))"
    using bob by (simp add: add_policy_def validate_policy_type_def POLICY_TYPES_def SecurityPolicies_def
        List.insert_def normalize_value_def)
  moreover have "last (lower (strip '' Bob@Example.com '')) \<noteq> CHR ''.''" by code_simp
  ultimately show ?thesis by (intro allowlisted_is_accepted) auto
qed

text \<open>Two kinds of literals are validated wrongly. A boolean literal is serialised as a
  non-empty text, so its validation asks for \<open>true\<close> whatever its value is, and an integer range is
  never accepted, whatever the allowlist holds.\<close>

theorem literals_misvalidated:
  assumes "lower (fmt b) \<noteq> []"
  shows "(validate fm fmt ''bool'' (JStr (serialized_value fmt (BoolLit b))) pol = Inr True \<longleftrightarrow>
      ''true'' \<in> set (pol ''bool'')) \<and>
    validate fm fmt ''int_range'' (JStr (serialized_value fmt (IntRange lo hi))) pol \<noteq> Inr True"
  using assms
  by (simp_all add: validate_eqs validate_bool_def validate_int_range_def int_of_json_def int_of_colon)

theorem literals_misvalidated_witness:
  "validate no_regex demo_fmt ''bool'' (JStr (serialized_value demo_fmt (BoolLit (JBool False))))
     (SecurityPolicies(''bool'' := [''true''])) = Inr True"
proof -
  have "lower (demo_fmt (JBool False)) \<noteq> []" by (simp add: demo_fmt_def lower_def)
  from literals_misvalidated [of demo_fmt, OF this] show ?thesis by simp
qed

end
