(* ===== verification/Judge.thy ===== *)
theory Judge
  imports Review_Manager Security_Policies
begin

text \<open>
  The deterministic JUDGE (\<open>security/judge.py\<close>) and its dispatch
  (\<open>_run_judge_checks\<close> in \<open>core/arcs/dispatch_handler.py\<close>): it finds the pending extract of a
  reviewer, decodes it, validates every policy-typed value and writes the verdict.

  A decoded extract is a \<open>pval\<close>: raw JSON, a policy literal, a tuple or an instance of a
  dataclass. The dataclasses and handlers of packages are code outside the repository, as are the
  files of resources; they are the fields of \<open>judge_env\<close>, together with the regular expression
  engine, the printing of values and \<open>json.loads\<close>. Texts of reasons are short tags.
\<close>

section \<open>Extracts\<close>

datatype pval =
    PRaw json
  | PLit policy_literal
  | PSeq "pval list"
  | PData string "(string \<times> pval) list"

text \<open>Field annotations: only tuples, dataclasses and literal classes change what is stored.\<close>

datatype annot =
    AnyT
  | TupleEllipsis annot
  | TupleOf "annot list"
  | Nested pclass
  | Literal literal_class
and pclass = PClass string "(string \<times> annot \<times> pval option) list"

fun class_fields :: "pclass \<Rightarrow> (string \<times> annot \<times> pval option) list" where
  "class_fields (PClass n fs) = fs"

fun class_name :: "pclass \<Rightarrow> string" where
  "class_name (PClass n fs) = n"

definition PolicyCheckList :: pclass where
  "PolicyCheckList = PClass ''PolicyCheckList'' [(''checks'', AnyT, Some (PRaw (JList [])))]"

text \<open>\<open>cls(**kwargs)\<close>: an unexpected or a missing field is a \<open>TypeError\<close>.\<close>

fun fill_fields ::
    "(string \<times> annot \<times> pval option) list \<Rightarrow> (string \<times> pval) list \<Rightarrow> exn + (string \<times> pval) list" where
  "fill_fields [] kw = Inr []"
| "fill_fields ((n, a, df) # fs) kw =
     (case (case map_of kw n of Some v \<Rightarrow> Some v | None \<Rightarrow> df) of
        None \<Rightarrow> Inl (TypeError ''missing argument'')
      | Some v \<Rightarrow> xbind (fill_fields fs kw) (\<lambda>rest. Inr ((n, v) # rest)))"

definition new_instance :: "pclass \<Rightarrow> (string \<times> pval) list \<Rightarrow> exn + pval" where
  "new_instance c kw =
     (if \<exists>k \<in> fst ` set kw. k \<notin> fst ` set (class_fields c) then Inl (TypeError ''unexpected argument'')
      else xbind (fill_fields (class_fields c) kw) (\<lambda>fs. Inr (PData (class_name c) fs)))"

definition field_annot :: "pclass \<Rightarrow> string \<Rightarrow> annot" where
  "field_annot c k = (case map_of (class_fields c) k of Some (a, _) \<Rightarrow> a | None \<Rightarrow> AnyT)"

lemma sum_snd_sizes:
  "sum_list (map (\<lambda>p. size (snd p)) xs) < Suc (sum_list (map (size_prod (\<lambda>x. 0) size) xs))"
  for xs :: "(string \<times> 'v::size) list"
  by (induction xs) (auto simp: size_prod_simp)

function coerce :: "annot \<Rightarrow> json \<Rightarrow> exn + pval"
  and coerce_seq :: "annot list \<Rightarrow> json list \<Rightarrow> exn + pval list"
  and coerce_fields :: "pclass \<Rightarrow> (string \<times> json) list \<Rightarrow> exn + (string \<times> pval) list" where
  "coerce a v =
     (case v of
        JList vs \<Rightarrow>
          (case a of
             TupleEllipsis b \<Rightarrow> xbind (coerce_seq (replicate (length vs) b) vs) (\<lambda>ps. Inr (PSeq ps))
           | TupleOf bs \<Rightarrow> xbind (coerce_seq bs vs) (\<lambda>ps. Inr (PSeq ps))
           | _ \<Rightarrow> Inr (PRaw v))
      | JObj d \<Rightarrow>
          (case a of
             Nested c \<Rightarrow> xbind (coerce_fields c d) (new_instance c)
           | _ \<Rightarrow> Inr (PRaw v))
      | _ \<Rightarrow>
          (case a of
             Literal l \<Rightarrow> (case mk_literal l v of Some x \<Rightarrow> Inr (PLit x) | None \<Rightarrow> Inr (PRaw v))
           | _ \<Rightarrow> Inr (PRaw v)))"
| "coerce_seq as [] = Inr []"
| "coerce_seq as (v # vs) =
     xbind (coerce (case as of [] \<Rightarrow> AnyT | a # _ \<Rightarrow> a) v) (\<lambda>p.
     xbind (coerce_seq (tl as) vs) (\<lambda>ps. Inr (p # ps)))"
| "coerce_fields c [] = Inr []"
| "coerce_fields c ((k, v) # d) =
     xbind (coerce (field_annot c k) v) (\<lambda>p. xbind (coerce_fields c d) (\<lambda>ps. Inr ((k, p) # ps)))"
  by pat_completeness auto
termination
  by (relation "measure (\<lambda>x. case x of Inl (a, v) \<Rightarrow> size v
        | Inr (Inl (as, vs)) \<Rightarrow> size_list size vs
        | Inr (Inr (c, d)) \<Rightarrow> size_list (\<lambda>p. size (snd p)) d)")
     (auto simp: size_list_conv_sum_list sum_snd_sizes)

declare coerce.simps [simp del]

section \<open>Checks\<close>

record policy_check =
  c_field :: json
  c_type :: string
  c_value :: string
  c_passed :: bool
  c_reason :: string

record judge_result =
  approved :: bool
  checks :: "policy_check list"
  jreason :: string

definition failed_checks :: "judge_result \<Rightarrow> policy_check list" where
  "failed_checks r = filter (\<lambda>c. \<not> c_passed c) (checks r)"

definition all_passed :: "policy_check list \<Rightarrow> bool" where
  "all_passed cs = list_all c_passed cs"

record judge_env =
  je_fm :: "string \<Rightarrow> string \<Rightarrow> bool option"
  je_fmt :: "json \<Rightarrow> string"
  je_policies :: policies
  je_files :: "string \<Rightarrow> string option"
  je_loads :: "string \<Rightarrow> jtext"
  je_kinds :: "string \<Rightarrow> pclass option"
  je_templates :: "string \<Rightarrow> string option"
  je_handlers :: "string \<Rightarrow> (pval \<Rightarrow> exn + (bool \<times> string \<times> policy_check list)) option"

definition je_validate :: "judge_env \<Rightarrow> string \<Rightarrow> json \<Rightarrow> exn + bool" where
  "je_validate je p v = validate (je_fm je) (je_fmt je) p v (je_policies je)"

text \<open>The policy literals reachable from a value, with the names of their fields.\<close>

function literals_in :: "string \<Rightarrow> pval \<Rightarrow> (string \<times> policy_literal) list"
  and literals_seq :: "string \<Rightarrow> nat \<Rightarrow> pval list \<Rightarrow> (string \<times> policy_literal) list"
  and literals_fields :: "string \<Rightarrow> (string \<times> pval) list \<Rightarrow> (string \<times> policy_literal) list" where
  "literals_in nm (PRaw j) = []"
| "literals_in nm (PLit l) = [(nm, l)]"
| "literals_in nm (PSeq ps) = literals_seq nm 0 ps"
| "literals_in nm (PData c fs) = literals_fields (nm @ ''.'') fs"
| "literals_seq nm i [] = []"
| "literals_seq nm i (p # ps) = literals_in (nm @ ''['' @ show_int (int i) @ '']'') p @ literals_seq nm (Suc i) ps"
| "literals_fields pre [] = []"
| "literals_fields pre ((k, p) # fs) = literals_in (pre @ k) p @ literals_fields pre fs"
  by pat_completeness auto
termination
  by (relation "measure (\<lambda>x. case x of Inl (nm, v) \<Rightarrow> size v
        | Inr (Inl (nm, i, ps)) \<Rightarrow> size_list size ps
        | Inr (Inr (pre, fs)) \<Rightarrow> size_list (\<lambda>p. size (snd p)) fs)")
     (auto simp: size_list_conv_sum_list sum_snd_sizes)

definition validate_policy_value :: "judge_env \<Rightarrow> string \<Rightarrow> policy_literal \<Rightarrow> exn + policy_check" where
  "validate_policy_value je nm l =
     (let s = serialized_value (je_fmt je) l;
          mk = (\<lambda>ok why. \<lparr> c_field = JStr nm, c_type = literal_type l, c_value = s, c_passed = ok, c_reason = why \<rparr>)
      in case je_validate je (literal_type l) (JStr s) of
           Inr _ \<Rightarrow> Inr (mk True [])
         | Inl (PolicyValidationError why) \<Rightarrow> Inr (mk False why)
         | Inl (ValueError why) \<Rightarrow> Inr (mk False why)
         | Inl e \<Rightarrow> Inl e)"

definition validate_policy_fields :: "judge_env \<Rightarrow> pval \<Rightarrow> exn + policy_check list" where
  "validate_policy_fields je x =
     (case x of
        PData c fs \<Rightarrow>
          map_x (\<lambda>(nm, l). validate_policy_value je nm l) (literals_fields [] fs)
      | _ \<Rightarrow> Inr [])"

definition extraction_to_checks :: "pval \<Rightarrow> exn + json list" where
  "extraction_to_checks x =
     (case x of
        PData c fs \<Rightarrow>
          if c = class_name PolicyCheckList
          then (case map_of fs ''checks'' of Some (PRaw j) \<Rightarrow> json_items j | _ \<Rightarrow> Inl (ValueError ''payload''))
          else Inl (ValueError ''payload'')
      | PRaw (JList xs) \<Rightarrow> Inr xs
      | PRaw (JObj d) \<Rightarrow>
          (case jget d ''checks'' of Some (JList xs) \<Rightarrow> Inr xs | _ \<Rightarrow> Inl (ValueError ''payload''))
      | _ \<Rightarrow> Inl (ValueError ''payload''))"

text \<open>One specification of the platform's check list.\<close>

definition check_spec :: "judge_env \<Rightarrow> json \<Rightarrow> exn + policy_check" where
  "check_spec je spec =
     (case spec of
        JObj d \<Rightarrow>
          let fld = dflt (JStr ''unknown'') (jget d ''field''); pt = dflt (JStr []) (jget d ''policy_type'');
              v = dflt (JStr []) (jget d ''value'');
              mk = (\<lambda>t ok why. \<lparr> c_field = fld, c_type = t, c_value = je_fmt je v, c_passed = ok, c_reason = why \<rparr>)
          in if \<not> jtruthy pt then Inr (mk ''none'' True ''No policy constraint'')
             else (case pt of
                     JStr p \<Rightarrow>
                       (case je_validate je p v of
                          Inr _ \<Rightarrow> Inr (mk p True [])
                        | Inl (PolicyValidationError why) \<Rightarrow> Inr (mk p False why)
                        | Inl (ValueError why) \<Rightarrow> Inr (mk p False why)
                        | Inl e \<Rightarrow> Inl e)
                   | JList _ \<Rightarrow> Inl (TypeError ''unhashable'')
                   | JObj _ \<Rightarrow> Inl (TypeError ''unhashable'')
                   | _ \<Rightarrow> Inr (mk (je_fmt je pt) False ''Unknown policy type''))
      | _ \<Rightarrow> Inr \<lparr> c_field = JStr ''<malformed>'', c_type = ''none'', c_value = je_fmt je spec,
                   c_passed = False, c_reason = ''Expected dict'' \<rparr>)"

section \<open>Finding and decoding the extract\<close>

definition get_review_target :: "int \<Rightarrow> db \<Rightarrow> exn + json" where
  "get_review_target j d =
     (case state_cell j ''_review_target'' d of
        None \<Rightarrow> Inr JNull
      | Some (Parsed v) \<Rightarrow> Inr v
      | Some (Malformed _) \<Rightarrow> Inl (ValueError ''JSON''))"

definition pending_outputs :: "int \<Rightarrow> db \<Rightarrow> resource list" where
  "pending_outputs a d =
     concat (map (\<lambda>l. filter (\<lambda>r. rid r = l_resource l \<and> produced_by_template r \<noteq> None \<and>
                              template_verdict r = Some VPending \<and> deleted_at r = None) (resources d))
       (filter (\<lambda>l. l_arc l = a \<and> l_role l = LOutput) (arc_links d)))"

fun first_pending :: "int list \<Rightarrow> db \<Rightarrow> exn + resource option" where
  "first_pending [] d = Inr None"
| "first_pending (a # as) d =
     (if (case get_arc a d of None \<Rightarrow> True | Some r \<Rightarrow> aagent r \<noteq> REVIEWER) then first_pending as d
      else case pending_outputs a d of
          [] \<Rightarrow> first_pending as d
        | [r] \<Rightarrow> Inr (Some r)
        | _ \<Rightarrow> Inl (ValueError ''more than one pending extraction Resource''))"

definition find_pending_extraction :: "json \<Rightarrow> db \<Rightarrow> exn + resource option" where
  "find_pending_extraction t d =
     first_pending (map s_arc (filter (\<lambda>r. s_key r = ''_review_target'' \<and> s_value r = Parsed t) (state d))) d"

definition resolve_kind :: "judge_env \<Rightarrow> string \<Rightarrow> pclass option" where
  "resolve_kind je k = (if k = ''PolicyCheckList'' then Some PolicyCheckList else je_kinds je k)"

definition load_extraction :: "judge_env \<Rightarrow> resource \<Rightarrow> db \<Rightarrow> exn + pval" where
  "load_extraction je r d =
     xbind (read_resource_content (je_files je) (rid r) 0 50000 None d) (\<lambda>text.
       case je_loads je text of
         Malformed _ \<Rightarrow> Inl (ValueError ''JSON'')
       | Parsed v \<Rightarrow>
           (case rkind r of
              None \<Rightarrow> Inr (PRaw v)
            | Some k \<Rightarrow>
                (case resolve_kind je k of
                   None \<Rightarrow> Inl (ValueError ''Unknown extraction kind'')
                 | Some c \<Rightarrow>
                     (case v of
                        JObj o' \<Rightarrow> xbind (coerce_fields c o') (new_instance c)
                      | _ \<Rightarrow> Inl (ValueError ''expected JSON object'')))))"

text \<open>\<open>validate_extract_fields\<close>: the unexpected and the missing fields, if there are any.\<close>

definition validate_extract_fields :: "pclass \<Rightarrow> jdict \<Rightarrow> (string list \<times> string list) option" where
  "validate_extract_fields c given =
     (let names = map fst (class_fields c);
          required = map fst (filter (\<lambda>(n, a, df). df = None) (class_fields c));
          unexpected = filter (\<lambda>k. k \<notin> set names) (map fst given);
          missing = filter (\<lambda>k. k \<notin> fst ` set given) required
      in if unexpected = [] \<and> missing = [] then None else Some (unexpected, missing))"

section \<open>The verdict\<close>

definition flip_verdict :: "int \<Rightarrow> bool \<Rightarrow> db \<Rightarrow> db" where
  "flip_verdict i ok d =
     (case mark_template_verdict i (if ok then ''approved'' else ''rejected'') d of Inl _ \<Rightarrow> d | Inr d' \<Rightarrow> d')"

definition undecodable :: "exn \<Rightarrow> bool" where
  "undecodable e = (case e of ValueError _ \<Rightarrow> True | FileNotFoundError _ \<Rightarrow> True | _ \<Rightarrow> False)"

definition refused :: "string \<Rightarrow> judge_result" where
  "refused why = \<lparr> approved = False, checks = [], jreason = why \<rparr>"

definition reject_undecodable :: "time \<Rightarrow> int \<Rightarrow> json \<Rightarrow> int \<Rightarrow> db \<Rightarrow> judge_result act" where
  "reject_undecodable now j t i d =
     (Inr (refused ''Failed to decode extraction Resource''),
      flip_verdict i False (snd (log_trust_event now (Some j) ''judge_decode_failure''
        (Some [(''target_arc_id'', t), (''resource_id'', JInt i)]) d)))"

text \<open>The handler a package registered for the template of the resource.\<close>

definition package_judge :: "judge_env \<Rightarrow> resource \<Rightarrow> pval \<Rightarrow> exn + judge_result option" where
  "package_judge je r x =
     (case produced_by_template r of
        None \<Rightarrow> Inr None
      | Some tm \<Rightarrow>
          if tm = [] \<or> je_templates je tm = None then Inr None
          else (case je_handlers je tm of
                  None \<Rightarrow> Inr None
                | Some h \<Rightarrow>
                    xbind (validate_policy_fields je x) (\<lambda>cs.
                      Inr (Some (if \<not> all_passed cs
                        then \<lparr> approved = False, checks = cs, jreason = ''handler not invoked'' \<rparr>
                        else (case h x of
                                Inl e \<Rightarrow> \<lparr> approved = False, checks = cs, jreason = ''handler raised'' \<rparr>
                              | Inr (ok, why, own) \<Rightarrow> \<lparr> approved = ok, checks = cs @ own, jreason = why \<rparr>))))))"

definition conclude :: "time \<Rightarrow> int \<Rightarrow> json \<Rightarrow> int \<Rightarrow> judge_result \<Rightarrow> db \<Rightarrow> judge_result act" where
  "conclude now j t i r d =
     (Inr r, snd (log_trust_event now (Some j) ''judge_policy_result''
        (Some [(''target_arc_id'', t), (''resource_id'', JInt i), (''approved'', JBool (approved r)),
               (''total_checks'', JInt (int (length (checks r)))),
               (''failed_checks'', JInt (int (length (failed_checks r))))])
        (flip_verdict i (approved r) d)))"

definition judge_resource :: "judge_env \<Rightarrow> time \<Rightarrow> int \<Rightarrow> json \<Rightarrow> resource \<Rightarrow> db \<Rightarrow> judge_result act" where
  "judge_resource je now j t r d =
     (case load_extraction je r d of
        Inl e \<Rightarrow> if undecodable e then reject_undecodable now j t (rid r) d else (Inl e, d)
      | Inr x \<Rightarrow>
          (case package_judge je r x of
             Inl e \<Rightarrow> (Inl e, d)
           | Inr (Some res) \<Rightarrow> conclude now j t (rid r) res d
           | Inr None \<Rightarrow>
               (case extraction_to_checks x of
                  Inl e \<Rightarrow> if undecodable e then reject_undecodable now j t (rid r) d else (Inl e, d)
                | Inr specs \<Rightarrow>
                    (case map_x (check_spec je) specs of
                       Inl e \<Rightarrow> (Inl e, d)
                     | Inr cs \<Rightarrow>
                         conclude now j t (rid r) \<lparr> approved = all_passed cs, checks = cs,
                           jreason = (if all_passed cs then [] else ''Policy check(s) failed'') \<rparr> d))))"

definition run_policy_checks :: "judge_env \<Rightarrow> time \<Rightarrow> int \<Rightarrow> db \<Rightarrow> judge_result act" where
  "run_policy_checks je now j d =
     (if get_arc j d = None then (Inr (refused ''Judge arc not found''), d)
      else case get_review_target j d of
          Inl e \<Rightarrow> (Inl e, d)
        | Inr t \<Rightarrow>
            if t = JNull then (Inr (refused ''No review target found for judge''), d)
            else (case find_pending_extraction t d of
                    Inl _ \<Rightarrow> (Inr (refused ''more than one pending extraction Resource''), d)
                  | Inr None \<Rightarrow>
                      (Inr \<lparr> approved = True, checks = [], jreason = ''approved by default'' \<rparr>,
                       snd (log_trust_event now (Some j) ''judge_auto_approve''
                         (Some [(''target_arc_id'', t), (''reason'', JStr ''no_extraction_resource'')]) d))
                  | Inr (Some r) \<Rightarrow> judge_resource je now j t r d))"

section \<open>Dispatch of a JUDGE arc\<close>

definition record_judge_rejection :: "time \<Rightarrow> int \<Rightarrow> json \<Rightarrow> string \<Rightarrow> db \<Rightarrow> db" where
  "record_judge_rejection now j t why d =
     (case add_history now j ''judge_rejected'' (JObj [(''target_arc_id'', t), (''reason'', JStr why)])
             None ''system'' d of
        Inl _ \<Rightarrow> d | Inr (_, d') \<Rightarrow> d')"

text \<open>A target that is not an integer fails in the foreign key of the history, which is caught.\<close>

definition submit_judgement ::
    "(json \<Rightarrow> string) \<Rightarrow> env \<Rightarrow> time \<Rightarrow> int \<Rightarrow> json \<Rightarrow> string \<Rightarrow> string \<Rightarrow> db \<Rightarrow> bool act" where
  "submit_judgement fmt env now j t dec why d =
     (case t of JInt i \<Rightarrow> submit_verdict fmt env now j i dec why d
      | _ \<Rightarrow> (Inl (IntegrityError ''FOREIGN KEY''), d))"

definition run_judge_checks ::
    "(json \<Rightarrow> string) \<Rightarrow> env \<Rightarrow> judge_env \<Rightarrow> time \<Rightarrow> int \<Rightarrow> db \<Rightarrow> bool \<times> db" where
  "run_judge_checks fmt env je now j d =
     (case run_policy_checks je now j d of
        (Inl e, d1) \<Rightarrow> (False, record_judge_rejection now j JNull ''raised'' d1)
      | (Inr res, d1) \<Rightarrow>
          (case get_review_target j d1 of
             Inl e \<Rightarrow> (False, record_judge_rejection now j JNull ''raised'' d1)
           | Inr t \<Rightarrow>
               if t = JNull then (False, record_judge_rejection now j JNull ''JUDGE has no review target'' d1)
               else if approved res
               then (case submit_judgement fmt env now j t ''approve''
                            (if jreason res = [] then ''All policy checks passed'' else jreason res) d1 of
                       (Inl e, d2) \<Rightarrow> (False, record_judge_rejection now j t ''raised'' d2)
                     | (Inr _, d2) \<Rightarrow> (True, d2))
               else (case submit_judgement fmt env now j t ''reject''
                            (if jreason res = [] then ''Policy check(s) failed'' else jreason res) d1 of
                       (Inl e, d2) \<Rightarrow> (False, record_judge_rejection now j t ''raised'' d2)
                     | (Inr _, d2) \<Rightarrow>
                         (False, record_judge_rejection now j t
                            (if jreason res = [] then ''Policy check(s) failed'' else jreason res) d2))))"

text \<open>\<open>_fail_judge_arc\<close>; its callers let exceptions pass.\<close>

definition fail_judge_arc :: "(json \<Rightarrow> string) \<Rightarrow> env \<Rightarrow> time \<Rightarrow> int \<Rightarrow> db \<Rightarrow> unit act" where
  "fail_judge_arc fmt env now j d =
     (case get_arc j d of
        None \<Rightarrow> (Inr (), d)
      | Some a \<Rightarrow>
          if astatus a \<in> FROZEN_STATUSES then (Inr (), d)
          else
            (case (if astatus a = Pending then update_status fmt env now j ''active'' ''system'' d else Inr d) of
               Inl e \<Rightarrow> (Inl e, d)
             | Inr d1 \<Rightarrow>
                 (case update_status fmt env now j ''failed'' ''system'' d1 of
                    Inl e \<Rightarrow> (Inl e, d1) | Inr d2 \<Rightarrow> (Inr (), d2))))"

section \<open>Facts\<close>

lemma map_x_all:
  "map_x f xs = Inr ys \<Longrightarrow> list_all P ys \<Longrightarrow> x \<in> set xs \<Longrightarrow> \<exists>y. f x = Inr y \<and> P y"
  by (induction xs arbitrary: ys) (auto simp: xbind_Inr)

lemma log_trust_resources [simp]: "resources (snd (log_trust_event now a ty ds d)) = resources d"
  by (simp add: log_trust_event_def Let_def)

lemma is_trusted_cong: "resources d' = resources d \<Longrightarrow> is_trusted i d' = is_trusted i d"
  by (simp add: is_trusted_def get_resource_def)

lemma is_trusted_flip:
  assumes "is_trusted i (flip_verdict k ok d)" "\<not> is_trusted i d"
  shows "i = k \<and> ok"
proof (cases "mark_template_verdict k (if ok then ''approved'' else ''rejected'') d")
  case (Inl e)
  then show ?thesis using assms by (simp add: flip_verdict_def)
next
  case (Inr d')
  have "resources d' = resources d \<or> resources d' = upd_row rid k (\<lambda>r. r\<lparr> template_verdict :=
      Some (if ok then VApproved else VRejected) \<rparr>) (resources d)"
    using Inr by (auto simp: mark_template_verdict_def set_resource_def Let_def split: option.splits if_splits)
  then show ?thesis
    using assms Inr is_trusted_cong [of d' d i]
    by (auto simp: flip_verdict_def is_trusted_def get_resource_def find_row_upd_row resource_trust_def
        split: option.splits if_splits)
qed

lemma conclude_gain:
  assumes "conclude now j t k r d = (res, d')" "is_trusted i d'" "\<not> is_trusted i d"
  shows "i = k \<and> res = Inr r \<and> approved r"
proof -
  have "is_trusted i (flip_verdict k (approved r) d)"
    using assms(1,2) is_trusted_cong [of d' "flip_verdict k (approved r) d"] by (auto simp: conclude_def)
  from is_trusted_flip [OF this assms(3)] assms(1) show ?thesis by (auto simp: conclude_def)
qed

lemma undecodable_gain:
  assumes "reject_undecodable now j t k d = (res, d')" "is_trusted i d'"
  shows "is_trusted i d"
proof (rule ccontr)
  assume n: "\<not> is_trusted i d"
  let ?d = "snd (log_trust_event now (Some j) ''judge_decode_failure''
        (Some [(''target_arc_id'', t), (''resource_id'', JInt k)]) d)"
  have "is_trusted i (flip_verdict k False ?d)" using assms by (simp add: reject_undecodable_def)
  moreover have "\<not> is_trusted i ?d" using n is_trusted_cong [of ?d d i] by simp
  ultimately show False using is_trusted_flip by blast
qed

lemma validate_policy_value_passed:
  "validate_policy_value je nm l = Inr c \<Longrightarrow> c_passed c \<Longrightarrow>
     \<exists>b. je_validate je (literal_type l) (JStr (serialized_value (je_fmt je) l)) = Inr b"
  by (auto simp: validate_policy_value_def Let_def split: sum.splits exn.splits)

lemma check_spec_passed:
  assumes "check_spec je s = Inr c" "c_passed c"
  shows "\<exists>o'. s = JObj o' \<and> (jtruthy (dflt (JStr []) (jget o' ''policy_type'')) \<longrightarrow>
     (\<exists>p b. jget o' ''policy_type'' = Some (JStr p) \<and>
        je_validate je p (dflt (JStr []) (jget o' ''value'')) = Inr b))"
  using assms
  by (cases s) (auto simp: check_spec_def Let_def dflt_def split: if_splits json.splits sum.splits exn.splits option.splits)

text \<open>What the package path has checked when it approves.\<close>

definition package_approved :: "judge_env \<Rightarrow> resource \<Rightarrow> pval \<Rightarrow> bool" where
  "package_approved je r x =
     (\<exists>tm h. produced_by_template r = Some tm \<and> je_handlers je tm = Some h \<and>
        (\<exists>why own. h x = Inr (True, why, own)) \<and>
        (\<forall>c fs nm l. x = PData c fs \<longrightarrow> (nm, l) \<in> set (literals_fields [] fs) \<longrightarrow>
           je_validate je (literal_type l) (JStr (serialized_value (je_fmt je) l)) = Inr True))"

text \<open>What the platform's check list has checked when it approves.\<close>

definition checklist_approved :: "judge_env \<Rightarrow> pval \<Rightarrow> bool" where
  "checklist_approved je x =
     (\<exists>specs. extraction_to_checks x = Inr specs \<and>
        (\<forall>s \<in> set specs. \<exists>o'. s = JObj o' \<and> (jtruthy (dflt (JStr []) (jget o' ''policy_type'')) \<longrightarrow>
           (\<exists>p. jget o' ''policy_type'' = Some (JStr p) \<and>
              je_validate je p (dflt (JStr []) (jget o' ''value'')) = Inr True))))"

lemma je_validate_True: "je_validate je p v = Inr b \<Longrightarrow> je_validate je p v = Inr True"
  unfolding je_validate_def using validate_Inr by (metis (full_types))

lemma package_judge_approved:
  assumes "package_judge je r x = Inr (Some R)" "approved R"
  shows "package_approved je r x"
proof -
  obtain tm h cs where t: "produced_by_template r = Some tm" "je_handlers je tm = Some h"
    "validate_policy_fields je x = Inr cs" "all_passed cs" "\<exists>why own. h x = Inr (True, why, own)"
    using assms by (auto simp: package_judge_def xbind_Inr split: option.splits if_splits sum.splits)
  have "je_validate je (literal_type l) (JStr (serialized_value (je_fmt je) l)) = Inr True"
    if "x = PData c fs" "(nm, l) \<in> set (literals_fields [] fs)" for c fs nm l
  proof -
    have "map_x (\<lambda>(nm, l). validate_policy_value je nm l) (literals_fields [] fs) = Inr cs"
      using t(3) that(1) by (simp add: validate_policy_fields_def)
    from map_x_all [OF this t(4) [unfolded all_passed_def] that(2)] show ?thesis
      by (auto dest!: validate_policy_value_passed intro: je_validate_True)
  qed
  then show ?thesis using t unfolding package_approved_def by blast
qed

lemma checklist_approvedI:
  assumes "extraction_to_checks x = Inr specs" "map_x (check_spec je) specs = Inr cs" "all_passed cs"
  shows "checklist_approved je x"
  unfolding checklist_approved_def
  using assms(1) map_x_all [OF assms(2) assms(3) [unfolded all_passed_def]]
  by (blast dest: check_spec_passed je_validate_True)

section \<open>Properties\<close>

text \<open>C1: Trust is earned. If a run of the JUDGE makes a resource trusted, then that resource is the
  pending extract of a reviewer of the arc the JUDGE reviews, it decoded, the run approved it, and
  every policy-typed value in it passed validation: through the package's handler, or through the
  platform's check list.\<close>

theorem judge_trust_gain:
  assumes run: "run_policy_checks je now j d = (res, d')" and "\<not> is_trusted i d" and "is_trusted i d'"
  shows "\<exists>t r x R. get_review_target j d = Inr t \<and> find_pending_extraction t d = Inr (Some r) \<and> rid r = i \<and>
    load_extraction je r d = Inr x \<and> res = Inr R \<and> approved R \<and>
    (package_approved je r x \<or> checklist_approved je x)"
proof -
  have ch: False if "d' = d \<or> resources d' = resources d"
    using that assms(2,3) is_trusted_cong [of d' d i] by auto
  obtain t r where t: "get_review_target j d = Inr t" "find_pending_extraction t d = Inr (Some r)"
    and jr: "judge_resource je now j t r d = (res, d')"
    using run ch by (auto simp: run_policy_checks_def split: if_splits sum.splits option.splits)
  have nr: "\<not> (reject_undecodable now j t k d = (res, d'))" for k
    using undecodable_gain assms(2,3) by blast
  obtain x where x: "load_extraction je r d = Inr x"
    using jr nr ch by (auto simp: judge_resource_def split: sum.splits if_splits)
  have goal: ?thesis if "conclude now j t (rid r) R d = (res, d')" "package_judge je r x = Inr (Some R) \<or>
      (approved R \<longrightarrow> checklist_approved je x)" for R
    using conclude_gain [OF that(1) assms(3,2)] that(2) t x package_judge_approved by blast
  show ?thesis
  proof (cases "package_judge je r x")
    case (Inl e)
    then show ?thesis using jr x ch by (simp add: judge_resource_def)
  next
    case (Inr p)
    show ?thesis
    proof (cases p)
      case (Some R)
      then show ?thesis using jr x Inr goal by (simp add: judge_resource_def)
    next
      case None
      then obtain specs cs where c: "extraction_to_checks x = Inr specs" "map_x (check_spec je) specs = Inr cs"
        and con: "conclude now j t (rid r) \<lparr> approved = all_passed cs, checks = cs,
           jreason = (if all_passed cs then [] else ''Policy check(s) failed'') \<rparr> d = (res, d')"
        using jr x Inr nr ch by (auto simp: judge_resource_def split: sum.splits if_splits)
      show ?thesis by (rule goal [OF con]) (use checklist_approvedI [OF c] in simp)
    qed
  qed
qed

definition demo_je :: judge_env where
  "demo_je = \<lparr> je_fm = no_regex, je_fmt = demo_fmt,
     je_policies = SecurityPolicies(''domain'' := [''example.com'']),
     je_files = (\<lambda>p. if p = ''x.json'' then Some ''doc'' else None),
     je_loads = (\<lambda>s. Parsed (JObj [(''checks'', JList [JObj [(''field'', JStr ''from''),
        (''policy_type'', JStr ''domain''), (''value'', JStr ''mail.example.com'')]])])),
     je_kinds = (\<lambda>_. None), je_templates = (\<lambda>_. None), je_handlers = (\<lambda>_. None) \<rparr>"

definition demo_extract :: resource where
  "demo_extract = \<lparr> rid = 7, content_type = ''application/json'', file_path = Some ''x.json'', byte_size = None,
     content_hash = None, produced_by_arc_id = Some 2, produced_by_template = Some ''t'',
     template_verdict = Some VPending, source_descriptor = None, rkind = Some ''PolicyCheckList'', pinned = False,
     retain_until = None, rcreated_at = 0, deprecated_at = None, deleted_at = None \<rparr>"

definition demo_judging :: db where
  "demo_judging = empty_db\<lparr> arcs := [(blank_arc 1)\<lparr> ainteg := UNTRUSTED, astatus := Completed \<rparr>,
       (blank_arc 2)\<lparr> aagent := REVIEWER, astatus := Completed \<rparr>, (blank_arc 3)\<lparr> aagent := JUDGE, astatus := Active \<rparr>],
     state := [\<lparr> sid = 1, s_arc = 2, s_key = ''_review_target'', s_value = Parsed (JInt 1), s_updated_at = 0 \<rparr>,
       \<lparr> sid = 2, s_arc = 3, s_key = ''_review_target'', s_value = Parsed (JInt 1), s_updated_at = 0 \<rparr>],
     resources := [demo_extract],
     arc_links := [\<lparr> lid = 1, l_arc = 2, l_resource = 7, l_role = LOutput, l_created_at = 0 \<rparr>] \<rparr>"

lemma demo_validates: "validate no_regex demo_fmt ''domain'' (JStr ''mail.example.com'')
    (SecurityPolicies(''domain'' := [''example.com''])) = Inr True"
  by code_simp

lemmas judge_demo = demo_judging_def demo_extract_def demo_je_def empty_db_def blank_arc_def

lemma demo_pending: "find_pending_extraction (JInt 1) demo_judging = Inr (Some demo_extract)"
  by (simp add: find_pending_extraction_def get_arc_def pending_outputs_def judge_demo)

lemma demo_decoded:
  "load_extraction demo_je demo_extract demo_judging = Inr (PData ''PolicyCheckList'' [(''checks'', PRaw (JList
     [JObj [(''field'', JStr ''from''), (''policy_type'', JStr ''domain''), (''value'', JStr ''mail.example.com'')]]))])"
  by (simp add: load_extraction_def read_resource_content_def get_resource_def resolve_kind_def PolicyCheckList_def
      coerce.simps field_annot_def new_instance_def xbind_def Let_def judge_demo)

lemma demo_run:
  "\<exists>R d'. run_policy_checks demo_je 5 3 demo_judging = (Inr R, d') \<and> approved R \<and> is_trusted 7 d'"
proof -
  have p: "package_judge demo_je demo_extract x = Inr None" for x
    by (simp add: package_judge_def demo_je_def demo_extract_def)
  have c: "map_x (check_spec demo_je) [JObj [(''field'', JStr ''from''), (''policy_type'', JStr ''domain''),
      (''value'', JStr ''mail.example.com'')]] = Inr [\<lparr> c_field = JStr ''from'', c_type = ''domain'',
        c_value = ''mail.example.com'', c_passed = True, c_reason = [] \<rparr>]"
    using demo_validates
    by (simp add: check_spec_def je_validate_def demo_je_def dflt_def jget_def xbind_def demo_fmt_def Let_def)
  have t: "get_review_target 3 demo_judging = Inr (JInt 1)" "get_arc 3 demo_judging \<noteq> None"
    by (simp_all add: get_review_target_def state_cell_def get_arc_def judge_demo)
  have m: "is_trusted 7 (flip_verdict 7 True demo_judging)"
    by (simp add: flip_verdict_def mark_template_verdict_def get_resource_def set_resource_def is_trusted_def
        resource_trust_def find_row_upd_row Let_def judge_demo)
  have i: "rid demo_extract = 7" by (simp add: demo_extract_def)
  obtain R d' where r: "run_policy_checks demo_je 5 3 demo_judging = (Inr R, d')" "approved R"
    "resources d' = resources (flip_verdict 7 True demo_judging)"
    using t demo_pending demo_decoded p c i
    by (simp add: run_policy_checks_def judge_resource_def extraction_to_checks_def PolicyCheckList_def
        conclude_def all_passed_def)
  then show ?thesis using m is_trusted_cong [OF r(3)] by blast
qed

theorem judge_trust_gain_witness:
  "\<exists>r x R d'. run_policy_checks demo_je 5 3 demo_judging = (Inr R, d') \<and> rid r = 7 \<and>
     (package_approved demo_je r x \<or> checklist_approved demo_je x)"
proof -
  obtain R d' where r: "run_policy_checks demo_je 5 3 demo_judging = (Inr R, d')" "is_trusted 7 d'"
    using demo_run by blast
  have n: "\<not> is_trusted 7 demo_judging"
    by (simp add: is_trusted_def get_resource_def resource_trust_def judge_demo)
  from judge_trust_gain [OF r(1) n r(2)] show ?thesis using r(1) by blast
qed

lemma run_policy_checks_arcs: "run_policy_checks je now j d = (res, d') \<Longrightarrow> arcs d' = arcs d"
proof -
  have f: "arcs (flip_verdict i ok e) = arcs e" for i ok e
    by (auto simp: flip_verdict_def mark_template_verdict_def set_resource_def Let_def split: sum.splits option.splits if_splits)
  assume "run_policy_checks je now j d = (res, d')"
  then show ?thesis
    by (auto simp: run_policy_checks_def judge_resource_def reject_undecodable_def conclude_def f
        split: if_splits sum.splits option.splits)
qed

lemma record_rejection_arcs [simp]: "arcs (record_judge_rejection now j t why d) = arcs d"
  by (auto simp: record_judge_rejection_def add_history_def log_history_def)

lemma judge_refusal_ev:
  "run_judge_checks fmt env je now j d = (False, d') \<Longrightarrow> ev d d'"
  unfolding run_judge_checks_def submit_judgement_def
  by (auto split: sum.splits prod.splits if_splits json.splits
      dest!: run_policy_checks_arcs elim!: submit_verdict_cases)



section \<open>Two gaps\<close>

text \<open>
  A value of the wrong JSON type in a field declared as a policy literal stays a plain value, and
  plain values are not validated; and an extract that does not fit its dataclass raises past the
  handling of undecodable extracts, which leaves its verdict pending.
\<close>

lemma email_field_unvalidated:
  assumes "\<And>s. v \<noteq> JStr s"
  shows "coerce (Literal CEmail) v = Inr (PRaw v)" and "literals_in nm (PRaw v) = []"
  using assms by (cases v; simp add: coerce.simps)+

lemma misfit_escapes:
  "load_extraction je r d = Inl (TypeError e) \<Longrightarrow> judge_resource je now j t r d = (Inl (TypeError e), d)"
  by (simp add: judge_resource_def undecodable_def)

end
