(* ===== verification/Read_Gate.thy ===== *)
theory Read_Gate
  imports Arc_Tree Resource_Manager Py_Text
begin

text \<open>
  The gate for reads into an LLM context (\<open>security/read_gate.py\<close>): who is reading, the
  integrity label of what is read, and the refusal.

  The tables the gate reads beside those of the arc engine are the record \<open>gate\<close>. What the
  operating system makes of a path (\<open>realpath\<close>, \<open>expanduser\<close>, \<open>abspath\<close>) and the configured
  directories are the record \<open>gate_env\<close>. Database errors are not modelled; the code treats them
  like a missing row. \<open>_path_label\<close> can raise on a directory name that \<open>isdigit\<close> accepts and
  \<open>int\<close> refuses, which \<open>path_label\<close> turns into \<open>untrusted\<close>.
\<close>

section \<open>Labels and readers\<close>

record label =
  llevel :: string
  lreason :: string

definition UNTRUSTED_LEVEL :: string where
  "UNTRUSTED_LEVEL = ''untrusted''"

definition ltrusted :: "label \<Rightarrow> bool" where
  "ltrusted l = (llevel l = ''trusted'')"

definition TRUSTED_LABEL :: label where
  "TRUSTED_LABEL = \<lparr> llevel = ''trusted'', lreason = ''trusted'' \<rparr>"

definition untrusted_label :: "string \<Rightarrow> label" where
  "untrusted_label r = \<lparr> llevel = UNTRUSTED_LEVEL, lreason = r \<rparr>"

definition join_labels :: "label option list \<Rightarrow> label option" where
  "join_labels ls =
     (case List.map_filter id ls of
        [] \<Rightarrow> None
      | l # rest \<Rightarrow>
          (case List.find (\<lambda>x. \<not> ltrusted x) (l # rest) of Some x \<Rightarrow> Some x | None \<Rightarrow> Some l))"

datatype reader_role = RTrusted | RReviewer | RJudge | RUntrusted

fun reader_role_value :: "reader_role \<Rightarrow> string" where
  "reader_role_value RTrusted = ''trusted''"
| "reader_role_value RReviewer = ''reviewer''"
| "reader_role_value RJudge = ''judge''"
| "reader_role_value RUntrusted = ''untrusted''"

record reader =
  rrole :: reader_role
  rconv :: "int option"
  rarc :: "int option"

record cfile_row =
  cf_id :: int
  cf_path :: string
  cf_arc :: "int option"

record exec_row =
  x_id :: int
  x_file :: int
  x_log :: "string option"
  x_taint :: "string option"

record prov_row =
  pv_path :: string
  pv_arc :: int
  pv_level :: string
  pv_at :: time

record gate =
  gdb :: db
  taints :: "int list"
  convs :: "(int \<times> string option) list"
  cfiles :: "cfile_row list"
  execs :: "exec_row list"
  provs :: "prov_row list"

definition reader_for :: "int option \<Rightarrow> int option \<Rightarrow> gate \<Rightarrow> reader" where
  "reader_for conv a g =
     \<lparr> rrole =
         (case a of
            None \<Rightarrow> RTrusted
          | Some i \<Rightarrow>
              (case find_arc i (gdb g) of
                 None \<Rightarrow> RTrusted
               | Some r \<Rightarrow>
                   if ainteg r \<noteq> TRUSTED then RUntrusted
                   else if aagent r = REVIEWER then RReviewer
                   else if aagent r = JUDGE then RJudge else RTrusted)),
       rconv = conv, rarc = a \<rparr>"

definition may_read :: "reader \<Rightarrow> label option \<Rightarrow> bool" where
  "may_read r l =
     (case l of None \<Rightarrow> True | Some x \<Rightarrow> if ltrusted x then True else rrole r \<noteq> RTrusted)"

section \<open>Labels of arcs, conversations and executions\<close>

definition arc_label :: "int option \<Rightarrow> gate \<Rightarrow> label" where
  "arc_label a g =
     (case a of
        None \<Rightarrow> untrusted_label ''no arc''
      | Some i \<Rightarrow>
          (case find_arc i (gdb g) of
             None \<Rightarrow> untrusted_label (''unknown arc #'' @ show_int i)
           | Some r \<Rightarrow>
               if ainteg r \<noteq> TRUSTED
               then untrusted_label (integrity_value (ainteg r) @ '' arc #'' @ show_int i)
               else if aagent r = REVIEWER then untrusted_label (''REVIEWER arc #'' @ show_int i)
               else TRUSTED_LABEL))"

definition taint_source_for_arc :: "int \<Rightarrow> gate \<Rightarrow> string option" where
  "taint_source_for_arc a g =
     (if ltrusted (arc_label (Some a) g) then None
      else Some (''arc-context:'' @ lreason (arc_label (Some a) g)))"

text \<open>\<open>^\[Arc #(\d+)\]\<close>.\<close>

definition arc_of_title :: "string \<Rightarrow> int option" where
  "arc_of_title t =
     (if starts_with t ''[Arc #''
      then let rest = drop 6 t; ds = takeWhile ascii_digit rest in
           (case dropWhile ascii_digit rest of
              c # _ \<Rightarrow> if c = CHR '']'' then digits_val False 0 ds else None
            | [] \<Rightarrow> None)
      else None)"

definition conversation_label :: "int option \<Rightarrow> gate \<Rightarrow> label" where
  "conversation_label c g =
     (case c of
        None \<Rightarrow> TRUSTED_LABEL
      | Some i \<Rightarrow>
          if i \<in> set (taints g) then untrusted_label (''tainted conversation #'' @ show_int i)
          else
            (case arc_of_title (case map_of (convs g) i of Some (Some t) \<Rightarrow> t | _ \<Rightarrow> []) of
               None \<Rightarrow> TRUSTED_LABEL
             | Some a \<Rightarrow>
                 let l = arc_label (Some a) g in
                 if ltrusted l then TRUSTED_LABEL
                 else untrusted_label (''conversation #'' @ show_int i @ '' of '' @ lreason l)))"

definition state_label :: "int option \<Rightarrow> json \<Rightarrow> gate \<Rightarrow> label" where
  "state_label a v g =
     (if a = Some 0 \<or> a = None
      then (case v of
              JObj d \<Rightarrow> (case jget d ''_tainted'' of
                          Some t \<Rightarrow> if jtruthy t then untrusted_label ''withheld output of a tainted execution''
                                    else TRUSTED_LABEL
                        | None \<Rightarrow> TRUSTED_LABEL)
            | _ \<Rightarrow> TRUSTED_LABEL)
      else arc_label a g)"

definition context_label :: "int option \<Rightarrow> int option \<Rightarrow> gate \<Rightarrow> label" where
  "context_label c a g =
     (case join_labels (Some (conversation_label c g) #
              (case a of None \<Rightarrow> [] | Some i \<Rightarrow> [Some (arc_label (Some i) g)])) of
        Some l \<Rightarrow> l | None \<Rightarrow> TRUSTED_LABEL)"

definition execution_label :: "int \<Rightarrow> gate \<Rightarrow> label" where
  "execution_label i g =
     (case List.find (\<lambda>x. x_id x = i) (execs g) of
        None \<Rightarrow> untrusted_label (''unknown execution #'' @ show_int i)
      | Some x \<Rightarrow>
          (case List.find (\<lambda>f. cf_id f = x_file x) (cfiles g) of
             None \<Rightarrow> untrusted_label (''unknown execution #'' @ show_int i)
           | Some f \<Rightarrow>
               if (case x_taint x of Some t \<Rightarrow> t \<noteq> [] | None \<Rightarrow> False)
               then untrusted_label (''tainted execution #'' @ show_int i)
               else
                 (case cf_arc f of
                    None \<Rightarrow> TRUSTED_LABEL
                  | Some a \<Rightarrow>
                      let l = arc_label (Some a) g in
                      if ltrusted l then TRUSTED_LABEL
                      else untrusted_label (''execution #'' @ show_int i @ '' of '' @ lreason l))))"

section \<open>Labels of files\<close>

record gate_env =
  realpath :: "string \<Rightarrow> string"
  expanduser :: "string \<Rightarrow> string"
  abspath :: "string \<Rightarrow> string"
  store_dir :: string
  tool_output_dir :: string
  code_dir :: "string option"
  log_dir :: "string option"
  workspaces_dir :: "string option"
  base_dir :: "string option"

definition under :: "gate_env \<Rightarrow> string \<Rightarrow> string option \<Rightarrow> string option" where
  "under e path rt =
     (case rt of
        None \<Rightarrow> None
      | Some r \<Rightarrow>
          if r = [] then None
          else let r' = realpath e (expanduser e r) in
               if path = r' then Some []
               else if starts_with path (r' @ ''/'') then Some (drop (length r' + 1) path)
               else None)"

definition os_join :: "string \<Rightarrow> string \<Rightarrow> string" where
  "os_join a b =
     (if starts_with b ''/'' then b
      else if a = [] \<or> ends_with a ''/'' then a @ b else a @ ''/'' @ b)"

definition resource_label :: "resource \<Rightarrow> label" where
  "resource_label r =
     (if resource_trust (Some r) = ''trusted'' then TRUSTED_LABEL
      else untrusted_label (''untrusted Resource #'' @ show_int (rid r)))"

definition code_file_label :: "string list \<Rightarrow> gate \<Rightarrow> label option" where
  "code_file_label cands g =
     (case List.find (\<lambda>f. cf_path f \<in> set cands) (cfiles g) of
        None \<Rightarrow> None
      | Some f \<Rightarrow>
          (case cf_arc f of
             None \<Rightarrow> Some TRUSTED_LABEL
           | Some a \<Rightarrow>
               let l = arc_label (Some a) g in
               if ltrusted l then Some TRUSTED_LABEL
               else Some (untrusted_label (''code file of '' @ lreason l))))"

definition code_paths :: "gate_env \<Rightarrow> string \<Rightarrow> string \<Rightarrow> string list" where
  "code_paths e dir stem =
     concat (map (\<lambda>r. [os_join r stem @ ''.py'', os_join r stem]) [dir, realpath e dir])"

definition log_file_label :: "gate_env \<Rightarrow> string \<Rightarrow> string list \<Rightarrow> gate \<Rightarrow> label option" where
  "log_file_label e rp cands g =
     (let own = map (\<lambda>x. Some (execution_label (x_id x) g))
                  (filter (\<lambda>x. case x_log x of Some p \<Rightarrow> p \<in> set cands | None \<Rightarrow> False) (execs g));
          more = (case (under e rp (log_dir e), code_dir e) of
             (Some rel, Some dir) \<Rightarrow>
               if rel \<noteq> [] \<and> dir \<noteq> [] \<and> ends_with rel ''.log''
               then let paths = code_paths e dir (take (length rel - 4) rel) in
                    (case List.find (\<lambda>f. cf_path f \<in> set paths) (cfiles g) of
                       None \<Rightarrow> []
                     | Some f \<Rightarrow>
                         code_file_label paths g #
                         map (\<lambda>x. Some (execution_label (x_id x) g))
                           (filter (\<lambda>x. x_file x = cf_id f \<and>
                              (case x_taint x of Some t \<Rightarrow> t \<noteq> [] | None \<Rightarrow> False)) (execs g)))
               else []
           | _ \<Rightarrow> [])
      in join_labels (own @ more))"

text \<open>The store directory names the resource by its first component.\<close>

definition store_labels :: "string option \<Rightarrow> gate \<Rightarrow> exn + label option list" where
  "store_labels rel g =
     (case rel of
        None \<Rightarrow> Inr []
      | Some r \<Rightarrow>
          if r = [] then Inr []
          else
            let first = before (CHR ''/'') r; miss = untrusted_label ''Resource store file'' in
            if isdigit first
            then (case py_int_of_string first of
                    None \<Rightarrow> Inl (ValueError ''int'')
                  | Some i \<Rightarrow>
                      (case get_resource i (gdb g) of
                         None \<Rightarrow> Inr [Some miss] | Some x \<Rightarrow> Inr [Some (resource_label x)]))
            else Inr [Some miss])"

definition prov_label :: "prov_row \<Rightarrow> label" where
  "prov_label p =
     (if pv_level p \<noteq> ''trusted''
      then untrusted_label (''file written by '' @ pv_level p @ '' context (arc #'' @ show_int (pv_arc p) @ '')'')
      else TRUSTED_LABEL)"

text \<open>\<open>arc-(\d+)(?:/|$)\<close>; the dollar sign also matches before a final newline.\<close>

definition arc_of_workspace :: "string \<Rightarrow> int option" where
  "arc_of_workspace ws =
     (if starts_with ws ''arc-''
      then let rest = drop 4 ws; tl' = dropWhile ascii_digit rest in
           if tl' = [] \<or> starts_with tl' ''/'' \<or> tl' = [CHR 0x0A]
           then digits_val False 0 (takeWhile ascii_digit rest) else None
      else None)"

definition workspace_labels :: "string option \<Rightarrow> gate \<Rightarrow> label option list" where
  "workspace_labels ws g =
     (case ws of
        None \<Rightarrow> []
      | Some w \<Rightarrow>
          if w = [] then []
          else (case arc_of_workspace w of None \<Rightarrow> [] | Some a \<Rightarrow> [Some (arc_label (Some a) g)]))"

definition state_dir_labels :: "string option \<Rightarrow> gate \<Rightarrow> exn + label option list" where
  "state_dir_labels st g =
     (case st of
        None \<Rightarrow> Inr []
      | Some s \<Rightarrow>
          if s \<noteq> [] \<and> isdigit (before (CHR ''/'') s)
          then (case py_int_of_string (before (CHR ''/'') s) of
                  None \<Rightarrow> Inl (ValueError ''int'')
                | Some a \<Rightarrow> Inr [Some (arc_label (Some a) g)])
          else Inr [])"

definition state_root :: "gate_env \<Rightarrow> string option" where
  "state_root e =
     (case base_dir e of
        None \<Rightarrow> None
      | Some b \<Rightarrow> if b = [] then None else Some (os_join (os_join b ''data'') ''state''))"

definition raw_path_label :: "gate_env \<Rightarrow> string \<Rightarrow> gate \<Rightarrow> exn + label option" where
  "raw_path_label e path g =
     (let expd = expanduser e path; rp = realpath e expd;
          cands = [rp, abspath e expd, path];
          ress = map (\<lambda>r. Some (resource_label r))
                   (filter (\<lambda>r. case file_path r of Some p \<Rightarrow> p \<in> set cands | None \<Rightarrow> False)
                      (resources (gdb g)));
          pvs = filter (\<lambda>p. pv_path p \<in> set cands) (provs g);
          tool = (if under e rp (Some (tool_output_dir e)) \<noteq> None \<and> pvs = []
                  then [Some (untrusted_label ''tool output with no recorded context'')] else []);
          code = (case under e rp (code_dir e) of
                    Some (c # cs) \<Rightarrow> [code_file_label cands g] | _ \<Rightarrow> []);
          logs = (case under e rp (log_dir e) of
                    Some (c # cs) \<Rightarrow> [log_file_label e rp cands g] | _ \<Rightarrow> [])
      in (case store_labels (under e rp (Some (store_dir e))) g of
            Inl x \<Rightarrow> Inl x
          | Inr store \<Rightarrow>
              (case state_dir_labels (under e rp (state_root e)) g of
                 Inl x \<Rightarrow> Inl x
               | Inr st \<Rightarrow>
                   Inr (join_labels (ress @ store @ map (\<lambda>p. Some (prov_label p)) pvs @ tool @ code @ logs @
                          workspace_labels (under e rp (workspaces_dir e)) g @ st)))))"

definition path_label :: "gate_env \<Rightarrow> string \<Rightarrow> gate \<Rightarrow> label option" where
  "path_label e path g =
     (case raw_path_label e path g of
        Inl _ \<Rightarrow> Some (untrusted_label ''unclassifiable path'') | Inr l \<Rightarrow> l)"

definition record_file_label :: "gate_env \<Rightarrow> time \<Rightarrow> string \<Rightarrow> label \<Rightarrow> int option \<Rightarrow> gate \<Rightarrow> gate" where
  "record_file_label e now path l writer g =
     (let rp = realpath e path in
      g\<lparr> provs := filter (\<lambda>p. pv_path p \<noteq> rp) (provs g) @
           [\<lparr> pv_path = rp, pv_arc = (case writer of None \<Rightarrow> 0 | Some a \<Rightarrow> a), pv_level = llevel l,
              pv_at = now \<rparr>] \<rparr>)"

section \<open>Refusals\<close>

definition opt_int :: "int option \<Rightarrow> json" where
  "opt_int x = (case x of None \<Rightarrow> JNull | Some i \<Rightarrow> JInt i)"

definition audit_refusal :: "time \<Rightarrow> reader \<Rightarrow> string \<Rightarrow> label \<Rightarrow> gate \<Rightarrow> gate" where
  "audit_refusal now r what l g =
     g\<lparr> gdb := snd (log_trust_event now (rarc r) ''trusted_read_refused''
          (Some [(''item'', JStr what), (''label'', JStr (llevel l)), (''reason'', JStr (lreason l)),
                 (''reader_role'', JStr (reader_role_value (rrole r))),
                 (''reader_conversation_id'', opt_int (rconv r))]) (gdb g)) \<rparr>"

definition withheld :: "string \<Rightarrow> label \<Rightarrow> string" where
  "withheld what l =
     ''['' @ what @ '' withheld: it comes from an untrusted context ('' @ lreason l @
     ''). A trusted context may not read it. To use it, review it with a REVIEWER + JUDGE batch.]''"

definition check :: "time \<Rightarrow> reader \<Rightarrow> string \<Rightarrow> label option \<Rightarrow> gate \<Rightarrow> string option \<times> gate" where
  "check now r what l g =
     (if may_read r l then (None, g)
      else case l of
          None \<Rightarrow> (None, g)
        | Some x \<Rightarrow> (Some (withheld what x), audit_refusal now r what x g))"

definition check_conversation :: "time \<Rightarrow> reader \<Rightarrow> int option \<Rightarrow> string \<Rightarrow> gate \<Rightarrow> string option \<times> gate" where
  "check_conversation now r c what g =
     (if c \<noteq> None \<and> c = rconv r then (None, g)
      else check now r what (Some (conversation_label c g)) g)"

text \<open>The first candidate with a response decides; \<open>json.loads\<close> may raise.\<close>

fun first_response :: "time \<Rightarrow> reader \<Rightarrow> int list \<Rightarrow> gate \<Rightarrow> exn + (json \<times> label option) \<times> gate" where
  "first_response now r [] g = Inr ((JStr [], None), g)"
| "first_response now r (a # as) g =
     (case state_cell a ''_agent_response'' (gdb g) of
        None \<Rightarrow> first_response now r as g
      | Some (Malformed _) \<Rightarrow> Inl (ValueError ''JSON'')
      | Some (Parsed v) \<Rightarrow>
          if \<not> jtruthy v then first_response now r as g
          else let l = arc_label (Some a) g in
               if may_read r (Some l) then Inr ((v, None), g)
               else Inr ((JStr [], Some l),
                      audit_refusal now r (''_agent_response of arc #'' @ show_int a) l g))"

definition agent_response_for :: "time \<Rightarrow> reader \<Rightarrow> int \<Rightarrow> gate \<Rightarrow> exn + (json \<times> label option) \<times> gate" where
  "agent_response_for now r a g =
     first_response now r (a # map aid (rev (get_children a (gdb g)))) g"

section \<open>Facts\<close>

lemma trusted_label [simp]: "ltrusted TRUSTED_LABEL" "\<not> ltrusted (untrusted_label r)"
  by (simp_all add: ltrusted_def TRUSTED_LABEL_def untrusted_label_def UNTRUSTED_LEVEL_def)

lemma may_read_iff: "may_read r l \<longleftrightarrow> (\<forall>x. l = Some x \<longrightarrow> ltrusted x \<or> rrole r \<noteq> RTrusted)"
  by (auto simp: may_read_def split: option.splits)

lemma check_none: "fst (check now r what l g) = None \<longleftrightarrow> may_read r l"
  by (auto simp: check_def may_read_iff split: option.splits)

lemma map_filter_id: "List.map_filter id ls = [x. Some x \<leftarrow> ls]"
  by (induction ls) (auto simp: map_filter_simps split: option.splits)

lemma join_untrusted:
  assumes "Some x \<in> set ls" "\<not> ltrusted x"
  shows "\<exists>l. join_labels ls = Some l \<and> \<not> ltrusted l"
proof -
  have x: "x \<in> set (List.map_filter id ls)" using assms(1) by (force simp: map_filter_def)
  then obtain y ys where f: "List.map_filter id ls = y # ys" by (cases "List.map_filter id ls") auto
  then obtain z where z: "List.find (\<lambda>u. \<not> ltrusted u) (y # ys) = Some z"
    using x assms(2) by (cases "List.find (\<lambda>u. \<not> ltrusted u) (y # ys)") (auto simp: find_None_iff split: if_splits)
  then have "\<not> ltrusted z" by (auto simp: find_Some_iff simp del: find.simps)
  then show ?thesis using f z by (simp add: join_labels_def del: find.simps)
qed

lemma context_untrusted:
  "\<not> ltrusted (arc_label (Some a) g) \<Longrightarrow> \<not> ltrusted (context_label c (Some a) g)"
  using join_untrusted [of "arc_label (Some a) g" "[Some (conversation_label c g), Some (arc_label (Some a) g)]"]
  by (auto simp: context_label_def)

lemma reader_untrusted_arc:
  "rrole (reader_for c (Some a) g) \<notin> {RTrusted, RJudge} \<Longrightarrow> \<not> ltrusted (arc_label (Some a) g)"
  by (auto simp: reader_for_def arc_label_def split: option.splits if_splits)

lemma takeWhile_digits: "\<not> ascii_digit c \<Longrightarrow> takeWhile ascii_digit (digits_of n @ c # r) = digits_of n"
  and dropWhile_digits: "\<not> ascii_digit c \<Longrightarrow> dropWhile ascii_digit (digits_of n @ c # r) = c # r"
  using digits_of_digits [of n] by (simp_all add: takeWhile_append2 dropWhile_append2 list_all_iff)

lemma digits_val_show: "0 \<le> i \<Longrightarrow> digits_val False 0 (show_int i) = Some i"
  using digits_val_of [of "nat i"] digits_val_start [of "digits_of (nat i)" 0] digits_of_digits [of "nat i"]
  by (simp add: show_int_def)

lemma arc_of_title_show: "0 \<le> a \<Longrightarrow> arc_of_title (''[Arc #'' @ show_int a @ '']'' @ rest) = Some a"
  using digits_val_show [of a] takeWhile_digits [of "CHR '']''" "nat a" rest]
    dropWhile_digits [of "CHR '']''" "nat a" rest]
  by (simp add: arc_of_title_def starts_with_def show_int_def ascii_digit_def Let_def)

lemma arc_of_workspace_show: "0 \<le> a \<Longrightarrow> arc_of_workspace (''arc-'' @ show_int a @ ''/'' @ rest) = Some a"
  using digits_val_show [of a] takeWhile_digits [of "CHR ''/''" "nat a" rest]
    dropWhile_digits [of "CHR ''/''" "nat a" rest]
  by (simp add: arc_of_workspace_def starts_with_def show_int_def ascii_digit_def Let_def)

section \<open>Properties\<close>

definition demo_arcs :: db where
  "demo_arcs = empty_db\<lparr> arcs := [(blank_arc 1), (blank_arc 2)\<lparr> aagent := REVIEWER, parent_id := Some 1 \<rparr>,
     (blank_arc 3)\<lparr> ainteg := UNTRUSTED, parent_id := Some 1 \<rparr>],
     state := [\<lparr> sid = 1, s_arc = 2, s_key = ''_agent_response'', s_value = Parsed (JStr ''text''), s_updated_at = 0 \<rparr>] \<rparr>"

definition demo_gate :: gate where
  "demo_gate = \<lparr> gdb = demo_arcs, taints = [], convs = [(5, Some ''[Arc #3] work'')], cfiles = [],
     execs = [], provs = [] \<rparr>"

lemma show_3: "show_int 3 = ''3''"
  by code_simp



text \<open>The working conversation of an arc carries the arc's label. A conversation titled as the
  dispatcher titles it, whatever the goal contains, is trusted exactly if it is not tainted and the
  arc it names is trusted.\<close>

theorem arc_conversation_label:
  assumes "map_of (convs g) i = Some (Some (''[Arc #'' @ show_int a @ ''] '' @ txt))" and "0 \<le> a"
  shows "ltrusted (conversation_label (Some i) g) \<longleftrightarrow> i \<notin> set (taints g) \<and> ltrusted (arc_label (Some a) g)"
  using assms arc_of_title_show [of a "'' '' @ txt"] by (auto simp: conversation_label_def Let_def)

theorem arc_conversation_label_witness:
  "map_of (convs demo_gate) 5 = Some (Some (''[Arc #'' @ show_int 3 @ ''] '' @ ''work'')) \<and>
   \<not> ltrusted (conversation_label (Some 5) demo_gate)"
proof
  show t: "map_of (convs demo_gate) 5 = Some (Some (''[Arc #'' @ show_int 3 @ ''] '' @ ''work''))"
    by (simp add: demo_gate_def show_3)
  show "\<not> ltrusted (conversation_label (Some 5) demo_gate)"
    using arc_conversation_label [OF t]
    by (simp add: arc_label_def demo_gate_def demo_arcs_def blank_arc_def)
qed

lemma path_label_untrusted:
  assumes "Some x \<in> set (workspace_labels (under e (realpath e (expanduser e path)) (workspaces_dir e)) g)"
    and "\<not> ltrusted x"
  shows "\<exists>l. path_label e path g = Some l \<and> \<not> ltrusted l"
proof (cases "raw_path_label e path g")
  case (Inl v)
  then show ?thesis by (simp add: path_label_def)
next
  case (Inr l)
  let ?ws = "workspace_labels (under e (realpath e (expanduser e path)) (workspaces_dir e)) g"
  obtain ls where "l = join_labels ls" "set ?ws \<subseteq> set ls"
    using Inr unfolding raw_path_label_def Let_def
    by (simp split: sum.splits) (rule that, erule sym, auto)
  moreover have "\<exists>z. join_labels ls = Some z \<and> \<not> ltrusted z"
    using assms calculation(2) by (intro join_untrusted) auto
  ultimately show ?thesis using Inr by (simp add: path_label_def)
qed

text \<open>A file in the workspace of an arc that is not trusted is never read by a trusted context,
  whatever provenance row, resource or code file also claims it, and whatever the path is called.\<close>

theorem workspace_file_refused:
  assumes "under e (realpath e (expanduser e path)) (workspaces_dir e) =
      Some (''arc-'' @ show_int a @ ''/'' @ rest)" and "0 \<le> a"
    and "\<not> ltrusted (arc_label (Some a) g)" and "rrole r = RTrusted"
  shows "fst (check now r what (path_label e path g) g) \<noteq> None"
proof -
  have "Some (arc_label (Some a) g) \<in>
      set (workspace_labels (under e (realpath e (expanduser e path)) (workspaces_dir e)) g)"
    using assms(1) arc_of_workspace_show [OF assms(2), of rest] by (simp add: workspace_labels_def)
  from path_label_untrusted [OF this assms(3)] assms(4) show ?thesis
    by (auto simp: check_none may_read_iff)
qed

definition demo_gate_env :: gate_env where
  "demo_gate_env = \<lparr> realpath = id, expanduser = id, abspath = id, store_dir = ''/d/resources'',
     tool_output_dir = ''/d/tool_output'', code_dir = Some ''/d/code'', log_dir = Some ''/d/logs'',
     workspaces_dir = Some ''/w'', base_dir = Some ''/b'' \<rparr>"

theorem workspace_file_refused_witness:
  "fst (check 0 (reader_for None None demo_gate) ''file''
     (path_label demo_gate_env ''/w/arc-3/out.txt'' (demo_gate\<lparr> provs := [\<lparr> pv_path = ''/w/arc-3/out.txt'',
       pv_arc = 0, pv_level = ''trusted'', pv_at = 0 \<rparr>] \<rparr>))
     (demo_gate\<lparr> provs := [\<lparr> pv_path = ''/w/arc-3/out.txt'', pv_arc = 0, pv_level = ''trusted'', pv_at = 0 \<rparr>] \<rparr>)) \<noteq> None"
proof -
  have u: "under demo_gate_env (realpath demo_gate_env (expanduser demo_gate_env ''/w/arc-3/out.txt''))
      (workspaces_dir demo_gate_env) = Some (''arc-'' @ show_int 3 @ ''/'' @ ''out.txt'')"
    by (simp add: demo_gate_env_def under_def starts_with_def show_3)
  let ?g = "demo_gate\<lparr> provs := [\<lparr> pv_path = ''/w/arc-3/out.txt'', pv_arc = 0, pv_level = ''trusted'', pv_at = 0 \<rparr>] \<rparr>"
  have "\<not> ltrusted (arc_label (Some 3) ?g)" "rrole (reader_for None None demo_gate) = RTrusted"
    by (simp_all add: reader_for_def demo_gate_def demo_arcs_def arc_label_def blank_arc_def)
  from workspace_file_refused [OF u _ this, of 0 "''file''"] show ?thesis by simp
qed

end
