(* ===== verification/Rate_Limiter.thy ===== *)
theory Rate_Limiter
  imports Py_Text
begin

text \<open>
  The sliding-window rate limiter in front of the model API (\<open>agent/rate_limiter.py\<close>).

  A bucket per model counts requests and input tokens of the last 60 seconds. Times are the
  readings of \<open>time.monotonic()\<close>, in seconds, as rationals. The waiting loop of \<open>acquire\<close> is
  driven by a list of ticks, one per round: what the shutdown flag and the clock show, whether the
  wait was cut short by a shutdown, and what other threads did to the buckets meanwhile. The loop
  has no answer (\<open>None\<close>) when the list ends before it does; \<open>acquire_returns\<close> shows that one
  tick more than the timeout has seconds is enough. The configuration keys the module reads are
  the record \<open>rl_config\<close>.
\<close>

section \<open>Buckets\<close>

record bucket =
  request_times :: "rat list"
  token_entries :: "(rat \<times> int) list"
  next_estimate :: int
  api_rpm_limit :: "int option"
  api_itpm_limit :: "int option"

definition ModelBucket :: bucket where
  "ModelBucket = \<lparr> request_times = [], token_entries = [], next_estimate = 1000,
     api_rpm_limit = None, api_itpm_limit = None \<rparr>"

record rl_config =
  rl_headroom :: rat
  rl_rpm :: int
  rl_itpm :: int
  rl_fill :: rat

text \<open>\<open>int()\<close> of a float truncates towards zero.\<close>

definition trunc :: "rat \<Rightarrow> int" where
  "trunc r = (if 0 \<le> r then \<lfloor>r\<rfloor> else \<lceil>r\<rceil>)"

definition get_rpm_limit :: "rl_config \<Rightarrow> bucket \<Rightarrow> int" where
  "get_rpm_limit cfg b =
     (case api_rpm_limit b of Some l \<Rightarrow> trunc (of_int l * rl_headroom cfg) | None \<Rightarrow> rl_rpm cfg)"

definition get_itpm_limit :: "rl_config \<Rightarrow> bucket \<Rightarrow> int" where
  "get_itpm_limit cfg b =
     (case api_itpm_limit b of Some l \<Rightarrow> trunc (of_int l * rl_headroom cfg) | None \<Rightarrow> rl_itpm cfg)"

definition clean_windows :: "rat \<Rightarrow> bucket \<Rightarrow> bucket" where
  "clean_windows now b =
     b\<lparr> request_times := dropWhile (\<lambda>t. t < now - 60) (request_times b),
        token_entries := dropWhile (\<lambda>e. fst e < now - 60) (token_entries b) \<rparr>"

definition current_itpm :: "bucket \<Rightarrow> int" where
  "current_itpm b = sum_list (map snd (token_entries b))"

type_synonym buckets = "(string, bucket) map"

definition bucket_key :: "string option \<Rightarrow> string" where
  "bucket_key m = (case m of Some (c # cs) \<Rightarrow> c # cs | _ \<Rightarrow> ''_default'')"

text \<open>The bucket of a model, created on first use.\<close>

definition get_bucket :: "string option \<Rightarrow> buckets \<Rightarrow> bucket" where
  "get_bucket m bs = (case bs (bucket_key m) of Some b \<Rightarrow> b | None \<Rightarrow> ModelBucket)"

definition put_bucket :: "string option \<Rightarrow> bucket \<Rightarrow> buckets \<Rightarrow> buckets" where
  "put_bucket m b bs = bs(bucket_key m \<mapsto> b)"

section \<open>Limits from response headers\<close>

definition header_int :: "(string \<Rightarrow> string option) \<Rightarrow> string \<Rightarrow> int option" where
  "header_int hdr k = Option.bind (hdr k) py_int_of_string"

definition option_list :: "'a option \<Rightarrow> 'a list" where
  "option_list x = (case x of None \<Rightarrow> [] | Some y \<Rightarrow> [y])"

text \<open>The oldest requests are dropped when the API has seen clearly fewer than were counted.\<close>

definition trim_drift :: "int option \<Rightarrow> bucket \<Rightarrow> bucket" where
  "trim_drift remaining b =
     (case (remaining, api_rpm_limit b) of
        (Some r, Some l) \<Rightarrow>
          let used = l - r; ours = int (length (request_times b)) in
          if ours > used + 2 then b\<lparr> request_times := drop (nat (ours - used)) (request_times b) \<rparr>
          else b
      | _ \<Rightarrow> b)"

definition update_bucket :: "(string \<Rightarrow> string option) \<Rightarrow> bucket \<Rightarrow> bucket" where
  "update_bucket hdr b =
     (let b1 = (case header_int hdr ''anthropic-ratelimit-requests-limit'' of
                  Some l \<Rightarrow> b\<lparr> api_rpm_limit := Some l \<rparr> | None \<Rightarrow> b);
          cands = option_list (header_int hdr ''anthropic-ratelimit-tokens-limit'') @
                  option_list (header_int hdr ''anthropic-priority-input-tokens-limit'');
          b2 = (case cands of [] \<Rightarrow> b1 | c # cs \<Rightarrow> b1\<lparr> api_itpm_limit := Some (fold min cs c) \<rparr>)
      in trim_drift (header_int hdr ''anthropic-ratelimit-requests-remaining'') b2)"

definition update_from_headers :: "(string \<Rightarrow> string option) \<Rightarrow> string option \<Rightarrow> buckets \<Rightarrow> buckets" where
  "update_from_headers hdr m bs = put_bucket m (update_bucket hdr (get_bucket m bs)) bs"

section \<open>Acquiring a slot\<close>

text \<open>The time of the first token entry at which enough tokens have left the window.\<close>

fun drained_at :: "int \<Rightarrow> int \<Rightarrow> (rat \<times> int) list \<Rightarrow> rat option" where
  "drained_at needed acc [] = None"
| "drained_at needed acc ((ts, n) # es) =
     (if acc + n \<ge> needed then Some ts else drained_at needed (acc + n) es)"

definition wait_time :: "rl_config \<Rightarrow> rat \<Rightarrow> bool \<Rightarrow> bool \<Rightarrow> bucket \<Rightarrow> rat" where
  "wait_time cfg now rpm_ok itpm_ok b =
     (let w1 = (case request_times b of
                  t # _ \<Rightarrow> if rpm_ok then 0 else max 0 (t + 60 - now + 1/10)
                | [] \<Rightarrow> 0);
          w2 = (if itpm_ok then w1
                else case drained_at (current_itpm b + next_estimate b - get_itpm_limit cfg b) 0 (token_entries b) of
                       None \<Rightarrow> w1
                     | Some ts \<Rightarrow> max w1 (ts + 60 - now + 1/10))
      in max w2 1)"

text \<open>One round under the lock: no wait means that the slot was taken.\<close>

definition try_acquire :: "rl_config \<Rightarrow> rat \<Rightarrow> bucket \<Rightarrow> bucket \<times> rat option" where
  "try_acquire cfg now b =
     (let rpm = get_rpm_limit cfg b; itpm = get_itpm_limit cfg b;
          b1 = clean_windows now b;
          rpm_ok = (rpm \<le> 0 \<or> int (length (request_times b1)) < rpm);
          itpm_ok = (itpm \<le> 0 \<or> current_itpm b1 + next_estimate b1 \<le> itpm)
      in if rpm_ok \<and> itpm_ok then (b1\<lparr> request_times := request_times b1 @ [now] \<rparr>, None)
         else (b1, Some (wait_time cfg now rpm_ok itpm_ok b1)))"

record tick =
  is_down :: bool
  t_now :: rat
  t_sleep :: rat
  woken_down :: bool
  meanwhile :: "buckets \<Rightarrow> buckets"

fun acquire_loop :: "rl_config \<Rightarrow> string option \<Rightarrow> rat \<Rightarrow> tick list \<Rightarrow> buckets \<Rightarrow> bool option \<times> buckets" where
  "acquire_loop cfg m deadline [] bs = (None, bs)"
| "acquire_loop cfg m deadline (k # ks) bs =
     (if is_down k \<or> deadline \<le> t_now k then (Some False, bs)
      else
        let (b, wait) = try_acquire cfg (t_now k) (get_bucket m bs);
            bs1 = put_bucket m b bs
        in (case wait of
              None \<Rightarrow> (Some True, bs1)
            | Some w \<Rightarrow>
                if woken_down k then (Some False, bs1)
                else acquire_loop cfg m deadline ks (meanwhile k bs1)))"

definition acquire :: "rl_config \<Rightarrow> rat \<Rightarrow> string option \<Rightarrow> rat \<Rightarrow> tick list \<Rightarrow> buckets \<Rightarrow> bool option \<times> buckets" where
  "acquire cfg timeout m start ks bs =
     (let b = get_bucket m bs; bs1 = put_bucket m b bs in
      if get_rpm_limit cfg b \<le> 0 \<and> get_itpm_limit cfg b \<le> 0 then (Some True, bs1)
      else acquire_loop cfg m (start + timeout) ks bs1)"

section \<open>Recording\<close>

definition record_tokens :: "rat \<Rightarrow> int \<Rightarrow> bucket \<Rightarrow> bucket" where
  "record_tokens now n b =
     clean_windows now (b\<lparr> token_entries := token_entries b @ [(now, n)],
       next_estimate := trunc (3/10 * of_int (next_estimate b) + 7/10 * of_int n) \<rparr>)"

definition record_usage :: "rat \<Rightarrow> int \<Rightarrow> string option \<Rightarrow> buckets \<Rightarrow> buckets" where
  "record_usage now n m bs = put_bucket m (record_tokens now n (get_bucket m bs)) bs"

definition fill_429 :: "rl_config \<Rightarrow> rat \<Rightarrow> bucket \<Rightarrow> bucket" where
  "fill_429 cfg now b =
     (let rpm = get_rpm_limit cfg b;
          n = max 0 (trunc (of_int rpm * rl_fill cfg) - int (length (request_times b)));
          b1 = (if rpm > 0
                then b\<lparr> request_times := request_times b @
                         map (\<lambda>i. now + of_nat i * (1/100)) [0..<nat n] \<rparr>
                else b);
          itpm = get_itpm_limit cfg b1;
          syn = max 0 (trunc (of_int itpm * rl_fill cfg) - current_itpm b1)
      in if itpm > 0 \<and> syn > 0 then b1\<lparr> token_entries := token_entries b1 @ [(now, syn)] \<rparr> else b1)"

definition record_429 :: "rl_config \<Rightarrow> rat \<Rightarrow> string option \<Rightarrow> buckets \<Rightarrow> buckets" where
  "record_429 cfg now m bs = put_bucket m (fill_429 cfg now (get_bucket m bs)) bs"

definition reset_limiter :: "buckets" where
  "reset_limiter = Map.empty"

section \<open>The loop ends\<close>

lemma wait_time_ge1: "1 \<le> wait_time cfg now r i b"
  by (simp add: wait_time_def Let_def)

lemma try_wait_ge1: "try_acquire cfg now b = (b', Some w) \<Longrightarrow> 1 \<le> w"
  by (auto simp: try_acquire_def Let_def wait_time_ge1 split: if_splits)

text \<open>
  What \<open>threading.Event.wait\<close> and the monotonic clock promise: the next round starts no earlier
  than the requested sleep after the reading it was computed from.
\<close>

fun sleeps_kept :: "rl_config \<Rightarrow> string option \<Rightarrow> rat \<Rightarrow> tick list \<Rightarrow> buckets \<Rightarrow> bool" where
  "sleeps_kept cfg m deadline (k # k' # ks) bs =
     (case try_acquire cfg (t_now k) (get_bucket m bs) of
        (b, None) \<Rightarrow> True
      | (b, Some w) \<Rightarrow>
          t_now k \<le> t_sleep k \<and> t_sleep k + min w (max 0 (deadline - t_sleep k)) \<le> t_now k' \<and>
          sleeps_kept cfg m deadline (k' # ks) (meanwhile k (put_bucket m b bs)))"
| "sleeps_kept cfg m deadline ks bs = True"

lemma loop_ends:
  "sleeps_kept cfg m deadline (k # ks) bs \<Longrightarrow> deadline - t_now k \<le> of_nat (length ks) \<Longrightarrow>
     fst (acquire_loop cfg m deadline (k # ks) bs) \<noteq> None"
proof (induction ks arbitrary: k bs)
  case Nil
  then show ?case by simp
next
  case (Cons k' ks)
  obtain b w where t: "try_acquire cfg (t_now k) (get_bucket m bs) = (b, w)" by fastforce
  show ?case
  proof (cases w)
    case None
    then show ?thesis using t by auto
  next
    case (Some v)
    have v: "1 \<le> v" using try_wait_ge1 t Some by blast
    have s: "t_now k \<le> t_sleep k" "t_sleep k + min v (max 0 (deadline - t_sleep k)) \<le> t_now k'"
      "sleeps_kept cfg m deadline (k' # ks) (meanwhile k (put_bucket m b bs))"
      using Cons.prems(1) t Some by simp_all
    have "deadline - t_now k' \<le> of_nat (length ks)"
    proof (cases "v \<le> deadline - t_sleep k")
      case True
      then show ?thesis using v s Cons.prems(2) by (simp add: min_def max_def split: if_splits)
    next
      case False
      then show ?thesis using v s by (simp add: min_def max_def split: if_splits)
    qed
    then have "fst (acquire_loop cfg m deadline (k' # ks) (meanwhile k (put_bucket m b bs))) \<noteq> None"
      using Cons.IH [OF s(3)] by blast
    then show ?thesis
      using t Some by (subst acquire_loop.simps) (auto simp: Let_def simp del: acquire_loop.simps)
  qed
qed

text \<open>C29: Waiting for a slot always ends. Whatever other threads do to the buckets while the
  limiter sleeps, \<open>acquire\<close> gives an answer within as many rounds as the timeout has seconds, plus
  one, because every round sleeps at least a second or until the deadline.\<close>

theorem acquire_returns:
  assumes "sleeps_kept cfg m (start + timeout) (k # ks) (put_bucket m (get_bucket m bs) bs)"
    and "start \<le> t_now k" and "timeout \<le> of_nat (length ks)"
  shows "fst (acquire cfg timeout m start (k # ks) bs) \<noteq> None"
proof -
  have "start + timeout - t_now k \<le> of_nat (length ks)" using assms(2,3) by simp
  from loop_ends [OF assms(1) this] show ?thesis
    by (auto simp: acquire_def Let_def simp del: acquire_loop.simps)
qed

definition demo_rl :: rl_config where
  "demo_rl = \<lparr> rl_headroom = 95/100, rl_rpm = 1, rl_itpm = 35000, rl_fill = 3/4 \<rparr>"

definition demo_tick :: "rat \<Rightarrow> tick" where
  "demo_tick t = \<lparr> is_down = False, t_now = t, t_sleep = t, woken_down = False, meanwhile = id \<rparr>"

definition busy :: buckets where
  "busy = [''_default'' \<mapsto> ModelBucket\<lparr> request_times := [99] \<rparr>]"

theorem acquire_returns_witness:
  "fst (acquire demo_rl 2 None 100 [demo_tick 100, demo_tick 102, demo_tick 103] busy) \<noteq> None"
proof (rule acquire_returns)
  show "sleeps_kept demo_rl None (100 + 2) [demo_tick 100, demo_tick 102, demo_tick 103]
      (put_bucket None (get_bucket None busy) busy)"
    by (simp add: demo_rl_def demo_tick_def busy_def try_acquire_def Let_def get_bucket_def put_bucket_def
        bucket_key_def get_rpm_limit_def get_itpm_limit_def clean_windows_def ModelBucket_def current_itpm_def
        wait_time_def)
qed (simp_all add: demo_tick_def)

section \<open>The request window\<close>

text \<open>
  A history of one bucket: acquisition attempts, recorded usage and 429 responses at successive
  times. It yields the times at which a slot was granted.
\<close>

datatype rl_op = Attempt | Usage int | TooMany

definition rl_apply :: "rl_config \<Rightarrow> rat \<Rightarrow> rl_op \<Rightarrow> bucket \<Rightarrow> rat list \<times> bucket" where
  "rl_apply cfg now x b =
     (case x of
        Attempt \<Rightarrow> (case try_acquire cfg now b of (b', None) \<Rightarrow> ([now], b') | (b', Some w) \<Rightarrow> ([], b'))
      | Usage n \<Rightarrow> ([], record_tokens now n b)
      | TooMany \<Rightarrow> ([], fill_429 cfg now b))"

fun granted :: "rl_config \<Rightarrow> (rat \<times> rl_op) list \<Rightarrow> bucket \<Rightarrow> rat list" where
  "granted cfg [] b = []"
| "granted cfg ((now, x) # xs) b = fst (rl_apply cfg now x b) @ granted cfg xs (snd (rl_apply cfg now x b))"

definition in_window :: "rat \<Rightarrow> rat list \<Rightarrow> rat list" where
  "in_window t gs = filter (\<lambda>g. t - 60 \<le> g \<and> g \<le> t) gs"

text \<open>The bucket still counts every grant of the last 60 seconds.\<close>

definition remembers :: "rat \<Rightarrow> rat list \<Rightarrow> bucket \<Rightarrow> bool" where
  "remembers now gs b =
     (mset (filter (\<lambda>g. now - 60 \<le> g) gs) \<subseteq># mset (filter (\<lambda>g. now - 60 \<le> g) (request_times b)))"

lemma filter_dropWhile_old: "filter (\<lambda>g. (c::rat) \<le> g) (dropWhile (\<lambda>t. t < c) xs) = filter (\<lambda>g. c \<le> g) xs"
  by (induction xs) auto

lemma length_filter_weaken: "(\<And>x. P x \<Longrightarrow> Q x) \<Longrightarrow> length (filter P xs) \<le> length (filter Q xs)"
  by (induction xs) (auto intro: le_SucI)

lemma remembers_clean: "remembers now gs b \<Longrightarrow> remembers now gs (clean_windows now b)"
  by (simp add: remembers_def clean_windows_def filter_dropWhile_old)

lemma remembers_later:
  assumes "remembers now gs b" "now \<le> later"
  shows "remembers later gs b"
proof -
  have f: "filter (\<lambda>g. later - 60 \<le> g) ys = filter (\<lambda>g. later - 60 \<le> g) (filter (\<lambda>g. now - 60 \<le> g) ys)"
    for ys :: "rat list"
    using assms(2) by (induction ys) auto
  show ?thesis
    unfolding remembers_def f [of gs] f [of "request_times b"] mset_filter
    using multiset_filter_mono [OF assms(1) [unfolded remembers_def mset_filter]] .
qed

lemma remembers_more:
  "remembers now gs b \<Longrightarrow> request_times b' = request_times b @ ts \<Longrightarrow> remembers now gs b'"
  by (simp add: remembers_def subset_mset.add_increasing2)

lemma fill_429_times: "\<exists>ts. request_times (fill_429 cfg now b) = request_times b @ ts"
  by (auto simp: fill_429_def Let_def)

lemma limits_frame:
  "get_rpm_limit cfg (clean_windows now b) = get_rpm_limit cfg b"
  "get_rpm_limit cfg (record_tokens now n b) = get_rpm_limit cfg b"
  "get_rpm_limit cfg (fill_429 cfg now b) = get_rpm_limit cfg b"
  "get_rpm_limit cfg (b\<lparr> request_times := ts \<rparr>) = get_rpm_limit cfg b"
  by (simp_all add: get_rpm_limit_def clean_windows_def record_tokens_def fill_429_def Let_def)

lemma rl_apply_keeps:
  assumes "remembers now gs b" "rl_apply cfg now x b = (gr, b')"
  shows "remembers now (gs @ gr) b'" "get_rpm_limit cfg b' = get_rpm_limit cfg b"
    "gr \<noteq> [] \<Longrightarrow> 0 < get_rpm_limit cfg b \<Longrightarrow>
       gr = [now] \<and> int (length (filter (\<lambda>g. now - 60 \<le> g) (gs @ gr))) \<le> get_rpm_limit cfg b"
proof -
  have cl: "remembers now gs (clean_windows now b)" by (rule remembers_clean [OF assms(1)])
  have usage: "remembers now gs (record_tokens now n b)" for n
    using cl by (simp add: remembers_def record_tokens_def clean_windows_def)
  obtain ts where ts: "request_times (fill_429 cfg now b) = request_times b @ ts"
    using fill_429_times by blast
  have cnt: "length (filter (\<lambda>g. now - 60 \<le> g) gs) \<le> length (request_times (clean_windows now b))"
    using size_mset_mono [OF cl [unfolded remembers_def]]
    by (metis size_mset length_filter_le le_trans)
  show "remembers now (gs @ gr) b'"
    using assms(2) cl usage remembers_more [OF assms(1) ts]
    by (auto simp: rl_apply_def try_acquire_def Let_def remembers_def split: rl_op.splits if_splits)
  show "get_rpm_limit cfg b' = get_rpm_limit cfg b"
    using assms(2) by (auto simp: rl_apply_def try_acquire_def Let_def limits_frame split: rl_op.splits if_splits)
  assume "gr \<noteq> []" "0 < get_rpm_limit cfg b"
  then show "gr = [now] \<and> int (length (filter (\<lambda>g. now - 60 \<le> g) (gs @ gr))) \<le> get_rpm_limit cfg b"
    using assms(2) cnt
    by (auto simp: rl_apply_def try_acquire_def Let_def split: rl_op.splits if_splits)
qed

lemma window_bound:
  assumes "sorted (map fst xs)" "\<forall>t \<in> fst ` set xs. now \<le> t" "remembers now gs b"
    "0 < get_rpm_limit cfg b" "\<forall>g \<in> set gs. g \<le> now"
    "\<forall>t. int (length (in_window t gs)) \<le> get_rpm_limit cfg b"
  shows "int (length (in_window t (gs @ granted cfg xs b))) \<le> get_rpm_limit cfg b"
  using assms
proof (induction xs arbitrary: now gs b)
  case Nil
  then show ?case by simp
next
  case (Cons a xs)
  obtain u x where a: "a = (u, x)" by fastforce
  obtain gr b' where r: "rl_apply cfg u x b = (gr, b')" by fastforce
  have u: "now \<le> u" using Cons.prems(2) a by simp
  have rm: "remembers u gs b" by (rule remembers_later [OF Cons.prems(3) u])
  note k = rl_apply_keeps [OF rm r]
  have le: "\<forall>g \<in> set (gs @ gr). g \<le> u"
    using Cons.prems(4,5) k(3) u by (cases "gr = []") force+
  have bound: "int (length (in_window t (gs @ gr))) \<le> get_rpm_limit cfg b" for t
  proof (cases "gr = []")
    case True
    then show ?thesis using Cons.prems(6) by simp
  next
    case False
    then have g: "gr = [u]" "int (length (filter (\<lambda>g. u - 60 \<le> g) (gs @ gr))) \<le> get_rpm_limit cfg b"
      using k(3) Cons.prems(4) by auto
    show ?thesis
    proof (cases "u \<le> t")
      case True
      have "length (in_window t (gs @ gr)) \<le> length (filter (\<lambda>g. u - 60 \<le> g) (gs @ gr))"
        using True unfolding in_window_def by (intro length_filter_weaken) auto
      then show ?thesis using g(2) by linarith
    next
      case False
      then have "in_window t (gs @ gr) = in_window t gs" using g(1) by (simp add: in_window_def)
      then show ?thesis using Cons.prems(6) by simp
    qed
  qed
  have "int (length (in_window t ((gs @ gr) @ granted cfg xs b'))) \<le> get_rpm_limit cfg b'"
    using Cons.prems(1,4) a le bound k(1,2) by (intro Cons.IH [of u]) auto
  then show ?case using a r k(2) by simp
qed



section \<open>An estimate above the token limit\<close>

definition stuck :: "rl_config \<Rightarrow> bucket \<Rightarrow> bool" where
  "stuck cfg b = (0 < get_itpm_limit cfg b \<and> get_itpm_limit cfg b < next_estimate b \<and>
     list_all (\<lambda>e. 0 \<le> snd e) (token_entries b))"

lemma sum_entries_ge0: "list_all (\<lambda>e. 0 \<le> snd e) es \<Longrightarrow> 0 \<le> sum_list (map snd (es :: (rat \<times> int) list))"
  by (induction es) auto

lemma list_all_dropWhile: "list_all P xs \<Longrightarrow> list_all P (dropWhile Q xs)"
  by (induction xs) auto

lemma stuck_try:
  assumes "stuck cfg b"
  obtains b' w where "try_acquire cfg now b = (b', Some w)" "stuck cfg b'" "next_estimate b' = next_estimate b"
proof -
  have st: "stuck cfg (clean_windows now b)"
    using assms by (simp add: stuck_def clean_windows_def get_itpm_limit_def list_all_dropWhile)
  then have "0 \<le> current_itpm (clean_windows now b)"
    by (simp add: stuck_def current_itpm_def sum_entries_ge0)
  then have "\<not> (current_itpm (clean_windows now b) + next_estimate b \<le> get_itpm_limit cfg b)"
    using assms by (simp add: stuck_def)
  moreover have "next_estimate (clean_windows now b) = next_estimate b" by (simp add: clean_windows_def)
  ultimately have "\<exists>w. try_acquire cfg now b = (clean_windows now b, Some w)"
    using assms by (auto simp: try_acquire_def Let_def stuck_def)
  then show ?thesis using that st by (auto simp: clean_windows_def)
qed

lemma get_put_bucket [simp]: "get_bucket m (put_bucket m b bs) = b"
  by (simp add: get_bucket_def put_bucket_def)

lemma stuck_loop:
  "stuck cfg (get_bucket m bs) \<Longrightarrow> list_all (\<lambda>k. meanwhile k = id) ks \<Longrightarrow>
     fst (acquire_loop cfg m deadline ks bs) \<noteq> Some True \<and>
     stuck cfg (get_bucket m (snd (acquire_loop cfg m deadline ks bs)))"
proof (induction ks arbitrary: bs)
  case Nil
  then show ?case by simp
next
  case (Cons k ks)
  obtain b w where t: "try_acquire cfg (t_now k) (get_bucket m bs) = (b, Some w)" "stuck cfg b"
    using stuck_try [OF Cons.prems(1), of "t_now k"] by blast
  have "stuck cfg (get_bucket m (put_bucket m b bs))" using t(2) by simp
  from Cons.IH [OF this] show ?case
    using t Cons.prems by (auto simp: Let_def)
qed

text \<open>One large call can close a model for good. When the estimate of the next request exceeds
  the token limit, no call of \<open>acquire\<close> succeeds, with any timeout and even with an empty window,
  and the bucket stays in that condition, since only a completed call lowers the estimate.\<close>

theorem estimate_starves:
  assumes "stuck cfg (get_bucket m bs)" and "list_all (\<lambda>k. meanwhile k = id) ks"
  shows "fst (acquire cfg timeout m start ks bs) \<noteq> Some True \<and>
    stuck cfg (get_bucket m (snd (acquire cfg timeout m start ks bs)))"
proof -
  have "stuck cfg (get_bucket m (put_bucket m (get_bucket m bs) bs))" using assms(1) by simp
  from stuck_loop [OF this assms(2), of "start + timeout"] show ?thesis
    using assms(1) by (simp add: acquire_def Let_def stuck_def)
qed

theorem estimate_starves_witness:
  "fst (acquire demo_rl 120 None 500 [demo_tick 500, demo_tick 560, demo_tick 620]
     (record_usage 100 60000 None Map.empty)) \<noteq> Some True"
proof -
  have "stuck demo_rl (get_bucket None (record_usage 100 60000 None Map.empty))"
    by (simp add: record_usage_def get_bucket_def [of None Map.empty] record_tokens_def ModelBucket_def
        clean_windows_def stuck_def get_itpm_limit_def demo_rl_def trunc_def)
  from estimate_starves [OF this, of "[demo_tick 500, demo_tick 560, demo_tick 620]" 120 500]
  show ?thesis by (simp add: demo_tick_def)
qed

end
