(* ===== verification/Queue_Spec.thy ===== *)
theory Queue_Spec
  imports Work_Queue
begin

text \<open>
  What the work queue is for, without rows and statuses: a board of jobs that may still run. A
  job is posted unless a live job has its key, the best job that is due is started, and a started
  job is done, or goes back to the board with one attempt less, or is dropped with the last
  attempt. The rows of \<open>core/engine/work_queue.py\<close> implement the board: finished rows are
  invisible and their keys are free again.
\<close>

section \<open>The board\<close>

record job =
  jkey :: "string option"
  jevent :: string
  jpayload :: json
  jdue :: "timestr option"
  jorder :: "int \<times> int"
  running :: bool
  attempts :: int

type_synonym board = "int \<rightharpoonup> job"

definition key_live :: "string option \<Rightarrow> board \<Rightarrow> bool" where
  "key_live ik b = (ik \<noteq> None \<and> (\<exists>j \<in> ran b. jkey j = ik))"

definition due :: "time \<Rightarrow> job \<Rightarrow> bool" where
  "due now j =
     (\<not> running j \<and> (case jdue j of None \<Rightarrow> True | Some (At t) \<Rightarrow> cur_ts t \<le> cur_ts now | Some (BadTime _) \<Rightarrow> False))"

inductive board_step :: "board \<Rightarrow> board \<Rightarrow> bool" where
  post: "i \<notin> dom b \<Longrightarrow> \<not> key_live (jkey j) b \<Longrightarrow> \<not> running j \<Longrightarrow> 1 \<le> attempts j \<Longrightarrow>
    board_step b (b(i \<mapsto> j))"
| refuse: "key_live ik b \<Longrightarrow> board_step b b"
| start: "b i = Some j \<Longrightarrow> due now j \<Longrightarrow> (\<forall>k \<in> ran b. due now k \<longrightarrow> jorder j \<le> jorder k) \<Longrightarrow>
    board_step b (b(i \<mapsto> j\<lparr> running := True \<rparr>))"
| idle: "(\<forall>k \<in> ran b. \<not> due now k) \<Longrightarrow> board_step b b"
| finish: "b i = Some j \<Longrightarrow> running j \<Longrightarrow> board_step b (b(i := None))"
| again: "b i = Some j \<Longrightarrow> running j \<Longrightarrow> 1 < attempts j \<Longrightarrow>
    board_step b (b(i \<mapsto> j\<lparr> running := False, attempts := attempts j - 1 \<rparr>))"
| drop: "b i = Some j \<Longrightarrow> running j \<Longrightarrow> attempts j = 1 \<Longrightarrow> board_step b (b(i := None))"

section \<open>The board that a table shows\<close>

definition job_of :: "work_item \<Rightarrow> job" where
  "job_of r = \<lparr> jkey = idempotency_key r, jevent = event_type r, jpayload = payload r,
     jdue = scheduled_at r, jorder = wq_order r, running = (wstatus r = WClaimed),
     attempts = max 1 (wmax_retries r) - wretry_count r \<rparr>"

definition board :: "work_item list \<Rightarrow> board" where
  "board q i =
     (case find_row wid i q of
        None \<Rightarrow> None
      | Some r \<Rightarrow> if live_item r then Some (job_of r) else None)"

lemma board_live:
  "wf_ids wid q \<Longrightarrow> ran (board q) = job_of ` {r \<in> set q. live_item r}"
proof -
  assume wf: "wf_ids wid q"
  have "(\<exists>i. board q i = Some j) \<longleftrightarrow> (\<exists>r \<in> set q. live_item r \<and> j = job_of r)" for j
  proof
    assume "\<exists>i. board q i = Some j"
    then show "\<exists>r \<in> set q. live_item r \<and> j = job_of r"
      by (auto simp: board_def split: option.splits if_splits dest: find_row_in)
  next
    assume "\<exists>r \<in> set q. live_item r \<and> j = job_of r"
    then obtain r where "r \<in> set q" "live_item r" "j = job_of r" by blast
    then have "board q (wid r) = Some j" using wf by (simp add: board_def find_row_distinct)
    then show "\<exists>i. board q i = Some j" ..
  qed
  then show ?thesis by (auto simp: ran_def)
qed

lemma finished_live: "finished r \<longleftrightarrow> \<not> live_item r"
  by (cases "wstatus r") (simp_all add: finished_def live_item_def)

lemma board_upd_row:
  assumes "\<And>r. wid (f r) = wid r"
  shows "board (upd_row wid i f q) =
    (board q)(i := case find_row wid i q of
        None \<Rightarrow> None
      | Some r \<Rightarrow> if live_item (f r) then Some (job_of (f r)) else None)"
  using assms by (auto simp: fun_eq_iff board_def find_row_upd_row split: option.splits)

lemma board_clear: "wf_ids wid q \<Longrightarrow> board (clear_finished ik q) = board q"
proof -
  assume wf: "wf_ids wid q"
  have "board (del_where P q) = board q" if "\<And>r. P r \<Longrightarrow> finished r" for P
    using wf that by (auto simp: fun_eq_iff board_def find_row_del_where finished_live split: option.splits)
  from this [of "\<lambda>r. idempotency_key r = ik \<and> finished r"] show ?thesis
    by (auto simp: clear_finished_def split: option.splits)
qed

section \<open>The operations implement the board\<close>

lemma enqueue_board:
  assumes "wq_inv q"
  shows "board_step (board q) (board (snd (enqueue now ev pl ik maxr sched prio q)))"
proof (cases "key_taken ik (clear_finished ik q)")
  case True
  have inv: "wf_ids wid (clear_finished ik q)"
    using clear_finished_inv [OF assms, of ik] by (simp add: wq_inv_def)
  obtain k r where k: "ik = Some k" "r \<in> set (clear_finished ik q)" "idempotency_key r = Some k"
    using True by (auto simp: key_taken_def list_ex_iff)
  then have "live_item r" by (auto simp: clear_finished_def finished_live del_where_def)
  then have "key_live ik (board (clear_finished ik q))"
    using k inv by (auto simp: key_live_def board_live [of "clear_finished (Some k) q"] job_of_def
        intro!: bexI [of _ r])
  then show ?thesis
    using True assms board_clear [of q ik] by (auto simp: enqueue_def Let_def wq_inv_def intro: refuse)
next
  case False
  let ?q = "clear_finished ik q" and ?i = "next_rowid wid (clear_finished ik q)"
  let ?r = "\<lparr> wid = ?i, event_type = ev, payload = pl, wstatus = WPending, wretry_count = 0,
    wmax_retries = maxr, idempotency_key = ik, werror = None, wcreated_at = cur_ts now,
    claimed_at = None, wcompleted_at = None, scheduled_at = sched, wpriority = prio \<rparr>"
  have wf: "wf_ids wid ?q" using clear_finished_inv [OF assms, of ik] by (simp add: wq_inv_def)
  have b: "board (?q @ [?r]) = (board ?q)(?i \<mapsto> job_of ?r)"
    by (auto simp: fun_eq_iff board_def find_row_append live_item_def split: option.splits)
  have "\<not> key_live ik (board ?q)"
    using False by (auto simp: key_live_def board_live [OF wf] job_of_def key_taken_def list_ex_iff)
  moreover have "?i \<notin> dom (board ?q)" by (simp add: board_def domIff)
  ultimately have "board_step (board ?q) ((board ?q)(?i \<mapsto> job_of ?r))"
    by (intro post) (simp_all add: job_of_def)
  then show ?thesis
    using False assms board_clear [of q ik] b by (simp add: enqueue_def Let_def wq_inv_def)
qed

lemma ready_due: "wq_ready now r \<longleftrightarrow> live_item r \<and> due now (job_of r)"
  by (cases "wstatus r") (simp_all add: wq_ready_def due_def job_of_def live_item_def)

lemma claim_board:
  assumes "wq_inv q"
  shows "board_step (board q) (board (snd (claim now q)))"
proof (cases "first_by wq_order (filter (wq_ready now) q)")
  case None
  then have "\<forall>r \<in> set q. \<not> wq_ready now r" by (simp add: first_by_None filter_empty_conv)
  then have "board_step (board q) (board q)"
    using assms by (intro idle [of _ now]) (auto simp: board_live wq_inv_def ready_due)
  then show ?thesis using None by (simp add: claim_def)
next
  case (Some r)
  have r: "r \<in> set q" "wq_ready now r" using first_by_in [OF Some] by auto
  then have f: "find_row wid (wid r) q = Some r"
    using assms by (simp add: wq_inv_def find_row_distinct)
  have m: "\<forall>k \<in> ran (board q). due now k \<longrightarrow> jorder (job_of r) \<le> jorder k"
    using assms first_by_min [OF Some]
    by (auto simp: board_live wq_inv_def ready_due job_of_def)
  have "board_step (board q) ((board q)(wid r \<mapsto> (job_of r)\<lparr> running := True \<rparr>))"
    using r f m by (intro start) (auto simp: board_def ready_due)
  moreover have "live_item (mark_claimed now r)"
    "job_of (mark_claimed now r) = (job_of r)\<lparr> running := True \<rparr>"
    by (simp_all add: mark_claimed_def live_item_def job_of_def wq_order_def)
  ultimately show ?thesis using Some f by (simp add: claim_def board_upd_row)
qed

lemma claimed_job:
  "find_row wid i q = Some r \<Longrightarrow> wstatus r = WClaimed \<Longrightarrow>
     board q i = Some (job_of r) \<and> running (job_of r)"
  by (simp add: board_def live_item_def job_of_def)

lemma complete_board:
  assumes "find_row wid i q = Some r" "wstatus r = WClaimed"
  shows "board_step (board q) (board (complete now i q))"
  using assms claimed_job [OF assms] finish [of "board q" i "job_of r"]
  by (simp add: complete_def board_upd_row live_item_def)

lemma fail_board:
  assumes "wq_inv q" and f: "find_row wid i q = Some r" and c: "wstatus r = WClaimed"
  shows "board_step (board q) (board (fail_item now i err q))"
proof -
  have ok: "item_ok r" using assms by (auto simp: wq_inv_def list_all_iff dest: find_row_in)
  note b = claimed_job [OF f c]
  show ?thesis
  proof (cases "wretry_count r + 1 \<ge> wmax_retries r")
    case True
    then have "attempts (job_of r) = 1"
      using ok c by (auto simp: job_of_def item_ok_def live_item_def)
    with b have "board_step (board q) ((board q)(i := None))" by (blast intro: drop)
    then show ?thesis
      using f True by (simp add: fail_item_def board_upd_row mark_dead_def live_item_def)
  next
    case False
    then have "1 < attempts (job_of r)" by (simp add: job_of_def)
    with b have "board_step (board q)
        ((board q)(i \<mapsto> (job_of r)\<lparr> running := False, attempts := attempts (job_of r) - 1 \<rparr>))"
      by (blast intro: again)
    moreover have "live_item (mark_retry err r)" by (simp add: mark_retry_def live_item_def)
    moreover have "job_of (mark_retry err r) =
        (job_of r)\<lparr> running := False, attempts := attempts (job_of r) - 1 \<rparr>"
      by (simp add: job_of_def mark_retry_def wq_order_def)
    ultimately show ?thesis using f False by (simp add: fail_item_def board_upd_row)
  qed
qed

section \<open>Properties\<close>



end
