(* ===== verification/Arc_Structure.thy ===== *)
theory Arc_Structure
  imports Arc_Lifecycle
begin

text \<open>
  What creation, the order of siblings, the counters and the read grants promise
  (\<open>core/arcs/manager.py\<close>, \<open>core/arcs/performance_counters.py\<close>): the state of a new arc, the
  place of a new child after its siblings, the descendant counts, and which reads a grant allows.
\<close>

section \<open>The table after a child was added\<close>

lemma max_step_order_ge: "s \<in> set (children_rows as p) \<Longrightarrow> step_order s \<le> max_step_order as p"
proof -
  assume "s \<in> set (children_rows as p)"
  then have "step_order s \<in> set (map step_order (children_rows as p))" by simp
  then show ?thesis using fold_max_ge
    by (cases "map step_order (children_rows as p)") (auto simp: max_step_order_def)
qed

lemma add_child_arcs:
  assumes "add_child env now p kw d = Inr (n, d')" "wf_tree (arcs d)"
  obtains par a where "find_arc p d = Some par" "astatus par \<notin> FROZEN_STATUSES"
    "\<not> (from_template par \<and> \<not> template_mutable par)"
    "aid a = n" "n = next_rowid aid (arcs d)" "parent_id a = Some p"
    "step_order a = max_step_order (arcs d) p + 1" "descendant_arc_count a = 0"
    "wf_tree (arcs d @ [a])"
    "arcs d' = upd_where (\<lambda>b. aid b \<in> set (walk_ancestors (arcs d @ [a]) n)) (bump_arc_count now) (arcs d @ [a])"
proof -
  let ?ca = "kw\<lparr> ca_parent := Some p, ca_step_order := max_step_order (arcs d) p + 1 \<rparr>"
  let ?d1 = "log_history now p ''child_added'' (JObj [(''child_name'', JStr (ca_name kw))]) None (Some ''system'') d"
  obtain par a d2 where i: "insert_arc_row env now ?ca ?d1 = Inr (a, d2)" "aid a = n"
    "d' = after_add_child now ?ca a d2" "find_arc p d = Some par" "astatus par \<notin> FROZEN_STATUSES"
    "\<not> (from_template par \<and> \<not> template_mutable par)"
    using assms by (auto simp: add_child_def Let_def split: option.splits if_splits sum.splits prod.splits)
  obtain il ot ag ro policy d0 where a: "a = new_arc_row now ?ca il ot ag ro policy d0"
    by (rule insert_arc_row_spec [OF i(1)]) blast
  have f: "evolves (arcs d) (arcs d @ [a])" "arcs d2 = arcs d @ [a]" "aid a = next_rowid aid (arcs d)"
    using insert_arc_row_ev [OF i(1)] by simp_all
  have wf: "wf_tree (arcs d @ [a])" using f(1) assms(2) by (simp add: evolves_def)
  let ?d3 = "snd (log_trust_event now (Some (aid a)) ''integrity_assigned'' (Some (integrity_details a)) d2)"
  have "arcs d' = arcs (fold (\<lambda>p. set_arc p (bump_arc_count now)) (walk_ancestors (arcs d @ [a]) n) ?d3)"
    unfolding i(3) after_add_child_arcs increment_ancestor_arc_count_def by (simp add: f(2) i(2))
  also have "\<dots> = upd_where (\<lambda>b. aid b \<in> set (walk_ancestors (arcs d @ [a]) n)) (bump_arc_count now) (arcs ?d3)"
    by (rule fold_set_arc) (simp_all add: distinct_walk [OF wf])
  finally have fin: "arcs d' = upd_where (\<lambda>b. aid b \<in> set (walk_ancestors (arcs d @ [a]) n)) (bump_arc_count now) (arcs d @ [a])"
    by (simp add: f(2))
  have pa: "parent_id a = Some p" "step_order a = max_step_order (arcs d) p + 1" "descendant_arc_count a = 0"
    by (simp_all add: a)
  show ?thesis
    by (rule that [OF i(4-6) i(2) _ pa wf fin]) (use i(2) f(3) in simp)
qed

lemma bump_arc_count_order [simp]: "step_order (bump_arc_count now a) = step_order a"
  by (simp add: bump_arc_count_def)

section \<open>Properties\<close>

definition demo_parent :: db where
  "demo_parent = empty_db\<lparr> arcs := [(blank_arc 1)\<lparr> descendant_arc_count := 1 \<rparr>,
     (blank_arc 2)\<lparr> parent_id := Some 1 \<rparr>] \<rparr>"

lemma demo_parent_wf: "wf_tree (arcs demo_parent)"
  by (simp add: demo_parent_def wf_tree_def wf_ids_def)

lemma demo_parent_counts: "counts_ok (arcs demo_parent)"
  by (simp add: demo_parent_def counts_ok_def subtree_rows_def walk_ancestors_def parent_of_def eval_nat_numeral)

definition succeeds :: "exn + (int \<times> db) \<Rightarrow> bool" where
  "succeeds r = (case r of Inl _ \<Rightarrow> False | Inr _ \<Rightarrow> True)"

lemma succeeds_Inr: "succeeds r \<Longrightarrow> \<exists>n d'. r = Inr (n, d')"
  by (cases r) (auto simp: succeeds_def)

lemma demo_add_child: "\<exists>n d'. add_child demo_env 7 1 (default_args ''b'') demo_parent = Inr (n, d')"
proof (rule succeeds_Inr)
  show "succeeds (add_child demo_env 7 1 (default_args ''b'') demo_parent)"
    by (simp add: succeeds_def add_child_def insert_arc_row_def demo_parent_def FROZEN_STATUSES_def
        default_args_def integrity_of_def validate_output_type_def validate_agent_type_def
        resolve_arc_creation_model_def truthy_str_def arc_role_of_def fks_ok_def fk_arc_def
        arc_exists_def Let_def)
qed

text \<open>A new child comes last and waits for its elder siblings. When \<open>add_child\<close> succeeds, the
  parent existed, had not ended and was no fixed template arc; the child's step order is larger
  than that of every child the parent had; and the child's dependencies are satisfied exactly if
  all of those children are completed or escalated.\<close>

theorem add_child_comes_last:
  assumes add: "add_child env now p kw d = Inr (n, d')" and wf: "wf_tree (arcs d)"
  shows "\<exists>par c. find_arc p d = Some par \<and> astatus par \<notin> FROZEN_STATUSES \<and>
    (from_template par \<longrightarrow> template_mutable par) \<and>
    find_arc n d = None \<and> find_arc n d' = Some c \<and> parent_id c = Some p \<and>
    (\<forall>s \<in> set (children_rows (arcs d) p). step_order s < step_order c) \<and>
    (check_dependencies n d' \<longleftrightarrow> (\<forall>s \<in> set (children_rows (arcs d) p). astatus s \<in> DONE_STATUSES))"
proof -
  obtain par a where par: "find_arc p d = Some par" "astatus par \<notin> FROZEN_STATUSES"
    "\<not> (from_template par \<and> \<not> template_mutable par)"
    and a: "aid a = n" "n = next_rowid aid (arcs d)" "parent_id a = Some p"
    "step_order a = max_step_order (arcs d) p + 1" "wf_tree (arcs d @ [a])"
    and d': "arcs d' = upd_where (\<lambda>b. aid b \<in> set (walk_ancestors (arcs d @ [a]) n)) (bump_arc_count now) (arcs d @ [a])"
    by (rule add_child_arcs [OF add wf]) blast
  have nw: "n \<notin> set (walk_ancestors (arcs d @ [a]) n)" using walk_less [OF a(5), of n n] by auto
  have fa: "find_row aid n (arcs d @ [a]) = Some a" using a by (simp add: find_row_append)
  have c: "find_arc n d' = Some a" using fa nw a(1) unfolding d' by (simp add: find_row_upd_where)
  have lt: "\<forall>s \<in> set (children_rows (arcs d) p). step_order s < step_order a"
    using max_step_order_ge a(4) by fastforce
  have same: "astatus ` set (preceding_siblings a p d') = astatus ` set (children_rows (arcs d) p)"
  proof -
    have "map astatus (preceding_siblings a p d') =
        map astatus (filter (\<lambda>b. parent_id b = Some p \<and> step_order b < step_order a) (arcs d @ [a]))"
    proof -
      have "map astatus (filter (\<lambda>b. parent_id b = Some p \<and> step_order b < step_order a)
          (upd_where P (bump_arc_count now) as)) =
        map astatus (filter (\<lambda>b. parent_id b = Some p \<and> step_order b < step_order a) as)" for P as
        by (induction as) auto
      then show ?thesis unfolding preceding_siblings_def d' .
    qed
    also have "\<dots> = map astatus (children_rows (arcs d) p)"
      using lt by (auto simp: children_rows_def intro!: arg_cong [where f = "map astatus"] filter_cong)
    finally show ?thesis by (metis list.set_map)
  qed
  have "check_dependencies n d' \<longleftrightarrow> (\<forall>y \<in> astatus ` set (preceding_siblings a p d'). y \<in> DONE_STATUSES)"
    using c a(3) by (simp add: check_dependencies_def list_all_iff)
  then have "check_dependencies n d' \<longleftrightarrow> (\<forall>s \<in> set (children_rows (arcs d) p). astatus s \<in> DONE_STATUSES)"
    unfolding same by simp
  then show ?thesis using par c lt a by auto
qed

theorem add_child_comes_last_witness:
  "\<exists>n d'. add_child demo_env 7 1 (default_args ''b'') demo_parent = Inr (n, d') \<and>
     \<not> check_dependencies n d'"
proof -
  obtain n d' where a: "add_child demo_env 7 1 (default_args ''b'') demo_parent = Inr (n, d')"
    using demo_add_child by blast
  have "\<not> (\<forall>s \<in> set (children_rows (arcs demo_parent) 1). astatus s \<in> DONE_STATUSES)"
    by (simp add: children_rows_def demo_parent_def DONE_STATUSES_def)
  with add_child_comes_last [OF a demo_parent_wf] have "\<not> check_dependencies n d'" by blast
  with a show ?thesis by (intro exI [where x = n] exI [where x = d']) simp
qed

text \<open>The descendant counters stay exact under \<open>add_child\<close>: if every arc's counter is the number
  of arcs below it, so it is after a child was added anywhere.\<close>

theorem add_child_counts:
  assumes add: "add_child env now p kw d = Inr (n, d')" and wf: "wf_tree (arcs d)"
    and ok: "counts_ok (arcs d)"
  shows "counts_ok (arcs d') \<and> wf_tree (arcs d')"
proof -
  obtain par a where par: "find_arc p d = Some par"
    and a: "aid a = n" "n = next_rowid aid (arcs d)" "parent_id a = Some p" "descendant_arc_count a = 0"
    "wf_tree (arcs d @ [a])"
    and d': "arcs d' = upd_where (\<lambda>b. aid b \<in> set (walk_ancestors (arcs d @ [a]) n)) (bump_arc_count now) (arcs d @ [a])"
    by (rule add_child_arcs [OF add wf]) blast
  have "p < aid a" using find_row_Some [OF par] next_rowid_gt [of par "arcs d" aid] a by auto
  then have "counts_ok (upd_where (\<lambda>b. aid b \<in> set (walk_ancestors (arcs d @ [a]) (aid a)))
      (bump_arc_count now) (arcs d @ [a]))"
    by (intro counts_ok_add [OF wf _ _ ok]) (use a par in simp_all)
  then show ?thesis using a d' by (simp add: wf_tree_upd_where)
qed

theorem add_child_counts_witness:
  "\<exists>n d'. add_child demo_env 7 1 (default_args ''b'') demo_parent = Inr (n, d') \<and> counts_ok (arcs d')"
proof -
  obtain n d' where a: "add_child demo_env 7 1 (default_args ''b'') demo_parent = Inr (n, d')"
    using demo_add_child by blast
  with add_child_counts [OF a demo_parent_wf demo_parent_counts] show ?thesis
    by (intro exI [where x = n] exI [where x = d']) simp
qed

text \<open>C20: The two dependency checks agree. The detailed report is satisfied exactly when
  \<open>check_dependencies\<close> says so, which is when both of its lists are empty, and together the lists
  hold exactly the earlier siblings that are neither completed nor escalated, the failed ones
  apart from the others.\<close>

theorem dependency_report_exact:
  "satisfied (check_dependencies_detailed i d) = check_dependencies i d \<and>
   satisfied (check_dependencies_detailed i d) =
     (blocked_by_pending (check_dependencies_detailed i d) = [] \<and>
      blocked_by_failed (check_dependencies_detailed i d) = []) \<and>
   (case find_arc i d of
      None \<Rightarrow> True
    | Some a \<Rightarrow>
        (case parent_id a of
           None \<Rightarrow> True
         | Some p \<Rightarrow>
             set (blocked_by_failed (check_dependencies_detailed i d)) =
               aid ` {b \<in> set (arcs d). parent_id b = Some p \<and> step_order b < step_order a \<and> astatus b = Failed} \<and>
             set (blocked_by_pending (check_dependencies_detailed i d)) =
               aid ` {b \<in> set (arcs d). parent_id b = Some p \<and> step_order b < step_order a \<and>
                        astatus b \<notin> {Completed, Escalated, Failed}}))"
  by (auto simp: check_dependencies_detailed_def check_dependencies_def preceding_siblings_def
      Let_def list_all_iff filter_empty_conv DONE_STATUSES_def split: option.splits)

section \<open>Read grants\<close>

lemma has_read_grant_iff:
  assumes "wf_tree (arcs d)"
  shows "has_read_grant r j d \<longleftrightarrow>
    has_grant_row r j d \<or> (\<exists>p \<in> set (take 100 (walk_ancestors (arcs d) j)). has_subtree_grant r p d)"
  by (simp add: has_read_grant_def grant_walk_spec walk_take [OF assms])

text \<open>What a subtree grant opens. After \<open>grant_read_access\<close> with depth \<open>subtree\<close>, the reader can
  read, beyond what it could before, exactly the target and the arcs that have the target among
  their hundred nearest ancestors; no other reader gains or loses anything.\<close>

theorem grant_subtree_exact:
  assumes g: "grant_read_access now r t ''subtree'' reason by' d = Inr (k, d')" and wf: "wf_tree (arcs d)"
  shows "has_read_grant r' j d' \<longleftrightarrow>
    has_read_grant r' j d \<or> (r' = r \<and> (j = t \<or> t \<in> set (take 100 (walk_ancestors (arcs d) j))))"
proof -
  obtain row where d': "grants d' = del_where (\<lambda>g. g_reader g = r \<and> g_target g = t) (grants d) @ [row]"
    "g_reader row = r" "g_target row = t" "g_depth row = Subtree" "arcs d' = arcs d"
    using g by (auto simp: grant_read_access_def Let_def split: if_splits)
  have row: "has_grant_row r' x d' \<longleftrightarrow> has_grant_row r' x d \<or> (r' = r \<and> x = t)" for x
    unfolding has_grant_row_def list_ex_iff d'(1) using d'(2,3) by auto
  have sub: "has_subtree_grant r' x d' \<longleftrightarrow> has_subtree_grant r' x d \<or> (r' = r \<and> x = t)" for x
    unfolding has_subtree_grant_def list_ex_iff d'(1) using d'(2-4) by auto
  show ?thesis
    using wf unfolding has_read_grant_iff [OF wf] has_read_grant_iff [of d', unfolded d'(5), OF wf] row sub
    by auto
qed

theorem grant_subtree_exact_witness:
  "\<exists>k d'. grant_read_access 0 5 1 ''subtree'' None None demo_tree = Inr (k, d') \<and>
     has_read_grant 5 4 d' \<and> \<not> has_read_grant 2 4 d'"
proof -
  obtain k d' where g: "grant_read_access 0 5 1 ''subtree'' None None demo_tree = Inr (k, d')"
    by (simp add: grant_read_access_def demo_tree_def arc_exists_def Let_def)
  have w: "walk_ancestors (arcs demo_tree) 4 = [3, 1]"
    by (simp add: demo_tree_def walk_ancestors_def parent_of_def eval_nat_numeral)
  have n: "\<not> has_read_grant 2 4 demo_tree"
    unfolding has_read_grant_iff [OF demo_tree_wf] w
    by (simp add: has_grant_row_def has_subtree_grant_def demo_tree_def)
  show ?thesis
    using g n grant_subtree_exact [OF g demo_tree_wf, of 5 4] grant_subtree_exact [OF g demo_tree_wf, of 2 4]
    by (intro exI [where x = k] exI [where x = d']) (simp add: w)
qed

section \<open>Recounting\<close>

lemma chat_tokens_links:
  "chat_tokens acs ids d =
     (\<Sum>c \<leftarrow> acs. call_tokens c * int (length (filter (\<lambda>l. ac_conv c = Some (fst l) \<and> snd l \<in> set ids) (conv_arcs d))))"
proof -
  have one: "sum_list (concat (map (\<lambda>l. if P l then [v] else []) ls)) = (v :: int) * int (length (filter P ls))"
    for P v ls by (induction ls) (auto simp: algebra_simps)
  show ?thesis unfolding chat_tokens_def
    by (induction acs) (simp_all add: one)
qed

text \<open>The full recount. \<open>update_arc_counters\<close> sets the arc count to the number of arcs below; a
  call of a chat loop is counted once for every arc below that its conversation is linked to, so
  a conversation with several links is counted several times, and a call without a conversation
  once if its arc is below.\<close>

theorem recount_spec:
  assumes "find_arc i d = Some a"
  shows "\<exists>a'. find_arc i (update_arc_counters execs acs now i d) = Some a' \<and>
    descendant_arc_count a' = int (length (subtree_rows (arcs d) i)) \<and>
    descendant_tokens a' =
      (\<Sum>c \<leftarrow> acs. call_tokens c * int (length (filter
          (\<lambda>l. ac_conv c = Some (fst l) \<and> snd l \<in> aid ` set (subtree_rows (arcs d) i)) (conv_arcs d)))) +
      (\<Sum>c \<leftarrow> filter (\<lambda>c. ac_conv c = None \<and> ac_arc c \<in> Some ` aid ` set (subtree_rows (arcs d) i)) acs.
         call_tokens c)"
proof -
  have at: "arc_tokens acs ids =
      (\<Sum>c \<leftarrow> filter (\<lambda>c. ac_conv c = None \<and> ac_arc c \<in> Some ` set ids) acs. call_tokens c)" for ids
    unfolding arc_tokens_def by (induction acs) (auto split: option.splits)
  show ?thesis
    using assms by (simp add: update_arc_counters_def Let_def find_row_upd_row chat_tokens_links at)
qed

theorem recount_spec_witness:
  "\<exists>a'. find_arc 1 (update_arc_counters [] [\<lparr> ac_conv = Some 9, ac_arc = None, input_tokens = 5,
        output_tokens = 2 \<rparr>] 0 1 (demo_tree\<lparr> conv_arcs := [(9, 2), (9, 4)] \<rparr>)) = Some a' \<and>
     descendant_tokens a' = 14"
proof -
  let ?d = "demo_tree\<lparr> conv_arcs := [(9, 2), (9, 4)] \<rparr>"
  have f: "find_arc 1 ?d = Some ((blank_arc 1)\<lparr> astatus := Waiting \<rparr>)" by (simp add: demo_tree_def)
  have s: "aid ` set (subtree_rows (arcs demo_tree) 1) = {2, 3, 4}"
    by (simp add: demo_tree_def subtree_rows_def walk_ancestors_def parent_of_def eval_nat_numeral)
  show ?thesis
    using recount_spec [OF f, of "[]" "[\<lparr> ac_conv = Some 9, ac_arc = None, input_tokens = 5, output_tokens = 2 \<rparr>]" 0]
    by (auto simp: s call_tokens_def)
qed

section \<open>Creation\<close>

lemma create_arc_row:
  assumes "create_arc env now ca d = Inr (n, d')"
  obtains a ag ot ro policy d0 where "arcs d' = arcs d @ [a]" "aid a = n" "n = next_rowid aid (arcs d)"
    "a = new_arc_row now ca TRUSTED ot ag ro policy d0" "arcs d0 = arcs d"
    "\<And>p. ca_parent ca = Some p \<Longrightarrow> find_arc p d \<noteq> None" "outbox d' = outbox d" "grants d' = grants d"
proof -
  obtain a d1 where i: "insert_arc_row env now ca d = Inr (a, d1)" "aid a = n" "arcs d' = arcs d1"
    "outbox d' = outbox d1" "grants d' = grants d1"
    using create_arc_insert [OF assms] by (elim conjE insert_arc_spec)
  have il: "integrity_of (ca_integrity ca) = Inr TRUSTED" using create_arc_insert [OF assms] by simp
  obtain il ot ag ro policy d0 where r: "integrity_of (ca_integrity ca) = Inr il" "fks_ok ca d0"
    "arcs d0 = arcs d" "a = new_arc_row now ca il ot ag ro policy d0" "outbox d1 = outbox d" "grants d1 = grants d"
    by (rule insert_arc_row_spec [OF i(1)]) blast
  have fk: "find_arc p d \<noteq> None" if "ca_parent ca = Some p" for p
    using r(2,3) that by (simp add: fks_ok_def fk_arc_def arc_exists_def)
  have a: "a = new_arc_row now ca TRUSTED ot ag ro policy d0" using r(1,4) il by simp
  show ?thesis
    by (rule that [OF _ i(2) _ a r(3) fk]) (use i r insert_arc_row_ev(2,3) [OF i(1)] in simp_all)
qed

text \<open>What \<open>create_arc\<close> makes. A success appends one row with a fresh id and touches no other;
  the new arc is trusted, pending (a SUPERVISOR waiting), one level below its parent, and inherits
  the parent's priority and origin where none was given.\<close>

theorem create_arc_spec:
  assumes "create_arc env now ca d = Inr (n, d')"
  shows "\<exists>a. arcs d' = arcs d @ [a] \<and> aid a = n \<and> find_arc n d = None \<and> ainteg a = TRUSTED \<and>
    parent_id a = ca_parent ca \<and>
    astatus a = (if aagent a = SUPERVISOR then Waiting else Pending) \<and>
    (case ca_parent ca of
       None \<Rightarrow> depth a = 0 \<and> apriority a = (case ca_priority ca of Some x \<Rightarrow> x | None \<Rightarrow> 100) \<and>
               origin_kind a = ca_origin_kind ca
     | Some p \<Rightarrow>
         (case find_arc p d of
            None \<Rightarrow> False
          | Some par \<Rightarrow> depth a = depth par + 1 \<and>
              apriority a = (case ca_priority ca of Some x \<Rightarrow> x | None \<Rightarrow> apriority par) \<and>
              origin_kind a = (case ca_origin_kind ca of Some k \<Rightarrow> Some k | None \<Rightarrow> origin_kind par)))"
proof -
  obtain a ag ot ro policy d0 where r: "arcs d' = arcs d @ [a]" "aid a = n" "n = next_rowid aid (arcs d)"
    "a = new_arc_row now ca TRUSTED ot ag ro policy d0" "arcs d0 = arcs d"
    "\<And>p. ca_parent ca = Some p \<Longrightarrow> find_arc p d \<noteq> None"
    by (rule create_arc_row [OF assms]) blast
  have "find_arc n d = None" using r(3) by simp
  moreover have "ainteg a = TRUSTED" "parent_id a = ca_parent ca"
    "astatus a = (if aagent a = SUPERVISOR then Waiting else Pending)"
    by (simp_all add: r(4))
  moreover have "case ca_parent ca of
       None \<Rightarrow> depth a = 0 \<and> apriority a = (case ca_priority ca of Some x \<Rightarrow> x | None \<Rightarrow> 100) \<and>
               origin_kind a = ca_origin_kind ca
     | Some p \<Rightarrow>
         (case find_arc p d of
            None \<Rightarrow> False
          | Some par \<Rightarrow> depth a = depth par + 1 \<and>
              apriority a = (case ca_priority ca of Some x \<Rightarrow> x | None \<Rightarrow> apriority par) \<and>
              origin_kind a = (case ca_origin_kind ca of Some k \<Rightarrow> Some k | None \<Rightarrow> origin_kind par))"
    using r(6) unfolding r(4)
    by (auto simp: new_arc_row_def Let_def or_parent_def r(5) split: option.splits)
  ultimately show ?thesis using r(1,2) by blast
qed

definition child_args :: create_args where
  "child_args = (default_args ''c'')\<lparr> ca_parent := Some 1 \<rparr>"

lemma demo_create: "\<exists>n d'. create_arc demo_env 7 child_args demo_parent = Inr (n, d')"
proof (rule succeeds_Inr)
  show "succeeds (create_arc demo_env 7 child_args demo_parent)"
    by (simp add: succeeds_def create_arc_def insert_arc_def insert_arc_row_def demo_parent_def
        child_args_def default_args_def integrity_of_def validate_output_type_def
        validate_agent_type_def is_non_trusted_def resolve_arc_creation_model_def truthy_str_def
        arc_role_of_def fks_ok_def fk_arc_def arc_exists_def Let_def split: sum.splits)
qed

theorem create_arc_spec_witness:
  "\<exists>n d' a. create_arc demo_env 7 child_args demo_parent = Inr (n, d') \<and>
     arcs d' = arcs demo_parent @ [a] \<and> depth a = 1"
proof -
  obtain n d' where c: "create_arc demo_env 7 child_args demo_parent = Inr (n, d')"
    using demo_create by blast
  obtain a where "arcs d' = arcs demo_parent @ [a]" "depth a = 1"
    using create_arc_spec [OF c] by (auto simp: child_args_def demo_parent_def)
  with c show ?thesis by (intro exI [where x = n] exI [where x = d'] exI [where x = a]) simp
qed

text \<open>Creating a child with \<open>create_arc\<close> instead of \<open>add_child\<close> leaves the counters behind: if
  every counter was exact and the new arc has a parent, the counters are wrong afterwards.\<close>

theorem create_child_stales_counts:
  assumes c: "create_arc env now ca d = Inr (n, d')" and p: "ca_parent ca = Some p"
    and wf: "wf_tree (arcs d)" and ok: "counts_ok (arcs d)"
  shows "\<not> counts_ok (arcs d')"
proof
  assume ok': "counts_ok (arcs d')"
  obtain a ag ot ro policy d0 where r: "arcs d' = arcs d @ [a]" "aid a = n" "n = next_rowid aid (arcs d)"
    "a = new_arc_row now ca TRUSTED ot ag ro policy d0" "arcs d0 = arcs d"
    "\<And>p. ca_parent ca = Some p \<Longrightarrow> find_arc p d \<noteq> None"
    by (rule create_arc_row [OF c]) blast
  obtain b where b: "find_arc p d = Some b" using r(6) p by blast
  then have bm: "b \<in> set (arcs d)" "aid b = p" using find_row_Some [OF b] by auto
  have pa: "parent_id a = Some p" using p by (simp add: r(4))
  have fresh: "find_row aid (aid a) (arcs d) = None" using r(2,3) by simp
  have lt: "q < aid a \<and> find_row aid q (arcs d) \<noteq> None" if "parent_id a = Some q" for q
    using that pa b bm next_rowid_gt [of b "arcs d" aid] r(2,3) by auto
  have pos: "0 < aid a" using r(2,3) by simp
  have w: "walk_ancestors (arcs d @ [a]) i =
      (if i = aid a then p # walk_ancestors (arcs d) p else walk_ancestors (arcs d) i)" for i
    using walk_ancestors_append [OF wf fresh pos lt] pa by simp
  have "filter (\<lambda>x. p \<in> set (walk_ancestors (arcs d @ [a]) (aid x))) (arcs d) =
      filter (\<lambda>x. p \<in> set (walk_ancestors (arcs d) (aid x))) (arcs d)"
    using fresh by (intro filter_cong) (auto simp: w find_row_None)
  then have "length (subtree_rows (arcs d') p) = Suc (length (subtree_rows (arcs d) p))"
    by (simp add: r(1) subtree_rows_def w)
  moreover have "descendant_arc_count b = int (length (subtree_rows (arcs d) p))"
    using ok bm by (auto simp: counts_ok_def)
  moreover have "descendant_arc_count b = int (length (subtree_rows (arcs d') p))"
    using ok' bm by (auto simp: counts_ok_def r(1))
  ultimately show False by simp
qed

theorem create_child_stales_counts_witness:
  "\<exists>n d'. create_arc demo_env 7 child_args demo_parent = Inr (n, d') \<and> \<not> counts_ok (arcs d')"
proof -
  obtain n d' where c: "create_arc demo_env 7 child_args demo_parent = Inr (n, d')"
    using demo_create by blast
  have "ca_parent child_args = Some 1" by (simp add: child_args_def)
  from create_child_stales_counts [OF c this demo_parent_wf demo_parent_counts] c show ?thesis
    by (intro exI [where x = n] exI [where x = d']) simp
qed

end
