(* ===== verification/Arc_Escalation.thy ===== *)
theory Arc_Escalation
  imports Arc_Structure
begin

text \<open>
  What the failure handling promises and where it breaks the promise: the failure reaches the
  nearest waiting SUPERVISOR; escalation replaces a trusted arc by a readable sibling on the next
  model; an arc that is not trusted is never replaced and nobody is told; and a failure recorded
  while a wake-up is being handled is stranded.
\<close>

section \<open>Wake-ups survive\<close>

text \<open>An item with this key is pending or claimed.\<close>

definition live_key :: "string \<Rightarrow> work_item list \<Rightarrow> bool" where
  "live_key k q = list_ex (\<lambda>r. idempotency_key r = Some k \<and> \<not> finished r) q"

text \<open>No pending failure is touched and no live item of the queue is lost.\<close>

definition keeps_wakes :: "db \<Rightarrow> db \<Rightarrow> bool" where
  "keeps_wakes d d' =
     ((\<forall>p. pending_failures p d' = pending_failures p d) \<and>
      (\<forall>k. live_key k (queue d) \<longrightarrow> live_key k (queue d')))"

lemma keeps_refl [simp]: "keeps_wakes d d"
  by (simp add: keeps_wakes_def)

lemma keeps_trans: "keeps_wakes d e \<Longrightarrow> keeps_wakes e f \<Longrightarrow> keeps_wakes d f"
  by (simp add: keeps_wakes_def)

lemma keeps_same: "state d' = state d \<Longrightarrow> queue d' = queue d \<Longrightarrow> keeps_wakes d d'"
  by (simp add: keeps_wakes_def pending_failures_def state_cell_def)

lemma live_key_clear: "live_key k q \<Longrightarrow> live_key k (clear_finished ik q)"
  by (cases ik) (auto simp: live_key_def clear_finished_def list_ex_iff)

lemma live_key_enqueue:
  "live_key k q \<Longrightarrow> live_key k (snd (enqueue now e pl ik mx sc pr q))"
  using live_key_clear [of k q ik] by (auto simp: enqueue_def Let_def live_key_def)

lemma clear_finished_live: "idempotency_key r = Some k \<Longrightarrow> r \<in> set (clear_finished (Some k) q) \<Longrightarrow> \<not> finished r"
  by (auto simp: clear_finished_def)

lemma enqueue_live: "live_key k (snd (enqueue now e pl (Some k) mx sc pr q))"
proof (cases "key_taken (Some k) (clear_finished (Some k) q)")
  case True
  then show ?thesis
    by (auto simp: enqueue_def Let_def live_key_def key_taken_def list_ex_iff dest: clear_finished_live)
qed (simp add: enqueue_def Let_def live_key_def finished_def)

lemma keeps_enqueue_db: "keeps_wakes d (enqueue_db now e pl k pr d)"
  unfolding keeps_wakes_def
  by (auto simp: enqueue_db_def live_key_enqueue pending_failures_def state_cell_def)

lemma live_key_enqueue_db: "live_key k (queue (enqueue_db now e pl k pr d))"
  by (simp add: enqueue_db_def enqueue_live)

lemma keeps_put_state: "k \<noteq> ''_pending_failures'' \<Longrightarrow> keeps_wakes d (put_state now a k v d)"
  by (simp add: keeps_wakes_def pending_failures_def state_cell_put_state)

lemma keeps_initialize: "initialize_retry_state cfg now i po mx d = Inr d' \<Longrightarrow> keeps_wakes d d'"
  by (auto simp: initialize_retry_state_def Let_def keeps_wakes_def pending_failures_def
      state_cell_put_state split: if_splits)

lemma keeps_insert_row: "insert_arc_row env now ca d = Inr (a, d') \<Longrightarrow> keeps_wakes d d'"
  by (erule insert_arc_row_spec) (rule keeps_same)

lemma log_trust_event_same: "state (snd (log_trust_event n a t x d)) = state d \<and>
  queue (snd (log_trust_event n a t x d)) = queue d"
  by simp

lemma keeps_insert_arc:
  assumes "insert_arc env now ca d = Inr (n, d')"
  shows "keeps_wakes d d'"
proof -
  obtain a d1 where i: "insert_arc_row env now ca d = Inr (a, d1)"
    using assms by (auto simp: insert_arc_def split: sum.splits prod.splits)
  define d2 where "d2 = (case initialize_retry_state (env_retry env) now (aid a) ''transient_only'' None d1 of
    Inr e \<Rightarrow> e | Inl _ \<Rightarrow> d1)"
  define d3 where "d3 = snd (log_trust_event now (Some (aid a)) ''integrity_assigned'' (Some (integrity_details a)) d2)"
  have "d' = d3 \<or> d' = enqueue_dispatch now (aid a) (apriority a) d3"
    using assms i by (auto simp: insert_arc_def Let_def d2_def d3_def split: if_splits)
  then have "keeps_wakes d3 d'" by (auto simp: enqueue_dispatch_def keeps_enqueue_db)
  moreover have "keeps_wakes d2 d3" by (rule keeps_same) (simp_all add: d3_def)
  moreover have "keeps_wakes d1 d2" by (auto simp: d2_def dest: keeps_initialize split: sum.splits)
  moreover have "keeps_wakes d d1" by (rule keeps_insert_row [OF i])
  ultimately show ?thesis by (meson keeps_trans)
qed

lemma keeps_create: "create_arc env now ca d = Inr (n, d') \<Longrightarrow> keeps_wakes d d'"
  using create_arc_insert keeps_insert_arc by blast

lemma emit_hook_queue [simp]: "queue (emit_hook now i old new d) = queue d"
  by (auto simp: emit_hook_def split: option.splits)

lemma cascade_cancel_frame [simp]:
  "state (snd (cascade_cancel now actor i d)) = state d" "queue (snd (cascade_cancel now actor i d)) = queue d"
  by (simp_all add: cascade_cancel_def cascade_frame)

lemma transition_frame:
  "transition now i new actor d = Inr (old, d') \<Longrightarrow> state d' = state d \<and> queue d' = queue d"
  by (auto simp: transition_def Let_def split: option.splits if_splits)

lemma keeps_hooks:
  "keeps_wakes d (auto_approve_hook i new (notify_hook now i new (summary_hook now i new (emit_hook now i old new d))))"
proof -
  have "keeps_wakes d (emit_hook now i old new d)" by (rule keeps_same) simp_all
  moreover have "keeps_wakes e (summary_hook now i new e)" for e
    by (simp add: summary_hook_def keeps_enqueue_db)
  moreover have "keeps_wakes e (notify_hook now i new e)" for e
    by (simp add: notify_hook_def keeps_enqueue_db)
  moreover have "keeps_wakes e (auto_approve_hook i new e)" for e by (rule keeps_same) simp_all
  ultimately show ?thesis by (meson keeps_trans)
qed

lemma keeps_quiet: "update_status_quiet now i s ac d = Inr d' \<Longrightarrow> keeps_wakes d d'"
proof -
  assume "update_status_quiet now i s ac d = Inr d'"
  then obtain new old d1 where t: "transition now i new ac d = Inr (old, d1)"
    and d': "d' = auto_approve_hook i new (notify_hook now i new (summary_hook now i new (emit_hook now i old new d1)))"
    by (auto simp: update_status_quiet_def update_status_with_def Let_def split: option.splits sum.splits)
  have "keeps_wakes d d1" using transition_frame [OF t] by (simp add: keeps_same)
  then show ?thesis using keeps_hooks [of d1 i new now old] unfolding d' by (rule keeps_trans)
qed

lemma keeps_insert_state:
  "insert_state now a k v d = Inr d' \<Longrightarrow> k \<noteq> ''_pending_failures'' \<Longrightarrow> keeps_wakes d d'"
  by (auto dest!: insert_state_frame simp: keeps_put_state)

lemma keeps_grant: "grant_read_access now r t dp re by' d = Inr (g, d') \<Longrightarrow> keeps_wakes d d'"
  using grant_frame by (simp add: keeps_same)

lemma keeps_replace: "keeps_wakes d (snd (replace_arc env now i ca reason d))"
proof (cases "create_arc env now ca d")
  case (Inl e)
  then show ?thesis by (simp add: replace_arc_def)
next
  case (Inr r)
  then obtain n d1 where c: "create_arc env now ca d = Inr (n, d1)" by (cases r) auto
  define d2 where "d2 = (case update_status_quiet now i ''escalated'' ''system'' d1 of Inr e \<Rightarrow> e | Inl _ \<Rightarrow> d1)"
  have 2: "keeps_wakes d d2"
    using keeps_create [OF c] keeps_trans by (auto simp: d2_def dest: keeps_quiet split: sum.splits)
  have 3: "insert_state now n ''_escalated_from'' v d2 = Inr d3 \<Longrightarrow> keeps_wakes d d3" for v d3
    using keeps_trans [OF 2 keeps_insert_state [of now n "''_escalated_from''" v d2 d3]] by simp
  have 4: "insert_state now n ''_escalated_from'' v d2 = Inr d3 \<Longrightarrow>
      grant_read_access now r t dp re by' d3 = Inr (g, d4) \<Longrightarrow> keeps_wakes d d4" for v d3 r t dp re by' g d4
    using 3 keeps_grant keeps_trans by blast
  show ?thesis
    using c keeps_create [OF c] 2 3 4
    by (auto simp: replace_arc_def d2_def split: sum.splits prod.splits if_splits)
qed

lemma keeps_escalate: "keeps_wakes d (snd (escalate_arc env now i m d))"
proof (cases "get_arc i d")
  case (Some a)
  obtain po d1 where g: "get_or_create_model_policy now (Some m) None None None None None d = (po, d1)"
    by fastforce
  have "keeps_wakes d d1" using get_or_create_frame [OF g] by (simp add: keeps_same)
  then show ?thesis
    using Some g keeps_trans [OF _ keeps_replace [of d1 env now i "sibling_args a (aname a @ '' (escalated)'') po" "''Platform escalation''"]]
    by (auto simp: escalate_arc_def split: prod.splits sum.splits)
qed (simp add: escalate_arc_def)

lemma keeps_escalate_next: "keeps_wakes d (snd (escalate_to_next_model env now i d))"
  by (auto simp: escalate_to_next_model_def Let_def keeps_escalate split: option.splits)

lemma keeps_failure_policy: "keeps_wakes d (snd (apply_failure_policy env now p c d))"
proof -
  have "keeps_wakes d (notify x y d)" for x y by (rule keeps_same) simp_all
  moreover have "escalate_to_next_model env now i d = (z, d') \<Longrightarrow> keeps_wakes d d'" for i z d'
    using keeps_escalate_next [of d env now i] by simp
  ultimately show ?thesis
    by (auto simp: apply_failure_policy_def keeps_enqueue_db split: option.splits jtext.splits prod.splits sum.splits)
qed

lemma keys_unique:
  assumes "wq_inv q" "x \<in> set q" "y \<in> set q" "idempotency_key x = idempotency_key y" "idempotency_key y \<noteq> None"
  shows "x = y"
proof -
  have "distinct (keys_of q) \<Longrightarrow> x = y" using assms(2-5)
  proof (induction q)
    case (Cons r q)
    then show ?case by (auto simp: set_keys_of split: option.splits)
  qed simp
  then show ?thesis using assms(1) by (simp add: wq_inv_def)
qed

section \<open>Properties\<close>

lemma pending_failures_enqueue [simp]: "pending_failures p (enqueue_db now e pl k pr d) = pending_failures p d"
  by (simp add: pending_failures_def state_cell_def)

lemma pending_failures_put [simp]:
  "pending_failures p (put_state now a ''_pending_failures'' (Parsed (JList xs)) d) =
     (if p = a then xs else pending_failures p d)"
  by (simp add: pending_failures_def state_cell_put_state)

lemma notify_supervisor_adds:
  "pending_failures s (notify_supervisor_parent now s c d) = pending_failures s d @ [failure_record now c]"
  "live_key (wake_key s) (queue (notify_supervisor_parent now s c d))"
  by (simp_all add: notify_supervisor_parent_def pending_failures_def state_cell_def
      enqueue_db_def enqueue_live find_put_state put_state_def)

definition demo_failing :: db where
  "demo_failing = empty_db\<lparr> arcs :=
     [(blank_arc 1)\<lparr> aagent := SUPERVISOR, astatus := Waiting \<rparr>,
      (blank_arc 2)\<lparr> parent_id := Some 1, astatus := Completed \<rparr>,
      (blank_arc 3)\<lparr> parent_id := Some 2, astatus := Failed \<rparr>] \<rparr>"

text \<open>C21: A failure reaches the supervisor. When an arc below a waiting SUPERVISOR fails, the
  notification appends exactly one record of it to the pending failures of the nearest one, and
  leaves a wake-up for that supervisor in the queue, whatever the direct parent's own policy does.\<close>

theorem failure_reaches_supervisor:
  assumes a: "get_arc i d = Some a" and p: "parent_id a = Some p" and par: "get_arc p d = Some par"
    and s: "find_supervisor_ancestor i d = Some s" and wf: "wf_tree (arcs d)"
    and n: "notify_parent_of_failure fmt env now i d = (r, d')"
  shows "pending_failures s d' = pending_failures s d @ [failure_record now a] \<and>
    live_key (wake_key s) (queue d')"
proof -
  have w: "walk_ancestors (arcs d) i = p # walk_ancestors (arcs d) p"
    using walk_unfold [OF wf, of i] a p by (simp add: parent_of_def get_arc_def)
  show ?thesis
  proof (cases "waiting_supervisor par")
    case True
    then have "s = p" using s par by (simp add: find_supervisor_ancestor_def w)
    moreover have "d' = notify_supervisor_parent now p a d"
      using n a p par True by (simp add: notify_parent_of_failure_def waiting_supervisor_def)
    ultimately show ?thesis by (simp add: notify_supervisor_adds)
  next
    case False
    let ?d1 = "notify_supervisor_parent now s a d"
    have "keeps_wakes ?d1 d'"
      using n a p par s False keeps_failure_policy [of ?d1 env now p a]
      by (auto simp: notify_parent_of_failure_def waiting_supervisor_def Let_def split: if_splits)
    then show ?thesis
      using notify_supervisor_adds [of s now a d] by (simp add: keeps_wakes_def)
  qed
qed

theorem failure_reaches_supervisor_witness:
  "live_key (wake_key 1) (queue (snd (notify_parent_of_failure (\<lambda>j. []) demo_env 7 3 demo_failing)))"
proof -
  have a: "get_arc 3 demo_failing = Some ((blank_arc 3)\<lparr> parent_id := Some 2, astatus := Failed \<rparr>)"
    "get_arc 2 demo_failing = Some ((blank_arc 2)\<lparr> parent_id := Some 1, astatus := Completed \<rparr>)"
    by (simp_all add: get_arc_def demo_failing_def)
  have p: "parent_id ((blank_arc 3)\<lparr> parent_id := Some 2, astatus := Failed \<rparr>) = Some 2" by simp
  have s: "find_supervisor_ancestor 3 demo_failing = Some 1"
    by (simp add: find_supervisor_ancestor_def demo_failing_def walk_ancestors_def parent_of_def
        get_arc_def waiting_supervisor_def eval_nat_numeral)
  have w: "wf_tree (arcs demo_failing)" by (simp add: demo_failing_def wf_tree_def wf_ids_def)
  show ?thesis
    using failure_reaches_supervisor [OF a(1) p a(2) s w, of "\<lambda>j. []" demo_env 7]
    by (metis prod.collapse)
qed

text \<open>A wake-up can be lost. While a worker handles the wake-up of a supervisor, the handler
  empties the pending failures; a failure recorded after that, but before the item is completed,
  finds its wake-up refused, and when the item is completed the record is pending with no wake-up
  left in the queue.\<close>

theorem supervisor_wake_stranded:
  assumes q: "wq_inv (queue d)" "w \<in> set (queue d)" "wstatus w = WClaimed" "idempotency_key w = Some (wake_key s)"
    and sup: "get_arc s d = Some par" "waiting_supervisor par"
    and h: "handle_supervisor_wake fmt now (wid w) (Some s) d = (r, d1)"
  shows "pending_failures s (notify_supervisor_parent now s c d1) = [failure_record now c] \<and>
    \<not> live_key (wake_key s) (complete now (wid w) (queue (notify_supervisor_parent now s c d1)))"
proof -
  have k: "supervisor_dispatch_key s (wid w) \<noteq> wake_key s"
    by (simp add: supervisor_dispatch_key_def wake_key_def)
  have e1: "pending_failures s d1 = []"
    using h sup by (auto simp: handle_supervisor_wake_def Let_def split: if_splits sum.splits)
  have q1: "queue d1 = queue d \<or> (\<exists>e pl. queue d1 = snd (enqueue now e pl (Some (supervisor_dispatch_key s (wid w))) 3 None 100 (queue d)))"
    using h sup by (auto simp: handle_supervisor_wake_def Let_def enqueue_db_def split: if_splits sum.splits) blast
  have inv1: "wq_inv (queue d1)" using q1 q(1) enqueue_inv by auto
  have w1: "w \<in> set (queue d1)"
    using q1 q(2,4) k by (auto simp: enqueue_def Let_def clear_finished_def)
  have only: "x = w" if "x \<in> set (queue d1)" "idempotency_key x = Some (wake_key s)" for x
    using keys_unique [OF inv1 that(1) w1] that(2) q(4) by simp
  have nofin: "clear_finished (Some (wake_key s)) (queue d1) = queue d1"
    using only q(3) by (auto simp: clear_finished_def del_where_def finished_def filter_id_conv)
  have "key_taken (Some (wake_key s)) (queue d1)"
    using w1 q(4) by (auto simp: key_taken_def list_ex_iff)
  then have q2: "queue (notify_supervisor_parent now s c d1) = queue d1"
    by (simp add: notify_supervisor_parent_def enqueue_db_def enqueue_def nofin)
  have "\<not> live_key (wake_key s) (complete now (wid w) (queue d1))"
    unfolding live_key_def complete_def upd_row_def list_ex_iff set_upd_where
    using only by (auto simp: finished_def)
  then show ?thesis unfolding q2 using notify_supervisor_adds(1) [of s now c d1] e1 by simp
qed

text \<open>A claimed wake-up of supervisor 1, with one failure pending.\<close>

definition demo_wake :: work_item where
  "demo_wake = \<lparr> wid = 1, event_type = ''arc.supervisor_wake'', payload = JNull, wstatus = WClaimed,
     wretry_count = 0, wmax_retries = 3, idempotency_key = Some (wake_key 1), werror = None,
     wcreated_at = 0, claimed_at = Some 0, wcompleted_at = None, scheduled_at = None, wpriority = 100 \<rparr>"

theorem supervisor_wake_stranded_witness:
  "\<exists>r d1. handle_supervisor_wake (\<lambda>j. []) 7 1 (Some 1) (demo_failing\<lparr> queue := [demo_wake] \<rparr>) = (r, d1) \<and>
     pending_failures 1 (notify_supervisor_parent 7 1 (blank_arc 3) d1) = [failure_record 7 (blank_arc 3)] \<and>
     \<not> live_key (wake_key 1) (complete 7 1 (queue (notify_supervisor_parent 7 1 (blank_arc 3) d1)))"
proof -
  let ?d = "demo_failing\<lparr> queue := [demo_wake] \<rparr>"
  obtain r d1 where h: "handle_supervisor_wake (\<lambda>j. []) 7 (wid demo_wake) (Some 1) ?d = (r, d1)" by fastforce
  have "wq_inv (queue ?d)" "demo_wake \<in> set (queue ?d)" "wstatus demo_wake = WClaimed"
    "idempotency_key demo_wake = Some (wake_key 1)"
    by (simp_all add: demo_wake_def wq_inv_def wf_ids_def item_ok_def live_item_def)
  moreover have "get_arc 1 ?d = Some ((blank_arc 1)\<lparr> aagent := SUPERVISOR, astatus := Waiting \<rparr>)"
    "waiting_supervisor ((blank_arc 1)\<lparr> aagent := SUPERVISOR, astatus := Waiting \<rparr>)"
    by (simp_all add: get_arc_def demo_failing_def waiting_supervisor_def)
  ultimately have "pending_failures 1 (notify_supervisor_parent 7 1 (blank_arc 3) d1) = [failure_record 7 (blank_arc 3)] \<and>
     \<not> live_key (wake_key 1) (complete 7 (wid demo_wake) (queue (notify_supervisor_parent 7 1 (blank_arc 3) d1)))"
    using h by (rule supervisor_wake_stranded)
  then show ?thesis using h by (intro exI [where x = r] exI [where x = d1]) (simp add: demo_wake_def)
qed

section \<open>Escalation\<close>

lemma create_rejects:
  "integrity_of (ca_integrity ca) = Inr l \<Longrightarrow> l \<noteq> TRUSTED \<Longrightarrow>
     validate_output_type (ca_output ca) = Inr ot \<Longrightarrow> validate_agent_type (ca_agent ca) = Inr ag \<Longrightarrow>
     create_arc env now ca d = Inl (ValueError ''Cannot create individual untrusted arc'')"
  by (simp add: create_arc_def is_non_trusted_def)

lemma sibling_args_sel [simp]:
  "ca_integrity (sibling_args a nm po) = integrity_value (ainteg a)"
  "ca_output (sibling_args a nm po) = output_value (aoutput a)"
  "ca_agent (sibling_args a nm po) = agent_value (aagent a)"
  "ca_parent (sibling_args a nm po) = parent_id a" "ca_policy (sibling_args a nm po) = Some po"
  "ca_name (sibling_args a nm po) = nm" "ca_goal (sibling_args a nm po) = goal a"
  "ca_step_order (sibling_args a nm po) = step_order a" "ca_arc_role (sibling_args a nm po) = ''worker''"
  "ca_code_file (sibling_args a nm po) = None" "ca_template (sibling_args a nm po) = None"
  "ca_verification_target (sibling_args a nm po) = None" "ca_model (sibling_args a nm po) = None"
  "ca_agent_model (sibling_args a nm po) = None" "ca_wait_until (sibling_args a nm po) = None"
  by (simp_all add: sibling_args_def default_args_def)

lemma validate_values [simp]:
  "validate_output_type (output_value t) = Inr t" "validate_agent_type (agent_value g) = Inr g"
  by (simp_all add: validate_output_type_Inr validate_agent_type_Inr)

lemma escalate_rejects:
  assumes "get_arc i d = Some a" "ainteg a \<noteq> TRUSTED"
  shows "\<exists>d'. escalate_arc env now i m d = (Inl (ValueError ''Cannot create individual untrusted arc''), d') \<and>
    arcs d' = arcs d \<and> outbox d' = outbox d \<and> queue d' = queue d"
proof -
  obtain po d1 where g: "get_or_create_model_policy now (Some m) None None None None None d = (po, d1)"
    by fastforce
  have "create_arc env now (sibling_args a nm po) d1 = Inl (ValueError ''Cannot create individual untrusted arc'')" for nm
    using assms(2) by (intro create_rejects [where l = "ainteg a"]) simp_all
  then show ?thesis
    using assms(1) g get_or_create_frame [OF g] by (simp add: escalate_arc_def replace_arc_def)
qed

text \<open>The failure of a root arc that is not trusted goes unheard. Where the escalation stack has
  a next model for it, the handler tries to create the sibling, which is refused because of the
  integrity level, and the exception leaves: no sibling exists, the arc is not escalated, nothing is
  queued and no message is sent, although without a stack there would be a message.\<close>

theorem untrusted_root_failure_silent:
  assumes a: "get_arc i d = Some a" "ainteg a \<noteq> TRUSTED" "model_policy_id a = None"
    and n: "\<not> starts_with (aname a) CODING_CHANGE_PREFIX" "failed_judge_in_subtree i d = None"
    and m: "next_in_stacks (current_model env ''chat'' a d) (mc_stacks (env_models env)) = Some m"
  shows "\<exists>e d'. handle_root_failure fmt env now i d = (Inl e, d') \<and>
    arcs d' = arcs d \<and> queue d' = queue d \<and> outbox d' = outbox d"
proof -
  have "mc_stacks (env_models env) \<noteq> []" using m by auto
  then show ?thesis
    using a n m escalate_rejects [OF a(1,2), of env now m]
    by (auto simp: handle_root_failure_def stack_escalation_def)
qed

definition demo_untrusted :: db where
  "demo_untrusted = empty_db\<lparr> arcs := [(blank_arc 1)\<lparr> ainteg := UNTRUSTED, astatus := Failed \<rparr>] \<rparr>"

theorem untrusted_root_failure_silent_witness:
  "\<exists>e d'. handle_root_failure (\<lambda>j. []) demo_env 7 1 demo_untrusted = (Inl e, d') \<and> outbox d' = []"
proof -
  let ?a = "(blank_arc 1)\<lparr> ainteg := UNTRUSTED, astatus := Failed \<rparr>"
  have "get_arc 1 demo_untrusted = Some ?a" "ainteg ?a \<noteq> TRUSTED" "model_policy_id ?a = None"
    by (simp_all add: get_arc_def demo_untrusted_def)
  moreover have "\<not> starts_with (aname ?a) CODING_CHANGE_PREFIX"
    by (simp add: starts_with_def CODING_CHANGE_PREFIX_def)
  moreover have "failed_judge_in_subtree 1 demo_untrusted = None"
    by (simp add: failed_judge_in_subtree_def demo_untrusted_def)
  moreover have "next_in_stacks (current_model demo_env ''chat'' ?a demo_untrusted) (mc_stacks (env_models demo_env)) = Some ''p:b''"
    by (simp add: current_model_def policy_model_def truthy_str_def demo_env_def demo_models_def
        get_model_for_role_def role_model_def)
  ultimately have "\<exists>e d'. handle_root_failure (\<lambda>j. []) demo_env 7 1 demo_untrusted = (Inl e, d') \<and>
    arcs d' = arcs demo_untrusted \<and> queue d' = queue demo_untrusted \<and> outbox d' = outbox demo_untrusted"
    by (rule untrusted_root_failure_silent)
  then show ?thesis by (auto simp: demo_untrusted_def)
qed

subsection \<open>A successful escalation\<close>

lemma cell_cong: "state d = state e \<Longrightarrow> state_cell i k d = state_cell i k e"
  by (simp add: state_cell_def)

lemma create_sibling:
  assumes "ainteg a = TRUSTED" "\<And>p. parent_id a = Some p \<Longrightarrow> find_arc p d \<noteq> None"
  obtains n d' c where "create_arc env now (sibling_args a nm po) d = Inr (n, d')"
    "arcs d' = arcs d @ [c]" "aid c = n" "find_arc n d = None" "parent_id c = parent_id a"
    "step_order c = step_order a" "goal c = goal a" "aagent c = aagent a" "ainteg c = TRUSTED"
    "model_policy_id c = Some po" "aname c = nm"
    "\<And>k. state_cell n k d' \<noteq> None \<Longrightarrow> state_cell n k d \<noteq> None \<or>
       k \<in> {''_escalation_on_exhaust'', ''_retry_policy'', ''_max_retries'', ''_retry_count''}"
    "policies d' = policies d"
proof -
  let ?ca = "sibling_args a nm po"
  let ?c = "new_arc_row now ?ca TRUSTED (aoutput a) (aagent a) WORKER (Some po) d"
  let ?d1 = "log_history now (aid ?c) ''created''
    (JObj [(''name'', JStr (ca_name ?ca)), (''goal'', str_json (ca_goal ?ca))]) None (Some ''system'')
    (d\<lparr> arcs := arcs d @ [?c] \<rparr>)"
  have fk: "fks_ok ?ca d"
    using assms(2) by (auto simp: fks_ok_def fk_arc_def arc_exists_def split: option.splits)
  have row: "insert_arc_row env now ?ca d = Inr (?c, ?d1)"
    using assms(1) fk by (simp add: insert_arc_row_def resolve_arc_creation_model_def truthy_str_def
        arc_role_of_def integrity_of_def sibling_args_def default_args_def Let_def)
  obtain d2 where ini: "initialize_retry_state (env_retry env) now (aid ?c) ''transient_only'' None ?d1 = Inr d2"
    by (simp add: initialize_retry_state_def arc_exists_def Let_def find_row_append)
  have d2: "arcs d2 = arcs ?d1" "policies d2 = policies d"
    "state_cell (aid ?c) k d2 \<noteq> None \<Longrightarrow> state_cell (aid ?c) k d \<noteq> None \<or>
       k \<in> {''_escalation_on_exhaust'', ''_retry_policy'', ''_max_retries'', ''_retry_count''}" for k
    using ini by (auto simp: initialize_retry_state_def Let_def state_cell_put_state
        cell_cong [of "log_history _ _ _ _ _ _ _" d] split: if_splits)
  let ?d3 = "snd (log_trust_event now (Some (aid ?c)) ''integrity_assigned'' (Some (integrity_details ?c)) d2)"
  obtain d' where cr: "create_arc env now ?ca d = Inr (aid ?c, d')" "d' = ?d3 \<or> (\<exists>x. d' = enqueue_dispatch now (aid ?c) x ?d3)"
    using row ini assms(1) by (auto simp: create_arc_def is_non_trusted_def insert_arc_def integrity_of_def Let_def)
  have d': "arcs d' = arcs d @ [?c]" "policies d' = policies d"
    "state_cell (aid ?c) k d' = state_cell (aid ?c) k d2" for k
    using cr(2) d2(1,2) by (auto simp: state_cell_def)
  show ?thesis
    by (rule that [OF cr(1) d'(1) refl]) (use d'(2,3) d2(3) assms(1) in simp_all)
qed

lemma quiet_escalates:
  assumes "find_arc i d = Some a" "astatus a = Active \<or> astatus a = Failed"
  obtains d' where "update_status_quiet now i ''escalated'' ''system'' d = Inr d'"
    "arcs d' = upd_row aid i (mark_status now Escalated) (arcs d)" "state d' = state d"
    "policies d' = policies d" "grants d' = grants d"
proof -
  have t: "transition now i Escalated ''system'' d = Inr (astatus a, move_arc now ''system'' i (astatus a) Escalated d)"
    using assms by (auto simp: transition_def Let_def)
  let ?m = "move_arc now ''system'' i (astatus a) Escalated d"
  have "update_status_quiet now i ''escalated'' ''system'' d = Inr (emit_hook now i (astatus a) Escalated ?m)"
    by (simp add: update_status_quiet_def update_status_with_def t Let_def summary_hook_def notify_hook_def
        auto_approve_hook_def)
  moreover have "policies (emit_hook now i old new e) = policies e" for old new e
    by (simp add: emit_hook_def split: option.splits)
  ultimately show ?thesis
    using that [of "emit_hook now i (astatus a) Escalated ?m"] by (simp add: move_arc_def set_arc_def)
qed

lemma policy_created:
  assumes "get_or_create_model_policy now (Some m) None None None None None d = (po, d1)"
    and "m \<noteq> []" "wf_ids pid (policies d)"
  shows "\<exists>r. get_model_policy po d1 = Some r \<and> p_model r = Some m \<and> p_json r = None"
proof (cases "List.find (policy_matches (Some m) None None None None) (policies d)")
  case (Some r)
  then have r: "r \<in> set (policies d)" "policy_matches (Some m) None None None None r"
    by (auto simp: find_Some_iff)
  then show ?thesis
    using assms Some find_row_distinct [OF assms(3) r(1)]
    by (auto simp: get_or_create_model_policy_def get_model_policy_def policy_matches_def coalesce_def
        truthy_text_def split: option.splits)
next
  case None
  then show ?thesis using assms(1)
    by (auto simp: get_or_create_model_policy_def get_model_policy_def find_row_append Let_def)
qed

text \<open>What a successful escalation leaves. For an active or failed trusted arc, \<open>_escalate_arc\<close>
  always succeeds: there is one new arc, a sibling with the same parent, order, goal and agent whose
  policy is pinned to the next model; the original is escalated; the new arc may read it; and every
  other arc is untouched.\<close>

theorem escalate_arc_spec:
  assumes wf: "wf_tree (arcs d)" and a: "find_arc i d = Some a" "ainteg a = TRUSTED"
    "astatus a = Active \<or> astatus a = Failed"
    and m: "m \<noteq> []" and pol: "wf_ids pid (policies d)"
    and cells: "\<forall>r \<in> set (state d). find_arc (s_arc r) d \<noteq> None"
  shows "\<exists>n d' c r. escalate_arc env now i m d = (Inr (Some n), d') \<and> find_arc n d = None \<and>
    find_arc n d' = Some c \<and> parent_id c = parent_id a \<and> step_order c = step_order a \<and>
    goal c = goal a \<and> aagent c = aagent a \<and>
    (\<exists>po. model_policy_id c = Some po \<and> get_model_policy po d' = Some r \<and> p_model r = Some m \<and> p_json r = None) \<and>
    find_arc i d' = Some (mark_status now Escalated a) \<and> has_read_grant n i d' \<and>
    (\<forall>j. j \<noteq> i \<longrightarrow> j \<noteq> n \<longrightarrow> find_arc j d' = find_arc j d)"
proof -
  obtain po d1 where g: "get_or_create_model_policy now (Some m) None None None None None d = (po, d1)"
    by fastforce
  have f1: "arcs d1 = arcs d" "state d1 = state d" using get_or_create_frame [OF g] by simp_all
  obtain r where r: "get_model_policy po d1 = Some r" "p_model r = Some m" "p_json r = None"
    using policy_created [OF g m pol] by blast
  have par: "find_arc p d1 \<noteq> None" if "parent_id a = Some p" for p
    using wf find_row_in [OF a(1)] that f1(1) by (auto simp: wf_tree_def)
  let ?ca = "sibling_args a (aname a @ '' (escalated)'') po"
  obtain n d2 c where c: "create_arc env now ?ca d1 = Inr (n, d2)" "arcs d2 = arcs d1 @ [c]" "aid c = n"
    "find_arc n d1 = None" "parent_id c = parent_id a" "step_order c = step_order a" "goal c = goal a"
    "aagent c = aagent a" "model_policy_id c = Some po"
    and cell: "\<And>k. state_cell n k d2 \<noteq> None \<Longrightarrow> state_cell n k d1 \<noteq> None \<or>
       k \<in> {''_escalation_on_exhaust'', ''_retry_policy'', ''_max_retries'', ''_retry_count''}"
    and p2: "policies d2 = policies d1"
    using create_sibling [OF a(2) par] by metis
  have ni: "n \<noteq> i" using c(4) a(1) f1(1) by auto
  have i2: "find_arc i d2 = Some a" using a(1) c(2) f1(1) by (simp add: find_row_append)
  obtain d3 where d3: "update_status_quiet now i ''escalated'' ''system'' d2 = Inr d3"
    "arcs d3 = upd_row aid i (mark_status now Escalated) (arcs d2)" "state d3 = state d2"
    "policies d3 = policies d2" "grants d3 = grants d2"
    by (rule quiet_escalates [OF i2 a(3)]) blast
  have n2: "find_arc n d2 = Some c" using c(2,3,4) by (simp add: find_row_append)
  have n3: "find_arc n d3 = Some c" using n2 ni by (simp add: d3(2) find_row_upd_row)
  have "state_cell n ''_escalated_from'' d1 = None"
    using cells c(4) f1 by (auto simp: state_cell_def find_None_iff)
  then have no: "state_cell n ''_escalated_from'' d3 = None"
    using cell [of "''_escalated_from''"] cell_cong [OF d3(3)] by fastforce
  let ?d4 = "put_state now n ''_escalated_from'' (Parsed (JInt i)) d3"
  have ins: "insert_state now n ''_escalated_from'' (Parsed (JInt i)) d3 = Inr ?d4"
    using no n3 by (simp add: insert_state_def arc_exists_def)
  have i3: "find_arc i d3 = Some (mark_status now Escalated a)"
    using i2 by (simp add: d3(2) find_row_upd_row)
  obtain k d5 where gr: "grant_read_access now n i ''subtree'' (Some ''Platform escalation'') (Some ''platform'') ?d4 = Inr (k, d5)"
    using i3 n3 by (simp add: grant_read_access_def arc_exists_def Let_def)
  have d5: "arcs d5 = arcs d3" "policies d5 = policies d3" "has_grant_row n i d5"
    using gr by (auto simp: grant_read_access_def Let_def has_grant_row_def split: if_splits)
  have "escalate_arc env now i m d = (Inr (Some n), d5)"
    using a(1) g c(1) d3(1) ins gr by (simp add: escalate_arc_def replace_arc_def get_arc_def)
  moreover have "find_arc j d5 = find_arc j d" if "j \<noteq> i" "j \<noteq> n" for j
    using that c(2,3) f1(1) by (simp add: d5(1) d3(2) find_row_upd_row find_row_append split: option.splits)
  ultimately show ?thesis
    using c n3 i3 d5 r p2 d3(4) f1(1)
    by (intro exI [where x = n] exI [where x = d5] exI [where x = c] exI [where x = r])
      (simp add: has_read_grant_def get_model_policy_def)
qed

theorem escalate_arc_spec_witness:
  "\<exists>n d'. escalate_arc demo_env 7 3 ''p:b'' demo_failing = (Inr (Some n), d') \<and> has_read_grant n 3 d'"
proof -
  have w: "wf_tree (arcs demo_failing)" by (simp add: demo_failing_def wf_tree_def wf_ids_def)
  have f: "find_arc 3 demo_failing = Some ((blank_arc 3)\<lparr> parent_id := Some 2, astatus := Failed \<rparr>)"
    by (simp add: demo_failing_def)
  obtain n d' where "escalate_arc demo_env 7 3 ''p:b'' demo_failing = (Inr (Some n), d')" "has_read_grant n 3 d'"
    using escalate_arc_spec [OF w f, of "''p:b''" demo_env 7]
    by (auto simp: demo_failing_def wf_ids_def)
  then show ?thesis by (intro exI [where x = n] exI [where x = d']) simp
qed

end
