(* ===== verification/Model_Registry.thy ===== *)
theory Model_Registry
  imports Model_Selector Py_Text
begin

text \<open>
  The registry of models and their prices (\<open>core/models/registry.py\<close>): loading from the YAML
  file of the instance, the fallback that builds entries from the configuration and takes their
  prices from the file or the bundled seed, the lookups, and the measured speed.

  The YAML parser is outside: a file arrives as what \<open>open\<close> and \<open>yaml.safe_load\<close> gave
  (\<open>yfile\<close>). Text fields of an entry are strings; the fields the code coerces are JSON values,
  since \<open>int()\<close>, \<open>float()\<close> and \<open>list()\<close> may refuse them. \<open>float()\<close> of a text is a parameter;
  the results are exact rationals.
\<close>

section \<open>Raw entries\<close>

text \<open>
  One entry of the \<open>models\<close> mapping, in the YAML file or the configuration. \<open>raw_list\<close> is the
  field \<open>capabilities\<close> of the file or \<open>roles\<close> of the configuration: absent, not iterable, or a
  list.
\<close>

record raw_entry =
  raw_provider :: "string option"
  raw_model_id :: "string option"
  raw_tier :: "string option"
  raw_quality :: "json option"
  raw_in :: "json option"
  raw_out :: "json option"
  raw_cached :: "json option"
  raw_window :: "json option"
  raw_list :: "string list option option"
  raw_speed :: "rat option"

datatype yfile =
    YOSError
  | YYamlError
  | YEmpty
  | YNotDict
  | YModelsBad
  | YModels "(string \<times> raw_entry option) list"

definition py_list :: "string list option option \<Rightarrow> exn + string list" where
  "py_list v = (case v of None \<Rightarrow> Inr [] | Some None \<Rightarrow> Inl (TypeError ''list'') | Some (Some l) \<Rightarrow> Inr l)"

definition load_entry :: "(string \<Rightarrow> rat option) \<Rightarrow> string \<times> raw_entry \<Rightarrow> exn + model_entry" where
  "load_entry fl kr =
     (case kr of (k, r) \<Rightarrow>
        xbind (py_int (dflt (JInt 1) (raw_quality r))) (\<lambda>q.
        xbind (py_float fl (dflt (JInt 0) (raw_in r))) (\<lambda>ci.
        xbind (py_float fl (dflt (JInt 0) (raw_out r))) (\<lambda>co.
        xbind (py_float fl (dflt (JInt 0) (raw_cached r))) (\<lambda>cc.
        xbind (py_int (dflt (JInt 0) (raw_window r))) (\<lambda>w.
        xbind (py_list (raw_list r)) (\<lambda>caps.
        Inr \<lparr> en_key = k, en_provider = dflt [] (raw_provider r), en_model_id = dflt [] (raw_model_id r),
              quality_tier = q, cost_in = ci, cost_out = co, cached_cost_in = cc,
              context_window = w, capabilities = caps, measured_speed = raw_speed r \<rparr>)))))))"

text \<open>The entries that are dicts, in file order.\<close>

definition dict_entries :: "(string \<times> raw_entry option) list \<Rightarrow> (string \<times> raw_entry) list" where
  "dict_entries ms = List.map_filter (\<lambda>(k, r). map_option (Pair k) r) ms"

definition load_from_yaml :: "(string \<Rightarrow> rat option) \<Rightarrow> yfile \<Rightarrow> model_entry list" where
  "load_from_yaml fl y =
     (case y of
        YModels ms \<Rightarrow>
          (case map_x (load_entry fl) (dict_entries ms) of Inl _ \<Rightarrow> [] | Inr es \<Rightarrow> es)
      | _ \<Rightarrow> [])"

section \<open>Prices\<close>

type_synonym price = "rat \<times> rat \<times> rat"

definition TIER_QUALITY :: "(string \<times> int) list" where
  "TIER_QUALITY = [(''low'', 2), (''medium'', 4), (''high'', 5)]"

definition UNKNOWN_PRICE :: price where
  "UNKNOWN_PRICE = (15, 75, 3/2)"

definition price_of :: "model_entry \<Rightarrow> price" where
  "price_of e = (cost_in e, cost_out e, cached_cost_in e)"

text \<open>\<open>max(peers, key=cost_per_mtok_out)\<close>: the first of the largest.\<close>

definition dearest :: "model_entry list \<Rightarrow> model_entry option" where
  "dearest es = first_by (\<lambda>e. - cost_out e) es"

definition tier_price :: "model_entry list \<Rightarrow> string \<Rightarrow> price option" where
  "tier_price es tier =
     (case map_of TIER_QUALITY tier of
        None \<Rightarrow> None
      | Some q \<Rightarrow> map_option price_of (dearest (filter (\<lambda>e. quality_tier e = q) es)))"

definition ceiling_price :: "model_entry list \<Rightarrow> price" where
  "ceiling_price es = (case dearest es of None \<Rightarrow> UNKNOWN_PRICE | Some e \<Rightarrow> price_of e)"

section \<open>Loading\<close>

record reg_env =
  re_float :: "string \<Rightarrow> rat option"
  re_seed :: "yfile option"
  re_models :: "(string \<times> raw_entry option) list"

text \<open>The module state, and the file of the instance.\<close>

record registry =
  entries :: "model_entry list"
  reg_loaded :: bool
  instance_file :: "yfile option"

definition load_path :: "reg_env \<Rightarrow> yfile option \<Rightarrow> model_entry list" where
  "load_path env p = (case p of None \<Rightarrow> [] | Some y \<Rightarrow> load_from_yaml (re_float env) y)"

definition reference_prices :: "reg_env \<Rightarrow> yfile option \<Rightarrow> model_entry list" where
  "reference_prices env inst =
     (let es = load_path env inst in if es \<noteq> [] then es else load_path env (re_seed env))"

text \<open>\<open>by_model_id\<close> keeps the last entry of an id.\<close>

definition by_model_id :: "model_entry list \<Rightarrow> string \<Rightarrow> model_entry option" where
  "by_model_id es m = (if m = [] then None else List.find (\<lambda>e. en_model_id e = m) (rev es))"

definition base_price :: "model_entry list \<Rightarrow> raw_entry \<Rightarrow> price" where
  "base_price ref r =
     (case by_model_id ref (dflt [] (raw_model_id r)) of
        Some e \<Rightarrow> price_of e
      | None \<Rightarrow> dflt (ceiling_price ref) (tier_price ref (dflt ''medium'' (raw_tier r))))"

definition entry_price :: "(string \<Rightarrow> rat option) \<Rightarrow> model_entry list \<Rightarrow> raw_entry \<Rightarrow> exn + price" where
  "entry_price fl ref r =
     (case base_price ref r of (pin, pout, pcached) \<Rightarrow>
        if raw_in r = None \<and> raw_out r = None \<and> raw_cached r = None then Inr (pin, pout, pcached)
        else
          xbind (py_float fl (dflt (JNum pin) (raw_in r))) (\<lambda>ci.
          xbind (py_float fl (dflt (JNum pout) (raw_out r))) (\<lambda>co.
          xbind (py_float fl (dflt (JNum pcached) (raw_cached r))) (\<lambda>cc.
          Inr (ci, co, cc)))))"

definition config_entry :: "(string \<Rightarrow> rat option) \<Rightarrow> model_entry list \<Rightarrow> string \<times> raw_entry \<Rightarrow> exn + model_entry" where
  "config_entry fl ref kr =
     (case kr of (k, r) \<Rightarrow>
        xbind (entry_price fl ref r) (\<lambda>(ci, co, cc).
        xbind (py_int (dflt (JInt 200000) (raw_window r))) (\<lambda>w.
        xbind (py_list (raw_list r)) (\<lambda>caps.
        Inr \<lparr> en_key = k, en_provider = dflt [] (raw_provider r), en_model_id = dflt [] (raw_model_id r),
              quality_tier = dflt 3 (map_of TIER_QUALITY (dflt ''medium'' (raw_tier r))),
              cost_in = ci, cost_out = co, cached_cost_in = cc, context_window = w,
              capabilities = caps, measured_speed = None \<rparr>))))"

definition load_from_config :: "reg_env \<Rightarrow> yfile option \<Rightarrow> exn + model_entry list" where
  "load_from_config env inst =
     map_x (config_entry (re_float env) (reference_prices env inst)) (dict_entries (re_models env))"

definition load_registry :: "reg_env \<Rightarrow> yfile option \<Rightarrow> registry \<Rightarrow> (exn + model_entry list) \<times> registry" where
  "load_registry env path st =
     (let p = (case path of None \<Rightarrow> instance_file st | Some y \<Rightarrow> Some y); es = load_path env p in
      if es \<noteq> [] then (Inr es, st\<lparr> entries := es, reg_loaded := True \<rparr>)
      else case load_from_config env (instance_file st) of
          Inl e \<Rightarrow> (Inl e, st)
        | Inr cs \<Rightarrow> (Inr cs, st\<lparr> entries := cs, reg_loaded := True \<rparr>))"

definition get_registry :: "reg_env \<Rightarrow> registry \<Rightarrow> (exn + model_entry list) \<times> registry" where
  "get_registry env st =
     (if reg_loaded st then (Inr (entries st), st)
      else case load_registry env None st of (Inl e, st') \<Rightarrow> (Inl e, st') | (Inr _, st') \<Rightarrow> (Inr (entries st'), st'))"

definition reload_registry :: "reg_env \<Rightarrow> registry \<Rightarrow> (exn + unit) \<times> registry" where
  "reload_registry env st =
     (case load_registry env None (st\<lparr> entries := [], reg_loaded := False \<rparr>) of
        (Inl e, st') \<Rightarrow> (Inl e, st') | (Inr _, st') \<Rightarrow> (Inr (), st'))"

section \<open>Lookups\<close>

definition find_key :: "string \<Rightarrow> model_entry list \<Rightarrow> model_entry option" where
  "find_key k es = List.find (\<lambda>e. en_key e = k) es"

definition get_entry :: "string \<Rightarrow> model_entry list \<Rightarrow> model_entry option" where
  "get_entry k es = find_key k es"

definition get_entry_by_model_id :: "string \<Rightarrow> model_entry list \<Rightarrow> model_entry option" where
  "get_entry_by_model_id m es =
     (let m' = (if CHR '':'' \<in> set m then after (CHR '':'') m else m)
      in List.find (\<lambda>e. en_model_id e = m') es)"

definition unknown_model_price :: "model_entry list \<Rightarrow> price" where
  "unknown_model_price es = ceiling_price es"

text \<open>
  The speed goes to the entry and, when the file of the instance has the model, to the file. The
  entry is updated before the file is opened, so a YAML error leaves it updated.
\<close>

definition set_speed :: "string \<Rightarrow> rat \<Rightarrow> model_entry list \<Rightarrow> model_entry list" where
  "set_speed k v es = map (\<lambda>e. if en_key e = k then e\<lparr> measured_speed := Some v \<rparr> else e) es"

definition persist_speed :: "string \<Rightarrow> rat \<Rightarrow> yfile \<Rightarrow> exn + yfile" where
  "persist_speed k v y =
     (case y of
        YYamlError \<Rightarrow> Inl (OtherError ''YAMLError'')
      | YNotDict \<Rightarrow> Inl (AttributeError ''get'')
      | YModels ms \<Rightarrow>
          Inr (YModels (map (\<lambda>(k', r). (k', if k' = k
                 then map_option (\<lambda>r. r\<lparr> raw_speed := Some (round_dp 3 v) \<rparr>) r else r)) ms))
      | _ \<Rightarrow> Inr y)"

definition update_measured_speed :: "reg_env \<Rightarrow> string \<Rightarrow> rat \<Rightarrow> registry \<Rightarrow> (exn + unit) \<times> registry" where
  "update_measured_speed env k v st =
     (case get_registry env st of
        (Inl e, st1) \<Rightarrow> (Inl e, st1)
      | (Inr es, st1) \<Rightarrow>
          (case find_key k es of
             None \<Rightarrow> (Inr (), st1)
           | Some _ \<Rightarrow>
               let st2 = st1\<lparr> entries := set_speed k v (entries st1) \<rparr> in
               (case instance_file st2 of
                  None \<Rightarrow> (Inr (), st2)
                | Some y \<Rightarrow>
                    (case persist_speed k v y of
                       Inl e \<Rightarrow> (Inl e, st2)
                     | Inr y' \<Rightarrow> (Inr (), st2\<lparr> instance_file := Some y' \<rparr>)))))"

section \<open>Facts\<close>

lemma dearest_max: "dearest es = Some e \<Longrightarrow> e \<in> set es \<and> (\<forall>x \<in> set es. cost_out x \<le> cost_out e)"
  by (auto simp: dearest_def dest: first_by_in first_by_min)

lemma dearest_None [simp]: "dearest es = None \<longleftrightarrow> es = []"
  by (simp add: dearest_def)

lemma ceiling_out: "e \<in> set es \<Longrightarrow> cost_out e \<le> fst (snd (ceiling_price es))"
  by (auto simp: ceiling_price_def price_of_def split: option.splits dest: dearest_max)

lemma map_x_Inl: "x \<in> set xs \<Longrightarrow> f x = Inl e \<Longrightarrow> \<exists>e'. map_x f xs = Inl e'"
proof (induction xs)
  case (Cons y ys)
  then show ?case by (cases "f y") auto
qed simp

lemma map_x_Inr_set: "map_x f xs = Inr ys \<Longrightarrow> y \<in> set ys \<Longrightarrow> \<exists>x \<in> set xs. f x = Inr y"
  by (induction xs arbitrary: ys) (auto simp: xbind_Inr)

end
