(* ===== verification/Budget.thy ===== *)
theory Budget
  imports Model_Registry
begin

text \<open>
  The budget breaker (\<open>core/budget.py\<close>): limits on the number and the cost of model calls over
  sliding windows, with the actions warn, cap, restrict and shutdown; the two latches; the
  overrides an operator sets; and the two guards in front of paid calls and of autonomous work.

  The rows of \<open>budget_state\<close> have five kinds of keys, all written by this module, so the table is
  the record \<open>budget\<close>; its last fields are the cache in the process, which a restart loses. The
  configured numbers are numbers. \<open>time.time()\<close> is the clock in seconds; a window compares stored
  seconds as SQLite does. The registry is loaded and its entries are a parameter.
\<close>

section \<open>Limits and state\<close>

record limit =
  lim_name :: "string option"
  lim_metric :: "string option"
  lim_window :: "int option"
  lim_threshold :: "rat option"
  lim_action :: "string option"
  lim_notify :: bool

record budget_config =
  bc_enabled :: bool
  bc_limits :: "limit list"
  bc_interval :: rat
  bc_notify_human :: bool

record latch =
  la_limit :: "string option"
  la_metric :: "string option"
  la_value :: rat
  la_threshold :: "rat option"
  la_tripped_at :: time

record threshold_override =
  ov_threshold :: rat
  ov_expires :: "time option"

record summary =
  block_autonomous :: bool
  block_all :: bool
  cap_active :: bool
  is_restricted :: bool
  is_shut :: bool
  measures :: "string \<rightharpoonup> rat"

datatype notice = Warn limit rat | Latched string limit rat

record budget =
  enabled_override :: "bool option"
  overrides :: "string \<rightharpoonup> threshold_override"
  restrict_latch :: "latch option"
  shutdown_latch :: "latch option"
  warn_sent :: "string \<rightharpoonup> rat"
  outbox :: "notice list"
  last_eval :: rat
  cached :: "summary option"

definition secs :: "time \<Rightarrow> rat" where
  "secs now = of_int now / 1000000"

definition enabled :: "budget_config \<Rightarrow> budget \<Rightarrow> bool" where
  "enabled cfg b = (case enabled_override b of Some v \<Rightarrow> v | None \<Rightarrow> bc_enabled cfg)"

definition effective_limit :: "time \<Rightarrow> budget \<Rightarrow> limit \<Rightarrow> limit" where
  "effective_limit now b l =
     (case lim_name l of
        None \<Rightarrow> l
      | Some n \<Rightarrow>
          (case overrides b n of
             None \<Rightarrow> l
           | Some ov \<Rightarrow>
               if (case ov_expires ov of None \<Rightarrow> False | Some t \<Rightarrow> t < now) then l
               else l\<lparr> lim_threshold := Some (ov_threshold ov) \<rparr>))"

definition effective_limits :: "budget_config \<Rightarrow> time \<Rightarrow> budget \<Rightarrow> limit list" where
  "effective_limits cfg now b = map (effective_limit now b) (bc_limits cfg)"

section \<open>Measurement\<close>

text \<open>A row of \<open>api_calls\<close>; the time is in seconds.\<close>

record usage =
  us_model :: string
  us_in :: int
  us_out :: int
  us_cc :: int
  us_cr :: int
  us_created :: int

text \<open>\<open>datetime('now', '--5 seconds')\<close> is NULL, so a negative window holds no row.\<close>

definition in_window :: "time \<Rightarrow> int \<Rightarrow> usage \<Rightarrow> bool" where
  "in_window now w u = (0 \<le> w \<and> cur_ts now - w \<le> us_created u)"

fun longest_prefix :: "string \<Rightarrow> model_entry option \<Rightarrow> model_entry list \<Rightarrow> model_entry option" where
  "longest_prefix m best [] = best"
| "longest_prefix m best (e # es) =
     longest_prefix m
       (if en_model_id e \<noteq> [] \<and> starts_with m (en_model_id e) \<and>
           (case best of None \<Rightarrow> True | Some b \<Rightarrow> length (en_model_id b) < length (en_model_id e))
        then Some e else best) es"

definition price_entry :: "model_entry list \<Rightarrow> string \<Rightarrow> model_entry option" where
  "price_entry es model =
     (if model = [] then None
      else
        let m = (if CHR '':'' \<in> set model then after (CHR '':'') model else model) in
        case get_entry_by_model_id m es of
          Some e \<Rightarrow> Some e
        | None \<Rightarrow> longest_prefix m None es)"

definition call_price :: "model_entry list \<Rightarrow> string \<Rightarrow> price" where
  "call_price es m =
     (case price_entry es m of Some e \<Rightarrow> price_of e | None \<Rightarrow> unknown_model_price es)"

text \<open>The sums per model, in the order of the group by clause.\<close>

definition model_sum :: "(usage \<Rightarrow> int) \<Rightarrow> string \<Rightarrow> usage list \<Rightarrow> rat" where
  "model_sum f m us = of_int (sum_list (map f (filter (\<lambda>u. us_model u = m) us)))"

definition group_cost :: "model_entry list \<Rightarrow> usage list \<Rightarrow> string \<Rightarrow> rat" where
  "group_cost es us m =
     (case call_price es m of (pin, pout, pcached) \<Rightarrow>
        (model_sum us_in m us * pin + model_sum us_cc m us * pin * (5/4) + model_sum us_cr m us * pcached
           + model_sum us_out m us * pout) / 1000000)"

definition cost_from_rows :: "model_entry list \<Rightarrow> usage list \<Rightarrow> rat" where
  "cost_from_rows es us = sum_list (map (group_cost es us) (sort (remdups (map us_model us))))"

definition measure_limit :: "model_entry list \<Rightarrow> time \<Rightarrow> usage list \<Rightarrow> string \<Rightarrow> int \<Rightarrow> rat" where
  "measure_limit es now us metric w =
     (let rows = filter (in_window now w) us in
      if metric = ''calls'' then of_int (int (length rows))
      else if metric = ''cost_usd'' then cost_from_rows es rows
      else 0)"

section \<open>Evaluation\<close>

definition maybe_warn :: "time \<Rightarrow> limit \<Rightarrow> rat \<Rightarrow> budget \<times> notice list \<Rightarrow> budget \<times> notice list" where
  "maybe_warn now l v st =
     (case st of (b, pend) \<Rightarrow>
        let n = dflt ''?'' (lim_name l); w = dflt 3600 (lim_window l) in
        if (case warn_sent b n of None \<Rightarrow> False | Some t \<Rightarrow> secs now - t < of_int w) then (b, pend)
        else (b\<lparr> warn_sent := (warn_sent b)(n \<mapsto> secs now) \<rparr>, pend @ [Warn l v]))"

definition new_latch :: "time \<Rightarrow> limit \<Rightarrow> rat \<Rightarrow> latch" where
  "new_latch now l v = \<lparr> la_limit = lim_name l, la_metric = lim_metric l, la_value = round_dp 4 v,
     la_threshold = lim_threshold l, la_tripped_at = now \<rparr>"

definition latch_restrict :: "time \<Rightarrow> limit \<Rightarrow> rat \<Rightarrow> budget \<times> notice list \<Rightarrow> budget \<times> notice list" where
  "latch_restrict now l v st =
     (case st of (b, pend) \<Rightarrow>
        if restrict_latch b \<noteq> None then (b, pend)
        else (b\<lparr> restrict_latch := Some (new_latch now l v) \<rparr>, pend @ [Latched ''restrict'' l v]))"

definition latch_shutdown :: "time \<Rightarrow> limit \<Rightarrow> rat \<Rightarrow> budget \<times> notice list \<Rightarrow> budget \<times> notice list" where
  "latch_shutdown now l v st =
     (case st of (b, pend) \<Rightarrow>
        if shutdown_latch b \<noteq> None then (b, pend)
        else (b\<lparr> shutdown_latch := Some (new_latch now l v) \<rparr>, pend @ [Latched ''shutdown'' l v]))"

definition limit_value :: "model_entry list \<Rightarrow> time \<Rightarrow> usage list \<Rightarrow> limit \<Rightarrow> rat" where
  "limit_value es now us l =
     measure_limit es now us (dflt ''calls'' (lim_metric l)) (dflt 3600 (lim_window l))"

definition over :: "model_entry list \<Rightarrow> time \<Rightarrow> usage list \<Rightarrow> limit \<Rightarrow> bool" where
  "over es now us l = (dflt 0 (lim_threshold l) \<le> limit_value es now us l)"

definition act_on :: "time \<Rightarrow> limit \<Rightarrow> rat \<Rightarrow> budget \<times> notice list \<Rightarrow> budget \<times> notice list" where
  "act_on now l v st =
     (let a = dflt ''warn'' (lim_action l) in
      if a = ''warn'' \<or> a = ''cap'' then maybe_warn now l v st
      else if a = ''restrict'' then latch_restrict now l v st
      else if a = ''shutdown'' then latch_shutdown now l v st
      else st)"

definition eval_limit :: "model_entry list \<Rightarrow> time \<Rightarrow> usage list \<Rightarrow> limit \<Rightarrow>
    budget \<times> notice list \<Rightarrow> budget \<times> notice list" where
  "eval_limit es now us l st = (if over es now us l then act_on now l (limit_value es now us l) st else st)"

definition measure_key :: "limit \<Rightarrow> string" where
  "measure_key l =
     dflt (dflt ''calls'' (lim_metric l) @ ''/'' @ show_int (dflt 3600 (lim_window l))) (lim_name l)"

text \<open>\<open>_notify\<close>: a message reaches a human only if both switches are on; otherwise it is logged.\<close>

definition notice_limit :: "notice \<Rightarrow> limit" where
  "notice_limit n = (case n of Warn l v \<Rightarrow> l | Latched k l v \<Rightarrow> l)"

definition notify_all :: "budget_config \<Rightarrow> notice list \<Rightarrow> budget \<Rightarrow> budget" where
  "notify_all cfg ns b =
     b\<lparr> outbox := outbox b @ filter (\<lambda>n. bc_notify_human cfg \<and> lim_notify (notice_limit n)) ns \<rparr>"

definition disabled_summary :: summary where
  "disabled_summary = \<lparr> block_autonomous = False, block_all = False, cap_active = False,
     is_restricted = False, is_shut = False, measures = Map.empty \<rparr>"

definition summary_of :: "model_entry list \<Rightarrow> time \<Rightarrow> usage list \<Rightarrow> limit list \<Rightarrow> budget \<Rightarrow> summary" where
  "summary_of es now us ls b =
     (let cap = list_ex (\<lambda>l. over es now us l \<and> lim_action l = Some ''cap'') ls;
          res = (restrict_latch b \<noteq> None); shut = (shutdown_latch b \<noteq> None)
      in \<lparr> block_autonomous = (cap \<or> res \<or> shut), block_all = shut, cap_active = cap,
           is_restricted = res, is_shut = shut,
           measures = fold (\<lambda>l m. m(measure_key l \<mapsto> limit_value es now us l)) ls Map.empty \<rparr>)"

definition cache_fresh :: "budget_config \<Rightarrow> time \<Rightarrow> budget \<Rightarrow> bool" where
  "cache_fresh cfg now b = (cached b \<noteq> None \<and> secs now - last_eval b < bc_interval cfg)"

definition evaluate ::
    "budget_config \<Rightarrow> model_entry list \<Rightarrow> bool \<Rightarrow> time \<Rightarrow> usage list \<Rightarrow> budget \<Rightarrow> summary \<times> budget" where
  "evaluate cfg es force now us b =
     (if \<not> enabled cfg b then (disabled_summary, b)
      else if \<not> force \<and> cache_fresh cfg now b then (the (cached b), b)
      else
        let ls = effective_limits cfg now b;
            (b1, pend) = fold (eval_limit es now us) ls (b, []);
            s = summary_of es now us ls b1;
            b2 = notify_all cfg pend b1
        in (s, b2\<lparr> cached := Some s, last_eval := secs now \<rparr>))"

section \<open>Guards and controls\<close>

definition guard_paid_call ::
    "budget_config \<Rightarrow> model_entry list \<Rightarrow> time \<Rightarrow> usage list \<Rightarrow> budget \<Rightarrow> (exn + unit) \<times> budget" where
  "guard_paid_call cfg es now us b =
     (if \<not> enabled cfg b then (Inr (), b)
      else if shutdown_latch b \<noteq> None then (Inl (RuntimeError ''BudgetExceededError''), b)
      else case evaluate cfg es False now us b of (s, b') \<Rightarrow>
          (if block_all s then Inl (RuntimeError ''BudgetExceededError'') else Inr (), b'))"

definition autonomous_allowed ::
    "budget_config \<Rightarrow> model_entry list \<Rightarrow> time \<Rightarrow> usage list \<Rightarrow> budget \<Rightarrow> (bool \<times> string) \<times> budget" where
  "autonomous_allowed cfg es now us b =
     (if \<not> enabled cfg b then ((True, []), b)
      else case evaluate cfg es False now us b of (s, b') \<Rightarrow>
          (if is_shut s then (False, ''budget kill-switch active (shutdown)'')
           else if is_restricted s then (False, ''budget restrict active'')
           else if cap_active s then (False, ''budget cap reached for current window'')
           else (True, []), b'))"

record budget_status =
  st_enabled :: bool
  st_human :: bool
  st_shutdown :: "latch option"
  st_restrict :: "latch option"
  st_cap :: bool
  st_measures :: "string \<rightharpoonup> rat"
  st_limits :: "limit list"
  st_overrides :: "string \<rightharpoonup> threshold_override"

definition budget_status ::
    "budget_config \<Rightarrow> model_entry list \<Rightarrow> time \<Rightarrow> usage list \<Rightarrow> budget \<Rightarrow> budget_status \<times> budget" where
  "budget_status cfg es now us b =
     (case evaluate cfg es True now us b of (s, b') \<Rightarrow>
        (\<lparr> st_enabled = enabled cfg b', st_human = bc_notify_human cfg, st_shutdown = shutdown_latch b',
           st_restrict = restrict_latch b', st_cap = cap_active s, st_measures = measures s,
           st_limits = effective_limits cfg now b', st_overrides = overrides b' \<rparr>, b'))"

definition resume :: "budget \<Rightarrow> (latch option \<times> latch option) \<times> budget" where
  "resume b = ((restrict_latch b, shutdown_latch b),
     b\<lparr> restrict_latch := None, shutdown_latch := None, cached := None, last_eval := 0 \<rparr>)"

text \<open>A time to live of zero is falsy, so such an override never expires.\<close>

definition set_threshold_override :: "time \<Rightarrow> string \<Rightarrow> rat \<Rightarrow> int option \<Rightarrow> budget \<Rightarrow> budget" where
  "set_threshold_override now n t ttl b =
     b\<lparr> overrides := (overrides b)(n \<mapsto> \<lparr> ov_threshold = t,
          ov_expires = (case ttl of None \<Rightarrow> None | Some s \<Rightarrow> if s = 0 then None else Some (now + s * 1000000)) \<rparr>),
        cached := None \<rparr>"

definition set_enabled :: "bool \<Rightarrow> budget \<Rightarrow> budget" where
  "set_enabled v b = b\<lparr> enabled_override := Some v, cached := None \<rparr>"

text \<open>A restart loses the cache and keeps the table.\<close>

definition restart :: "budget \<Rightarrow> budget" where
  "restart b = b\<lparr> cached := None, last_eval := 0 \<rparr>"

section \<open>Runs\<close>

text \<open>A world is the clock, the rows of \<open>api_calls\<close> and the breaker. The first relation is what
  happens without a human, the second what an operator may do.\<close>

type_synonym world = "time \<times> usage list \<times> budget"

inductive quiet_step :: "budget_config \<Rightarrow> model_entry list \<Rightarrow> world \<Rightarrow> world \<Rightarrow> bool" for cfg es where
  qs_guard: "quiet_step cfg es (t, us, b) (t, us, snd (guard_paid_call cfg es t us b))"
| qs_auto: "quiet_step cfg es (t, us, b) (t, us, snd (autonomous_allowed cfg es t us b))"
| qs_status: "quiet_step cfg es (t, us, b) (t, us, snd (budget_status cfg es t us b))"
| qs_override: "quiet_step cfg es (t, us, b) (t, us, set_threshold_override t n thr ttl b)"
| qs_restart: "quiet_step cfg es (t, us, b) (t, us, restart b)"
| qs_call: "quiet_step cfg es (t, us, b) (t, us @ [u], b)"
| qs_time: "t \<le> t' \<Longrightarrow> quiet_step cfg es (t, us, b) (t', us, b)"

inductive human_step :: "world \<Rightarrow> world \<Rightarrow> bool" where
  hs_resume: "human_step (t, us, b) (t, us, snd (resume b))"
| hs_enabled: "human_step (t, us, b) (t, us, set_enabled v b)"

definition budget_step :: "budget_config \<Rightarrow> model_entry list \<Rightarrow> world \<Rightarrow> world \<Rightarrow> bool" where
  "budget_step cfg es w w' = (quiet_step cfg es w w' \<or> human_step w w')"

section \<open>Facts\<close>

lemma maybe_warn_latches [simp]:
  "shutdown_latch (fst (maybe_warn now l v st)) = shutdown_latch (fst st)"
  "restrict_latch (fst (maybe_warn now l v st)) = restrict_latch (fst st)"
  by (cases st; simp add: maybe_warn_def Let_def)+

lemma act_on_frame:
  "overrides (fst (act_on now l v st)) = overrides (fst st) \<and>
   enabled_override (fst (act_on now l v st)) = enabled_override (fst st)"
  by (cases st) (simp add: act_on_def maybe_warn_def latch_restrict_def latch_shutdown_def Let_def)

lemma act_on_keeps:
  "shutdown_latch (fst st) \<noteq> None \<Longrightarrow> shutdown_latch (fst (act_on now l v st)) \<noteq> None"
  by (cases st) (auto simp: act_on_def latch_restrict_def latch_shutdown_def Let_def)

lemma fold_eval_frame:
  "overrides (fst (fold (eval_limit es now us) ls st)) = overrides (fst st) \<and>
   enabled_override (fst (fold (eval_limit es now us) ls st)) = enabled_override (fst st)"
  by (induction ls arbitrary: st) (simp_all add: eval_limit_def act_on_frame)

lemma fold_eval_keeps:
  "shutdown_latch (fst st) \<noteq> None \<Longrightarrow> shutdown_latch (fst (fold (eval_limit es now us) ls st)) \<noteq> None"
proof (induction ls arbitrary: st)
  case (Cons l ls)
  have "shutdown_latch (fst (eval_limit es now us l st)) \<noteq> None"
    using Cons.prems act_on_keeps [of st] by (auto simp: eval_limit_def)
  from Cons.IH [OF this] show ?case by simp
qed simp

lemma fold_eval_trips:
  assumes "l \<in> set ls" "lim_action l = Some ''shutdown''" "over es now us l"
  shows "shutdown_latch (fst (fold (eval_limit es now us) ls st)) \<noteq> None"
  using assms
proof (induction ls arbitrary: st)
  case (Cons k ks)
  show ?case
  proof (cases "k = l")
    case True
    have "shutdown_latch (fst (eval_limit es now us l st)) \<noteq> None"
      using Cons.prems(2,3)
      by (cases st) (auto simp: eval_limit_def act_on_def dflt_def latch_shutdown_def Let_def)
    from fold_eval_keeps [OF this] show ?thesis using True by simp
  qed (use Cons in simp)
qed simp

text \<open>One evaluation, as an equation for each of its three ways.\<close>

definition evaluated :: "budget_config \<Rightarrow> model_entry list \<Rightarrow> time \<Rightarrow> usage list \<Rightarrow> budget \<Rightarrow> budget" where
  "evaluated cfg es now us b = fst (fold (eval_limit es now us) (effective_limits cfg now b) (b, []))"

lemma evaluate_cases:
  obtains "\<not> enabled cfg b" "evaluate cfg es f now us b = (disabled_summary, b)"
  | s where "enabled cfg b" "\<not> f" "cached b = Some s" "secs now - last_eval b < bc_interval cfg"
      "evaluate cfg es f now us b = (s, b)"
  | s b' where "enabled cfg b" "evaluate cfg es f now us b = (s, b')" "cached b' = Some s"
      "last_eval b' = secs now" "shutdown_latch b' = shutdown_latch (evaluated cfg es now us b)"
      "restrict_latch b' = restrict_latch (evaluated cfg es now us b)"
      "overrides b' = overrides b" "enabled_override b' = enabled_override b"
      "s = summary_of es now us (effective_limits cfg now b) (evaluated cfg es now us b)"
proof (cases "enabled cfg b")
  case True
  show ?thesis
  proof (cases "\<not> f \<and> cache_fresh cfg now b")
    case False
    obtain b1 pend where f: "fold (eval_limit es now us) (effective_limits cfg now b) (b, []) = (b1, pend)"
      by (cases "fold (eval_limit es now us) (effective_limits cfg now b) (b, [])")
    then have "b1 = evaluated cfg es now us b" by (simp add: evaluated_def)
    moreover have "overrides b1 = overrides b" "enabled_override b1 = enabled_override b"
      using fold_eval_frame [of es now us "effective_limits cfg now b" "(b, [])"] f by simp_all
    ultimately show ?thesis
      using True False f
      by (intro that(3) [where b' = "(notify_all cfg pend b1)\<lparr> cached := Some (summary_of es now us
            (effective_limits cfg now b) b1), last_eval := secs now \<rparr>"])
        (auto simp: evaluate_def notify_all_def Let_def)
  qed (use True in \<open>auto simp: evaluate_def cache_fresh_def intro: that(2)\<close>)
qed (auto simp: evaluate_def intro: that(1))

lemma summary_latches [simp]:
  "block_all (summary_of es now us ls b) \<longleftrightarrow> shutdown_latch b \<noteq> None"
  "is_shut (summary_of es now us ls b) \<longleftrightarrow> shutdown_latch b \<noteq> None"
  by (simp_all add: summary_of_def Let_def)

text \<open>What the cached summary says of the kill switch, and when it was taken.\<close>

definition cache_ok :: "budget_config \<Rightarrow> model_entry list \<Rightarrow> world \<Rightarrow> bool" where
  "cache_ok cfg es w =
     (case w of (t, us, b) \<Rightarrow>
        \<forall>s. cached b = Some s \<longrightarrow>
          (is_shut s \<longleftrightarrow> shutdown_latch b \<noteq> None) \<and> (block_all s \<longleftrightarrow> shutdown_latch b \<noteq> None) \<and>
          (shutdown_latch b = None \<longrightarrow>
             (\<exists>t0 us0 us1. us = us0 @ us1 \<and> t0 \<le> t \<and> last_eval b = secs t0 \<and>
                (\<forall>l \<in> set (effective_limits cfg t0 b). lim_action l = Some ''shutdown'' \<longrightarrow>
                   limit_value es t0 us0 l < dflt 0 (lim_threshold l)))))"

lemma effective_limits_cong:
  assumes "overrides b' = overrides b"
  shows "effective_limits cfg t b' = effective_limits cfg t b"
proof -
  have "effective_limit t b' l = effective_limit t b l" for l
    using assms by (auto simp: effective_limit_def split: option.splits)
  then show ?thesis by (simp add: effective_limits_def)
qed

lemma evaluated_bound:
  assumes "shutdown_latch (evaluated cfg es now us b) = None"
    and "l \<in> set (effective_limits cfg now b)" "lim_action l = Some ''shutdown''"
  shows "limit_value es now us l < dflt 0 (lim_threshold l)"
  using assms fold_eval_trips [of l "effective_limits cfg now b" es now us "(b, [])"]
  by (auto simp: evaluated_def over_def not_le [symmetric])

lemma evaluate_ok:
  assumes "cache_ok cfg es (t, us, b)"
  shows "cache_ok cfg es (t, us, snd (evaluate cfg es f t us b))"
proof (cases rule: evaluate_cases [where cfg = cfg and b = b and es = es and f = f and now = t and us = us])
  case (3 s b')
  show ?thesis unfolding cache_ok_def 3(2) snd_conv prod.case
  proof (intro allI impI)
    fix s' assume "cached b' = Some s'"
    then have s: "s' = s" using 3 by simp
    have "\<exists>t0 us0 us1. us = us0 @ us1 \<and> t0 \<le> t \<and> last_eval b' = secs t0 \<and>
        (\<forall>l \<in> set (effective_limits cfg t0 b'). lim_action l = Some ''shutdown'' \<longrightarrow>
           limit_value es t0 us0 l < dflt 0 (lim_threshold l))" if "shutdown_latch b' = None"
      using that 3 evaluated_bound [of cfg es t us b]
      by (intro exI [of _ t] exI [of _ us] exI [of _ "[]"]) (auto simp: effective_limits_cong [OF 3(7)])
    then show "(is_shut s' \<longleftrightarrow> shutdown_latch b' \<noteq> None) \<and> (block_all s' \<longleftrightarrow> shutdown_latch b' \<noteq> None) \<and>
      (shutdown_latch b' = None \<longrightarrow> (\<exists>t0 us0 us1. us = us0 @ us1 \<and> t0 \<le> t \<and> last_eval b' = secs t0 \<and>
        (\<forall>l \<in> set (effective_limits cfg t0 b'). lim_action l = Some ''shutdown'' \<longrightarrow>
           limit_value es t0 us0 l < dflt 0 (lim_threshold l))))"
      using s 3 by simp
  qed
qed (use assms in simp_all)

lemma guard_evaluates:
  "snd (guard_paid_call cfg es t us b) = b \<or>
   snd (guard_paid_call cfg es t us b) = snd (evaluate cfg es False t us b)"
  by (simp add: guard_paid_call_def split: prod.splits)

lemma auto_evaluates:
  "snd (autonomous_allowed cfg es t us b) = b \<or>
   snd (autonomous_allowed cfg es t us b) = snd (evaluate cfg es False t us b)"
  by (simp add: autonomous_allowed_def split: prod.splits)

lemma status_evaluates: "snd (budget_status cfg es t us b) = snd (evaluate cfg es True t us b)"
  by (simp add: budget_status_def split: prod.splits)

lemmas evaluates = guard_evaluates auto_evaluates status_evaluates

lemma cache_ok_later:
  assumes "cache_ok cfg es (t, us, b)" "t \<le> t'"
  shows "cache_ok cfg es (t', us @ vs, b)"
proof -
  have "\<exists>t0 us0 us1. us @ vs = us0 @ us1 \<and> t0 \<le> t' \<and> last_eval b = secs t0 \<and> Q t0 us0"
    if "\<exists>t0 us0 us1. us = us0 @ us1 \<and> t0 \<le> t \<and> last_eval b = secs t0 \<and> Q t0 us0" for Q
    using that assms(2) by (metis append_assoc order_trans)
  then show ?thesis using assms(1) by (auto simp: cache_ok_def)
qed

lemma cache_ok_None: "cached b = None \<Longrightarrow> cache_ok cfg es (t, us, b)"
  by (simp add: cache_ok_def)

lemma budget_step_ok: "budget_step cfg es w w' \<Longrightarrow> cache_ok cfg es w \<Longrightarrow> cache_ok cfg es w'"
proof -
  have ev: "cache_ok cfg es (t, us, b) \<Longrightarrow> b' = b \<or> b' = snd (evaluate cfg es f t us b) \<Longrightarrow>
      cache_ok cfg es (t, us, b')" for t us b b' f
    using evaluate_ok by auto
  assume "budget_step cfg es w w'" "cache_ok cfg es w"
  then show ?thesis
    unfolding budget_step_def
    by (elim disjE quiet_step.cases human_step.cases)
      (auto simp: set_threshold_override_def restart_def resume_def set_enabled_def status_evaluates
        intro: cache_ok_None ev [OF _ guard_evaluates] ev [OF _ auto_evaluates] evaluate_ok
          cache_ok_later [where vs = "[]", simplified] cache_ok_later [OF _ order_refl])
qed

lemma budget_run_ok:
  "(budget_step cfg es)\<^sup>*\<^sup>* w w' \<Longrightarrow> cache_ok cfg es w \<Longrightarrow> cache_ok cfg es w'"
  by (induction rule: rtranclp_induct) (auto intro: budget_step_ok)

text \<open>Without a human the kill switch stays latched and the breaker enabled.\<close>

definition locked :: "budget_config \<Rightarrow> budget \<Rightarrow> bool" where
  "locked cfg b = (enabled cfg b \<and> shutdown_latch b \<noteq> None)"

lemma evaluate_locked: "locked cfg b \<Longrightarrow> locked cfg (snd (evaluate cfg es f t us b))"
proof -
  assume l: "locked cfg b"
  then have "shutdown_latch (evaluated cfg es t us b) \<noteq> None"
    unfolding evaluated_def locked_def by (intro fold_eval_keeps) simp
  then show ?thesis using l
    by (cases rule: evaluate_cases [where cfg = cfg and b = b and es = es and f = f and now = t and us = us])
      (auto simp: locked_def enabled_def)
qed

lemma quiet_locked: "quiet_step cfg es w w' \<Longrightarrow> locked cfg (snd (snd w)) \<Longrightarrow> locked cfg (snd (snd w'))"
proof -
  have ev: "locked cfg b \<Longrightarrow> b' = b \<or> b' = snd (evaluate cfg es f t us b) \<Longrightarrow> locked cfg b'" for t us b b' f
    using evaluate_locked by auto
  assume "quiet_step cfg es w w'" "locked cfg (snd (snd w))"
  then show ?thesis
    by (cases rule: quiet_step.cases)
      (auto simp: status_evaluates intro: ev [OF _ guard_evaluates] ev [OF _ auto_evaluates] evaluate_locked,
       auto simp: locked_def enabled_def set_threshold_override_def restart_def)
qed

lemma quiet_run_locked:
  "(quiet_step cfg es)\<^sup>*\<^sup>* w w' \<Longrightarrow> locked cfg (snd (snd w)) \<Longrightarrow> locked cfg (snd (snd w'))"
  by (induction rule: rtranclp_induct) (auto intro: quiet_locked)

lemma quiet_budget: "(quiet_step cfg es)\<^sup>*\<^sup>* w w' \<Longrightarrow> (budget_step cfg es)\<^sup>*\<^sup>* w w'"
  by (erule rtranclp_mono [THEN predicate2D, rotated]) (auto simp: budget_step_def)

lemma locked_blocks:
  assumes "locked cfg b" "cache_ok cfg es (t, us, b)"
  shows "fst (guard_paid_call cfg es t us b) = Inl (RuntimeError ''BudgetExceededError'')"
    and "\<not> fst (fst (autonomous_allowed cfg es t us b))"
proof -
  show "fst (guard_paid_call cfg es t us b) = Inl (RuntimeError ''BudgetExceededError'')"
    using assms(1) by (auto simp: guard_paid_call_def locked_def)
  have "shutdown_latch (evaluated cfg es t us b) \<noteq> None"
    using assms(1) unfolding evaluated_def locked_def by (intro fold_eval_keeps) simp
  then have "is_shut (fst (evaluate cfg es False t us b))"
    using assms
    by (cases rule: evaluate_cases [where cfg = cfg and b = b and es = es and f = False and now = t and us = us])
      (auto simp: locked_def cache_ok_def)
  then show "\<not> fst (fst (autonomous_allowed cfg es t us b))"
    using assms(1) by (auto simp: autonomous_allowed_def locked_def split: prod.splits)
qed

text \<open>Costs add up call by call.\<close>

definition call_cost :: "model_entry list \<Rightarrow> usage \<Rightarrow> rat" where
  "call_cost es u =
     (case call_price es (us_model u) of (pin, pout, pcached) \<Rightarrow>
        (of_int (us_in u) * pin + of_int (us_cc u) * pin * (5/4) + of_int (us_cr u) * pcached
           + of_int (us_out u) * pout) / 1000000)"

lemma group_cost_calls:
  "group_cost es us m = sum_list (map (call_cost es) (filter (\<lambda>u. us_model u = m) us))"
proof (induction us)
  case Nil
  then show ?case by (simp add: group_cost_def model_sum_def split: prod.splits)
next
  case (Cons u us)
  show ?case
  proof (cases "us_model u = m")
    case True
    obtain a b c where p: "call_price es m = (a, b, c)" by (cases "call_price es m")
    have "group_cost es (u # us) m = call_cost es u + group_cost es us m"
      using True by (simp add: group_cost_def model_sum_def call_cost_def p field_simps)
    then show ?thesis using Cons.IH True by simp
  next
    case False
    then have "group_cost es (u # us) m = group_cost es us m"
      by (simp add: group_cost_def model_sum_def)
    then show ?thesis using Cons.IH False by simp
  qed
qed

lemma sum_list_groups:
  "distinct ms \<Longrightarrow> \<forall>u \<in> set us. g u \<in> set ms \<Longrightarrow>
     sum_list (map (\<lambda>m. sum_list (map f (filter (\<lambda>u. g u = m) us))) ms) = sum_list (map (f :: 'a \<Rightarrow> rat) us)"
proof (induction us)
  case (Cons u us)
  have "sum_list (map (\<lambda>m. sum_list (map f (filter (\<lambda>v. g v = m) (u # us)))) ms) =
      sum_list (map (\<lambda>m. (if g u = m then f u else 0) + sum_list (map f (filter (\<lambda>v. g v = m) us))) ms)"
    by (intro arg_cong [where f = sum_list] map_cong) auto
  also have "\<dots> = sum_list (map (\<lambda>m. if g u = m then f u else 0) ms) + sum_list (map f us)"
    using Cons by (simp add: sum_list_addf)
  also have "sum_list (map (\<lambda>m. if g u = m then f u else 0) ms) = f u"
    using Cons.prems by (simp add: sum_list_distinct_conv_sum_set sum.delta)
  finally show ?case by simp
qed (simp add: sum_list_0)

lemma cost_from_rows_calls: "cost_from_rows es us = sum_list (map (call_cost es) us)"
  unfolding cost_from_rows_def group_cost_calls by (rule sum_list_groups) auto

section \<open>Properties\<close>

definition demo_limit :: limit where
  "demo_limit = \<lparr> lim_name = Some ''cost'', lim_metric = Some ''calls'', lim_window = Some 60,
     lim_threshold = Some 1, lim_action = Some ''shutdown'', lim_notify = False \<rparr>"

definition demo_budget_config :: budget_config where
  "demo_budget_config = \<lparr> bc_enabled = True, bc_limits = [demo_limit], bc_interval = 5,
     bc_notify_human = False \<rparr>"

definition empty_budget :: budget where
  "empty_budget = \<lparr> enabled_override = None, overrides = Map.empty, restrict_latch = None,
     shutdown_latch = None, warn_sent = Map.empty, outbox = [], last_eval = 0, cached = None \<rparr>"

definition demo_usage :: usage where
  "demo_usage = \<lparr> us_model = ''m'', us_in = 10, us_out = 10, us_cc = 0, us_cr = 0, us_created = 100 \<rparr>"

lemmas budget_demo = demo_limit_def demo_budget_config_def empty_budget_def demo_usage_def

text \<open>C5: The kill switch holds. Once the shutdown latch is set on an enabled breaker, every paid call
  raises and autonomous work is refused, whatever calls, evaluations, overrides and restarts follow,
  until a human resumes or disables the breaker.\<close>

theorem budget_latch_holds:
  assumes "(budget_step cfg es)\<^sup>*\<^sup>* (t0, us0, b0) (t, us, b)" and "cached b0 = None"
    and "enabled cfg b" and "shutdown_latch b \<noteq> None"
    and "(quiet_step cfg es)\<^sup>*\<^sup>* (t, us, b) (t', us', b')"
  shows "fst (guard_paid_call cfg es t' us' b') = Inl (RuntimeError ''BudgetExceededError'') \<and>
    \<not> fst (fst (autonomous_allowed cfg es t' us' b'))"
proof -
  have "locked cfg b'"
    using quiet_run_locked [OF assms(5)] assms(3,4) by (simp add: locked_def)
  moreover have "cache_ok cfg es (t', us', b')"
    using budget_run_ok [OF rtranclp_trans [OF assms(1) quiet_budget [OF assms(5)]]] assms(2)
    by (simp add: cache_ok_None)
  ultimately show ?thesis using locked_blocks by blast
qed

lemma demo_trips:
  "snd (guard_paid_call demo_budget_config [] 100000000 [demo_usage] empty_budget)
     = empty_budget\<lparr> shutdown_latch := Some (new_latch 100000000 demo_limit 1),
         cached := Some (summary_of [] 100000000 [demo_usage] [demo_limit]
            (empty_budget\<lparr> shutdown_latch := Some (new_latch 100000000 demo_limit 1) \<rparr>)),
         last_eval := 100 \<rparr>"
  by (simp add: guard_paid_call_def evaluate_def enabled_def cache_fresh_def effective_limits_def
      effective_limit_def eval_limit_def over_def limit_value_def measure_limit_def in_window_def
      cur_ts_def dflt_def act_on_def latch_shutdown_def notify_all_def secs_def budget_demo Let_def)

theorem budget_latch_holds_witness:
  "let b = restart (snd (guard_paid_call demo_budget_config [] 100000000 [demo_usage] empty_budget)) in
     fst (guard_paid_call demo_budget_config [] 900000000 [demo_usage] b)
       = Inl (RuntimeError ''BudgetExceededError'')"
proof -
  let ?b = "snd (guard_paid_call demo_budget_config [] 100000000 [demo_usage] empty_budget)"
  have 1: "(budget_step demo_budget_config [])\<^sup>*\<^sup>* (100000000, [demo_usage], empty_budget)
      (100000000, [demo_usage], ?b)"
    by (rule r_into_rtranclp) (auto simp: budget_step_def intro: qs_guard)
  have 2: "(quiet_step demo_budget_config [])\<^sup>*\<^sup>* (100000000, [demo_usage], ?b)
      (900000000, [demo_usage], restart ?b)"
    by (rule rtranclp.rtrancl_into_rtrancl [OF r_into_rtranclp]) (rule qs_restart, rule qs_time, simp)
  have "enabled demo_budget_config ?b" "shutdown_latch ?b \<noteq> None" "cached empty_budget = None"
    unfolding demo_trips by (simp_all add: enabled_def budget_demo)
  from budget_latch_holds [OF 1 this(3) this(1,2) 2] show ?thesis by (simp add: Let_def)
qed

text \<open>C6: Spending is bounded. Whenever an enabled breaker lets a paid call through, there is a moment
  less than the evaluation interval ago, or the present one, at which every shutdown limit was
  measured below its threshold; only the calls recorded since then are unaccounted for.\<close>

theorem budget_bounds_spend:
  assumes "(budget_step cfg es)\<^sup>*\<^sup>* (t0, us0, b0) (t, us, b)" and "cached b0 = None"
    and "enabled cfg b" and "guard_paid_call cfg es t us b = (Inr (), b')"
  shows "\<exists>s before since. us = before @ since \<and> s \<le> t \<and> (secs t - secs s < bc_interval cfg \<or> s = t) \<and>
    (\<forall>l \<in> set (effective_limits cfg s b). lim_action l = Some ''shutdown'' \<longrightarrow>
       limit_value es s before l < dflt 0 (lim_threshold l))"
proof -
  have ok: "cache_ok cfg es (t, us, b)"
    using budget_run_ok [OF assms(1)] assms(2) by (simp add: cache_ok_None)
  obtain S where e: "evaluate cfg es False t us b = (S, b')" "\<not> block_all S"
    using assms(3,4) by (auto simp: guard_paid_call_def split: prod.splits if_splits)
  show ?thesis
  proof (cases rule: evaluate_cases [where cfg = cfg and b = b and es = es and f = False and now = t and us = us])
    case (2 s)
    then have "s = S" "shutdown_latch b = None" using e ok by (auto simp: cache_ok_def)
    then obtain u0 u1 s0 where "us = u0 @ u1" "s0 \<le> t" "last_eval b = secs s0"
      "\<forall>l \<in> set (effective_limits cfg s0 b). lim_action l = Some ''shutdown'' \<longrightarrow>
         limit_value es s0 u0 l < dflt 0 (lim_threshold l)"
      using ok 2(3) unfolding cache_ok_def prod.case by blast
    then show ?thesis using 2(4) by auto
  next
    case (3 s c)
    then have "shutdown_latch (evaluated cfg es t us b) = None" using e by simp
    then show ?thesis
      by (intro exI [of _ t] exI [of _ us] exI [of _ "[]"]) (simp add: evaluated_bound)
  qed (use assms(3) in simp)
qed

theorem budget_bounds_spend_witness:
  "\<exists>b'. guard_paid_call demo_budget_config [] 900000000 [demo_usage] empty_budget = (Inr (), b') \<and>
     (\<exists>s before since. [demo_usage] = before @ since \<and> s \<le> 900000000 \<and>
        limit_value [] s before demo_limit < 1)"
proof -
  have e: "enabled demo_budget_config empty_budget" by (simp add: enabled_def budget_demo)
  obtain b' where g: "guard_paid_call demo_budget_config [] 900000000 [demo_usage] empty_budget = (Inr (), b')"
    by (simp add: guard_paid_call_def evaluate_def enabled_def cache_fresh_def effective_limits_def
      effective_limit_def eval_limit_def over_def limit_value_def measure_limit_def in_window_def
      cur_ts_def dflt_def summary_of_def notify_all_def budget_demo Let_def)
  have "\<exists>s before since. [demo_usage] = before @ since \<and> s \<le> 900000000 \<and>
    (secs 900000000 - secs s < bc_interval demo_budget_config \<or> s = 900000000) \<and>
    (\<forall>l \<in> set (effective_limits demo_budget_config s empty_budget). lim_action l = Some ''shutdown'' \<longrightarrow>
       limit_value [] s before l < dflt 0 (lim_threshold l))"
    by (rule budget_bounds_spend [OF rtranclp.rtrancl_refl _ e g]) (simp add: empty_budget_def)
  then show ?thesis
    using g by (fastforce simp: effective_limits_def effective_limit_def dflt_def budget_demo)
qed

text \<open>The cost per model that the breaker sums up is the sum of what every single call costs.\<close>

theorem budget_cost_exact:
  "cost_from_rows es us = sum_list (map (call_cost es) us)"
  by (rule cost_from_rows_calls)

text \<open>The charge of an unpriced model is that of the model with the dearest output, whose input may
  be cheaper than another model's: the comment that such a model never slips under the breaker
  does not hold for input tokens.\<close>

definition cheap_input_registry :: "model_entry list" where
  "cheap_input_registry =
     [\<lparr> en_key = ''a'', en_provider = ''p'', en_model_id = ''a-1'', quality_tier = 4, cost_in = 20, cost_out = 20,
        cached_cost_in = 2, context_window = 1, capabilities = [], measured_speed = None \<rparr>,
      \<lparr> en_key = ''b'', en_provider = ''p'', en_model_id = ''b-1'', quality_tier = 4, cost_in = 1, cost_out = 25,
        cached_cost_in = 1, context_window = 1, capabilities = [], measured_speed = None \<rparr>]"

lemma unpriced_output_ceiling:
  "price_entry es m = None \<Longrightarrow> e \<in> set es \<Longrightarrow> cost_out e \<le> fst (snd (call_price es m))"
  by (simp add: call_price_def unknown_model_price_def ceiling_out)

lemma unpriced_input_undercharged:
  "fst (call_price cheap_input_registry ''zz'') < fst (call_price cheap_input_registry ''a-1'')"
  by code_simp

end
