(* ===== verification/Arc_Ready.thy ===== *)
theory Arc_Ready
  imports Arc_Escalation Budget
begin

text \<open>
  Which arcs are ready, and who says so (\<open>core/arcs/dispatch_handler.py\<close>): the check of the
  review verdicts of earlier siblings, the dispatch of the ready children of an arc, the
  propagation of a completion to the parent, the heartbeat that looks for ready arcs, and the
  conversation an arc reports to.

  \<open>json.loads\<close> of a state cell that is not JSON raises \<open>ValueError\<close>. In the heartbeat SQLite
  compares \<open>wait_until\<close> as text with \<open>datetime('now')\<close>, which has a blank between date and
  time: a time \<open>At t\<close> stands for the text \<open>datetime.isoformat()\<close> writes in UTC, with a
  \<open>T\<close> there, which is greater than every text of the same day; the comparison of any other
  text is the parameter \<open>le\<close>. Of the table \<open>conversations\<close> the ids are a parameter, of
  \<open>conversation_arcs\<close> the creation times.
\<close>

section \<open>Verdicts of earlier siblings\<close>

definition verdict_passes :: "json \<Rightarrow> bool" where
  "verdict_passes v =
     (case v of
        JObj ps \<Rightarrow> (case jget ps ''verdict'' of None \<Rightarrow> True | Some w \<Rightarrow> w = JStr ''pass'')
      | _ \<Rightarrow> v = JStr ''pass'')"

fun check_review_verdicts :: "db \<Rightarrow> int \<Rightarrow> arc list \<Rightarrow> exn + bool" where
  "check_review_verdicts d n [] = Inr True"
| "check_review_verdicts d n (s # ss) =
     (if n \<le> step_order s \<or> astatus s \<noteq> Completed then check_review_verdicts d n ss
      else case state_cell (aid s) ''_required_pass'' d of
          None \<Rightarrow> check_review_verdicts d n ss
        | Some (Malformed _) \<Rightarrow> Inl (ValueError ''JSON'')
        | Some (Parsed r) \<Rightarrow>
            if \<not> jtruthy r then check_review_verdicts d n ss
            else (case state_cell (aid s) ''_verdict'' d of
                    None \<Rightarrow> check_review_verdicts d n ss
                  | Some (Malformed _) \<Rightarrow> Inl (ValueError ''JSON'')
                  | Some (Parsed v) \<Rightarrow>
                      if verdict_passes v then check_review_verdicts d n ss else Inr False))"

section \<open>Ready children\<close>

fun enqueue_children :: "time \<Rightarrow> arc list \<Rightarrow> arc list \<Rightarrow> db \<Rightarrow> unit act" where
  "enqueue_children now sibs [] d = (Inr (), d)"
| "enqueue_children now sibs (c # cs) d =
     (if astatus c \<noteq> Pending \<or> wait_in_future now (wait_until c) \<or>
         \<not> check_dependencies (aid c) d \<or> \<not> check_activation (aid c) d
      then enqueue_children now sibs cs d
      else case check_review_verdicts d (step_order c) sibs of
          Inl e \<Rightarrow> (Inl e, d)
        | Inr False \<Rightarrow> enqueue_children now sibs cs d
        | Inr True \<Rightarrow> enqueue_children now sibs cs (enqueue_dispatch now (aid c) (apriority c) d))"

definition enqueue_ready_children :: "time \<Rightarrow> int \<Rightarrow> db \<Rightarrow> unit act" where
  "enqueue_ready_children now p d = enqueue_children now (get_children p d) (get_children p d) d"

section \<open>Propagation\<close>

text \<open>\<open>except (ValueError, sqlite3.Error)\<close>.\<close>

definition value_or_db_error :: "exn \<Rightarrow> bool" where
  "value_or_db_error e = (case e of ValueError _ \<Rightarrow> True | IntegrityError _ \<Rightarrow> True | _ \<Rightarrow> False)"

definition propagate_completion :: "(json \<Rightarrow> string) \<Rightarrow> env \<Rightarrow> time \<Rightarrow> int \<Rightarrow> db \<Rightarrow> unit act" where
  "propagate_completion fmt env now i d =
     (case (case get_arc i d of Some a \<Rightarrow> parent_id a | None \<Rightarrow> None) of
        None \<Rightarrow> enqueue_ready_children now i d
      | Some p \<Rightarrow>
          (case enqueue_ready_children now p d of
             (Inl e, d1) \<Rightarrow> (Inl e, d1)
           | (Inr _, d1) \<Rightarrow>
               (case freeze_arc (failure_hook fmt env) now p d1 of
                  Inr d2 \<Rightarrow> (Inr (), d2)
                | Inl e \<Rightarrow> if value_or_db_error e then (Inr (), d1) else (Inl e, d1))))"

section \<open>The heartbeat\<close>

definition sql_due :: "(string \<Rightarrow> time \<Rightarrow> bool) \<Rightarrow> time \<Rightarrow> timestr option \<Rightarrow> bool" where
  "sql_due le now w =
     (case w of
        None \<Rightarrow> True
      | Some (At t) \<Rightarrow> t div 86400000000 < now div 86400000000
      | Some (BadTime s) \<Rightarrow> le s now)"

text \<open>The rows of the query; \<open>LIKE\<close> ignores the case of ASCII letters.\<close>

definition scan_rows :: "(string \<Rightarrow> time \<Rightarrow> bool) \<Rightarrow> time \<Rightarrow> arc list \<Rightarrow> arc list" where
  "scan_rows le now as =
     filter (\<lambda>a. astatus a = Pending \<and> \<not> starts_with (lower (aname a)) CODING_CHANGE_PREFIX \<and>
                 aagent a \<noteq> SUPERVISOR \<and> sql_due le now (wait_until a)) as"

definition dispatch_payload :: "int \<Rightarrow> json" where
  "dispatch_payload i = JObj [(''arc_id'', JInt i)]"

definition dispatch_queued :: "int \<Rightarrow> db \<Rightarrow> bool" where
  "dispatch_queued i d =
     list_ex (\<lambda>r. event_type r = ''arc.dispatch'' \<and> payload r = dispatch_payload i \<and>
                  (wstatus r = WPending \<or> wstatus r = WClaimed)) (queue d)"

definition scan_one :: "time \<Rightarrow> arc \<Rightarrow> db \<Rightarrow> db" where
  "scan_one now a d =
     (if dispatch_queued (aid a) d \<or> \<not> check_dependencies (aid a) d \<or> \<not> check_activation (aid a) d
      then d else enqueue_dispatch now (aid a) (apriority a) d)"

definition scan_for_ready_arcs ::
    "(string \<Rightarrow> time \<Rightarrow> bool) \<Rightarrow> budget_config \<Rightarrow> model_entry list \<Rightarrow> usage list \<Rightarrow> time \<Rightarrow> db \<Rightarrow> budget \<Rightarrow>
     db \<times> budget" where
  "scan_for_ready_arcs le cfg es us now d b =
     (case autonomous_allowed cfg es now us b of
        ((ok, reason), b') \<Rightarrow> (if ok then fold (scan_one now) (scan_rows le now (arcs d)) d else d, b'))"

section \<open>The conversation of an arc\<close>

text \<open>The newest link of the arc to a conversation that exists.\<close>

definition arc_conversation :: "int list \<Rightarrow> (int \<times> int \<Rightarrow> int) \<Rightarrow> int \<Rightarrow> db \<Rightarrow> int option" where
  "arc_conversation convs made i d =
     map_option fst (first_by (\<lambda>l. - made l) (filter (\<lambda>l. snd l = i \<and> fst l \<in> set convs) (conv_arcs d)))"

text \<open>The recursion stops beyond depth 10; \<open>n\<close> is the number of levels that are left.\<close>

fun find_conversation :: "nat \<Rightarrow> int list \<Rightarrow> (int \<times> int \<Rightarrow> int) \<Rightarrow> int \<Rightarrow> db \<Rightarrow> int option" where
  "find_conversation 0 convs made i d = None"
| "find_conversation (Suc n) convs made i d =
     (case arc_conversation convs made i d of
        Some c \<Rightarrow> Some c
      | None \<Rightarrow>
          (case find_arc i d of
             None \<Rightarrow> None
           | Some a \<Rightarrow>
               (case parent_id a of
                  None \<Rightarrow> None
                | Some p \<Rightarrow> if p = 0 then None else find_conversation n convs made p d)))"

definition find_arc_conversation :: "int list \<Rightarrow> (int \<times> int \<Rightarrow> int) \<Rightarrow> int \<Rightarrow> db \<Rightarrow> int option" where
  "find_arc_conversation = find_conversation 11"

section \<open>Facts\<close>

lemma enqueue_dispatch_only_queue: "enqueue_dispatch now i pr d = d\<lparr> queue := queue (enqueue_dispatch now i pr d) \<rparr>"
  by (simp add: enqueue_dispatch_def enqueue_db_def)

lemma reads_not_queue [simp]:
  "check_dependencies i (d\<lparr> queue := q \<rparr>) = check_dependencies i d"
  "check_activation i (d\<lparr> queue := q \<rparr>) = check_activation i d"
  "state_cell i k (d\<lparr> queue := q \<rparr>) = state_cell i k d"
  by (simp_all add: check_dependencies_def check_activation_def state_cell_def preceding_siblings_def
      split: option.splits)

lemma verdicts_not_queue [simp]:
  "check_review_verdicts (d\<lparr> queue := q \<rparr>) n ss = check_review_verdicts d n ss"
  by (induction ss) (auto split: option.splits jtext.splits)

text \<open>A child that the dispatch of ready children enqueues.\<close>

definition ready_child :: "time \<Rightarrow> db \<Rightarrow> arc list \<Rightarrow> arc \<Rightarrow> bool" where
  "ready_child now d sibs c =
     (astatus c = Pending \<and> \<not> wait_in_future now (wait_until c) \<and> check_dependencies (aid c) d \<and>
      check_activation (aid c) d \<and> check_review_verdicts d (step_order c) sibs = Inr True)"

lemma ready_not_queue [simp]: "ready_child now (d\<lparr> queue := q \<rparr>) sibs c = ready_child now d sibs c"
  by (simp add: ready_child_def)

abbreviation dispatch_child :: "time \<Rightarrow> arc \<Rightarrow> db \<Rightarrow> db" where
  "dispatch_child now c \<equiv> enqueue_dispatch now (aid c) (apriority c)"

lemma ready_dispatched [simp]: "ready_child now (dispatch_child now a d) sibs c = ready_child now d sibs c"
  by (subst enqueue_dispatch_only_queue) simp

lemma enqueue_children_ok:
  "enqueue_children now sibs cs d = (Inr u, d') \<Longrightarrow>
     d' = fold (dispatch_child now) (filter (ready_child now d sibs) cs) d"
proof (induction cs arbitrary: d)
  case (Cons c cs)
  have f: "filter (ready_child now (dispatch_child now c d) sibs) cs = filter (ready_child now d sibs) cs"
    by (rule filter_cong) simp_all
  show ?case
  proof (cases "ready_child now d sibs c")
    case True
    then have "enqueue_children now sibs cs (dispatch_child now c d) = (Inr u, d')"
      using Cons.prems by (simp add: ready_child_def)
    from Cons.IH [OF this] show ?thesis using True f by simp
  next
    case False
    then have "enqueue_children now sibs cs d = (Inr u, d')"
      using Cons.prems by (auto simp: ready_child_def split: if_splits sum.splits bool.splits)
    from Cons.IH [OF this] show ?thesis using False by simp
  qed
qed simp

lemma enqueue_children_frame: "\<exists>q. snd (enqueue_children now sibs cs d) = d\<lparr> queue := q \<rparr>"
proof (induction cs arbitrary: d)
  case Nil
  show ?case by (rule exI [of _ "queue d"]) simp
next
  case (Cons c cs)
  obtain q1 where q1: "dispatch_child now c d = d\<lparr> queue := q1 \<rparr>" using enqueue_dispatch_only_queue by blast
  obtain q2 where q2: "snd (enqueue_children now sibs cs d) = d\<lparr> queue := q2 \<rparr>" using Cons.IH by blast
  obtain q3 where q3: "snd (enqueue_children now sibs cs (d\<lparr> queue := q1 \<rparr>)) = d\<lparr> queue := q3 \<rparr>"
    using Cons.IH [of "d\<lparr> queue := q1 \<rparr>"] by auto
  have "snd (enqueue_children now sibs (c # cs) d) \<in> {d, d\<lparr> queue := q2 \<rparr>, d\<lparr> queue := q3 \<rparr>}"
    using q1 q2 q3 by (auto split: sum.split bool.split)
  then consider "snd (enqueue_children now sibs (c # cs) d) = d\<lparr> queue := queue d \<rparr>"
    | "snd (enqueue_children now sibs (c # cs) d) = d\<lparr> queue := q2 \<rparr>"
    | "snd (enqueue_children now sibs (c # cs) d) = d\<lparr> queue := q3 \<rparr>" by auto
  then show ?case by cases (rule exI, assumption)+
qed

text \<open>What a series of dispatches leaves in the queue.\<close>

lemma fold_dispatch_live:
  "c \<in> set cs \<or> live_key (dispatch_key (aid c)) (queue d) \<Longrightarrow>
     live_key (dispatch_key (aid c)) (queue (fold (dispatch_child now) cs d))"
proof (induction cs arbitrary: d)
  case (Cons x cs)
  have "live_key (dispatch_key (aid x)) (queue (dispatch_child now x d))"
    by (simp add: enqueue_dispatch_def live_key_enqueue_db)
  moreover have "live_key k (queue d) \<Longrightarrow> live_key k (queue (dispatch_child now x d))" for k
    by (simp add: enqueue_dispatch_def enqueue_db_def live_key_enqueue)
  ultimately show ?case using Cons.IH [of "dispatch_child now x d"] Cons.prems by auto
qed auto

lemma dispatch_new_rows:
  "r \<in> set (queue (enqueue_dispatch now i pr d)) \<Longrightarrow>
     r \<in> set (queue d) \<or> (event_type r = ''arc.dispatch'' \<and> payload r = dispatch_payload i \<and> wstatus r = WPending)"
  by (auto simp: enqueue_dispatch_def enqueue_db_def enqueue_def Let_def clear_finished_def dispatch_payload_def
      split: if_splits)

lemma fold_dispatch_new:
  "r \<in> set (queue (fold (dispatch_child now) cs d)) \<Longrightarrow>
     r \<in> set (queue d) \<or> (\<exists>c \<in> set cs. event_type r = ''arc.dispatch'' \<and> payload r = dispatch_payload (aid c) \<and>
       wstatus r = WPending)"
proof (induction cs arbitrary: d)
  case (Cons x cs)
  from Cons.IH [of "dispatch_child now x d"] Cons.prems dispatch_new_rows [of r now "aid x" "apriority x" d]
  show ?case by auto
qed simp

lemma dispatch_payload_inj [simp]: "dispatch_payload i = dispatch_payload j \<longleftrightarrow> i = j"
  by (simp add: dispatch_payload_def)

lemma set_get_children [simp]: "set (get_children p d) = set (children_rows (arcs d) p)"
  by (simp add: get_children_def)

text \<open>A sibling that must pass and did not.\<close>

definition blocks :: "db \<Rightarrow> arc \<Rightarrow> arc \<Rightarrow> bool" where
  "blocks d s c =
     (step_order s < step_order c \<and> astatus s = Completed \<and>
      (\<exists>r v. state_cell (aid s) ''_required_pass'' d = Some (Parsed r) \<and> jtruthy r \<and>
         state_cell (aid s) ''_verdict'' d = Some (Parsed v) \<and> \<not> verdict_passes v))"

lemma blocked_verdicts: "s \<in> set ss \<Longrightarrow> blocks d s c \<Longrightarrow> check_review_verdicts d (step_order c) ss \<noteq> Inr True"
  by (induction ss) (auto simp: blocks_def split: option.splits jtext.splits)

lemma verdicts_pass:
  "check_review_verdicts d (step_order c) ss = Inr True \<Longrightarrow> s \<in> set ss \<Longrightarrow> \<not> blocks d s c"
  using blocked_verdicts by blast

text \<open>The heartbeat.\<close>

lemma scan_one_queued:
  assumes "check_dependencies (aid a) d" "check_activation (aid a) d"
  shows "dispatch_queued (aid a) (scan_one now a d) \<or> live_key (dispatch_key (aid a)) (queue (scan_one now a d))"
  using assms by (simp add: scan_one_def enqueue_dispatch_def live_key_enqueue_db)

lemma scan_one_frame: "scan_one now a d = d\<lparr> queue := queue (scan_one now a d) \<rparr>"
  unfolding scan_one_def using enqueue_dispatch_only_queue [of now "aid a" "apriority a" d] by auto

lemma dispatch_queued_kept: "dispatch_queued i d \<Longrightarrow> dispatch_queued i (enqueue_dispatch now j pr d)"
  by (auto simp: dispatch_queued_def enqueue_dispatch_def enqueue_db_def enqueue_def Let_def
      clear_finished_def list_ex_iff finished_def)

lemma scan_one_keeps:
  "dispatch_queued i d \<or> live_key k (queue d) \<Longrightarrow>
     dispatch_queued i (scan_one now a d) \<or> live_key k (queue (scan_one now a d))"
  using dispatch_queued_kept [of i d now "aid a" "apriority a"] keeps_enqueue_db
  by (auto simp: scan_one_def enqueue_dispatch_def keeps_wakes_def)

lemma scan_fold_keeps:
  "dispatch_queued i d \<or> live_key k (queue d) \<Longrightarrow>
     dispatch_queued i (fold (scan_one now) as d) \<or> live_key k (queue (fold (scan_one now) as d))"
proof (induction as arbitrary: d)
  case (Cons x xs)
  show ?case unfolding fold_simps o_apply
    by (rule Cons.IH [OF scan_one_keeps [OF Cons.prems]])
qed simp

lemma scan_one_reads [simp]:
  "check_dependencies i (scan_one now a d) = check_dependencies i d"
  "check_activation i (scan_one now a d) = check_activation i d"
  by (subst scan_one_frame, simp)+

lemma scan_fold_queued:
  assumes "check_dependencies (aid a) d" "check_activation (aid a) d" "a \<in> set as"
  shows "dispatch_queued (aid a) (fold (scan_one now) as d) \<or>
    live_key (dispatch_key (aid a)) (queue (fold (scan_one now) as d))"
  using assms
proof (induction as arbitrary: d)
  case (Cons x xs)
  show ?case
  proof (cases "a = x")
    case True
    show ?thesis unfolding fold_simps o_apply
      by (rule scan_fold_keeps) (use scan_one_queued [of a d now] Cons.prems True in simp)
  next
    case False
    then show ?thesis using Cons.IH [of "scan_one now x d"] Cons.prems by simp
  qed
qed simp

lemma no_pending_children: "\<forall>c \<in> set cs. astatus c \<noteq> Pending \<Longrightarrow> enqueue_children now sibs cs d = (Inr (), d)"
  by (induction cs) auto

text \<open>What the last completion of a family does.\<close>

lemma propagate_done:
  assumes "find_arc i d = Some a" "parent_id a = Some p" "find_arc p d = Some par"
    and "astatus par = Active \<or> astatus par = Waiting"
    and "\<forall>c \<in> set (children_rows (arcs d) p). astatus c = Completed \<or> astatus c = Escalated"
  shows "\<exists>d'. propagate_completion fmt env now i d = (Inr (), d') \<and>
    arcs d' = upd_row aid p (mark_status now Completed) (arcs d)"
proof -
  have e: "enqueue_ready_children now p d = (Inr (), d)"
    unfolding enqueue_ready_children_def by (rule no_pending_children) (use assms(5) in auto)
  have t: "freeze_target par (children_rows (arcs d) p) = Completed"
    using assms(5) by (simp add: freeze_target_def)
  obtain d' where d': "freeze_arc (failure_hook fmt env) now p d = Inr d'"
    "arcs d' = upd_row aid p (mark_status now Completed) (arcs d)"
    using assms(3,4) unfolding freeze_arc_cases [OF assms(3,4)] t
    by (auto simp: update_status_with_def transition_def Let_def)
  then show ?thesis using e assms(1,2) by (auto simp: propagate_completion_def get_arc_def)
qed

lemma find_conversation_walk:
  "wf_tree (arcs d) \<Longrightarrow>
     find_conversation n convs made i d =
       (case List.find (\<lambda>j. arc_conversation convs made j d \<noteq> None) (take n (i # walk_ancestors (arcs d) i)) of
          None \<Rightarrow> None | Some j \<Rightarrow> arc_conversation convs made j d)"
proof (induction n arbitrary: i)
  case (Suc n)
  show ?case
  proof (cases "parent_of (arcs d) i")
    case None
    then show ?thesis using walk_unfold [OF Suc.prems, of i]
      by (auto simp: parent_of_def split: option.splits)
  next
    case (Some p)
    then obtain a where a: "find_arc i d = Some a" "parent_id a = Some p"
      by (auto simp: parent_of_def split: option.splits)
    have p: "p \<noteq> 0" using parent_of_lt(1) [OF Suc.prems Some] by simp
    have w: "walk_ancestors (arcs d) i = p # walk_ancestors (arcs d) p"
      using walk_unfold [OF Suc.prems, of i] Some by simp
    have "take n (p # walk_ancestors (arcs d) p) = take n (walk_ancestors (arcs d) i)" by (simp only: w)
    then show ?thesis using a p Suc.IH [OF Suc.prems, of p] w by (auto split: option.splits)
  qed
qed simp

subsection \<open>A family with a step that had to pass\<close>

text \<open>A waiting parent with a completed step that had to pass and failed, and a step after it;
  above the parent an arc that waits for it.\<close>

definition demo_family :: db where
  "demo_family = empty_db\<lparr>
     arcs := [(blank_arc 1)\<lparr> astatus := Waiting \<rparr>,
              (blank_arc 2)\<lparr> parent_id := Some 1, astatus := Waiting \<rparr>,
              (blank_arc 3)\<lparr> parent_id := Some 2, astatus := Completed \<rparr>,
              (blank_arc 4)\<lparr> parent_id := Some 2, step_order := 1 \<rparr>],
     state := [\<lparr> sid = 1, s_arc = 3, s_key = ''_required_pass'', s_value = Parsed (JBool True), s_updated_at = 0 \<rparr>,
               \<lparr> sid = 2, s_arc = 3, s_key = ''_verdict'', s_value = Parsed (JStr ''fail''), s_updated_at = 0 \<rparr>] \<rparr>"

lemma demo_family_children: "get_children 2 demo_family =
   [(blank_arc 3)\<lparr> parent_id := Some 2, astatus := Completed \<rparr>, (blank_arc 4)\<lparr> parent_id := Some 2, step_order := 1 \<rparr>]"
  by (simp add: get_children_def children_rows_def demo_family_def)

lemma demo_family_ready:
  "check_dependencies 4 demo_family" "check_activation 4 demo_family"
  "blocks demo_family ((blank_arc 3)\<lparr> parent_id := Some 2, astatus := Completed \<rparr>)
     ((blank_arc 4)\<lparr> parent_id := Some 2, step_order := 1 \<rparr>)"
  by (simp_all add: check_dependencies_def check_activation_def preceding_siblings_def demo_family_def
      DONE_STATUSES_def blocks_def state_cell_def verdict_passes_def)

lemma blank_wait [simp]: "wait_until (blank_arc i) = None"
  by (simp add: blank_arc_def)

lemma demo_family_blocked: "enqueue_ready_children 7 2 demo_family = (Inr (), demo_family)"
  unfolding enqueue_ready_children_def demo_family_children
  using demo_family_ready(1,2)
  by (simp add: wait_in_future_def demo_family_def state_cell_def verdict_passes_def)

lemma family_after: "arcs (demo_family\<lparr> arcs := upd_row aid 4 (\<lambda>a. a\<lparr> astatus := Completed \<rparr>) (arcs demo_family) \<rparr>) =
   [(blank_arc 1)\<lparr> astatus := Waiting \<rparr>, (blank_arc 2)\<lparr> parent_id := Some 1, astatus := Waiting \<rparr>,
    (blank_arc 3)\<lparr> parent_id := Some 2, astatus := Completed \<rparr>,
    (blank_arc 4)\<lparr> parent_id := Some 2, step_order := 1, astatus := Completed \<rparr>]"
  by (simp add: demo_family_def upd_row_def upd_where_def)

definition demo_family_done :: db where
  "demo_family_done = demo_family\<lparr> arcs := upd_row aid 4 (\<lambda>a. a\<lparr> astatus := Completed \<rparr>) (arcs demo_family) \<rparr>"

lemma demo_family_wf: "wf_tree (arcs demo_family)"
  by (simp add: wf_tree_def wf_ids_def demo_family_def)

definition no_budget :: budget where
  "no_budget = set_enabled False empty_budget"

lemma no_budget_allowed: "autonomous_allowed demo_budget_config [] 7 [] no_budget = ((True, []), no_budget)"
  by (simp add: autonomous_allowed_def no_budget_def enabled_def set_enabled_def)

section \<open>Properties\<close>

text \<open>C12: What the dispatch of ready children enqueues. When it does not raise, only the queue
  changes; every ready child has a live item under its key afterwards; and every item that is new
  is the pending dispatch of a ready child. In particular nothing is enqueued for a child before
  an earlier sibling that is not done, or behind a completed sibling that had to pass and did
  not.\<close>

theorem ready_children_exact:
  assumes "enqueue_ready_children now p d = (Inr (), d')"
  shows "(\<exists>q. d' = d\<lparr> queue := q \<rparr>) \<and>
    (\<forall>c \<in> set (children_rows (arcs d) p). ready_child now d (get_children p d) c \<longrightarrow>
       live_key (dispatch_key (aid c)) (queue d')) \<and>
    (\<forall>r \<in> set (queue d'). r \<in> set (queue d) \<or>
       (\<exists>c \<in> set (children_rows (arcs d) p). payload r = dispatch_payload (aid c) \<and> wstatus r = WPending \<and>
          ready_child now d (get_children p d) c \<and>
          (\<forall>s \<in> set (children_rows (arcs d) p). \<not> blocks d s c)))"
proof -
  let ?cs = "get_children p d"
  have d': "d' = fold (dispatch_child now) (filter (ready_child now d ?cs) ?cs) d"
    by (rule enqueue_children_ok) (use assms in \<open>simp add: enqueue_ready_children_def\<close>)
  have "\<exists>q. d' = d\<lparr> queue := q \<rparr>"
    using enqueue_children_frame [of now ?cs ?cs d] assms by (simp add: enqueue_ready_children_def)
  moreover have "\<forall>c \<in> set (children_rows (arcs d) p). ready_child now d ?cs c \<longrightarrow>
      live_key (dispatch_key (aid c)) (queue d')"
    unfolding d' by (auto intro!: fold_dispatch_live)
  moreover have "\<not> blocks d s c" if "ready_child now d ?cs c" "s \<in> set (children_rows (arcs d) p)" for s c
    using that verdicts_pass [of d c ?cs s] by (simp add: ready_child_def)
  ultimately show ?thesis
    using fold_dispatch_new [of _ now "filter (ready_child now d ?cs) ?cs" d] unfolding d' [symmetric]
    by fastforce
qed

theorem ready_children_exact_witness:
  "enqueue_ready_children 7 2 demo_family = (Inr (), demo_family) \<and>
   \<not> ready_child 7 demo_family (get_children 2 demo_family) ((blank_arc 4)\<lparr> parent_id := Some 2, step_order := 1 \<rparr>)"
proof -
  from ready_children_exact [OF demo_family_blocked] demo_family_children
  have "ready_child 7 demo_family (get_children 2 demo_family) ((blank_arc 4)\<lparr> parent_id := Some 2, step_order := 1 \<rparr>)
      \<longrightarrow> live_key (dispatch_key 4) (queue demo_family)"
    by (auto simp: children_rows_def demo_family_def)
  then show ?thesis using demo_family_blocked by (auto simp: live_key_def demo_family_def)
qed

text \<open>C13: The heartbeat misses nobody. While the budget allows autonomous work, after the scan
  every pending arc that is no coding change and no SUPERVISOR, whose waiting time is over for
  SQLite, whose earlier siblings are done and whose activation has happened, has a dispatch that
  is pending or claimed.\<close>

theorem heartbeat_complete:
  assumes "fst (fst (autonomous_allowed cfg es now us b))"
    and "a \<in> set (arcs d)" "astatus a = Pending" "aagent a \<noteq> SUPERVISOR"
    and "\<not> starts_with (lower (aname a)) CODING_CHANGE_PREFIX" "sql_due le now (wait_until a)"
    and "check_dependencies (aid a) d" "check_activation (aid a) d"
  shows "dispatch_queued (aid a) (fst (scan_for_ready_arcs le cfg es us now d b)) \<or>
    live_key (dispatch_key (aid a)) (queue (fst (scan_for_ready_arcs le cfg es us now d b)))"
proof -
  have "a \<in> set (scan_rows le now (arcs d))" using assms(2-6) by (simp add: scan_rows_def)
  from scan_fold_queued [OF assms(7,8) this, of now] show ?thesis
    using assms(1) by (auto simp: scan_for_ready_arcs_def split: prod.splits)
qed

theorem heartbeat_complete_witness:
  "dispatch_queued 4 (fst (scan_for_ready_arcs (\<lambda>s t. False) demo_budget_config [] [] 7 demo_family no_budget)) \<or>
   live_key (dispatch_key 4)
     (queue (fst (scan_for_ready_arcs (\<lambda>s t. False) demo_budget_config [] [] 7 demo_family no_budget)))"
  using heartbeat_complete [of demo_budget_config "[]" 7 "[]" no_budget
      "(blank_arc 4)\<lparr> parent_id := Some 2, step_order := 1 \<rparr>" demo_family "\<lambda>s t. False"]
    demo_family_ready(1,2) no_budget_allowed
  by (simp add: demo_family_def lower_def lower_char_def CODING_CHANGE_PREFIX_def starts_with_def sql_due_def)

text \<open>The heartbeat does not look at verdicts: the step behind the one that had to pass, which the
  dispatch of ready children holds back, is dispatched by the next scan.\<close>

lemma heartbeat_ignores_verdicts:
  "enqueue_ready_children 7 2 demo_family = (Inr (), demo_family) \<and>
   live_key (dispatch_key 4)
     (queue (fst (scan_for_ready_arcs (\<lambda>s t. False) demo_budget_config [] [] 7 demo_family no_budget)))"
proof -
  have r: "scan_rows (\<lambda>s t. False) 7 (arcs demo_family) = [(blank_arc 4)\<lparr> parent_id := Some 2, step_order := 1 \<rparr>]"
    by (simp add: scan_rows_def demo_family_def lower_def lower_char_def CODING_CHANGE_PREFIX_def starts_with_def sql_due_def)
  have "\<not> dispatch_queued 4 demo_family" by (simp add: dispatch_queued_def demo_family_def)
  then show ?thesis
    using demo_family_ready(1,2) demo_family_blocked
    by (simp add: scan_for_ready_arcs_def no_budget_allowed r scan_one_def enqueue_dispatch_def live_key_enqueue_db)
qed

text \<open>A waiting time of the same day is never over for the heartbeat.\<close>

lemma same_day_not_due:
  "t div 86400000000 = now div 86400000000 \<Longrightarrow> \<not> sql_due le now (Some (At t))"
  by (simp add: sql_due_def)

text \<open>Completion goes up one level. When an arc ends and all children of its parent are done,
  the parent, if it was active or waiting, is completed, and no other arc changes: the parent's own
  parent keeps its status, even if all its children are done now.\<close>

theorem completion_one_level:
  assumes "find_arc i d = Some a" "parent_id a = Some p" "find_arc p d = Some par"
    and "astatus par = Active \<or> astatus par = Waiting"
    and "\<forall>c \<in> set (children_rows (arcs d) p). astatus c = Completed \<or> astatus c = Escalated"
  shows "\<exists>d' par'. propagate_completion fmt env now i d = (Inr (), d') \<and>
    find_arc p d' = Some par' \<and> astatus par' = Completed \<and>
    (\<forall>j. j \<noteq> p \<longrightarrow> find_arc j d' = find_arc j d)"
proof -
  obtain d' where d': "propagate_completion fmt env now i d = (Inr (), d')"
    "arcs d' = upd_row aid p (mark_status now Completed) (arcs d)"
    using propagate_done [OF assms] by blast
  then show ?thesis using assms(3) by (auto simp: find_row_upd_row mark_status_def)
qed

theorem completion_one_level_witness:
  "\<exists>d'. propagate_completion (\<lambda>j. []) demo_env 7 4 demo_family_done = (Inr (), d') \<and>
     find_arc 1 d' = Some ((blank_arc 1)\<lparr> astatus := Waiting \<rparr>)"
proof -
  note family = family_after [folded demo_family_done_def]
  have "\<exists>d' par'. propagate_completion (\<lambda>j. []) demo_env 7 4 demo_family_done = (Inr (), d') \<and>
      find_arc 2 d' = Some par' \<and> astatus par' = Completed \<and>
      (\<forall>j. j \<noteq> 2 \<longrightarrow> find_arc j d' = find_arc j demo_family_done)"
    by (rule completion_one_level [where a = "(blank_arc 4)\<lparr> parent_id := Some 2, step_order := 1, astatus := Completed \<rparr>"
          and par = "(blank_arc 2)\<lparr> parent_id := Some 1, astatus := Waiting \<rparr>"])
      (simp_all add: family children_rows_def)
  then show ?thesis by (auto simp: family)
qed

text \<open>Where an arc reports. The conversation of an arc is the newest link of the nearest arc
  among itself and its first ten ancestors that has a link to an existing conversation, and
  none if there is no such arc.\<close>

theorem conversation_nearest:
  assumes "wf_tree (arcs d)"
  shows "find_arc_conversation convs made i d =
    (case List.find (\<lambda>j. arc_conversation convs made j d \<noteq> None)
            (take 11 (i # walk_ancestors (arcs d) i)) of
       None \<Rightarrow> None | Some j \<Rightarrow> arc_conversation convs made j d)"
  unfolding find_arc_conversation_def by (rule find_conversation_walk [OF assms])

theorem conversation_nearest_witness:
  "find_arc_conversation [9] (\<lambda>_. 0) 4 (demo_family\<lparr> conv_arcs := [(9, 1)] \<rparr>) = Some 9"
proof -
  have w: "walk_ancestors (arcs demo_family) 4 = [2, 1]"
    by (simp add: walk_ancestors_def demo_family_def parent_of_def eval_nat_numeral)
  have "wf_tree (arcs (demo_family\<lparr> conv_arcs := [(9, 1)] \<rparr>))" using demo_family_wf by simp
  from conversation_nearest [OF this, of "[9]" "\<lambda>_. 0" 4] show ?thesis
    by (simp add: w arc_conversation_def)
qed

end
