(* ===== verification/Verification.thy ===== *)
theory Verification
  imports Arc_Ready Py_Text
begin

text \<open>
  The verification of coding changes: the sibling arcs that check a change before a human
  approves it (\<open>core/arcs/verification.py\<close>), the aggregation of their results by the judge
  (\<open>core/arcs/judge_verification.py\<close>) and what follows the documentation arc
  (\<open>core/arcs/dispatch_handler.py\<close>).

  The section \<open>verification\<close> of the configuration is \<open>vconfig\<close>, together with the steps of the
  workflow templates as stored (\<open>vc_steps\<close>), the prose of the goals (\<open>vc_goal\<close>, from the kind of
  check, the name and id of the change) and the rendered prompt of a rework (\<open>vc_prompt\<close>). An
  operation in several commits is an \<open>act\<close>; \<open>abind\<close> goes on after a success. Messages to the
  chat are not modelled; reading the conversation they go to can fail like any state cell.
\<close>

section \<open>Sequencing\<close>

definition abind :: "'a act \<Rightarrow> ('a \<Rightarrow> db \<Rightarrow> 'b act) \<Rightarrow> 'b act" where
  "abind m f = (case m of (Inl e, d) \<Rightarrow> (Inl e, d) | (Inr x, d) \<Rightarrow> f x d)"

lemma abind_simps [simp]: "abind (Inl e, d) f = (Inl e, d)" "abind (Inr x, d) f = f x d"
  by (simp_all add: abind_def)

lemma abind_Inr: "abind m f = (Inr y, d') \<longleftrightarrow> (\<exists>x d1. m = (Inr x, d1) \<and> f x d1 = (Inr y, d'))"
  by (cases m) (auto simp: abind_def split: sum.splits)

text \<open>One statement that commits or raises.\<close>

definition stmt :: "exn + db \<Rightarrow> db \<Rightarrow> unit act" where
  "stmt r d = (case r of Inl e \<Rightarrow> (Inl e, d) | Inr d' \<Rightarrow> (Inr (), d'))"

lemma stmt_simps [simp]: "stmt (Inl e) d = (Inl e, d)" "stmt (Inr d') d = (Inr (), d')"
  by (simp_all add: stmt_def)

lemma stmt_Inr: "stmt r d = (Inr u, d') \<longleftrightarrow> r = Inr d'"
  by (cases r) auto

definition add_entry :: "time \<Rightarrow> int \<Rightarrow> string \<Rightarrow> json \<Rightarrow> db \<Rightarrow> unit act" where
  "add_entry now i ty c d = stmt (map_sum id snd (add_history now i ty c None ''system'' d)) d"

definition get_arc_state :: "int \<Rightarrow> string \<Rightarrow> json \<Rightarrow> db \<Rightarrow> exn + json" where
  "get_arc_state i k dv d =
     (case state_cell i k d of
        None \<Rightarrow> Inr dv | Some (Parsed v) \<Rightarrow> Inr v | Some (Malformed _) \<Rightarrow> Inl (ValueError ''JSON''))"

definition read_state :: "int \<Rightarrow> string \<Rightarrow> json \<Rightarrow> db \<Rightarrow> json act" where
  "read_state i k dv d = (get_arc_state i k dv d, d)"

section \<open>Configuration\<close>

record vconfig =
  vc_enabled :: bool
  vc_correctness :: string
  vc_quality :: string
  vc_judge :: string
  vc_docs :: string
  vc_fallback :: string
  vc_reason_max :: int
  vc_summary_max :: int
  vc_steps :: "int \<Rightarrow> jtext option"
  vc_goal :: "string \<Rightarrow> string \<Rightarrow> int \<Rightarrow> string"
  vc_prompt :: "json \<Rightarrow> json \<Rightarrow> json \<Rightarrow> string \<Rightarrow> string"

definition WORKFLOW_CORRECTNESS_STEP :: "(string \<times> (string \<times> string)) list" where
  "WORKFLOW_CORRECTNESS_STEP =
     [(''yaml-change'', (''lint-yaml'', ''verifier-lint-yaml'')),
      (''kb-change'', (''verify-kb-format'', ''verifier-kb-format''))]"

subsection \<open>The model policy of a step\<close>

definition extract_steps_list :: "json \<Rightarrow> exn + json list" where
  "extract_steps_list raw =
     (case raw of
        JList xs \<Rightarrow> Inr xs
      | JObj ps \<Rightarrow> (case jget ps ''steps'' of None \<Rightarrow> Inr [] | Some v \<Rightarrow> json_items v)
      | _ \<Rightarrow> Inr [])"

fun find_step :: "string \<Rightarrow> json list \<Rightarrow> exn + jdict option" where
  "find_step nm [] = Inr None"
| "find_step nm (JObj s # ss) = (if jget s ''name'' = Some (JStr nm) then Inr (Some s) else find_step nm ss)"
| "find_step nm (_ # ss) = Inl (AttributeError ''get'')"

definition get_step_config :: "vconfig \<Rightarrow> int option \<Rightarrow> string \<Rightarrow> exn + jdict option" where
  "get_step_config cfg tid nm =
     (case tid of
        None \<Rightarrow> Inr None
      | Some t \<Rightarrow>
          (case vc_steps cfg t of
             None \<Rightarrow> Inr None
           | Some (Malformed _) \<Rightarrow> Inl (ValueError ''JSON'')
           | Some (Parsed raw) \<Rightarrow> xbind (extract_steps_list raw) (find_step nm)))"

text \<open>A number is compared with the names as its text; containers cannot be bound.\<close>

definition policy_id_of_json :: "json \<Rightarrow> db \<Rightarrow> exn + int option" where
  "policy_id_of_json v d =
     (case v of
        JStr s \<Rightarrow> Inr (get_policy_id_by_name s d)
      | JInt i \<Rightarrow> Inr (get_policy_id_by_name (show_int i) d)
      | JBool b \<Rightarrow> Inr (get_policy_id_by_name (if b then ''1'' else ''0'') d)
      | JNum r \<Rightarrow> Inr None
      | _ \<Rightarrow> Inl (IntegrityError ''binding''))"

definition get_model_policy_for_step :: "vconfig \<Rightarrow> int option \<Rightarrow> string \<Rightarrow> string \<Rightarrow> db \<Rightarrow> exn + int option" where
  "get_model_policy_for_step cfg tid nm fallback d =
     (let fb = (if fallback = [] then None else get_policy_id_by_name fallback d) in
      xbind (get_step_config cfg tid nm) (\<lambda>step.
        case step of
          None \<Rightarrow> Inr fb
        | Some s \<Rightarrow> (if s = [] \<or> \<not> jtruthy (dget s ''model_policy'') then Inr fb
                     else policy_id_of_json (dget s ''model_policy'') d)))"

section \<open>Which arcs are verified\<close>

definition is_coding_arc :: "arc \<Rightarrow> bool" where
  "is_coding_arc a =
     (starts_with (aname a) CODING_CHANGE_PREFIX \<or> starts_with (aname a) (''external-'' @ CODING_CHANGE_PREFIX))"

definition is_platform_or_tool_code :: "arc \<Rightarrow> bool" where
  "is_platform_or_tool_code a =
     (let g = dflt [] (goal a) in
      contains (lower (aname a)) ''platform'' \<or> contains (lower g) ''platform'' \<or>
      contains g ''carpenter'' \<or> contains g ''carpenter_tools'')"

definition should_create_verification_arcs :: "vconfig \<Rightarrow> bool \<Rightarrow> arc \<Rightarrow> bool" where
  "should_create_verification_arcs cfg require_completed a =
     (is_coding_arc a \<and> (require_completed \<longrightarrow> astatus a = Completed) \<and> arole a \<noteq> VERIFIER \<and> vc_enabled cfg)"

section \<open>Creating the verification arcs\<close>

definition inherit_source_category :: "time \<Rightarrow> int \<Rightarrow> int \<Rightarrow> db \<Rightarrow> db" where
  "inherit_source_category now parent child d =
     (case state_cell parent ''source_category'' d of
        None \<Rightarrow> d | Some v \<Rightarrow> put_state now child ''source_category'' v d)"

definition workflow_template :: "int \<Rightarrow> db \<Rightarrow> string" where
  "workflow_template i d =
     (case state_cell i ''_workflow_template'' d of
        Some (Parsed (JStr s)) \<Rightarrow> if s = [] then ''coding-change'' else s
      | _ \<Rightarrow> ''coding-change'')"

text \<open>\<open>COALESCE(MAX(step_order), -1) + 1\<close>; \<open>parent_id = NULL\<close> selects no row.\<close>

definition base_order :: "int option \<Rightarrow> db \<Rightarrow> int" where
  "base_order parent d = (case parent of None \<Rightarrow> 0 | Some p \<Rightarrow> max_step_order (arcs d) p + 1)"

definition check_args :: "arc \<Rightarrow> string \<Rightarrow> string \<Rightarrow> int \<Rightarrow> string \<Rightarrow> string \<Rightarrow> string \<Rightarrow> int option \<Rightarrow> create_args" where
  "check_args impl nm text order role arc_role agent policy =
     (default_args nm)\<lparr> ca_goal := Some text, ca_parent := parent_id impl, ca_step_order := order,
       ca_step_role := Some role, ca_arc_role := arc_role, ca_verification_target := Some (aid impl),
       ca_agent := agent, ca_policy := policy \<rparr>"

text \<open>One check: the arc, its source category if it inherits it, the entry in the history of the change.\<close>

definition make_check :: "env \<Rightarrow> time \<Rightarrow> int \<Rightarrow> create_args \<Rightarrow> bool \<Rightarrow> string \<Rightarrow> jdict \<Rightarrow> db \<Rightarrow> int act" where
  "make_check env now impl ca inherit kind extra d =
     (case create_arc env now ca d of
        Inl e \<Rightarrow> (Inl e, d)
      | Inr (n, d1) \<Rightarrow>
          let d2 = (if inherit then inherit_source_category now impl n d1 else d1)
          in abind (add_entry now impl ''verification_arc_created''
                      (JObj ([(''verification_arc_id'', JInt n), (''check_type'', JStr kind)] @ extra)) d2)
               (\<lambda>_ d3. (Inr n, d3)))"

definition make_quality :: "vconfig \<Rightarrow> env \<Rightarrow> time \<Rightarrow> arc \<Rightarrow> int \<Rightarrow> db \<Rightarrow> int act" where
  "make_quality cfg env now impl order d =
     abind (get_model_policy_for_step cfg (template_id impl) ''verify-quality'' (vc_fallback cfg) d, d) (\<lambda>pol d1.
       make_check env now (aid impl)
         (check_args impl (vc_quality cfg) (vc_goal cfg ''quality'' (aname impl) (aid impl)) order
            ''verifier-quality'' ''verifier'' ''REVIEWER'' pol) True ''quality'' [] d1)"

definition make_correctness :: "vconfig \<Rightarrow> env \<Rightarrow> time \<Rightarrow> arc \<Rightarrow> string \<Rightarrow> int \<Rightarrow> db \<Rightarrow> int act" where
  "make_correctness cfg env now impl wt order d =
     (case map_of WORKFLOW_CORRECTNESS_STEP wt of
        Some (step, role) \<Rightarrow>
          make_check env now (aid impl)
            ((check_args impl step (vc_goal cfg step (aname impl) (aid impl)) order role ''verifier''
                ''EXECUTOR'' None)\<lparr> ca_template := template_id impl \<rparr>)
            True step [(''workflow_template'', JStr wt)] d
      | None \<Rightarrow>
          abind (get_model_policy_for_step cfg (template_id impl) ''verify-correctness'' (vc_fallback cfg) d, d)
            (\<lambda>pol d1. make_check env now (aid impl)
               (check_args impl (vc_correctness cfg) (vc_goal cfg ''correctness'' (aname impl) (aid impl)) order
                  ''verifier-correctness'' ''verifier'' ''REVIEWER'' pol) True ''correctness'' [] d1))"

definition make_judge :: "vconfig \<Rightarrow> env \<Rightarrow> time \<Rightarrow> arc \<Rightarrow> bool \<Rightarrow> int \<Rightarrow> db \<Rightarrow> int act" where
  "make_judge cfg env now impl q order d =
     make_check env now (aid impl)
       (check_args impl (vc_judge cfg)
          (vc_goal cfg (if q then ''judge of two'' else ''judge of one'') (aname impl) (aid impl)) order
          ''judge'' ''verifier'' ''EXECUTOR'' None) False ''judge'' [] d"

definition make_docs :: "vconfig \<Rightarrow> env \<Rightarrow> time \<Rightarrow> arc \<Rightarrow> int \<Rightarrow> db \<Rightarrow> int act" where
  "make_docs cfg env now impl order d =
     abind (get_model_policy_for_step cfg (template_id impl) ''post-verification-docs'' (vc_fallback cfg) d, d)
       (\<lambda>pol d1. make_check env now (aid impl)
          (check_args impl (vc_docs cfg) (vc_goal cfg ''documentation'' (aname impl) (aid impl)) order ''docs''
             ''worker'' ''EXECUTOR'' pol) True ''documentation'' [] d1)"

definition create_verification_arcs ::
    "vconfig \<Rightarrow> env \<Rightarrow> time \<Rightarrow> int \<Rightarrow> bool \<Rightarrow> db \<Rightarrow> int list act" where
  "create_verification_arcs cfg env now i require_completed d =
     (case get_arc i d of
        None \<Rightarrow> (Inl (ValueError ''Implementation arc not found''), d)
      | Some impl \<Rightarrow>
          if require_completed \<and> astatus impl \<noteq> Completed
          then (Inl (ValueError ''expected completed''), d)
          else
            let wt = workflow_template i d; base = base_order (parent_id impl) d;
                q = is_platform_or_tool_code impl; k = (if q then 1 else 0)
            in abind (if q then abind (make_quality cfg env now impl base d) (\<lambda>n d1. (Inr [n], d1))
                      else (Inr [], d)) (\<lambda>qs d1.
               abind (make_correctness cfg env now impl wt (base + k) d1) (\<lambda>c d2.
               abind (make_judge cfg env now impl q (base + k + 1) d2) (\<lambda>j d3.
               abind (make_docs cfg env now impl (base + k + 2) d3) (\<lambda>w d4.
                 (Inr (qs @ [c, j, w]), d4))))))"

definition try_create_verification_arcs :: "vconfig \<Rightarrow> env \<Rightarrow> time \<Rightarrow> int \<Rightarrow> db \<Rightarrow> bool act" where
  "try_create_verification_arcs cfg env now i d =
     (if (case get_arc i d of Some a \<Rightarrow> should_create_verification_arcs cfg False a | None \<Rightarrow> False)
      then (case abind (create_verification_arcs cfg env now i False d) (\<lambda>ids d1.
                 abind (stmt (set_arc_state now i ''_verification_arc_ids'' (JList (map JInt ids)) d1) d1) (\<lambda>_ d2.
                 abind (stmt (set_arc_state now i ''_verification_pending'' (JBool True) d2) d2) (\<lambda>_ d3.
                   (Inr True, d3)))) of
              (Inl e, d1) \<Rightarrow> if value_or_db_error e then (Inr False, d1) else (Inl e, d1)
            | r \<Rightarrow> r)
      else (Inr False, d))"

section \<open>The judge\<close>

definition is_docs_arc :: "vconfig \<Rightarrow> arc \<Rightarrow> bool" where
  "is_docs_arc cfg a = (case step_role a of Some r \<Rightarrow> r = ''docs'' | None \<Rightarrow> aname a = vc_docs cfg)"

definition is_verifier_arc :: "vconfig \<Rightarrow> arc \<Rightarrow> bool" where
  "is_verifier_arc cfg a =
     (case step_role a of
        Some r \<Rightarrow> r = ''verifier-correctness'' \<or> r = ''verifier-quality''
      | None \<Rightarrow> aname a = vc_correctness cfg \<or> aname a = vc_quality cfg)"

text \<open>\<open>WHERE parent_id = ? AND verification_target_id = ? AND id != ?\<close>: nothing equals NULL.\<close>

definition verification_siblings :: "int \<Rightarrow> int option \<Rightarrow> int \<Rightarrow> db \<Rightarrow> arc list" where
  "verification_siblings j parent target d =
     filter (\<lambda>a. parent \<noteq> None \<and> parent_id a = parent \<and> verification_target_id a = Some target \<and> aid a \<noteq> j)
       (arcs d)"

definition judged :: "vconfig \<Rightarrow> arc list \<Rightarrow> arc list" where
  "judged cfg sibs = filter (\<lambda>a. \<not> is_docs_arc cfg a \<and> is_verifier_arc cfg a) sibs"

definition check_passed :: "arc \<Rightarrow> bool" where
  "check_passed a = (astatus a = Completed)"

definition check_result :: "arc \<Rightarrow> json" where
  "check_result a = JObj [(''name'', JStr (aname a)), (''arc_id'', JInt (aid a)),
     (''status'', JStr (status_value (astatus a))), (''passed'', JBool (check_passed a))]"

text \<open>
  The rows of the history have no column \<open>data_json\<close>, so the reason is the text of the empty dict
  as soon as there is an entry of one of the three types.
\<close>

definition failure_text :: "int \<Rightarrow> db \<Rightarrow> string" where
  "failure_text i d =
     (if list_ex (\<lambda>h. entry_type h \<in> {''error'', ''failed'', ''verdict''}) (get_history i d)
      then ''{}'' else [])"

definition feedback_line :: "vconfig \<Rightarrow> db \<Rightarrow> arc \<Rightarrow> string" where
  "feedback_line cfg d a =
     (let why = failure_text (aid a) d in
      ''- '' @ aname a @ '' (arc #'' @ show_int (aid a) @ ''): FAILED ('' @ status_value (astatus a) @ '')'' @
      (if why = [] then [] else '' '' @ em_dash @ '' '' @ py_prefix (vc_reason_max cfg) why))"

definition feedback_parts :: "vconfig \<Rightarrow> db \<Rightarrow> arc list \<Rightarrow> string list" where
  "feedback_parts cfg d sibs = map (feedback_line cfg d) (filter (\<lambda>a. \<not> check_passed a) (judged cfg sibs))"

definition all_passed :: "vconfig \<Rightarrow> arc list \<Rightarrow> bool" where
  "all_passed cfg sibs = list_all check_passed (judged cfg sibs)"

definition verdict_summary :: "string \<Rightarrow> json list \<Rightarrow> string list \<Rightarrow> json" where
  "verdict_summary v checks fb = JObj [(''verdict'', JStr v), (''checks'', JList checks),
     (''feedback'', JStr (join_lines fb))]"

definition record_judge_verdict ::
    "time \<Rightarrow> int \<Rightarrow> int \<Rightarrow> string \<Rightarrow> json list \<Rightarrow> string list \<Rightarrow> db \<Rightarrow> unit act" where
  "record_judge_verdict now j t v checks fb d =
     abind (stmt (set_arc_state now j ''verdict'' (verdict_summary v checks fb) d) d) (\<lambda>_ d1.
     abind (add_entry now j ''judge_verdict'' (JObj [(''verdict'', JStr v), (''checks'', JList checks)]) d1) (\<lambda>_ d2.
       stmt (set_arc_state now t ''_verification_summary'' (verdict_summary v checks fb) d2) d2))"

text \<open>The two updates that end the judge.\<close>

definition finish_judge :: "(json \<Rightarrow> string) \<Rightarrow> env \<Rightarrow> time \<Rightarrow> int \<Rightarrow> db \<Rightarrow> unit act" where
  "finish_judge fmt env now j d =
     abind (stmt (update_status fmt env now j ''completed'' ''system'' d) d) (\<lambda>_ d1.
       stmt (freeze_arc (failure_hook fmt env) now j d1) d1)"

fun cancel_docs :: "vconfig \<Rightarrow> (json \<Rightarrow> string) \<Rightarrow> env \<Rightarrow> time \<Rightarrow> arc list \<Rightarrow> db \<Rightarrow> unit act" where
  "cancel_docs cfg fmt env now [] d = (Inr (), d)"
| "cancel_docs cfg fmt env now (s # ss) d =
     (if is_docs_arc cfg s \<and> astatus s = Pending
      then abind (stmt (update_status fmt env now (aid s) ''cancelled'' ''system'' d) d)
             (\<lambda>_ d1. cancel_docs cfg fmt env now ss d1)
      else cancel_docs cfg fmt env now ss d)"

text \<open>The chat message itself is not modelled.\<close>

definition notify_chat :: "int \<Rightarrow> db \<Rightarrow> unit act" where
  "notify_chat i d = abind (read_state i ''conversation_id'' JNull d) (\<lambda>_ d1. (Inr (), d1))"

definition enqueue_item ::
    "time \<Rightarrow> string \<Rightarrow> jdict \<Rightarrow> string \<Rightarrow> int \<Rightarrow> timestr option \<Rightarrow> int \<Rightarrow> db \<Rightarrow> db" where
  "enqueue_item now et pl key maxr sched prio d =
     d\<lparr> queue := snd (enqueue now et (JObj pl) (Some key) maxr sched prio (queue d)) \<rparr>"

definition arc_priority :: "int \<Rightarrow> db \<Rightarrow> int" where
  "arc_priority i d = (case get_arc i d of Some a \<Rightarrow> apriority a | None \<Rightarrow> 100)"

definition invoke_event :: "int \<Rightarrow> db \<Rightarrow> string" where
  "invoke_event t d =
     (if (case get_arc t d of Some a \<Rightarrow> starts_with (aname a) (''external-'' @ CODING_CHANGE_PREFIX) | None \<Rightarrow> False)
      then ''external-'' @ CODING_CHANGE_PREFIX @ ''.invoke-agent''
      else CODING_CHANGE_PREFIX @ ''.invoke-agent'')"

definition rework_key :: "time \<Rightarrow> int \<Rightarrow> string" where
  "rework_key now t = CODING_CHANGE_PREFIX @ ''-vrework-'' @ show_int t @ ''-'' @ show_int (cur_ts now)"

text \<open>A granted rework, after the attempt is recorded.\<close>

definition start_rework ::
    "vconfig \<Rightarrow> (json \<Rightarrow> string) \<Rightarrow> env \<Rightarrow> time \<Rightarrow> int \<Rightarrow> int \<Rightarrow> arc list \<Rightarrow> string \<Rightarrow> db \<Rightarrow> unit act" where
  "start_rework cfg fmt env now j t sibs fb d =
     (let st = get_retry_state t d;
          n = dflt (JInt 1) (map_of st ''_retry_count'');
          m = dflt (JInt 2) (map_of st ''_max_retries'')
      in abind (cancel_docs cfg fmt env now sibs d) (\<lambda>_ d1.
         abind (read_state t ''rework_count'' (JInt 0) d1) (\<lambda>c d2.
         abind (json_succ c, d2) (\<lambda>c' d3.
         abind (stmt (set_arc_state now t ''rework_count'' c' d3) d3) (\<lambda>_ d4.
         abind (read_state t ''original_prompt'' (JStr []) d4) (\<lambda>prompt d5.
         abind (read_state t ''source_dir'' (JStr []) d5) (\<lambda>src d6.
         abind (stmt (set_arc_state now t ''_verification_pending'' (JBool False) d6) d6) (\<lambda>_ d7.
         abind (read_state t ''coding_agent'' JNull d7) (\<lambda>agent d8.
         abind (notify_chat t (enqueue_item now (invoke_event t d8)
             [(''arc_id'', JInt t), (''source_dir'', src), (''prompt'', JStr (vc_prompt cfg prompt n m fb)),
              (''coding_agent'', agent)] (rework_key now t) SINGLE_ATTEMPT None (arc_priority t d8) d8)) (\<lambda>_ d9.
           finish_judge fmt env now j d9))))))))))"

text \<open>No more rework: the change goes to the human with the failure noted.\<close>

definition give_up ::
    "vconfig \<Rightarrow> (json \<Rightarrow> string) \<Rightarrow> env \<Rightarrow> time \<Rightarrow> int \<Rightarrow> int \<Rightarrow> arc list \<Rightarrow> db \<Rightarrow> unit act" where
  "give_up cfg fmt env now j t sibs d =
     abind (cancel_docs cfg fmt env now sibs d) (\<lambda>_ d1.
     abind (stmt (set_arc_state now t ''_verification_pending'' (JBool False) d1) d1) (\<lambda>_ d2.
     abind (if (case get_arc t d2 of Some a \<Rightarrow> astatus a = Active | None \<Rightarrow> False)
            then stmt (update_status fmt env now t ''waiting'' ''system'' d2) d2 else (Inr (), d2)) (\<lambda>_ d3.
     abind (notify_chat t d3) (\<lambda>_ d4. finish_judge fmt env now j d4))))"

definition verification_error :: "vconfig \<Rightarrow> string \<Rightarrow> string \<Rightarrow> error_info" where
  "verification_error cfg ts fb =
     \<lparr> ei_type = ''VerificationError'', ei_retry_count = 0,
       ei_source = ''arc_dispatch_handler._handle_judge_verification'',
       ei_message = ''Verification failed: '' @ py_prefix (vc_summary_max cfg) fb, ei_status_code = None,
       ei_retry_after = None, ei_model = None, ei_provider = None, ei_raw = None, ei_timestamp = ts \<rparr>"

definition decide_rework ::
    "vconfig \<Rightarrow> (json \<Rightarrow> string) \<Rightarrow> env \<Rightarrow> rat \<Rightarrow> string \<Rightarrow> time \<Rightarrow> int \<Rightarrow> int \<Rightarrow> arc list \<Rightarrow> string list \<Rightarrow>
     db \<Rightarrow> unit act" where
  "decide_rework cfg fmt env u ts now j t sibs parts d =
     (let fb = join_lines parts; ei = verification_error cfg ts fb in
      abind (fst (should_retry_arc (env_retry env) (env_health env) now u t ei d (env_tracker env)), d) (\<lambda>r d1.
        if should_retry r
        then abind (stmt (record_retry_attempt now t ei (backoff_seconds r) d1) d1)
               (\<lambda>_ d2. start_rework cfg fmt env now j t sibs fb d2)
        else give_up cfg fmt env now j t sibs d1))"

definition handle_judge_verification ::
    "vconfig \<Rightarrow> (json \<Rightarrow> string) \<Rightarrow> env \<Rightarrow> rat \<Rightarrow> string \<Rightarrow> time \<Rightarrow> int \<Rightarrow> arc \<Rightarrow> db \<Rightarrow> unit act" where
  "handle_judge_verification cfg fmt env u ts now j a d =
     abind (if astatus a = Pending then stmt (update_status fmt env now j ''active'' ''system'' d) d
            else (Inr (), d)) (\<lambda>_ d1.
       case verification_target_id a of
         None \<Rightarrow> stmt (update_status fmt env now j ''failed'' ''system'' d1) d1
       | Some t \<Rightarrow>
           let sibs = verification_siblings j (parent_id a) t d1;
               checks = map check_result (judged cfg sibs);
               parts = feedback_parts cfg d1 sibs;
               ok = all_passed cfg sibs
           in abind (record_judge_verdict now j t (if ok then ''pass'' else ''fail'') checks parts d1) (\<lambda>_ d2.
                if ok then abind (finish_judge fmt env now j d2) (\<lambda>_ d3. propagate_completion fmt env now j d3)
                else decide_rework cfg fmt env u ts now j t sibs parts d2))"

section \<open>The documentation arc\<close>

definition post_verify_event :: "bool \<Rightarrow> string" where
  "post_verify_event local_review =
     (if local_review then ''external-'' @ CODING_CHANGE_PREFIX @ ''.local-review''
      else ''external-'' @ CODING_CHANGE_PREFIX @ ''.push-and-pr'')"

definition enqueue_ext_post_verification :: "time \<Rightarrow> int \<Rightarrow> db \<Rightarrow> unit act" where
  "enqueue_ext_post_verification now t d =
     abind (read_state t ''local_review'' (JBool False) d) (\<lambda>v d1.
       (Inr (), enqueue_item now (post_verify_event (jtruthy v)) [(''arc_id'', JInt t)]
          (''ext-cc-post-verify-'' @ show_int t @ ''-'' @ show_int (cur_ts now)) 3 None (arc_priority t d1) d1))"

definition is_external :: "arc \<Rightarrow> bool" where
  "is_external a = starts_with (aname a) (''external-'' @ CODING_CHANGE_PREFIX)"

definition handle_docs_completed :: "(json \<Rightarrow> string) \<Rightarrow> env \<Rightarrow> time \<Rightarrow> arc \<Rightarrow> db \<Rightarrow> unit act" where
  "handle_docs_completed fmt env now a d =
     (case verification_target_id a of
        None \<Rightarrow> (Inr (), d)
      | Some t \<Rightarrow>
          (case get_arc t d of
             None \<Rightarrow> (Inr (), d)
           | Some tgt \<Rightarrow>
               abind (stmt (set_arc_state now t ''_verification_pending'' (JBool False) d) d) (\<lambda>_ d1.
                 if is_external tgt
                 then abind (enqueue_ext_post_verification now t d1) (\<lambda>_ d2. notify_chat t d2)
                 else if astatus tgt = Active
                 then abind (stmt (update_status fmt env now t ''waiting'' ''system'' d1) d1) (\<lambda>_ d2.
                      abind (read_state t ''review_url'' JNull d2) (\<lambda>_ d3. notify_chat t d3))
                 else (Inr (), d1))))"

definition handle_failed_docs_arc :: "vconfig \<Rightarrow> (json \<Rightarrow> string) \<Rightarrow> env \<Rightarrow> time \<Rightarrow> int \<Rightarrow> db \<Rightarrow> unit act" where
  "handle_failed_docs_arc cfg fmt env now i d =
     (case get_arc i d of
        None \<Rightarrow> (Inr (), d)
      | Some a \<Rightarrow>
          if \<not> is_docs_arc cfg a then (Inr (), d)
          else case verification_target_id a of
            None \<Rightarrow> (Inr (), d)
          | Some t \<Rightarrow>
              (case get_arc t d of
                 None \<Rightarrow> (Inr (), d)
               | Some tgt \<Rightarrow>
                   abind (stmt (set_arc_state now t ''_verification_pending'' (JBool False) d) d) (\<lambda>_ d1.
                   abind (if is_external tgt then enqueue_ext_post_verification now t d1
                          else if astatus tgt = Active
                          then stmt (update_status fmt env now t ''waiting'' ''system'' d1) d1
                          else (Inr (), d1)) (\<lambda>_ d2. notify_chat t d2))))"

section \<open>Facts: creation\<close>

lemma new_arc_row_more [simp]:
  "step_role (new_arc_row now ca il ot ag ro po d) = ca_step_role ca"
  "verification_target_id (new_arc_row now ca il ot ag ro po d) = ca_verification_target ca"
  "arole (new_arc_row now ca il ot ag ro po d) = ro"
  by (simp_all add: new_arc_row_def Let_def)

lemma check_args_sel [simp]:
  "ca_parent (check_args impl nm g k r ro ag po) = parent_id impl"
  "ca_step_order (check_args impl nm g k r ro ag po) = k"
  "ca_step_role (check_args impl nm g k r ro ag po) = Some r"
  "ca_verification_target (check_args impl nm g k r ro ag po) = Some (aid impl)"
  by (simp_all add: check_args_def)

text \<open>A row that verifies \<open>impl\<close> at a place in the order.\<close>

definition check_row :: "arc \<Rightarrow> int \<Rightarrow> string option \<Rightarrow> int \<Rightarrow> arc \<Rightarrow> bool" where
  "check_row impl k role n b =
     (aid b = n \<and> parent_id b = parent_id impl \<and> step_order b = k \<and>
      verification_target_id b = Some (aid impl) \<and> (role \<noteq> None \<longrightarrow> step_role b = role))"

definition adds_row :: "db \<Rightarrow> (arc \<Rightarrow> bool) \<Rightarrow> db \<Rightarrow> bool" where
  "adds_row d P d' = (\<exists>b. arcs d' = arcs d @ [b] \<and> P b \<and> ev d d')"

lemma add_entry_arcs: "add_entry now i ty c d = (r, d') \<Longrightarrow> arcs d' = arcs d"
  by (cases "add_history now i ty c None ''system'' d")
    (auto simp: add_entry_def dest: add_history_frame)

lemma inherit_arcs [simp]: "arcs (inherit_source_category now p c d) = arcs d"
  by (simp add: inherit_source_category_def split: option.split)

lemma make_check_adds:
  assumes "make_check env now i ca inh kind extra d = (Inr n, d')"
    and "ca_parent ca = parent_id impl" "ca_step_order ca = k" "ca_verification_target ca = Some (aid impl)"
    and "role = None \<or> ca_step_role ca = role"
  shows "adds_row d (check_row impl k role n) d'"
proof -
  obtain m d1 where c: "create_arc env now ca d = Inr (m, d1)"
    using assms(1) by (auto simp: make_check_def split: sum.splits)
  then have n: "m = n" and "arcs d' = arcs d1"
    using assms(1) add_entry_arcs
    by (auto simp: make_check_def Let_def abind_Inr split: if_splits)
  obtain a ag ot ro policy d0 where r: "arcs d1 = arcs d @ [a]" "aid a = m"
    "a = new_arc_row now ca TRUSTED ot ag ro policy d0"
    by (rule create_arc_row [OF c])
  have "check_row impl k role n a" using r(2) n assms(2-5) by (auto simp: check_row_def r(3))
  moreover have "ev d d'" using ev_create_arc [OF c] \<open>arcs d' = arcs d1\<close> by simp
  ultimately show ?thesis using r(1) \<open>arcs d' = arcs d1\<close> by (auto simp: adds_row_def)
qed

lemma make_quality_adds:
  "make_quality cfg env now impl k d = (Inr n, d') \<Longrightarrow> adds_row d (check_row impl k (Some ''verifier-quality'') n) d'"
  unfolding make_quality_def by (auto simp: abind_Inr intro!: make_check_adds)

lemma make_correctness_adds:
  "make_correctness cfg env now impl wt k d = (Inr n, d') \<Longrightarrow> adds_row d (check_row impl k None n) d'"
  unfolding make_correctness_def
  by (auto simp: abind_Inr split: option.splits intro!: make_check_adds)

lemma make_judge_adds:
  "make_judge cfg env now impl q k d = (Inr n, d') \<Longrightarrow> adds_row d (check_row impl k (Some ''judge'') n) d'"
  unfolding make_judge_def by (auto intro!: make_check_adds)

lemma make_docs_adds:
  "make_docs cfg env now impl k d = (Inr n, d') \<Longrightarrow> adds_row d (check_row impl k (Some ''docs'') n) d'"
  unfolding make_docs_def by (auto simp: abind_Inr intro!: make_check_adds)

text \<open>Consecutive rows, each with its id.\<close>

lemma create_verification_rows:
  assumes "create_verification_arcs cfg env now i rc d = (Inr ids, d')"
  obtains impl qs c j w where "find_arc i d = Some impl" "ev d d'" "rc \<longrightarrow> astatus impl = Completed"
    "arcs d' = arcs d @ qs @ [c, j, w]" "ids = map aid (qs @ [c, j, w])"
    "length qs = (if is_platform_or_tool_code impl then 1 else 0)"
    "\<forall>b \<in> set qs. check_row impl (base_order (parent_id impl) d) (Some ''verifier-quality'') (aid b) b"
    "check_row impl (base_order (parent_id impl) d + int (length qs)) None (aid c) c"
    "check_row impl (base_order (parent_id impl) d + int (length qs) + 1) (Some ''judge'') (aid j) j"
    "check_row impl (base_order (parent_id impl) d + int (length qs) + 2) (Some ''docs'') (aid w) w"
proof -
  obtain impl where f: "find_arc i d = Some impl"
    using assms by (auto simp: create_verification_arcs_def get_arc_def split: option.splits)
  let ?base = "base_order (parent_id impl) d" and ?q = "is_platform_or_tool_code impl"
  have rc: "rc \<longrightarrow> astatus impl = Completed"
    using assms f by (auto simp: create_verification_arcs_def get_arc_def split: if_splits)
  let ?k = "if ?q then 1 else 0"
  obtain ns d1 nc d2 nj d3 nw where st:
    "(if ?q then abind (make_quality cfg env now impl ?base d) (\<lambda>n d1. (Inr [n], d1)) else (Inr [], d)) = (Inr ns, d1)"
    "make_correctness cfg env now impl (workflow_template i d) (?base + ?k) d1 = (Inr nc, d2)"
    "make_judge cfg env now impl ?q (?base + ?k + 1) d2 = (Inr nj, d3)"
    "make_docs cfg env now impl (?base + ?k + 2) d3 = (Inr nw, d')" "ids = ns @ [nc, nj, nw]"
    using assms f rc unfolding create_verification_arcs_def get_arc_def
    by (simp add: Let_def abind_Inr split del: if_split split: if_split_asm) metis+
  obtain qs where qs: "arcs d1 = arcs d @ qs" "ns = map aid qs" "length qs = ?k" "ev d d1"
    "\<forall>b \<in> set qs. check_row impl ?base (Some ''verifier-quality'') (aid b) b"
  proof (cases ?q)
    case True
    then obtain n where n: "make_quality cfg env now impl ?base d = (Inr n, d1)" "ns = [n]"
      using st(1) by (auto simp: abind_Inr)
    from make_quality_adds [OF n(1)] obtain b where
      "arcs d1 = arcs d @ [b]" "check_row impl ?base (Some ''verifier-quality'') n b" "ev d d1"
      by (auto simp: adds_row_def)
    moreover from this have "aid b = n" by (simp add: check_row_def)
    ultimately show ?thesis using True n(2) by (intro that [of "[b]"]) auto
  next
    case False
    then show ?thesis using st(1) by (intro that [of "[]"]) auto
  qed
  obtain c j w where
    c: "arcs d2 = arcs d1 @ [c]" "check_row impl (?base + ?k) None nc c" "ev d1 d2" and
    j: "arcs d3 = arcs d2 @ [j]" "check_row impl (?base + ?k + 1) (Some ''judge'') nj j" "ev d2 d3" and
    w: "arcs d' = arcs d3 @ [w]" "check_row impl (?base + ?k + 2) (Some ''docs'') nw w" "ev d3 d'"
    using make_correctness_adds [OF st(2)] make_judge_adds [OF st(3)] make_docs_adds [OF st(4)]
    unfolding adds_row_def by blast
  have ids: "aid c = nc" "aid j = nj" "aid w = nw" using c j w by (simp_all add: check_row_def)
  have e: "ev d d'" using qs(4) c(3) j(3) w(3) evolves_trans by metis
  have k: "int (length qs) = ?k" using qs(3) by simp
  show ?thesis
    by (rule that [OF f e rc, of qs c j w]) (use qs c j w ids st(5) k in auto)
qed

lemma max_step_order_base:
  "find_arc i d = Some a \<Longrightarrow> parent_id a = Some p \<Longrightarrow> step_order a < base_order (parent_id a) d"
  using max_step_order_ge [of a "arcs d" p] find_row_Some [of aid i "arcs d" a]
  by (auto simp: base_order_def children_rows_def)

text \<open>An arc waits as long as an earlier sibling is not done.\<close>

lemma waits_for_sibling:
  assumes "find_arc v d = Some b" "parent_id b = Some p" "find_arc i d = Some a" "parent_id a = Some p"
    and "step_order a < step_order b" "astatus a \<notin> DONE_STATUSES"
  shows "\<not> check_dependencies v d"
proof -
  have "a \<in> set (preceding_siblings b p d)"
    using assms(3-5) find_row_Some [OF assms(3)] by (simp add: preceding_siblings_def)
  then show ?thesis using assms(1,2,6) by (auto simp: check_dependencies_def list_all_iff)
qed

lemma same_core_place: "same_core a a' \<Longrightarrow> parent_id a' = parent_id a \<and> step_order a' = step_order a"
  by (cases a; cases a') (simp add: same_core_def)

section \<open>Facts: the judge\<close>

text \<open>A status update that is neither a failure nor a cancellation changes one row.\<close>

lemma plain_update:
  assumes "find_arc i d = Some a" "status_of s = Some new" "new \<in> TRANSITIONS (astatus a)"
    and "new \<noteq> Failed" "new \<noteq> Cancelled"
  shows "\<exists>d'. update_status fmt env now i s ac d = Inr d' \<and>
    arcs d' = upd_row aid i (mark_status now new) (arcs d) \<and> state d' = state d \<and> keeps_wakes d d'"
proof -
  obtain d' where u: "update_status_quiet now i s ac d = Inr d'"
    "arcs d' = upd_row aid i (mark_status now new) (arcs d)" "state d' = state d"
    using assms by (simp add: update_status_quiet_def update_status_with_def transition_def Let_def)
  have "update_status fmt env now i s ac d = update_status_quiet now i s ac d"
    using assms(2,4) by (auto simp: update_status_def update_status_quiet_def update_status_with_def Let_def
        split: sum.splits prod.splits)
  then show ?thesis using u keeps_quiet [OF u(1)] by auto
qed

lemma mark_status_fields [simp]:
  "astatus (mark_status now s a) = s" "aid (mark_status now s a) = aid a" "parent_id (mark_status now s a) = parent_id a"
  by (simp_all add: mark_status_def)

lemma finish_judge_ok:
  assumes "find_arc j d = Some a" "astatus a = Active \<or> astatus a = Waiting"
  shows "\<exists>d'. finish_judge fmt env now j d = (Inr (), d') \<and> state d' = state d \<and> keeps_wakes d d' \<and>
    arcs d' = upd_row aid j (mark_status now Completed) (arcs d)"
proof -
  obtain d' where d': "update_status fmt env now j ''completed'' ''system'' d = Inr d'"
    "arcs d' = upd_row aid j (mark_status now Completed) (arcs d)" "state d' = state d" "keeps_wakes d d'"
    using plain_update [OF assms(1), of "''completed''" Completed fmt env now "''system''"] assms(2) by auto
  have "find_arc j d' = Some (mark_status now Completed a)"
    using assms(1) d'(2) by (simp add: find_row_upd_row)
  then have "freeze_arc (failure_hook fmt env) now j d' = Inr d'"
    by (simp add: freeze_arc_def get_arc_def FROZEN_STATUSES_def)
  then show ?thesis using d' by (simp add: finish_judge_def)
qed

lemma siblings_other_row:
  assumes "\<And>r. aid (f r) = aid r"
  shows "filter (\<lambda>a. P a \<and> aid a \<noteq> j) (upd_row aid j f as) = filter (\<lambda>a. P a \<and> aid a \<noteq> j) as"
  using assms by (induction as) (auto simp: upd_row_def)

lemma add_entry_ok:
  "arc_exists i d \<Longrightarrow> \<exists>d'. add_entry now i ty c d = (Inr (), d') \<and> arcs d' = arcs d \<and> state d' = state d \<and> queue d' = queue d"
  by (simp add: add_entry_def add_history_def)

lemma record_judge_verdict_ok:
  assumes "arc_exists j d" "arc_exists t d"
  shows "\<exists>d'. record_judge_verdict now j t v checks fb d = (Inr (), d') \<and> arcs d' = arcs d \<and>
    state_cell j ''verdict'' d' = Some (Parsed (verdict_summary v checks fb)) \<and>
    state_cell t ''_verification_summary'' d' = Some (Parsed (verdict_summary v checks fb))"
proof -
  let ?d1 = "put_state now j ''verdict'' (Parsed (verdict_summary v checks fb)) d"
  obtain d2 where d2: "add_entry now j ''judge_verdict'' (JObj [(''verdict'', JStr v), (''checks'', JList checks)]) ?d1 = (Inr (), d2)"
    "arcs d2 = arcs d" "state d2 = state ?d1"
    using add_entry_ok [of j ?d1] assms(1) by (fastforce simp: arc_exists_def)
  have "state_cell j ''verdict'' d2 = Some (Parsed (verdict_summary v checks fb))"
    using d2(3) by (simp add: cell_cong [of d2 ?d1] tbl)
  then show ?thesis
    using assms d2(1,2) by (simp add: record_judge_verdict_def set_arc_state_def arc_exists_def tbl)
qed

text \<open>The whole handler up to the branch on the verdict.\<close>

lemma judge_verdict:
  assumes a: "find_arc j d = Some a" "live_status (astatus a)" and t: "verification_target_id a = Some t" "arc_exists t d"
    and sibs: "sibs = verification_siblings j (parent_id a) t d"
  obtains d2 parts where
    "handle_judge_verification cfg fmt env u ts now j a d =
       (if all_passed cfg sibs then abind (finish_judge fmt env now j d2) (\<lambda>_ d3. propagate_completion fmt env now j d3)
        else decide_rework cfg fmt env u ts now j t sibs parts d2)"
    "state_cell j ''verdict'' d2 = Some (Parsed (verdict_summary (if all_passed cfg sibs then ''pass'' else ''fail'')
       (map check_result (judged cfg sibs)) parts))"
    "state_cell t ''_verification_summary'' d2 = state_cell j ''verdict'' d2"
    "\<exists>b. find_arc j d2 = Some b \<and> (astatus b = Active \<or> astatus b = Waiting) \<and> parent_id b = parent_id a"
    "\<And>i. i \<noteq> j \<Longrightarrow> find_arc i d2 = find_arc i d"
proof -
  obtain d1 where d1: "(if astatus a = Pending then stmt (update_status fmt env now j ''active'' ''system'' d) d
      else (Inr (), d)) = (Inr (), d1)"
    "arcs d1 = (if astatus a = Pending then upd_row aid j (mark_status now Active) (arcs d) else arcs d)"
    using plain_update [OF a(1), of "''active''" Active fmt env now "''system''"] by (cases "astatus a = Pending") auto
  have f1: "\<exists>b. find_arc j d1 = Some b \<and> (astatus b = Active \<or> astatus b = Waiting) \<and> parent_id b = parent_id a"
    using a d1(2) by (cases "astatus a = Pending") (auto simp: find_row_upd_row live_status_def)
  have f2: "find_arc i d1 = find_arc i d" if "i \<noteq> j" for i
    using that d1(2) by (simp add: find_row_upd_row)
  have s1: "verification_siblings j (parent_id a) t d1 = sibs"
    unfolding sibs verification_siblings_def d1(2)
    using siblings_other_row [of "mark_status now Active" "\<lambda>b. parent_id a \<noteq> None \<and> parent_id b = parent_id a \<and>
        verification_target_id b = Some t" j "arcs d"]
    by (simp add: conj_assoc)
  have ex1: "arc_exists j d1" using f1 by (auto simp: arc_exists_def)
  have ex: "arc_exists j d1" "arc_exists t d1"
    using ex1 f2 [of t] t(2) by (cases "t = j"; simp add: arc_exists_def)+
  let ?v = "if all_passed cfg sibs then ''pass'' else ''fail''" and ?cs = "map check_result (judged cfg sibs)"
  let ?parts = "feedback_parts cfg d1 sibs"
  obtain d2 where d2: "record_judge_verdict now j t ?v ?cs ?parts d1 = (Inr (), d2)" "arcs d2 = arcs d1"
    "state_cell j ''verdict'' d2 = Some (Parsed (verdict_summary ?v ?cs ?parts))"
    "state_cell t ''_verification_summary'' d2 = Some (Parsed (verdict_summary ?v ?cs ?parts))"
    using record_judge_verdict_ok [OF ex] by blast
  show ?thesis
  proof (rule that)
    show "handle_judge_verification cfg fmt env u ts now j a d =
       (if all_passed cfg sibs then abind (finish_judge fmt env now j d2) (\<lambda>_ d3. propagate_completion fmt env now j d3)
        else decide_rework cfg fmt env u ts now j t sibs ?parts d2)"
      unfolding handle_judge_verification_def d1(1) abind_simps t(1) option.case Let_def s1 d2(1) ..
  qed (use d2 f1 f2 in simp_all)
qed

lemma update_status_accepted:
  "update_status fmt env now i s ac d = Inr d' \<Longrightarrow>
     \<exists>new a. status_of s = Some new \<and> find_arc i d = Some a \<and> new \<in> TRANSITIONS (astatus a)"
  by (auto simp: update_status_def update_status_with_def transition_def Let_def
      split: option.splits sum.splits if_splits)

lemma update_nonfailed:
  assumes "update_status fmt env now i s ac d = Inr d'" "status_of s \<noteq> Some Failed"
  shows "state d' = state d \<and> keeps_wakes d d'"
proof -
  have u: "update_status_quiet now i s ac d = Inr d'"
    using assms by (auto simp: update_status_def update_status_quiet_def update_status_with_def Let_def
        split: option.splits sum.splits prod.splits if_splits)
  have "state d' = state d"
    using u by (auto simp: update_status_quiet_def update_status_with_def Let_def dest: transition_frame
        split: option.splits sum.splits prod.splits)
  then show ?thesis using keeps_quiet [OF u] by simp
qed

lemma status_of_cancelled [simp]: "status_of ''cancelled'' = Some Cancelled"
  by (simp add: status_of_def)

lemma cancel_docs_frame:
  "cancel_docs cfg fmt env now ss d = (Inr u, d') \<Longrightarrow> state d' = state d"
proof (induction ss arbitrary: d)
  case (Cons x xs)
  then show ?case
    by (auto simp: abind_Inr stmt_Inr split: if_splits dest!: update_nonfailed)
qed simp

lemma finish_judge_frame:
  assumes "finish_judge fmt env now j d = (Inr u, d')"
  shows "state d' = state d \<and> keeps_wakes d d' \<and> (\<forall>i. i \<noteq> j \<longrightarrow> find_arc i d' = find_arc i d) \<and>
    (\<exists>b. find_arc j d' = Some b \<and> astatus b = Completed)"
proof -
  obtain d1 where "update_status fmt env now j ''completed'' ''system'' d = Inr d1"
    using assms by (auto simp: finish_judge_def abind_Inr stmt_Inr)
  then obtain a where a: "find_arc j d = Some a" "Completed \<in> TRANSITIONS (astatus a)"
    using update_status_accepted [of fmt env now j "''completed''" "''system''" d] by auto
  then have l: "astatus a = Active \<or> astatus a = Waiting" by (cases "astatus a") auto
  obtain d2 where "finish_judge fmt env now j d = (Inr (), d2)" "state d2 = state d" "keeps_wakes d d2"
    "arcs d2 = upd_row aid j (mark_status now Completed) (arcs d)"
    using finish_judge_ok [OF a(1) l] by blast
  then show ?thesis using assms a(1) by (auto simp: find_row_upd_row)
qed

lemma notify_chat_same [simp]: "notify_chat i d = (Inr u, d') \<Longrightarrow> d' = d"
  by (auto simp: notify_chat_def abind_Inr read_state_def)

lemma enqueue_item_live: "live_key k (queue (enqueue_item now et pl k mx sc pr d))"
  by (simp add: enqueue_item_def enqueue_live)

lemma enqueue_item_state [simp]:
  "state (enqueue_item now et pl k mx sc pr d) = state d" "arcs (enqueue_item now et pl k mx sc pr d) = arcs d"
  by (simp_all add: enqueue_item_def)

lemma start_rework_outcome:
  assumes "start_rework cfg fmt env now j t sibs fb d = (Inr (), d')"
  shows "state_cell t ''_verification_pending'' d' = Some (Parsed (JBool False)) \<and> live_key (rework_key now t) (queue d')"
proof -
  obtain d6 pl where e: "finish_judge fmt env now j (enqueue_item now (invoke_event t (put_state now t ''_verification_pending'' (Parsed (JBool False)) d6))
      pl (rework_key now t) SINGLE_ATTEMPT None (arc_priority t (put_state now t ''_verification_pending'' (Parsed (JBool False)) d6))
      (put_state now t ''_verification_pending'' (Parsed (JBool False)) d6)) = (Inr (), d')"
    using assms unfolding start_rework_def Let_def
    by (auto simp: abind_Inr stmt_Inr read_state_def set_arc_state_def split: if_splits dest!: notify_chat_same)
  let ?d = "put_state now t ''_verification_pending'' (Parsed (JBool False)) d6"
  let ?e = "enqueue_item now (invoke_event t ?d) pl (rework_key now t) SINGLE_ATTEMPT None (arc_priority t ?d) ?d"
  have "state_cell t ''_verification_pending'' d' = state_cell t ''_verification_pending'' ?d"
    using finish_judge_frame [OF e] by (intro cell_cong) simp
  moreover have "live_key (rework_key now t) (queue d')"
    using finish_judge_frame [OF e] enqueue_item_live unfolding keeps_wakes_def by blast
  ultimately show ?thesis by (simp add: tbl)
qed

lemma give_up_outcome:
  assumes "give_up cfg fmt env now j t sibs d = (Inr (), d')"
  shows "state_cell t ''_verification_pending'' d' = Some (Parsed (JBool False)) \<and>
    (\<exists>b. find_arc t d' = Some b \<and> astatus b \<noteq> Active)"
proof -
  let ?W = "\<lambda>e. if (case get_arc t e of Some a \<Rightarrow> astatus a = Active | None \<Rightarrow> False)
    then stmt (update_status fmt env now t ''waiting'' ''system'' e) e else (Inr (), e)"
  obtain d1 d2 d3 d4 u1 u2 where c: "set_arc_state now t ''_verification_pending'' (JBool False) d1 = Inr d2"
    "?W d2 = (Inr u1, d3)" "notify_chat t d3 = (Inr u2, d4)" "finish_judge fmt env now j d4 = (Inr (), d')"
    using assms unfolding give_up_def abind_Inr stmt_Inr by blast
  have g: "?W (put_state now t ''_verification_pending'' (Parsed (JBool False)) d1) = (Inr (), d3)"
    "finish_judge fmt env now j d3 = (Inr (), d')" "arc_exists t d1"
    using c notify_chat_same [OF c(3)] by (auto simp: set_arc_state_def split: if_splits)
  let ?d = "put_state now t ''_verification_pending'' (Parsed (JBool False)) d1"
  obtain b where b: "find_arc t ?d = Some b" using g(3) by (auto simp: arc_exists_def)
  have s: "state d3 = state ?d \<and> (\<exists>c. find_arc t d3 = Some c \<and> astatus c \<noteq> Active)"
  proof (cases "astatus b = Active")
    case True
    then have u: "update_status fmt env now t ''waiting'' ''system'' ?d = Inr d3"
      using g(1) b by (simp add: get_arc_def stmt_Inr)
    from plain_update [OF b, of "''waiting''" Waiting fmt env now "''system''"] True u
    have "arcs d3 = upd_row aid t (mark_status now Waiting) (arcs ?d)" by simp
    then show ?thesis using update_nonfailed [OF u] b by (simp add: find_row_upd_row)
  next
    case False
    then have "d3 = ?d" using g(1) b by (simp add: get_arc_def)
    then show ?thesis using b False by blast
  qed
  have "state_cell t ''_verification_pending'' d' = state_cell t ''_verification_pending'' ?d"
    using finish_judge_frame [OF g(2)] s by (intro cell_cong) simp
  then show ?thesis using finish_judge_frame [OF g(2)] s by (cases "t = j") (auto simp: tbl)
qed

section \<open>Creation succeeds\<close>

text \<open>The change is in the table, and so is its parent.\<close>

definition placed :: "arc \<Rightarrow> db \<Rightarrow> bool" where
  "placed impl d = (find_arc (aid impl) d = Some impl \<and> (\<forall>p. parent_id impl = Some p \<longrightarrow> find_arc p d \<noteq> None))"

lemma placed_append: "placed impl d \<Longrightarrow> arcs d' = arcs d @ bs \<Longrightarrow> placed impl d'"
  by (auto simp: placed_def find_row_append)

lemma valid_agents:
  "validate_agent_type ''EXECUTOR'' = Inr EXECUTOR" "validate_agent_type ''REVIEWER'' = Inr REVIEWER"
  "integrity_of ''trusted'' = Inr TRUSTED" "validate_output_type ''python'' = Inr OUT_PYTHON"
  by (simp_all add: validate_agent_type_def integrity_of_def validate_output_type_def)

lemma make_check_ok:
  assumes p: "placed impl d" and ca: "ca = check_args impl nm text k role ro ag pol"
    and ro: "ro = ''verifier'' \<or> ro = ''worker''" and ag: "ag = ''EXECUTOR'' \<or> ag = ''REVIEWER''"
  shows "\<exists>n d'. make_check env now (aid impl) ca inh kind extra d = (Inr n, d') \<and> placed impl d'"
proof -
  have fk: "fks_ok ca d"
    using p by (auto simp: ca fks_ok_def fk_arc_def arc_exists_def placed_def check_args_def default_args_def
        split: option.split)
  have v: "validate_verification_target d (aid impl) (parent_id impl) None = Inr ()"
    using p by (simp add: validate_verification_target_def placed_def)
  obtain g where g: "validate_agent_type (ca_agent ca) = Inr g"
    using ag valid_agents by (auto simp: ca check_args_def default_args_def)
  obtain r where r: "arc_role_of (ca_arc_role ca) = Some r"
    using ro by (auto simp: ca check_args_def default_args_def arc_role_of_def)
  have il: "integrity_of (ca_integrity ca) = Inr TRUSTED" "validate_output_type (ca_output ca) = Inr OUT_PYTHON"
    "resolve_arc_creation_model env now (ca_model ca) (ca_agent_model ca) (ca_model_role ca) (ca_agent_role ca)
       (ca_temperature ca) (ca_max_tokens ca) (ca_policy ca) d = Inr (pol, d)"
    "ca_verification_target ca = Some (aid impl)" "ca_parent ca = parent_id impl"
    using valid_agents by (simp_all add: ca check_args_def default_args_def resolve_arc_creation_model_def truthy_str_def)
  obtain b d1 where row: "insert_arc_row env now ca d = Inr (b, d1)" "arcs d1 = arcs d @ [b]"
    using fk v by (simp add: insert_arc_row_def il g r Let_def)
  have "arc_exists (aid b) d1" using row(2) by (auto simp: arc_exists_def find_row_append split: option.split)
  then obtain d2 where ini: "initialize_retry_state (env_retry env) now (aid b) ''transient_only'' None d1 = Inr d2"
    "arcs d2 = arcs d1"
    by (simp add: initialize_retry_state_def Let_def)
  obtain d3 where cr: "create_arc env now ca d = Inr (aid b, d3)" "arcs d3 = arcs d @ [b]"
    using row ini by (simp add: create_arc_def is_non_trusted_def insert_arc_def il g Let_def)
  let ?d4 = "if inh then inherit_source_category now (aid impl) (aid b) d3 else d3"
  have p4: "placed impl ?d4" by (rule placed_append [OF p, of _ "[b]"]) (simp add: cr(2))
  then have "arc_exists (aid impl) ?d4" by (simp add: arc_exists_def placed_def)
  from add_entry_ok [OF this, of now "''verification_arc_created''"
      "JObj ([(''verification_arc_id'', JInt (aid b)), (''check_type'', JStr kind)] @ extra)"]
  obtain d5 where "add_entry now (aid impl) ''verification_arc_created''
      (JObj ([(''verification_arc_id'', JInt (aid b)), (''check_type'', JStr kind)] @ extra)) ?d4 = (Inr (), d5)"
    "arcs d5 = arcs ?d4" by blast
  then show ?thesis
    using cr placed_append [OF p4, of d5 "[]"] by (simp add: make_check_def Let_def)
qed

lemma create_verification_ok:
  assumes "find_arc i d = Some impl" "\<forall>p. parent_id impl = Some p \<longrightarrow> find_arc p d \<noteq> None"
    and "template_id impl = None" "map_of WORKFLOW_CORRECTNESS_STEP (workflow_template i d) = None"
  shows "\<exists>ids d'. create_verification_arcs cfg env now i False d = (Inr ids, d')"
proof -
  let ?q = "is_platform_or_tool_code impl" and ?k = "if is_platform_or_tool_code impl then 1 else 0"
  let ?b = "base_order (parent_id impl) d"
  have pol: "get_model_policy_for_step cfg (template_id impl) st fb e =
      Inr (if fb = [] then None else get_policy_id_by_name fb e)" for st fb e
    by (simp add: get_model_policy_for_step_def get_step_config_def xbind_def assms(3))
  have i: "aid impl = i" using find_row_Some [OF assms(1)] by simp
  have p: "placed impl d" using assms(1,2) i by (simp add: placed_def)
  have q: "\<exists>n e'. make_quality cfg env now impl k e = (Inr n, e') \<and> placed impl e'" if "placed impl e" for k e
    unfolding make_quality_def pol abind_simps by (rule make_check_ok [OF that refl]) simp_all
  have c: "\<exists>n e'. make_correctness cfg env now impl (workflow_template i d) k e = (Inr n, e') \<and> placed impl e'"
    if "placed impl e" for k e
    unfolding make_correctness_def pol abind_simps assms(4) option.case by (rule make_check_ok [OF that refl]) simp_all
  have j: "\<exists>n e'. make_judge cfg env now impl ?q k e = (Inr n, e') \<and> placed impl e'" if "placed impl e" for k e
    unfolding make_judge_def by (rule make_check_ok [OF that refl]) simp_all
  have w: "\<exists>n e'. make_docs cfg env now impl k e = (Inr n, e') \<and> placed impl e'" if "placed impl e" for k e
    unfolding make_docs_def pol abind_simps by (rule make_check_ok [OF that refl]) simp_all
  obtain qs d1 where 1: "(if ?q then abind (make_quality cfg env now impl ?b d) (\<lambda>n d1. (Inr [n], d1))
      else (Inr [], d)) = (Inr qs, d1)" "placed impl d1"
  proof (cases ?q)
    case True
    obtain n e where "make_quality cfg env now impl ?b d = (Inr n, e)" "placed impl e" using q [OF p] by blast
    then show ?thesis using True that by simp
  qed (use p that in simp)
  obtain c' d2 where 2: "make_correctness cfg env now impl (workflow_template i d) (?b + ?k) d1 = (Inr c', d2)" "placed impl d2"
    using c [OF 1(2)] by blast
  obtain j' d3 where 3: "make_judge cfg env now impl ?q (?b + ?k + 1) d2 = (Inr j', d3)" "placed impl d3"
    using j [OF 2(2)] by blast
  obtain w' d4 where 4: "make_docs cfg env now impl (?b + ?k + 2) d3 = (Inr w', d4)"
    using w [OF 3(2)] by blast
  have "create_verification_arcs cfg env now i False d = (Inr (qs @ [c', j', w']), d4)"
    unfolding create_verification_arcs_def get_arc_def assms(1) option.case Let_def
    by (simp only: HOL.simp_thms if_False 1(1) 2(1) 3(1) 4 abind_simps)
  then show ?thesis by blast
qed

section \<open>Examples\<close>

definition demo_vconfig :: vconfig where
  "demo_vconfig = \<lparr> vc_enabled = True, vc_correctness = ''verify-correctness'', vc_quality = ''verify-quality'',
     vc_judge = ''judge-verification'', vc_docs = ''post-verification-docs'', vc_fallback = ''careful-coding'',
     vc_reason_max = 300, vc_summary_max = 500, vc_steps = (\<lambda>_. None), vc_goal = (\<lambda>_ _ _. []),
     vc_prompt = (\<lambda>_ _ _ _. []) \<rparr>"

definition demo_change :: arc where
  "demo_change = (blank_arc 2)\<lparr> aname := ''coding-change: x'', parent_id := Some 1, astatus := Active \<rparr>"

text \<open>A change below an arc; and a change at the root with a failed check and a judge.\<close>

definition demo_changes :: db where
  "demo_changes = empty_db\<lparr> arcs := [(blank_arc 1)\<lparr> astatus := Active \<rparr>, demo_change] \<rparr>"

definition demo_judge :: arc where
  "demo_judge = (blank_arc 3)\<lparr> step_role := Some ''judge'', verification_target_id := Some 1 \<rparr>"

definition demo_root_change :: db where
  "demo_root_change = empty_db\<lparr> arcs := [(blank_arc 1)\<lparr> aname := ''coding-change: x'', astatus := Active \<rparr>,
     (blank_arc 2)\<lparr> step_role := Some ''verifier-correctness'', verification_target_id := Some 1, astatus := Failed \<rparr>,
     demo_judge] \<rparr>"

lemma demo_changes_created:
  "\<exists>ids d'. create_verification_arcs demo_vconfig demo_env 7 2 False demo_changes = (Inr ids, d')"
  by (rule create_verification_ok [where impl = demo_change])
    (simp_all add: demo_changes_def demo_change_def workflow_template_def state_cell_def WORKFLOW_CORRECTNESS_STEP_def blank_arc_def)

lemma demo_changes_find: "find_arc 2 demo_changes = Some demo_change" "wf_tree (arcs demo_changes)"
  by (simp_all add: demo_changes_def demo_change_def wf_tree_def wf_ids_def)

lemma demo_judge_sel [simp]:
  "aid demo_judge = 3" "astatus demo_judge = Pending" "parent_id demo_judge = None" "verification_target_id demo_judge = Some 1"
  by (simp_all add: demo_judge_def)

lemma demo_root_find: "find_arc 3 demo_root_change = Some demo_judge" "arc_exists 1 demo_root_change"
  by (simp_all add: demo_root_change_def arc_exists_def)

lemma all_Suc_conv:
  "(\<forall>k < Suc (Suc (Suc 0)). P k) \<longleftrightarrow> P 0 \<and> P 1 \<and> P 2"
  "(\<forall>k < Suc (Suc (Suc (Suc 0))). P k) \<longleftrightarrow> P 0 \<and> P 1 \<and> P 2 \<and> P 3"
  by (auto simp: less_Suc_eq numeral_2_eq_2 numeral_3_eq_3)

text \<open>A change whose rework budget is used up, and its running judge.\<close>

definition demo_exhausted :: db where
  "demo_exhausted = empty_db\<lparr> arcs := [(blank_arc 1)\<lparr> astatus := Active \<rparr>, (blank_arc 3)\<lparr> astatus := Active \<rparr>],
     state := [\<lparr> sid = 1, s_arc = 1, s_key = ''_retry_count'', s_value = Parsed (JInt 2), s_updated_at = 0 \<rparr>,
               \<lparr> sid = 2, s_arc = 1, s_key = ''_max_retries'', s_value = Parsed (JInt 2), s_updated_at = 0 \<rparr>] \<rparr>"

lemma demo_gives_up:
  "\<exists>d'. decide_rework demo_vconfig (\<lambda>_. []) demo_env 0 ''t'' 7 3 1 [] [''x''] demo_exhausted = (Inr (), d')"
proof -
  have c: "retry_counts 1 2 2 demo_exhausted"
    by (simp add: retry_counts_def state_cell_def demo_exhausted_def)
  have m: "map_of (get_error_max_retries default_retry_config) ''VerificationError'' = Some 2" by code_simp
  have r: "\<exists>e. fst (should_retry_arc (env_retry demo_env) (env_health demo_env) 7 0 1
      (verification_error demo_vconfig ''t'' (join_lines [''x''])) demo_exhausted (env_tracker demo_env)) = Inr (no_retry e)"
    unfolding should_retry_arc_counted [OF c]
    by (simp add: Let_def demo_env_def verification_error_def m limit_of_def) blast
  let ?d = "put_state 7 1 ''_verification_pending'' (Parsed (JBool False)) demo_exhausted"
  have f: "find_arc 1 ?d = Some ((blank_arc 1)\<lparr> astatus := Active \<rparr>)" "find_arc 3 ?d = Some ((blank_arc 3)\<lparr> astatus := Active \<rparr>)"
    by (simp_all add: demo_exhausted_def)
  obtain e where e: "update_status (\<lambda>_. []) demo_env 7 1 ''waiting'' ''system'' ?d = Inr e"
    "arcs e = upd_row aid 1 (mark_status 7 Waiting) (arcs ?d)" "state e = state ?d"
    using plain_update [OF f(1), of "''waiting''" Waiting] by fastforce
  have "find_arc 3 e = Some ((blank_arc 3)\<lparr> astatus := Active \<rparr>)"
    using f(2) e(2) by (simp add: find_row_upd_row)
  from finish_judge_ok [OF this] obtain d' where d': "finish_judge (\<lambda>_. []) demo_env 7 3 e = (Inr (), d')" by fastforce
  have "state_cell 1 ''conversation_id'' demo_exhausted = None"
    by (simp add: demo_exhausted_def state_cell_def)
  then have n: "state_cell 1 ''conversation_id'' e = None"
    using cell_cong [OF e(3), of 1 "''conversation_id''"] by (simp add: tbl)
  have a: "arc_exists 1 demo_exhausted" by (simp add: arc_exists_def demo_exhausted_def)
  have "give_up demo_vconfig (\<lambda>_. []) demo_env 7 3 1 [] demo_exhausted = (Inr (), d')"
    using a f(1) e(1) d' n
    by (simp add: give_up_def set_arc_state_def get_arc_def notify_chat_def read_state_def get_arc_state_def)
  then show ?thesis using r by (auto simp: decide_rework_def Let_def no_retry_def)
qed

lemma verification_chain_rows:
  "create_verification_arcs cfg env now i rc d = (Inr ids, d') \<Longrightarrow> \<exists>bs. arcs d' = arcs d @ bs"
  by (erule create_verification_rows) blast

section \<open>Properties\<close>

text \<open>What the verification consists of. The created arcs are siblings of the change and target
  it; they stand in consecutive steps after every child the parent has; there is a quality check
  exactly for platform or tool code, and the last two are the judge and the documentation.\<close>

theorem verification_chain:
  assumes "create_verification_arcs cfg env now i rc d = (Inr ids, d')"
  shows "\<exists>impl bs. find_arc i d = Some impl \<and> arcs d' = arcs d @ bs \<and> ids = map aid bs \<and>
    length bs = (if is_platform_or_tool_code impl then 4 else 3) \<and>
    (\<forall>k < length bs. parent_id (bs ! k) = parent_id impl \<and> verification_target_id (bs ! k) = Some i \<and>
       step_order (bs ! k) = base_order (parent_id impl) d + int k) \<and>
    step_role (bs ! (length bs - 2)) = Some ''judge'' \<and> step_role (bs ! (length bs - 1)) = Some ''docs''"
proof -
  obtain impl qs c j w where r: "find_arc i d = Some impl" "arcs d' = arcs d @ qs @ [c, j, w]"
    "ids = map aid (qs @ [c, j, w])" "length qs = (if is_platform_or_tool_code impl then 1 else 0)"
    "\<forall>b \<in> set qs. check_row impl (base_order (parent_id impl) d) (Some ''verifier-quality'') (aid b) b"
    "check_row impl (base_order (parent_id impl) d + int (length qs)) None (aid c) c"
    "check_row impl (base_order (parent_id impl) d + int (length qs) + 1) (Some ''judge'') (aid j) j"
    "check_row impl (base_order (parent_id impl) d + int (length qs) + 2) (Some ''docs'') (aid w) w"
    by (rule create_verification_rows [OF assms])
  have i: "aid impl = i" using find_row_Some [OF r(1)] by simp
  let ?bs = "qs @ [c, j, w]"
  have "\<forall>k < length ?bs. parent_id (?bs ! k) = parent_id impl \<and> verification_target_id (?bs ! k) = Some i \<and>
      step_order (?bs ! k) = base_order (parent_id impl) d + int k"
  proof (cases "is_platform_or_tool_code impl")
    case True
    then obtain q where "qs = [q]" using r(4) by (cases qs) auto
    then show ?thesis using r(5-8) i by (simp add: check_row_def all_Suc_conv)
  next
    case False
    then have "qs = []" using r(4) by simp
    then show ?thesis using r(6-8) i by (simp add: check_row_def all_Suc_conv)
  qed
  moreover have "?bs ! (length ?bs - 2) = j" "?bs ! (length ?bs - 1) = w" by (simp_all add: nth_append)
  ultimately show ?thesis using r by (intro exI [of _ impl] exI [of _ ?bs]) (auto simp: check_row_def)
qed

theorem verification_chain_witness:
  "\<exists>ids d'. create_verification_arcs demo_vconfig demo_env 7 2 False demo_changes = (Inr ids, d') \<and> length ids = 3"
proof -
  obtain ids d' where c: "create_verification_arcs demo_vconfig demo_env 7 2 False demo_changes = (Inr ids, d')"
    using demo_changes_created by blast
  have "\<not> is_platform_or_tool_code demo_change"
    by (simp add: is_platform_or_tool_code_def demo_change_def starts_with_def lower_def lower_char_def Let_def dflt_def)
  then have "length ids = 3" using verification_chain [OF c] demo_changes_find(1) by auto
  then show ?thesis using c by blast
qed

text \<open>C9: The checks wait for the change. When the change is the child of some arc, none of its
  verification arcs is ready, in any later state of the engine, before the change itself is done:
  neither the heartbeat nor the dispatch of ready children enqueues one.\<close>

theorem checks_wait_for_change:
  assumes "wf_tree (arcs d)" "find_arc i d = Some impl" "parent_id impl = Some p"
    and "create_verification_arcs cfg env now i rc d = (Inr ids, d')"
    and "(arc_step fmt env)\<^sup>*\<^sup>* d' d''"
    and "find_arc i d'' = Some impl2" "astatus impl2 \<notin> DONE_STATUSES"
    and "v \<in> set ids" "find_arc v d'' = Some b"
  shows "\<not> check_dependencies v d'' \<and> scan_one t b d'' = d'' \<and> \<not> ready_child t d'' sibs b"
proof -
  obtain qs c j w where r: "ev d d'" "arcs d' = arcs d @ qs @ [c, j, w]" "ids = map aid (qs @ [c, j, w])"
    "\<forall>x \<in> set qs. check_row impl (base_order (parent_id impl) d) (Some ''verifier-quality'') (aid x) x"
    "check_row impl (base_order (parent_id impl) d + int (length qs)) None (aid c) c"
    "check_row impl (base_order (parent_id impl) d + int (length qs) + 1) (Some ''judge'') (aid j) j"
    "check_row impl (base_order (parent_id impl) d + int (length qs) + 2) (Some ''docs'') (aid w) w"
    by (rule create_verification_rows [OF assms(4)]) (use assms(2) in auto)
  have wf1: "wf_tree (arcs d')" using r(1) assms(1) by (simp add: evolves_def)
  obtain x where x: "x \<in> set (qs @ [c, j, w])" "aid x = v" using assms(8) r(3) by auto
  have xs: "parent_id x = Some p" "base_order (parent_id impl) d \<le> step_order x"
    using x(1) r(4-7) assms(3) by (auto simp: check_row_def)
  have "x \<in> set (arcs d')" using x(1) r(2) by auto
  then have fx: "find_arc v d' = Some x"
    using wf1 x(2) find_row_distinct [of aid "arcs d'" x] by (auto simp: wf_tree_def)
  obtain b' where b': "find_arc v d'' = Some b'" "same_core x b'"
    by (rule arc_run_row [OF assms(5) wf1 fx])
  then have b: "parent_id b = Some p" "step_order b = step_order x" "aid b = v"
    using assms(9) xs same_core_place find_row_Some [OF assms(9)] by auto
  obtain i1 where i1: "find_arc i d' = Some i1" "same_core impl i1"
    using r(1) assms(1,2) unfolding evolves_def row_evolves_def by blast
  obtain i2 where i2: "find_arc i d'' = Some i2" "same_core i1 i2"
    by (rule arc_run_row [OF assms(5) wf1 i1(1)])
  have im: "parent_id impl2 = Some p" "step_order impl2 = step_order impl"
    using i1(2) i2 assms(3,6) same_core_place by auto
  have "step_order impl2 < step_order b"
    using max_step_order_base [OF assms(2,3)] xs(2) im(2) b(2) by simp
  from waits_for_sibling [OF assms(9) b(1) assms(6) im(1) this assms(7)]
  show ?thesis using b(3) by (simp add: scan_one_def ready_child_def)
qed

theorem checks_wait_for_change_witness:
  "\<exists>ids d1. create_verification_arcs demo_vconfig demo_env 7 2 False demo_changes = (Inr ids, d1) \<and>
     (\<forall>v b. v \<in> set ids \<and> find_arc v d1 = Some b \<longrightarrow> scan_one 9 b d1 = d1)"
proof -
  obtain ids d1 where c: "create_verification_arcs demo_vconfig demo_env 7 2 False demo_changes = (Inr ids, d1)"
    using demo_changes_created by blast
  have p: "parent_id demo_change = Some 1" by (simp add: demo_change_def)
  have f: "find_arc 2 d1 = Some demo_change"
    using verification_chain_rows [OF c] demo_changes_find(1) by (auto simp: find_row_append)
  have s: "astatus demo_change \<notin> DONE_STATUSES" by (simp add: demo_change_def DONE_STATUSES_def)
  note waits = checks_wait_for_change [OF demo_changes_find(2,1) p c, where fmt = "\<lambda>_. []" and d'' = d1]
  have "\<And>v b. v \<in> set ids \<Longrightarrow> find_arc v d1 = Some b \<Longrightarrow> scan_one 9 b d1 = d1"
    using waits f s by blast
  then show ?thesis using c by blast
qed

text \<open>What the judge decides. With its target in place, a judge that can run records the verdict
  \<open>pass\<close>, on itself and on the change, exactly if it has no parent or every correctness or
  quality check of the change beside it is completed; then it completes and propagates, and
  otherwise it decides about rework.\<close>

theorem judge_decides:
  assumes "find_arc j d = Some a" "live_status (astatus a)" "verification_target_id a = Some t" "arc_exists t d"
  shows "\<exists>d2 v checks fb.
    (v = ''pass'' \<longleftrightarrow> parent_id a = None \<or>
       (\<forall>b \<in> set (arcs d). parent_id b = parent_id a \<and> verification_target_id b = Some t \<and> aid b \<noteq> j \<and>
          \<not> is_docs_arc cfg b \<and> is_verifier_arc cfg b \<longrightarrow> astatus b = Completed)) \<and>
    state_cell j ''verdict'' d2 = Some (Parsed (verdict_summary v checks fb)) \<and>
    state_cell t ''_verification_summary'' d2 = Some (Parsed (verdict_summary v checks fb)) \<and>
    handle_judge_verification cfg fmt env u ts now j a d =
      (if v = ''pass'' then abind (finish_judge fmt env now j d2) (\<lambda>_ d3. propagate_completion fmt env now j d3)
       else decide_rework cfg fmt env u ts now j t (verification_siblings j (parent_id a) t d) fb d2)"
proof -
  let ?s = "verification_siblings j (parent_id a) t d"
  obtain d2 parts where h: "handle_judge_verification cfg fmt env u ts now j a d =
       (if all_passed cfg ?s then abind (finish_judge fmt env now j d2) (\<lambda>_ d3. propagate_completion fmt env now j d3)
        else decide_rework cfg fmt env u ts now j t ?s parts d2)"
    "state_cell j ''verdict'' d2 = Some (Parsed (verdict_summary (if all_passed cfg ?s then ''pass'' else ''fail'')
       (map check_result (judged cfg ?s)) parts))"
    "state_cell t ''_verification_summary'' d2 = state_cell j ''verdict'' d2"
    by (rule judge_verdict [OF assms refl, where cfg = cfg and fmt = fmt and env = env and u = u and ts = ts
          and now = now]) blast
  have "all_passed cfg ?s \<longleftrightarrow> parent_id a = None \<or>
       (\<forall>b \<in> set (arcs d). parent_id b = parent_id a \<and> verification_target_id b = Some t \<and> aid b \<noteq> j \<and>
          \<not> is_docs_arc cfg b \<and> is_verifier_arc cfg b \<longrightarrow> astatus b = Completed)"
    by (auto simp: all_passed_def judged_def check_passed_def verification_siblings_def list_all_iff)
  then show ?thesis using h
    by (intro exI [of _ d2] exI [of _ "if all_passed cfg ?s then ''pass'' else ''fail''"]
        exI [of _ "map check_result (judged cfg ?s)"] exI [of _ parts]) auto
qed

theorem judge_decides_witness:
  "\<exists>d2 v checks fb. state_cell 3 ''verdict'' d2 = Some (Parsed (verdict_summary v checks fb)) \<and>
     state_cell 1 ''_verification_summary'' d2 = Some (Parsed (verdict_summary v checks fb))"
proof -
  have l: "live_status (astatus demo_judge)" by (simp add: live_status_def)
  have "verification_target_id demo_judge = Some 1" by simp
  from judge_decides [OF demo_root_find(1) l this demo_root_find(2),
      of demo_vconfig "\<lambda>_. []" demo_env 0 "''t''" 7] show ?thesis by blast
qed

text \<open>C8: At the root nothing is checked. The judge of a change without a parent passes, whatever the
  status of the checks of that change is, and completes.\<close>

theorem root_judge_passes:
  assumes "find_arc j d = Some a" "live_status (astatus a)" "verification_target_id a = Some t" "arc_exists t d"
    and "parent_id a = None"
  shows "\<exists>d' b checks fb. handle_judge_verification cfg fmt env u ts now j a d = enqueue_ready_children now j d' \<and>
    find_arc j d' = Some b \<and> astatus b = Completed \<and>
    state_cell j ''verdict'' d' = Some (Parsed (verdict_summary ''pass'' checks fb)) \<and>
    (\<forall>i. i \<noteq> j \<longrightarrow> find_arc i d' = find_arc i d)"
proof -
  let ?s = "verification_siblings j (parent_id a) t d"
  have ok: "all_passed cfg ?s" using assms(5) by (simp add: all_passed_def judged_def verification_siblings_def)
  obtain d2 parts where h: "handle_judge_verification cfg fmt env u ts now j a d =
       (if all_passed cfg ?s then abind (finish_judge fmt env now j d2) (\<lambda>_ d3. propagate_completion fmt env now j d3)
        else decide_rework cfg fmt env u ts now j t ?s parts d2)"
    "state_cell j ''verdict'' d2 = Some (Parsed (verdict_summary (if all_passed cfg ?s then ''pass'' else ''fail'')
       (map check_result (judged cfg ?s)) parts))"
    "\<exists>b. find_arc j d2 = Some b \<and> (astatus b = Active \<or> astatus b = Waiting) \<and> parent_id b = parent_id a"
    "\<And>i. i \<noteq> j \<Longrightarrow> find_arc i d2 = find_arc i d"
    by (rule judge_verdict [OF assms(1-4) refl, where cfg = cfg and fmt = fmt and env = env and u = u and ts = ts
          and now = now]) blast
  obtain b where b: "find_arc j d2 = Some b" "astatus b = Active \<or> astatus b = Waiting" "parent_id b = None"
    using h(3) assms(5) by auto
  obtain d3 where d3: "finish_judge fmt env now j d2 = (Inr (), d3)" "state d3 = state d2"
    "arcs d3 = upd_row aid j (mark_status now Completed) (arcs d2)"
    using finish_judge_ok [OF b(1,2)] by blast
  have f: "find_arc j d3 = Some (mark_status now Completed b)" using b(1) d3(3) by (simp add: find_row_upd_row)
  have "handle_judge_verification cfg fmt env u ts now j a d = enqueue_ready_children now j d3"
    using h(1) ok d3(1) f b(3) by (simp add: propagate_completion_def get_arc_def)
  moreover have "state_cell j ''verdict'' d3 = state_cell j ''verdict'' d2" by (rule cell_cong [OF d3(2)])
  ultimately show ?thesis using f h(2,4) ok d3(3)
    by (intro exI [of _ d3] exI [of _ "mark_status now Completed b"]) (auto simp: find_row_upd_row)
qed

theorem root_judge_passes_witness:
  "\<exists>d' checks fb. state_cell 3 ''verdict'' d' = Some (Parsed (verdict_summary ''pass'' checks fb)) \<and>
     find_arc 2 d' = Some ((blank_arc 2)\<lparr> step_role := Some ''verifier-correctness'',
       verification_target_id := Some 1, astatus := Failed \<rparr>)"
proof -
  have l: "live_status (astatus demo_judge)" by (simp add: live_status_def)
  obtain d' checks fb where d: "state_cell 3 ''verdict'' d' = Some (Parsed (verdict_summary ''pass'' checks fb))"
    "\<forall>i. i \<noteq> 3 \<longrightarrow> find_arc i d' = find_arc i demo_root_change"
    using root_judge_passes [OF demo_root_find(1) l _ demo_root_find(2),
      of demo_vconfig "\<lambda>_. []" demo_env 0 "''t''" 7] by auto
  then have "find_arc 2 d' = find_arc 2 demo_root_change" by simp
  then show ?thesis using d(1) by (auto simp: demo_root_change_def)
qed

text \<open>C10: A failed verification is not left pending. When the decision about rework returns, the
  flag \<open>_verification_pending\<close> of the change is false, and either the next round of the coding
  agent is in the queue or the change is not active any more, so that a human can review it.\<close>

theorem rework_or_review:
  assumes "decide_rework cfg fmt env u ts now j t sibs parts d = (Inr (), d')"
  shows "state_cell t ''_verification_pending'' d' = Some (Parsed (JBool False)) \<and>
    (live_key (rework_key now t) (queue d') \<or> (\<exists>b. find_arc t d' = Some b \<and> astatus b \<noteq> Active))"
proof -
  obtain r :: retry_decision and d1 where r: "(if should_retry r then abind (stmt (record_retry_attempt now t
          (verification_error cfg ts (join_lines parts)) (backoff_seconds r) d1) d1)
        (\<lambda>_. start_rework cfg fmt env now j t sibs (join_lines parts))
      else give_up cfg fmt env now j t sibs d1) = (Inr (), d')"
    using assms unfolding decide_rework_def Let_def abind_Inr [of "(_, d)"] by blast
  show ?thesis
  proof (cases "should_retry r")
    case True
    then obtain d2 where "start_rework cfg fmt env now j t sibs (join_lines parts) d2 = (Inr (), d')"
      using r by (auto simp: abind_Inr stmt_Inr)
    from start_rework_outcome [OF this] show ?thesis by simp
  next
    case False
    then have "give_up cfg fmt env now j t sibs d1 = (Inr (), d')" using r by simp
    from give_up_outcome [OF this] show ?thesis by simp
  qed
qed

theorem rework_or_review_witness:
  "\<exists>d'. decide_rework demo_vconfig (\<lambda>_. []) demo_env 0 ''t'' 7 3 1 [] [''x''] demo_exhausted = (Inr (), d') \<and>
     state_cell 1 ''_verification_pending'' d' = Some (Parsed (JBool False))"
proof -
  obtain d' where d: "decide_rework demo_vconfig (\<lambda>_. []) demo_env 0 ''t'' 7 3 1 [] [''x''] demo_exhausted = (Inr (), d')"
    using demo_gives_up by blast
  from rework_or_review [OF d] d show ?thesis by blast
qed

text \<open>The Python-only checks that replace the correctness check of a YAML or knowledge-base change
  are not among those the judge counts.\<close>

lemma python_checks_not_judged:
  "(nm, role) \<in> snd ` set WORKFLOW_CORRECTNESS_STEP \<Longrightarrow> \<not> is_verifier_arc cfg (a\<lparr> step_role := Some role \<rparr>)"
  by (auto simp: WORKFLOW_CORRECTNESS_STEP_def is_verifier_arc_def)

text \<open>Whatever the history of a failed check says, the feedback has no reason in it.\<close>

lemma feedback_without_reason: "failure_text i d = [] \<or> failure_text i d = ''{}''"
  by (simp add: failure_text_def)

end
