(* ===== verification/Arc_Outputs.thy ===== *)
theory Arc_Outputs
  imports Verification
begin

text \<open>
  What an arc hands to the next one: named outputs and the resolution of siblings by role
  (\<open>core/engine/arc_outputs.py\<close>), the decryption of non-trusted output for a reviewer
  (\<open>core/trust/encryption.py\<close>), and the two places of the dispatcher that read another arc's
  state, the rendering of a goal from a sibling's output and the injection of fetched content
  (\<open>core/arcs/dispatch_handler.py\<close>).

  The steps of stored templates are the parameter \<open>steps\<close>, the loader of prompt templates is
  \<open>load\<close>. The library \<open>cryptography\<close> is the parameter \<open>cr_fernet\<close>, which decrypts a text with the
  key that target and reviewer share; \<open>parse\<close> reads a decrypted text as JSON and \<open>fmt\<close> is \<open>str()\<close>
  of a value that is no string. Of the rows of \<open>review_keys\<close> the pairs of target and reviewer are
  kept. A review target is an integer: any other value in its cell finds no row.
\<close>

section \<open>Named outputs\<close>

definition output_key :: "string \<Rightarrow> exn + string" where
  "output_key nm =
     (if nm = [] then Inl (ValueError ''output name must be non-empty'')
      else if CHR '':'' \<in> set nm then Inl (ValueError ''output name may not contain a colon'')
      else Inr (''output:'' @ nm))"

definition set_arc_output :: "time \<Rightarrow> int \<Rightarrow> string \<Rightarrow> json \<Rightarrow> db \<Rightarrow> exn + db" where
  "set_arc_output now i nm v d = xbind (output_key nm) (\<lambda>k. set_arc_state now i k v d)"

definition get_arc_output :: "int \<Rightarrow> string \<Rightarrow> json \<Rightarrow> db \<Rightarrow> exn + json" where
  "get_arc_output i nm dv d = xbind (output_key nm) (\<lambda>k. get_arc_state i k dv d)"

text \<open>\<open>LIKE\<close> ignores the case of ASCII letters; a key that occurs twice is overwritten.\<close>

definition output_rows :: "int \<Rightarrow> db \<Rightarrow> state_row list" where
  "output_rows i d = filter (\<lambda>r. s_arc r = i \<and> starts_with (lower (s_key r)) ''output:'') (state d)"

definition read_json :: "jtext \<Rightarrow> exn + json" where
  "read_json t = (case t of Parsed v \<Rightarrow> Inr v | Malformed _ \<Rightarrow> Inl (ValueError ''JSON''))"

definition list_arc_outputs :: "int \<Rightarrow> db \<Rightarrow> exn + jdict" where
  "list_arc_outputs i d =
     xbind (map_x (\<lambda>r. xbind (read_json (s_value r)) (\<lambda>v. Inr (drop 7 (s_key r), v))) (output_rows i d))
       (\<lambda>kvs. Inr (fold (\<lambda>(k, v) m. AList.update k v m) kvs []))"

section \<open>Siblings by role\<close>

definition step_role_of :: "jdict \<Rightarrow> json" where
  "step_role_of s =
     (if jtruthy (dget s ''role'') then dget s ''role''
      else if jtruthy (dget s ''name'') then dget s ''name'' else JStr [])"

text \<open>\<open>ORDER BY step_order, id\<close>.\<close>

definition ordered_siblings :: "int \<Rightarrow> int \<Rightarrow> db \<Rightarrow> arc list" where
  "ordered_siblings p i d =
     sort_key step_order (sort_key aid (filter (\<lambda>a. parent_id a = Some p \<and> aid a \<noteq> i) (arcs d)))"

definition steps_for :: "(int \<Rightarrow> jtext option) \<Rightarrow> int option \<Rightarrow> exn + json list" where
  "steps_for steps tid =
     (case tid of
        None \<Rightarrow> Inr []
      | Some t \<Rightarrow>
          (case steps t of
             None \<Rightarrow> Inr []
           | Some j \<Rightarrow> xbind (read_json j) extract_steps_list))"

definition has_role :: "arc \<Rightarrow> bool" where
  "has_role a = truthy_str (step_role a)"

text \<open>Pass 2: the steps of the template, for arcs without a role of their own.\<close>

fun by_template :: "(int \<Rightarrow> jtext option) \<Rightarrow> json \<Rightarrow> arc list \<Rightarrow> exn + int option" where
  "by_template steps role [] = Inr None"
| "by_template steps role (a # as) =
     (if has_role a then by_template steps role as
      else xbind (steps_for steps (template_id a)) (\<lambda>ss.
           xbind (find_step (aname a) ss) (\<lambda>s.
             case s of
               Some st \<Rightarrow> if step_role_of st = role then Inr (Some (aid a)) else by_template steps role as
             | None \<Rightarrow> by_template steps role as)))"

definition find_sibling_arc_id :: "(int \<Rightarrow> jtext option) \<Rightarrow> int \<Rightarrow> json \<Rightarrow> db \<Rightarrow> exn + int option" where
  "find_sibling_arc_id steps i role d =
     (if \<not> jtruthy role then Inr None
      else case find_arc i d of
        None \<Rightarrow> Inr None
      | Some a \<Rightarrow>
          (case parent_id a of
             None \<Rightarrow> Inr None
           | Some p \<Rightarrow>
               let sibs = ordered_siblings p i d in
               (case find (\<lambda>b. has_role b \<and> JStr (the (step_role b)) = role) sibs of
                  Some b \<Rightarrow> Inr (Some (aid b))
                | None \<Rightarrow>
                    xbind (by_template steps role sibs) (\<lambda>r.
                      case r of
                        Some b \<Rightarrow> Inr (Some b)
                      | None \<Rightarrow> Inr (map_option aid (find (\<lambda>b. JStr (aname b) = role) sibs))))))"

definition get_sibling_output :: "(int \<Rightarrow> jtext option) \<Rightarrow> int \<Rightarrow> json \<Rightarrow> string \<Rightarrow> db \<Rightarrow> exn + json" where
  "get_sibling_output steps i role nm d =
     xbind (find_sibling_arc_id steps i role d) (\<lambda>s.
       case s of None \<Rightarrow> Inr JNull | Some b \<Rightarrow> get_arc_output b nm JNull d)"

section \<open>The goal of an arc\<close>

text \<open>The name of an output that is no text: \<open>":" in name\<close> and the concatenation fail.\<close>

definition output_name_of :: "json \<Rightarrow> exn + string" where
  "output_name_of v = (case v of JStr s \<Rightarrow> Inr s | _ \<Rightarrow> Inl (TypeError ''output name''))"

text \<open>
  The values a prompt template is rendered with. A value that is no dict has attributes only of its
  Python type, which no field is named after.
\<close>

definition goal_context :: "json \<Rightarrow> json \<Rightarrow> exn + jdict option" where
  "goal_context inp out =
     (if jtruthy inp then
        (case (inp, out) of
           (JStr f, JObj ps) \<Rightarrow> Inr (if dget ps f = JNull then None else Some [(f, dget ps f)])
         | (JStr f, _) \<Rightarrow> Inr None
         | (JList _, _) \<Rightarrow> Inl (TypeError ''field'')
         | (JObj _, _) \<Rightarrow> Inl (TypeError ''field'')
         | (_, JObj _) \<Rightarrow> Inr None
         | _ \<Rightarrow> Inl (TypeError ''field''))
      else Inr (Some (case out of JObj ps \<Rightarrow> ps | _ \<Rightarrow> [(''value'', out)])))"

definition render_goal ::
    "(int \<Rightarrow> jtext option) \<Rightarrow> (json \<Rightarrow> jdict \<Rightarrow> json \<Rightarrow> exn + string) \<Rightarrow> int \<Rightarrow> db \<Rightarrow> exn + string option" where
  "render_goal steps load i d =
     xbind (get_arc_state i ''_goal_template_config'' JNull d) (\<lambda>cfg.
       if \<not> jtruthy cfg then Inr None
       else case cfg of
         JObj c \<Rightarrow>
           if \<not> jtruthy (dget c ''template'') \<or> \<not> jtruthy (dget c ''sibling_role'') \<or>
              \<not> jtruthy (dget c ''output_name'') then Inr None
           else
             xbind (find_sibling_arc_id steps i (dget c ''sibling_role'') d) (\<lambda>s.
               case s of
                 None \<Rightarrow> Inr None
               | Some b \<Rightarrow>
                   xbind (output_name_of (dget c ''output_name'')) (\<lambda>nm.
                   xbind (get_arc_output b nm JNull d) (\<lambda>out.
                     if out = JNull then Inr None
                     else xbind (goal_context (dget c ''input_field'') out) (\<lambda>context. case context of
                         None \<Rightarrow> Inr None
                       | Some ctx \<Rightarrow>
                           (case load (dget c ''template'') ctx
                                   (if jtruthy (dget c ''subdir'') then dget c ''subdir'' else JStr []) of
                              Inl (FileNotFoundError _) \<Rightarrow> Inr None
                            | Inl e \<Rightarrow> Inl e
                            | Inr s \<Rightarrow> Inr (Some s))))))
       | _ \<Rightarrow> Inl (AttributeError ''get''))"

section \<open>Fetched content\<close>

record crypto =
  cr_available :: bool
  cr_fernet :: "int \<Rightarrow> int \<Rightarrow> string \<Rightarrow> exn + string"

definition decrypt_for_reviewer ::
    "crypto \<Rightarrow> time \<Rightarrow> (int \<times> int) list \<Rightarrow> int \<Rightarrow> int \<Rightarrow> string \<Rightarrow> db \<Rightarrow> string act" where
  "decrypt_for_reviewer cr now ks r t c d =
     (if \<not> cr_available cr then (Inl (RuntimeError ''cryptography package is required''), d)
      else if (t, r) \<notin> set ks
      then (Inl (PermissionError ''not authorized to decrypt''),
            snd (log_trust_event now (Some t) ''decryption_denied'' (Some [(''reviewer_arc_id'', JInt r)]) d))
      else (cr_fernet cr t r c,
            snd (log_trust_event now (Some t) ''decryption_granted'' (Some [(''reviewer_arc_id'', JInt r)]) d)))"

definition encrypted_marker :: string where
  "encrypted_marker = ''__encrypted__:''"

text \<open>\<open>except (PermissionError, JSONDecodeError, ImportError, TypeError, ValueError, RuntimeError)\<close>.\<close>

definition unreadable :: "exn \<Rightarrow> bool" where
  "unreadable e =
     (case e of PermissionError _ \<Rightarrow> True | TypeError _ \<Rightarrow> True | ValueError _ \<Rightarrow> True
      | RuntimeError _ \<Rightarrow> True | RecursionError \<Rightarrow> True | _ \<Rightarrow> False)"

text \<open>The content as JSON, \<open>None\<close> when it cannot be read; ASCII is what can be encoded.\<close>

definition read_content ::
    "crypto \<Rightarrow> (string \<Rightarrow> jtext) \<Rightarrow> time \<Rightarrow> (int \<times> int) list \<Rightarrow> int \<Rightarrow> int \<Rightarrow> jtext \<Rightarrow> db \<Rightarrow> json option act" where
  "read_content cr parse now ks r t v d =
     (case v of
        Malformed _ \<Rightarrow> (Inr None, d)
      | Parsed (JStr s) \<Rightarrow>
          if \<not> starts_with s encrypted_marker then (Inr (Some (JStr s)), d)
          else if \<not> list_all (\<lambda>c. of_char c < (128 :: nat)) (drop (length encrypted_marker) s) then (Inr None, d)
          else (case abind (decrypt_for_reviewer cr now ks r t (drop (length encrypted_marker) s) d)
                       (\<lambda>p d1. (read_json (parse p), d1)) of
                  (Inl e, d1) \<Rightarrow> if unreadable e then (Inr None, d1) else (Inl e, d1)
                | (Inr w, d1) \<Rightarrow> (Inr (Some w), d1))
      | Parsed w \<Rightarrow> (Inr (Some w), d))"

text \<open>A text stays itself in an f-string and under \<open>str()\<close>.\<close>

definition text_of :: "(json \<Rightarrow> string) \<Rightarrow> json \<Rightarrow> string" where
  "text_of fmt v = (case v of JStr s \<Rightarrow> s | _ \<Rightarrow> fmt v)"

definition content_result :: "(json \<Rightarrow> string) \<Rightarrow> json \<Rightarrow> json" where
  "content_result fmt v =
     (case v of
        JObj ps \<Rightarrow>
          (let page = or_default (map_of ps ''content'') (JStr []); url = or_default (map_of ps ''url'') (JStr []) in
           if jtruthy url then JStr (''Fetched from '' @ text_of fmt url @ '':'' @ [CHR 0x0A] @ text_of fmt page)
           else page)
      | JStr s \<Rightarrow> JStr s
      | _ \<Rightarrow> JStr (fmt v))"

text \<open>The log line takes \<open>len()\<close> of the result, which fails for numbers, after it is stored.\<close>

definition has_len :: "json \<Rightarrow> bool" where
  "has_len v = (case v of JStr _ \<Rightarrow> True | JList _ \<Rightarrow> True | JObj _ \<Rightarrow> True | _ \<Rightarrow> False)"

definition target_of_json :: "json \<Rightarrow> int option" where
  "target_of_json v = (case v of JInt i \<Rightarrow> Some i | _ \<Rightarrow> None)"

definition try_inject_fetched_content ::
    "(json \<Rightarrow> string) \<Rightarrow> crypto \<Rightarrow> (string \<Rightarrow> jtext) \<Rightarrow> time \<Rightarrow> (int \<times> int) list \<Rightarrow> int \<Rightarrow> db \<Rightarrow> bool act" where
  "try_inject_fetched_content fmt cr parse now ks r d =
     abind (read_state r ''_review_target'' JNull d) (\<lambda>tj d0.
       case target_of_json tj of
         None \<Rightarrow> (Inr False, d0)
       | Some t \<Rightarrow>
           (case state_cell t ''fetched_content'' d0 of
              None \<Rightarrow> (Inr False, d0)
            | Some v \<Rightarrow>
                abind (read_content cr parse now ks r t v d0) (\<lambda>c d1.
                  case c of
                    None \<Rightarrow> (Inr False, d1)
                  | Some w \<Rightarrow>
                      abind (stmt (set_arc_state now r ''_agent_response'' (content_result fmt w) d1) d1) (\<lambda>_ d2.
                        if has_len (content_result fmt w) then (Inr True, d2)
                        else (Inl (TypeError ''len''), d2)))))"

section \<open>Facts\<close>

lemma output_key_inj: "output_key a = Inr k \<Longrightarrow> output_key b = Inr k \<Longrightarrow> a = b"
  by (auto simp: output_key_def split: if_splits)

text \<open>The first element of a list sorted by two keys that satisfies a condition.\<close>

lemma find_sorted_two:
  fixes f g :: "'a \<Rightarrow> int"
  assumes "find P (sort_key f (sort_key g xs)) = Some b"
  shows "b \<in> set xs \<and> P b \<and> (\<forall>c \<in> set xs. P c \<longrightarrow> f b < f c \<or> f b = f c \<and> g b \<le> g c)"
proof -
  let ?L = "sort_key f (sort_key g xs)"
  obtain n where n: "n < length ?L" "b = ?L ! n" "P b" "\<forall>j < n. \<not> P (?L ! j)"
    using assms by (auto simp: find_Some_iff)
  have split: "?L = take n ?L @ b # drop (Suc n) ?L" using n(1,2) id_take_nth_drop by blast
  have pre: "\<not> P c" if "c \<in> set (take n ?L)" for c
    using that n(4) by (auto simp: in_set_conv_nth)
  have "f b < f c \<or> f b = f c \<and> g b \<le> g c" if c: "c \<in> set xs" "P c" for c
  proof -
    have "c \<in> set ?L" using c(1) by simp
    then have post: "c = b \<or> c \<in> set (drop (Suc n) ?L)" using pre c(2) split
      by (metis Un_iff set_ConsD set_append)
    have "sorted (map f (take n ?L @ b # drop (Suc n) ?L))" unfolding split [symmetric] by simp
    then have le: "f b \<le> f c" using post by (auto simp: sorted_append)
    show ?thesis
    proof (cases "f b = f c")
      case True
      let ?F = "\<lambda>ys. filter (\<lambda>y. f y = f b) ys"
      have "?F (take n ?L) @ b # ?F (drop (Suc n) ?L) = ?F ?L" by (subst (3) split) simp
      also have "\<dots> = ?F (sort_key g xs)" by (rule sort_key_stable)
      finally have "sorted (map g (?F (take n ?L) @ b # ?F (drop (Suc n) ?L)))"
        by (simp add: sorted_filter)
      then have "g b \<le> g c" using post True by (auto simp: sorted_append)
      then show ?thesis using True by simp
    qed (use le in simp)
  qed
  moreover have "b \<in> set xs" using n(1,2) nth_mem [of n ?L] by simp
  ultimately show ?thesis using n(3) by blast
qed

lemma by_template_Some:
  "by_template steps role as = Inr (Some b) \<Longrightarrow> \<exists>a \<in> set as. aid a = b \<and> \<not> has_role a"
  by (induction as) (auto simp: xbind_Inr split: if_splits option.splits)

lemma set_ordered_siblings: "set (ordered_siblings p i d) = {a \<in> set (arcs d). parent_id a = Some p \<and> aid a \<noteq> i}"
  by (auto simp: ordered_siblings_def)

lemma sibling_rest:
  assumes "xbind (by_template steps role L) (\<lambda>r. case r of Some b \<Rightarrow> Inr (Some b)
      | None \<Rightarrow> Inr (map_option aid (find (\<lambda>b. JStr (aname b) = role) L))) = Inr (Some b)"
  shows "\<exists>s \<in> set L. aid s = b"
proof -
  obtain r where r: "by_template steps role L = Inr r"
    "(case r of Some b \<Rightarrow> Inr (Some b)
      | None \<Rightarrow> Inr (map_option aid (find (\<lambda>b. JStr (aname b) = role) L))) = (Inr (Some b) :: exn + int option)"
    using assms by (auto simp: xbind_Inr)
  show ?thesis
  proof (cases r)
    case None
    then obtain s where "find (\<lambda>b. JStr (aname b) = role) L = Some s" "b = aid s" using r(2) by auto
    then show ?thesis by (metis find_Some_iff nth_mem)
  next
    case (Some c)
    then show ?thesis using r by (auto dest: by_template_Some)
  qed
qed

lemma log_trust_cell [simp]: "state_cell a k (snd (log_trust_event now x ty det d)) = state_cell a k d"
  by (rule cell_cong) simp

lemma log_trust_audit: "\<exists>e. audit (snd (log_trust_event now x ty det d)) = audit d @ [e] \<and> au_arc e = x \<and> au_type e = ty"
  by (simp add: log_trust_event_def Let_def)

text \<open>What was read of an encrypted cell was decrypted with the reviewer's own key.\<close>

lemma read_content_encrypted:
  assumes "read_content cr parse now ks r t (Parsed (JStr s)) d = (Inr (Some w), d')" "starts_with s encrypted_marker"
  shows "(t, r) \<in> set ks \<and> cr_available cr \<and>
    d' = snd (log_trust_event now (Some t) ''decryption_granted'' (Some [(''reviewer_arc_id'', JInt r)]) d)"
  using assms
  by (auto simp: read_content_def decrypt_for_reviewer_def abind_def split: if_splits option.splits sum.splits prod.splits)

section \<open>Properties\<close>

text \<open>Named outputs round-trip. What an arc stores under a name is what is read under that name
  until it is stored again; it touches no other name, no other arc, and no state outside the
  namespace of the outputs.\<close>

theorem output_roundtrip:
  assumes "set_arc_output now i nm v d = Inr d'"
  shows "get_arc_output i nm dv d' = Inr v \<and>
    (\<forall>j m. j \<noteq> i \<or> m \<noteq> nm \<longrightarrow> get_arc_output j m dv d' = get_arc_output j m dv d) \<and>
    (\<forall>j k. \<not> starts_with k ''output:'' \<longrightarrow> state_cell j k d' = state_cell j k d) \<and> arcs d' = arcs d"
proof -
  obtain k where k: "output_key nm = Inr k" "d' = put_state now i k (Parsed v) d"
    using assms by (auto simp: set_arc_output_def xbind_Inr set_arc_state_def split: if_splits)
  have "get_arc_output j m dv d' = get_arc_output j m dv d" if "j \<noteq> i \<or> m \<noteq> nm" for j m
  proof (cases "output_key m")
    case (Inr k')
    then have "j \<noteq> i \<or> k' \<noteq> k" using that output_key_inj [of m k nm] k(1) by auto
    then show ?thesis using Inr k(2) by (auto simp: get_arc_output_def get_arc_state_def tbl)
  qed (simp add: get_arc_output_def)
  moreover have "starts_with k ''output:''" using k(1) by (auto simp: output_key_def starts_with_def split: if_splits)
  ultimately show ?thesis
    using k by (auto simp: get_arc_output_def get_arc_state_def tbl)
qed

theorem output_roundtrip_witness:
  "\<exists>d'. set_arc_output 0 1 ''verdict'' (JStr ''ok'') (empty_db\<lparr> arcs := [blank_arc 1] \<rparr>) = Inr d' \<and>
     get_arc_output 1 ''verdict'' JNull d' = Inr (JStr ''ok'')"
proof -
  obtain d' where d: "set_arc_output 0 1 ''verdict'' (JStr ''ok'') (empty_db\<lparr> arcs := [blank_arc 1] \<rparr>) = Inr d'"
    by (simp add: set_arc_output_def output_key_def set_arc_state_def arc_exists_def)
  then show ?thesis using output_roundtrip [OF d] by blast
qed

text \<open>A sibling is found by its role. The arc that is found is another child of the same parent;
  if any sibling carries the role in its own row, the found one does too and is the earliest of
  them, by step order and then by id.\<close>

theorem sibling_by_role:
  assumes "find_sibling_arc_id steps i role d = Inr (Some b)" "find_arc i d = Some a"
  shows "\<exists>p s. parent_id a = Some p \<and> s \<in> set (arcs d) \<and> aid s = b \<and> parent_id s = Some p \<and> b \<noteq> i \<and>
    (\<forall>c \<in> set (arcs d). parent_id c = Some p \<and> aid c \<noteq> i \<and> has_role c \<and> JStr (the (step_role c)) = role \<longrightarrow>
       has_role s \<and> JStr (the (step_role s)) = role \<and>
       (step_order s < step_order c \<or> step_order s = step_order c \<and> aid s \<le> aid c))"
proof -
  obtain p where p: "parent_id a = Some p"
    using assms by (auto simp: find_sibling_arc_id_def split: if_splits option.splits)
  let ?L = "ordered_siblings p i d" and ?P = "\<lambda>b. has_role b \<and> JStr (the (step_role b)) = role"
  show ?thesis
  proof (cases "find ?P ?L")
    case (Some s)
    then have "b = aid s" using assms p by (auto simp: find_sibling_arc_id_def split: if_splits)
    then show ?thesis
      using find_sorted_two [OF Some [unfolded ordered_siblings_def]] p by (intro exI [of _ p] exI [of _ s]) auto
  next
    case None
    then have "(\<exists>s \<in> set ?L. aid s = b)"
      using assms p by (intro sibling_rest [of steps role ?L b]) (simp add: find_sibling_arc_id_def Let_def split: if_splits)
    then obtain s where "s \<in> set ?L" "aid s = b" by blast
    then show ?thesis using None p by (auto simp: find_None_iff set_ordered_siblings)
  qed
qed

definition demo_siblings :: db where
  "demo_siblings = empty_db\<lparr> arcs :=
     [blank_arc 1, (blank_arc 2)\<lparr> parent_id := Some 1, step_role := Some ''fetch'', step_order := 1 \<rparr>,
      (blank_arc 3)\<lparr> parent_id := Some 1, step_role := Some ''fetch'', step_order := 0 \<rparr>,
      (blank_arc 4)\<lparr> parent_id := Some 1, step_order := 2 \<rparr>] \<rparr>"

theorem sibling_by_role_witness:
  "find_sibling_arc_id (\<lambda>_. None) 4 (JStr ''fetch'') demo_siblings = Inr (Some 3) \<and>
     (\<exists>s. s \<in> set (arcs demo_siblings) \<and> aid s = 3 \<and> parent_id s = Some 1)"
proof -
  have f: "find_sibling_arc_id (\<lambda>_. None) 4 (JStr ''fetch'') demo_siblings = Inr (Some 3)"
    "find_arc 4 demo_siblings = Some ((blank_arc 4)\<lparr> parent_id := Some 1, step_order := 2 \<rparr>)"
    by (simp_all add: find_sibling_arc_id_def demo_siblings_def ordered_siblings_def has_role_def truthy_str_def)
  show ?thesis using sibling_by_role [OF f] f(1) by auto
qed

text \<open>C16: Fetched content reaches only its reviewer. When a reviewer takes over content that its
  target stored encrypted, the reviewer holds a key for that target, the decryption is on record,
  and only the reviewer's own response cell changes.\<close>

theorem inject_needs_key:
  assumes "try_inject_fetched_content fmt cr parse now ks r d = (Inr True, d')"
    and "state_cell r ''_review_target'' d = Some (Parsed (JInt t))"
    and "state_cell t ''fetched_content'' d = Some (Parsed (JStr s))" "starts_with s encrypted_marker"
  shows "(t, r) \<in> set ks \<and>
    (\<exists>e. audit d' = audit d @ [e] \<and> au_arc e = Some t \<and> au_type e = ''decryption_granted'') \<and>
    (\<forall>a k. a \<noteq> r \<or> k \<noteq> ''_agent_response'' \<longrightarrow> state_cell a k d' = state_cell a k d) \<and> arcs d' = arcs d"
proof -
  obtain w d1 d2 where w: "read_content cr parse now ks r t (Parsed (JStr s)) d = (Inr (Some w), d1)"
    "set_arc_state now r ''_agent_response'' (content_result fmt w) d1 = Inr d2" "d' = d2"
    using assms(1-3)
    by (auto simp: try_inject_fetched_content_def read_state_def get_arc_state_def target_of_json_def abind_Inr
      stmt_Inr split: option.splits if_splits)
  have d2: "d2 = put_state now r ''_agent_response'' (Parsed (content_result fmt w)) d1"
    using w(2) by (simp add: set_arc_state_def split: if_splits)
  have k: "(t, r) \<in> set ks"
    "d1 = snd (log_trust_event now (Some t) ''decryption_granted'' (Some [(''reviewer_arc_id'', JInt r)]) d)"
    using read_content_encrypted [OF w(1) assms(4)] by simp_all
  have aud: "audit d2 = audit d1" and rows: "arcs d2 = arcs d" using d2 k(2) by (simp_all add: tbl)
  obtain e where e: "audit d1 = audit d @ [e]" "au_arc e = Some t" "au_type e = ''decryption_granted''"
    using log_trust_audit k(2) by blast
  have cells: "\<forall>a k. a \<noteq> r \<or> k \<noteq> ''_agent_response'' \<longrightarrow> state_cell a k d2 = state_cell a k d"
    using d2 k(2) by (auto simp: tbl)
  have "\<exists>e. audit d2 = audit d @ [e] \<and> au_arc e = Some t \<and> au_type e = ''decryption_granted''"
    using e aud by simp
  then show ?thesis unfolding w(3) using k(1) cells rows by simp
qed

text \<open>A page stored encrypted by arc 1, whose reviewer is arc 2.\<close>

definition demo_fetched :: db where
  "demo_fetched = empty_db\<lparr> arcs := [blank_arc 1, (blank_arc 2)\<lparr> aagent := REVIEWER \<rparr>],
     state := [\<lparr> sid = 1, s_arc = 2, s_key = ''_review_target'', s_value = Parsed (JInt 1), s_updated_at = 0 \<rparr>,
       \<lparr> sid = 2, s_arc = 1, s_key = ''fetched_content'', s_value = Parsed (JStr (encrypted_marker @ ''c'')), s_updated_at = 0 \<rparr>] \<rparr>"

definition demo_crypto :: crypto where
  "demo_crypto = \<lparr> cr_available = True, cr_fernet = (\<lambda>_ _ _. Inr ''page'') \<rparr>"

lemma demo_fetched_injected:
  "case try_inject_fetched_content (\<lambda>_. []) demo_crypto (\<lambda>s. Parsed (JStr s)) 7 [(1, 2)] 2 demo_fetched of
     (Inr b, _) \<Rightarrow> b | (Inl _, _) \<Rightarrow> False"
  by code_simp

theorem inject_needs_key_witness:
  "\<exists>d'. try_inject_fetched_content (\<lambda>_. []) demo_crypto (\<lambda>s. Parsed (JStr s)) 7 [(1, 2)] 2 demo_fetched = (Inr True, d') \<and>
     (\<exists>e. audit d' = [e] \<and> au_type e = ''decryption_granted'') \<and> arcs d' = arcs demo_fetched"
proof -
  obtain d' where d': "try_inject_fetched_content (\<lambda>_. []) demo_crypto (\<lambda>s. Parsed (JStr s)) 7 [(1, 2)] 2 demo_fetched = (Inr True, d')"
    using demo_fetched_injected by (auto split: prod.splits sum.splits)
  have h: "state_cell 2 ''_review_target'' demo_fetched = Some (Parsed (JInt 1))"
    "state_cell 1 ''fetched_content'' demo_fetched = Some (Parsed (JStr (encrypted_marker @ ''c'')))"
    "starts_with (encrypted_marker @ ''c'') encrypted_marker" "audit demo_fetched = []"
    by (simp_all add: demo_fetched_def state_cell_def empty_db_def starts_with_def encrypted_marker_def)
  then show ?thesis using inject_needs_key [OF d' h(1,2,3)] d' by fastforce
qed

end
