(* ===== verification/Arc_Batch.thy ===== *)
theory Arc_Batch
  imports Verification
begin

text \<open>
  The arc tools of the executors (\<open>tool_backends/arc.py\<close>): the batch that creates non-trusted
  arcs together with their reviewers, read grants, and the ad-hoc review of a coding change.

  A batch is one transaction: what it writes is kept in an \<open>exn + db\<close> and thrown away on an
  error. The pairs of the table \<open>review_keys\<close> (target, reviewer) are the second component of the
  state; the key itself is not modelled. \<open>batch_env\<close> holds the names of \<open>agent_roles\<close>, whether
  the library \<open>cryptography\<close> is there and whether encryption is enforced.
\<close>

section \<open>Batches\<close>

record spec =
  bs_name :: string
  bs_goal :: "string option"
  bs_parent :: "int option"
  bs_integrity :: string
  bs_output :: string
  bs_agent :: string
  bs_order :: "int option"
  bs_profile :: "string option"
  bs_role :: "string option"
  bs_policy :: "int option"
  bs_policy_name :: "string option"
  bs_code :: "json option"

record batch_env =
  be_roles :: "string list"
  be_crypto :: bool
  be_enforce :: bool

datatype batch_result = BatchError string | BatchIds "int list" bool

definition is_reviewer :: "spec \<Rightarrow> bool" where
  "is_reviewer s = (bs_agent s = ''REVIEWER'' \<or> bs_agent s = ''JUDGE'')"

text \<open>\<open>is_non_trusted\<close> of a text raises for an unknown level.\<close>

definition spec_tainted :: "spec \<Rightarrow> exn + bool" where
  "spec_tainted s = xbind (integrity_of (bs_integrity s)) (\<lambda>l. Inr (is_non_trusted l))"

definition role_name :: "spec \<Rightarrow> string option" where
  "role_name s = (if truthy_str (bs_profile s) then bs_profile s else bs_role s)"

fun check_roles :: "string list \<Rightarrow> spec list \<Rightarrow> string option" where
  "check_roles roles [] = None"
| "check_roles roles (s # ss) =
     (if is_reviewer s \<and> \<not> truthy_str (role_name s) then Some ''missing agent_role''
      else if is_reviewer s \<and> the (role_name s) \<notin> set roles then Some ''Unknown agent_role''
      else check_roles roles ss)"

fun assign_orders :: "int \<Rightarrow> spec list \<Rightarrow> spec list" where
  "assign_orders n [] = []"
| "assign_orders n (s # ss) =
     (case bs_order s of
        None \<Rightarrow> s\<lparr> bs_order := Some n \<rparr> # assign_orders (n + 1) ss
      | Some k \<Rightarrow> s # assign_orders n ss)"

text \<open>With one judge, every reviewer that is not the judge comes before it.\<close>

definition judge_last :: "spec list \<Rightarrow> bool" where
  "judge_last ss =
     (case filter (\<lambda>s. bs_agent s = ''JUDGE'') ss of
        [] \<Rightarrow> True
      | j # _ \<Rightarrow> list_all (\<lambda>s. bs_agent s = ''REVIEWER'' \<longrightarrow> the (bs_order s) < the (bs_order j)) ss)"

definition batch_row ::
    "time \<Rightarrow> int option \<Rightarrow> spec \<Rightarrow> integrity_level \<Rightarrow> output_type \<Rightarrow> agent_type \<Rightarrow> int option \<Rightarrow> int option \<Rightarrow>
     db \<Rightarrow> arc" where
  "batch_row now parent s il ot ag pol code d =
     (let par = (case parent of Some p \<Rightarrow> find_arc p d | None \<Rightarrow> None) in
      (blank_arc (next_rowid aid (arcs d)))\<lparr> aname := bs_name s, goal := bs_goal s, parent_id := parent,
        step_order := the (bs_order s),
        depth := (case par of Some p \<Rightarrow> depth p + 1 | None \<Rightarrow> 0),
        ainteg := il, aoutput := ot, aagent := ag, model_policy_id := pol, code_file_id := code,
        origin_kind := (case par of Some p \<Rightarrow> origin_kind p | None \<Rightarrow> None),
        origin_ref := (case par of Some p \<Rightarrow> origin_ref p | None \<Rightarrow> None),
        acreated_at := cur_ts now, aupdated_at := Some now \<rparr>)"

definition batch_policy :: "spec \<Rightarrow> db \<Rightarrow> int option" where
  "batch_policy s d =
     (case bs_policy s of
        Some p \<Rightarrow> Some p
      | None \<Rightarrow> if truthy_str (bs_policy_name s) then get_policy_id_by_name (the (bs_policy_name s)) d else None)"

definition batch_code :: "spec \<Rightarrow> exn + int option" where
  "batch_code s = (case bs_code s of None \<Rightarrow> Inr None | Some JNull \<Rightarrow> Inr None
     | Some v \<Rightarrow> xbind (py_int v) (\<lambda>i. Inr (Some i)))"

text \<open>One arc of the batch inside the transaction.\<close>

definition insert_spec :: "time \<Rightarrow> int option \<Rightarrow> spec \<Rightarrow> db \<Rightarrow> exn + (int \<times> db)" where
  "insert_spec now parent s d =
     xbind (integrity_of (bs_integrity s)) (\<lambda>il.
     xbind (validate_output_type (bs_output s)) (\<lambda>ot.
     xbind (validate_agent_type (bs_agent s)) (\<lambda>ag.
     xbind (batch_code s) (\<lambda>code.
       if \<not> fk_arc parent d \<or> (case code of None \<Rightarrow> False | Some c \<Rightarrow> c \<notin> fst ` set (code_files d))
       then Inl (IntegrityError ''FOREIGN KEY'')
       else
         let a = batch_row now parent s il ot ag (batch_policy s d) code d;
             d1 = log_history now (aid a) ''created''
               (JObj [(''name'', JStr (bs_name s)), (''goal'', str_json (bs_goal s))]) None (Some ''system'')
               (d\<lparr> arcs := arcs d @ [a] \<rparr>)
         in if truthy_str (bs_profile s)
            then xbind (insert_state now (aid a) ''_reviewer_profile'' (Parsed (JStr (the (bs_profile s)))) d1)
                   (\<lambda>d2. Inr (aid a, d2))
            else Inr (aid a, d1)))))"

fun insert_specs :: "time \<Rightarrow> int option \<Rightarrow> spec list \<Rightarrow> db \<Rightarrow> exn + (int list \<times> db)" where
  "insert_specs now parent [] d = Inr ([], d)"
| "insert_specs now parent (s # ss) d =
     xbind (insert_spec now parent s d) (\<lambda>(i, d1).
     xbind (insert_specs now parent ss d1) (\<lambda>(is, d2). Inr (i # is, d2)))"

text \<open>\<open>_review_target\<close> of every reviewer, with a plain \<open>INSERT\<close>.\<close>

fun link_reviewers :: "time \<Rightarrow> int \<Rightarrow> int list \<Rightarrow> db \<Rightarrow> exn + db" where
  "link_reviewers now t [] d = Inr d"
| "link_reviewers now t (r # rs) d =
     xbind (insert_state now r ''_review_target'' (Parsed (JInt t)) d) (link_reviewers now t rs)"

definition key_events :: "batch_env \<Rightarrow> int list \<Rightarrow> int \<Rightarrow> (int \<times> string \<times> jdict) list" where
  "key_events be rs t =
     (if be_crypto be
      then [(t, ''encryption_key_created'', [(''reviewer_count'', JInt (int (length rs)))])]
      else [(t, ''encryption_unavailable'', [(''reason'', JStr ''cryptography_library_missing''),
             (''reviewer_count'', JInt (int (length rs)))])])"

fun link_tainted ::
    "batch_env \<Rightarrow> time \<Rightarrow> int list \<Rightarrow> int list \<Rightarrow> db \<Rightarrow> (int \<times> int) list \<Rightarrow>
     exn + (db \<times> (int \<times> int) list \<times> (int \<times> string \<times> jdict) list)" where
  "link_tainted be now rs [] d ks = Inr (d, ks, [])"
| "link_tainted be now rs (t # ts) d ks =
     (if rs \<noteq> [] \<and> \<not> be_crypto be \<and> be_enforce be then Inl (RuntimeError ''cryptography is not available'')
      else
        let ks1 = (if be_crypto be then filter (\<lambda>k. k \<notin> set (map (Pair t) rs)) ks @ map (Pair t) rs else ks);
            ev1 = (if rs = [] then [] else key_events be rs t)
        in xbind (link_reviewers now t rs d) (\<lambda>d1.
           xbind (link_tainted be now rs ts d1 ks1) (\<lambda>(d2, ks2, es). Inr (d2, ks2, ev1 @ es))))"

text \<open>The ids of the specs that satisfy a condition.\<close>

definition ids_where :: "(spec \<Rightarrow> bool) \<Rightarrow> spec list \<Rightarrow> int list \<Rightarrow> int list" where
  "ids_where P ss is = map snd (filter (\<lambda>(s, i). P s) (zip ss is))"

definition batch_transaction ::
    "batch_env \<Rightarrow> time \<Rightarrow> int option \<Rightarrow> spec list \<Rightarrow> db \<Rightarrow> (int \<times> int) list \<Rightarrow>
     exn + (int list \<times> db \<times> (int \<times> int) list \<times> (int \<times> string \<times> jdict) list)" where
  "batch_transaction be now parent ss d ks =
     xbind (insert_specs now parent ss d) (\<lambda>(is, d1).
     xbind (link_tainted be now (ids_where is_reviewer ss is)
              (ids_where (\<lambda>s. spec_tainted s = Inr True) ss is) d1 ks) (\<lambda>(d2, ks2, es).
       Inr (is, d2, ks2, es)))"

definition batch_hint :: "int option \<Rightarrow> spec list \<Rightarrow> db \<Rightarrow> bool" where
  "batch_hint parent ss d =
     (case parent of
        None \<Rightarrow> False
      | Some p \<Rightarrow>
          (case get_arc p d of
             None \<Rightarrow> False
           | Some a \<Rightarrow> aagent a \<noteq> PLANNER \<and> 2 \<le> length (filter (\<lambda>s. \<not> is_reviewer s) ss)))"

definition log_events :: "time \<Rightarrow> (int \<times> string \<times> jdict) list \<Rightarrow> db \<Rightarrow> db" where
  "log_events now es d = fold (\<lambda>(t, ty, det) e. snd (log_trust_event now (Some t) ty (Some det) e)) es d"

definition handle_create_batch ::
    "batch_env \<Rightarrow> time \<Rightarrow> spec list \<Rightarrow> db \<Rightarrow> (int \<times> int) list \<Rightarrow>
     (exn + batch_result) \<times> db \<times> (int \<times> int) list" where
  "handle_create_batch be now ss d ks =
     (if ss = [] then (Inr (BatchError ''No arcs provided''), d, ks)
      else if \<not> list_all (\<lambda>s. bs_parent s = bs_parent (hd ss)) ss
      then (Inr (BatchError ''All arcs must have the same parent_id''), d, ks)
      else case check_roles (be_roles be) ss of
        Some e \<Rightarrow> (Inr (BatchError e), d, ks)
      | None \<Rightarrow>
          (case map_x spec_tainted ss of
             Inl e \<Rightarrow> (Inl e, d, ks)
           | Inr taints \<Rightarrow>
               if list_ex id taints \<and> \<not> list_ex is_reviewer ss
               then (Inr (BatchError ''Untrusted arcs require at least one REVIEWER or JUDGE arc''), d, ks)
               else if 1 < length (filter (\<lambda>s. bs_agent s = ''JUDGE'') ss)
               then (Inr (BatchError ''Maximum one JUDGE arc allowed per batch''), d, ks)
               else
                 let parent = bs_parent (hd ss);
                     ss' = assign_orders (case parent of Some p \<Rightarrow> max_step_order (arcs d) p + 1 | None \<Rightarrow> 0) ss
                 in if \<not> judge_last ss'
                    then (Inr (BatchError ''JUDGE must have highest step_order''), d, ks)
                    else (case batch_transaction be now parent ss' d ks of
                            Inl e \<Rightarrow> (Inr (BatchError ''batch failed''), d, ks)
                          | Inr (is, d1, ks1, es) \<Rightarrow>
                              let d2 = log_events now es d1
                              in (Inr (BatchIds is (batch_hint parent ss' d2)), d2, ks1))))"

section \<open>Grants\<close>

text \<open>The walk of \<open>api/callbacks.py\<close>; \<open>n\<close> is \<open>arc_parent_chain_max_depth\<close>.\<close>

fun is_descendant_of :: "nat \<Rightarrow> int \<Rightarrow> int \<Rightarrow> db \<Rightarrow> bool" where
  "is_descendant_of 0 i anc d = False"
| "is_descendant_of (Suc n) i anc d =
     (case find_arc i d of
        None \<Rightarrow> False
      | Some a \<Rightarrow> (case parent_id a of None \<Rightarrow> False | Some p \<Rightarrow> p = anc \<or> is_descendant_of n p anc d))"

definition visible_to :: "nat \<Rightarrow> int \<Rightarrow> int \<Rightarrow> db \<Rightarrow> bool" where
  "visible_to n caller i d = (i = caller \<or> is_descendant_of n i caller d \<or> has_read_grant caller i d)"

datatype grant_result = GrantError string | Granted int

definition handle_grant_read_access ::
    "nat \<Rightarrow> time \<Rightarrow> int option \<Rightarrow> int \<Rightarrow> int \<Rightarrow> string \<Rightarrow> db \<Rightarrow> (exn + grant_result) \<times> db" where
  "handle_grant_read_access n now caller reader target dp d =
     (if (case caller of None \<Rightarrow> False | Some c \<Rightarrow> \<not> visible_to n c reader d \<or> \<not> visible_to n c target d)
      then (Inr (GrantError ''not visible to caller''), d)
      else case grant_read_access now reader target dp (Some ''Granted via tool call'')
             (Some (case caller of Some c \<Rightarrow> ''parent:'' @ show_int c | None \<Rightarrow> ''tool'')) d of
          Inr (g, d') \<Rightarrow> (Inr (Granted g), d')
        | Inl (ValueError e) \<Rightarrow> (Inr (GrantError e), d)
        | Inl e \<Rightarrow> (Inl e, d))"

section \<open>Facts\<close>

definition row_of_spec :: "int option \<Rightarrow> spec \<Rightarrow> arc \<Rightarrow> bool" where
  "row_of_spec parent s b =
     (integrity_of (bs_integrity s) = Inr (ainteg b) \<and> bs_agent s = agent_value (aagent b) \<and>
      step_order b = the (bs_order s) \<and> parent_id b = parent \<and> astatus b = Pending)"

lemma batch_row_sel [simp]:
  "aid (batch_row now p s il ot ag pol c d) = next_rowid aid (arcs d)"
  "ainteg (batch_row now p s il ot ag pol c d) = il" "aagent (batch_row now p s il ot ag pol c d) = ag"
  "step_order (batch_row now p s il ot ag pol c d) = the (bs_order s)"
  "parent_id (batch_row now p s il ot ag pol c d) = p" "astatus (batch_row now p s il ot ag pol c d) = Pending"
  by (simp_all add: batch_row_def Let_def)

lemma state_cell_log: "state_cell x k (log_history now j ty c cf ac (d\<lparr> arcs := as \<rparr>)) = state_cell x k d"
  by (rule cell_cong) simp

lemma insert_spec_row:
  assumes "insert_spec now parent s d = Inr (i, d')"
  shows "\<exists>b. arcs d' = arcs d @ [b] \<and> aid b = i \<and> i = next_rowid aid (arcs d) \<and> row_of_spec parent s b \<and>
    (\<forall>a k. k \<noteq> ''_reviewer_profile'' \<longrightarrow> state_cell a k d' = state_cell a k d)"
proof -
  obtain il ot ag code where v: "integrity_of (bs_integrity s) = Inr il" "validate_agent_type (bs_agent s) = Inr ag"
    and u: "(let a = batch_row now parent s il ot ag (batch_policy s d) code d;
             d1 = log_history now (aid a) ''created''
               (JObj [(''name'', JStr (bs_name s)), (''goal'', str_json (bs_goal s))]) None (Some ''system'')
               (d\<lparr> arcs := arcs d @ [a] \<rparr>)
         in if truthy_str (bs_profile s)
            then xbind (insert_state now (aid a) ''_reviewer_profile'' (Parsed (JStr (the (bs_profile s)))) d1)
                   (\<lambda>d2. Inr (aid a, d2))
            else Inr (aid a, d1)) = Inr (i, d')"
    using assms unfolding insert_spec_def xbind_Inr by (auto split: if_splits)
  let ?a = "batch_row now parent s il ot ag (batch_policy s d) code d"
  let ?d1 = "log_history now (aid ?a) ''created''
     (JObj [(''name'', JStr (bs_name s)), (''goal'', str_json (bs_goal s))]) None (Some ''system'')
     (d\<lparr> arcs := arcs d @ [?a] \<rparr>)"
  have "d' = ?d1 \<or> (\<exists>v. d' = put_state now (aid ?a) ''_reviewer_profile'' v ?d1)"
    using u by (auto simp: Let_def xbind_Inr dest!: insert_state_frame split: if_splits)
  moreover have "i = aid ?a" using u by (auto simp: Let_def xbind_Inr split: if_splits)
  ultimately show ?thesis
    using v by (intro exI [of _ ?a]) (auto simp: row_of_spec_def validate_agent_type_Inr state_cell_log tbl)
qed

lemma insert_specs_rows:
  "insert_specs now parent ss d = Inr (is, d') \<Longrightarrow>
     \<exists>bs. arcs d' = arcs d @ bs \<and> map aid bs = is \<and> list_all2 (row_of_spec parent) ss bs \<and>
       distinct is \<and> (\<forall>i \<in> set is. next_rowid aid (arcs d) \<le> i) \<and>
       (\<forall>a k. k \<noteq> ''_reviewer_profile'' \<longrightarrow> state_cell a k d' = state_cell a k d)"
proof (induction ss arbitrary: d "is")
  case Nil
  then show ?case by auto
next
  case (Cons s ss)
  then obtain i d1 js where i: "insert_spec now parent s d = Inr (i, d1)" "insert_specs now parent ss d1 = Inr (js, d')"
    "is = i # js" by (auto simp: xbind_Inr)
  obtain b where b: "arcs d1 = arcs d @ [b]" "aid b = i" "i = next_rowid aid (arcs d)" "row_of_spec parent s b"
    "\<forall>a k. k \<noteq> ''_reviewer_profile'' \<longrightarrow> state_cell a k d1 = state_cell a k d"
    using insert_spec_row [OF i(1)] by blast
  obtain bs where bs: "arcs d' = arcs d1 @ bs" "map aid bs = js" "list_all2 (row_of_spec parent) ss bs" "distinct js"
    "\<forall>j \<in> set js. next_rowid aid (arcs d1) \<le> j"
    "\<forall>a k. k \<noteq> ''_reviewer_profile'' \<longrightarrow> state_cell a k d' = state_cell a k d1"
    using Cons.IH [OF i(2)] by blast
  have "next_rowid aid (arcs d1) = max (i + 1) (next_rowid aid (arcs d))" by (simp add: b(1,2) next_rowid_append)
  then have "\<forall>j \<in> set js. i < j \<and> next_rowid aid (arcs d) \<le> j" using bs(5) by auto
  then show ?case
    using b bs i(3) by (intro exI [of _ "b # bs"]) auto
qed

lemma link_reviewers_cells:
  "link_reviewers now t rs d = Inr d' \<Longrightarrow>
     arcs d' = arcs d \<and> (\<forall>r \<in> set rs. state_cell r ''_review_target'' d = None \<and>
       state_cell r ''_review_target'' d' = Some (Parsed (JInt t))) \<and>
     (\<forall>a k. a \<notin> set rs \<or> k \<noteq> ''_review_target'' \<longrightarrow> state_cell a k d' = state_cell a k d)"
proof (induction rs arbitrary: d)
  case (Cons r rs)
  then obtain d1 where d1: "insert_state now r ''_review_target'' (Parsed (JInt t)) d = Inr d1" "link_reviewers now t rs d1 = Inr d'"
    by (auto simp: xbind_Inr)
  have p: "d1 = put_state now r ''_review_target'' (Parsed (JInt t)) d" "state_cell r ''_review_target'' d = None"
    using insert_state_frame [OF d1(1)] by simp_all
  note ih = Cons.IH [OF d1(2)]
  have "r \<notin> set rs" using ih p(1) by (auto simp: tbl)
  then show ?case using ih p by (auto simp: tbl) (metis option.distinct(1))
qed simp

text \<open>With a reviewer at hand a second tainted arc cannot be linked.\<close>

lemma link_tainted_one:
  assumes "link_tainted be now rs ts d ks = Inr (d', ks', es)" "rs \<noteq> []"
  shows "arcs d' = arcs d \<and> (ts = [] \<or> (\<exists>t. ts = [t] \<and>
    (\<forall>r \<in> set rs. state_cell r ''_review_target'' d' = Some (Parsed (JInt t)) \<and> (be_crypto be \<longrightarrow> (t, r) \<in> set ks'))))"
proof (cases ts)
  case Nil
  then show ?thesis using assms(1) by simp
next
  case (Cons t us)
  obtain d1 ks1 e2 where l: "link_reviewers now t rs d = Inr d1"
    "link_tainted be now rs us d1 ks1 = Inr (d', ks', e2)" "be_crypto be \<longrightarrow> (\<forall>r \<in> set rs. (t, r) \<in> set ks1)"
    using assms(1) unfolding Cons by (auto simp: Let_def xbind_Inr split: if_splits)
  note c = link_reviewers_cells [OF l(1)]
  have "us = []"
  proof (rule ccontr)
    assume "us \<noteq> []"
    then obtain u vs where "us = u # vs" by (cases us) auto
    then obtain d2 where "link_reviewers now u rs d1 = Inr d2"
      using l(2) by (auto simp: Let_def xbind_Inr split: if_splits)
    from link_reviewers_cells [OF this] c assms(2) show False by (cases rs) auto
  qed
  then show ?thesis using Cons l c by auto
qed

lemma assign_orders_same:
  "length (assign_orders n ss) = length ss"
  "map bs_integrity (assign_orders n ss) = map bs_integrity ss"
  "map bs_agent (assign_orders n ss) = map bs_agent ss"
  by (induction n ss rule: assign_orders.induct) (auto split: option.splits)

lemma ids_where_rows:
  "list_all2 R ss bs \<Longrightarrow> (\<And>s b. R s b \<Longrightarrow> P s = Q b) \<Longrightarrow>
     ids_where P ss (map aid bs) = map aid (filter Q bs) \<and> length (filter P ss) = length (filter Q bs)"
  by (induction rule: list_all2_induct) (auto simp: ids_where_def)

lemma row_spec: "list_all2 R ss bs \<Longrightarrow> b \<in> set bs \<Longrightarrow> \<exists>s \<in> set ss. R s b"
  by (induction rule: list_all2_induct) auto

lemma row_spec': "list_all2 R ss bs \<Longrightarrow> s \<in> set ss \<Longrightarrow> \<exists>b \<in> set bs. R s b"
  by (induction rule: list_all2_induct) auto

definition reviews :: "arc \<Rightarrow> bool" where
  "reviews b = (aagent b = REVIEWER \<or> aagent b = JUDGE)"

lemma spec_reviewer: "row_of_spec p s b \<Longrightarrow> is_reviewer s = reviews b"
  by (cases "aagent b") (auto simp: row_of_spec_def is_reviewer_def reviews_def)

lemma spec_judge: "row_of_spec p s b \<Longrightarrow> (bs_agent s = ''JUDGE'') = (aagent b = JUDGE)"
  by (cases "aagent b") (auto simp: row_of_spec_def)

lemma spec_taint: "row_of_spec p s b \<Longrightarrow> (spec_tainted s = Inr True) = (ainteg b \<noteq> TRUSTED)"
  by (auto simp: row_of_spec_def spec_tainted_def is_non_trusted_def)

lemma log_events_frame [simp]: "arcs (log_events now es d) = arcs d" "state (log_events now es d) = state d"
proof -
  have "arcs (log_events now es d) = arcs d \<and> state (log_events now es d) = state d"
    by (induction es arbitrary: d) (auto simp: log_events_def)
  then show "arcs (log_events now es d) = arcs d" "state (log_events now es d) = state d" by simp_all
qed

lemma map_x_member: "map_x f xs = Inr ys \<Longrightarrow> x \<in> set xs \<Longrightarrow> \<exists>y \<in> set ys. f x = Inr y"
  by (induction xs arbitrary: ys) (auto simp: xbind_Inr)

text \<open>What a successful batch went through.\<close>

lemma batch_success:
  assumes "handle_create_batch be now ss d ks = (Inr (BatchIds is h), d', ks')"
  obtains n d1 d2 es where
    "insert_specs now (bs_parent (hd ss)) (assign_orders n ss) d = Inr (is, d1)"
    "link_tainted be now (ids_where is_reviewer (assign_orders n ss) is)
       (ids_where (\<lambda>s. spec_tainted s = Inr True) (assign_orders n ss) is) d1 ks = Inr (d2, ks', es)"
    "d' = log_events now es d2" "judge_last (assign_orders n ss)"
    "(\<exists>s \<in> set ss. spec_tainted s = Inr True) \<longrightarrow> (\<exists>s \<in> set ss. is_reviewer s)"
    "length (filter (\<lambda>s. bs_agent s = ''JUDGE'') ss) \<le> 1"
proof -
  let ?n = "case bs_parent (hd ss) of Some p \<Rightarrow> max_step_order (arcs d) p + 1 | None \<Rightarrow> 0"
  obtain taints where t: "map_x spec_tainted ss = Inr taints"
    using assms by (auto simp: handle_create_batch_def split: if_splits option.splits sum.splits)
  have g: "\<not> (list_ex id taints \<and> \<not> list_ex is_reviewer ss)" "length (filter (\<lambda>s. bs_agent s = ''JUDGE'') ss) \<le> 1"
    "judge_last (assign_orders ?n ss)"
    using assms t by (auto simp: handle_create_batch_def Let_def split: if_splits option.splits sum.splits)
  obtain d1 es where b: "batch_transaction be now (bs_parent (hd ss)) (assign_orders ?n ss) d ks = Inr (is, d1, ks', es)"
    "d' = log_events now es d1"
    using assms t by (auto simp: handle_create_batch_def Let_def split: if_splits option.splits sum.splits prod.splits)
  have "\<exists>s \<in> set ss. is_reviewer s" if "s \<in> set ss" "spec_tainted s = Inr True" for s
    using g(1) map_x_member [OF t that(1)] that(2) by (auto simp: list_ex_iff)
  moreover obtain d0 where "insert_specs now (bs_parent (hd ss)) (assign_orders ?n ss) d = Inr (is, d0)"
    "link_tainted be now (ids_where is_reviewer (assign_orders ?n ss) is)
       (ids_where (\<lambda>s. spec_tainted s = Inr True) (assign_orders ?n ss) is) d0 ks = Inr (d1, ks', es)"
    using b(1) by (auto simp: batch_transaction_def xbind_Inr)
  ultimately show ?thesis using that g b(2) by blast
qed

lemma assign_orders_taint: "map spec_tainted (assign_orders n ss) = map spec_tainted ss"
  "map is_reviewer (assign_orders n ss) = map is_reviewer ss"
  "map (\<lambda>s. bs_agent s = ''JUDGE'') (assign_orders n ss) = map (\<lambda>s. bs_agent s = ''JUDGE'') ss"
  by (induction n ss rule: assign_orders.induct) (auto simp: spec_tainted_def is_reviewer_def split: option.splits)

lemma assign_orders_judges: "length (filter (\<lambda>s. bs_agent s = ''JUDGE'') (assign_orders n ss)) =
    length (filter (\<lambda>s. bs_agent s = ''JUDGE'') ss)"
  by (induction n ss rule: assign_orders.induct) (auto split: option.splits)

lemma link_tainted_arcs: "link_tainted be now rs ts d ks = Inr (d', ks', es) \<Longrightarrow> arcs d' = arcs d"
  by (induction ts arbitrary: d ks es)
    (fastforce simp: Let_def xbind_Inr dest: link_reviewers_cells split: if_splits)+

lemma insert_specs_length: "insert_specs now p ss d = Inr (is, d') \<Longrightarrow> length is = length ss"
  by (induction ss arbitrary: d "is") (auto simp: xbind_Inr)

lemma ids_where_length: "length is = length ss \<Longrightarrow> length (ids_where P ss is) = length (filter P ss)"
  by (induction "is" ss rule: list_induct2) (auto simp: ids_where_def)

lemma filter_two:
  assumes "i < j" "j < length xs" "P (xs ! i)" "P (xs ! j)"
  shows "2 \<le> length (filter P xs)"
proof -
  have "card {i, j} \<le> card {k. k < length xs \<and> P (xs ! k)}" using assms by (intro card_mono) auto
  then show ?thesis using assms(1) by (simp add: length_filter_conv_card)
qed

text \<open>The condition on reviewers, carried over from the specs to their rows.\<close>

lemma tainted_reviewed:
  assumes "list_all2 (row_of_spec p) (assign_orders n ss) bs"
    and "(\<exists>s \<in> set ss. spec_tainted s = Inr True) \<longrightarrow> (\<exists>s \<in> set ss. is_reviewer s)"
    and "\<exists>t \<in> set bs. ainteg t \<noteq> TRUSTED"
  shows "\<exists>r \<in> set bs. reviews r"
proof -
  obtain s where "s \<in> set (assign_orders n ss)" "spec_tainted s = Inr True"
    using row_spec [OF assms(1)] spec_taint assms(3) by blast
  then have "Inr True \<in> set (map spec_tainted ss)"
    unfolding assign_orders_taint(1) [of n ss, symmetric] by force
  then obtain s' where "s' \<in> set ss" "is_reviewer s'" using assms(2) by force
  then have "True \<in> set (map is_reviewer (assign_orders n ss))" unfolding assign_orders_taint(2) by force
  then obtain s2 where "s2 \<in> set (assign_orders n ss)" "is_reviewer s2" by auto
  then show ?thesis using row_spec' [OF assms(1)] spec_reviewer by blast
qed

text \<open>A batch that does not succeed leaves the tables as they were.\<close>

lemma batch_rollback:
  "handle_create_batch be now ss d ks = (r, d', ks') \<Longrightarrow> (\<forall>is h. r \<noteq> Inr (BatchIds is h)) \<Longrightarrow> d' = d \<and> ks' = ks"
  by (auto simp: handle_create_batch_def Let_def split: if_splits option.splits sum.splits prod.splits)

section \<open>Examples\<close>

definition demo_spec :: "string \<Rightarrow> string \<Rightarrow> string \<Rightarrow> spec" where
  "demo_spec nm integ ag = \<lparr> bs_name = nm, bs_goal = None, bs_parent = None, bs_integrity = integ,
     bs_output = ''python'', bs_agent = ag, bs_order = None, bs_profile = None, bs_role = Some ''r'',
     bs_policy = None, bs_policy_name = None, bs_code = None \<rparr>"

lemma demo_spec_sel:
  "bs_integrity (demo_spec nm i ag) = i" "bs_agent (demo_spec nm i ag) = ag" "bs_output (demo_spec nm i ag) = ''python''"
  "bs_order (demo_spec nm i ag) = None" "bs_profile (demo_spec nm i ag) = None" "bs_role (demo_spec nm i ag) = Some ''r''"
  "bs_parent (demo_spec nm i ag) = None" "bs_code (demo_spec nm i ag) = None"
  by (simp_all add: demo_spec_def)

definition demo_batch :: "spec list" where
  "demo_batch = [demo_spec ''fetch'' ''untrusted'' ''EXECUTOR'', demo_spec ''check'' ''trusted'' ''REVIEWER'',
     demo_spec ''judge'' ''trusted'' ''JUDGE'']"

definition demo_be :: batch_env where
  "demo_be = \<lparr> be_roles = [''r''], be_crypto = True, be_enforce = True \<rparr>"

lemma state_cell_empty: "state_cell a k empty_db = None"
  by (simp add: state_cell_def)

lemma insert_spec_plain:
  assumes "integrity_of (bs_integrity s) = Inr il" "validate_output_type (bs_output s) = Inr ot"
    "validate_agent_type (bs_agent s) = Inr ag" "bs_profile s = None" "bs_code s = None"
  shows "\<exists>d'. insert_spec now None s d = Inr (next_rowid aid (arcs d), d') \<and>
    map aid (arcs d') = map aid (arcs d) @ [next_rowid aid (arcs d)] \<and> (\<forall>a k. state_cell a k d' = state_cell a k d)"
  using assms by (simp add: insert_spec_def batch_code_def fk_arc_def Let_def truthy_str_def state_cell_log)

lemma exists_of_ids: "arc_exists i d = (i \<in> set (map aid (arcs d)))"
  by (auto simp: arc_exists_def find_row_def find_Some_iff find_None_iff)

lemma next_of_ids: "next_rowid aid (arcs d) = fold max (map aid (arcs d)) 0 + 1"
  by (simp add: next_rowid_def)

lemma demo_batch_ok:
  "\<exists>d' ks'. handle_create_batch demo_be 0 demo_batch empty_db [] = (Inr (BatchIds [1, 2, 3] False), d', ks')"
proof -
  let ?s = "\<lambda>nm i ag k. (demo_spec nm i ag)\<lparr> bs_order := Some k \<rparr>"
  have levels: "integrity_of ''untrusted'' = Inr UNTRUSTED" "integrity_of ''trusted'' = Inr TRUSTED"
    "validate_output_type ''python'' = Inr OUT_PYTHON" "validate_agent_type ''EXECUTOR'' = Inr EXECUTOR"
    "validate_agent_type ''REVIEWER'' = Inr REVIEWER" "validate_agent_type ''JUDGE'' = Inr JUDGE"
    by (simp_all add: integrity_of_def validate_output_type_def validate_agent_type_def)
  obtain d1 where d1: "insert_spec 0 None (?s ''fetch'' ''untrusted'' ''EXECUTOR'' 0) empty_db = Inr (1, d1)"
    "map aid (arcs d1) = [1]" "\<forall>a k. state_cell a k d1 = None"
    using insert_spec_plain [of "?s ''fetch'' ''untrusted'' ''EXECUTOR'' 0" UNTRUSTED OUT_PYTHON EXECUTOR 0 empty_db]
    by (auto simp: demo_spec_sel levels next_rowid_def state_cell_empty)
  obtain d2 where d2: "insert_spec 0 None (?s ''check'' ''trusted'' ''REVIEWER'' 1) d1 = Inr (2, d2)"
    "map aid (arcs d2) = [1, 2]" "\<forall>a k. state_cell a k d2 = None"
    using insert_spec_plain [of "?s ''check'' ''trusted'' ''REVIEWER'' 1" TRUSTED OUT_PYTHON REVIEWER 0 d1] d1
    by (auto simp: demo_spec_sel levels next_of_ids)
  obtain d3 where d3: "insert_spec 0 None (?s ''judge'' ''trusted'' ''JUDGE'' 2) d2 = Inr (3, d3)"
    "map aid (arcs d3) = [1, 2, 3]" "\<forall>a k. state_cell a k d3 = None"
    using insert_spec_plain [of "?s ''judge'' ''trusted'' ''JUDGE'' 2" TRUSTED OUT_PYTHON JUDGE 0 d2] d2
    by (auto simp: demo_spec_sel levels next_of_ids)
  have ex: "find_arc 2 d3 \<noteq> None" "find_arc 3 d3 \<noteq> None"
    unfolding arc_exists_def [symmetric] exists_of_ids d3(2) by simp_all
  have o: "assign_orders 0 demo_batch = [?s ''fetch'' ''untrusted'' ''EXECUTOR'' 0, ?s ''check'' ''trusted'' ''REVIEWER'' 1,
     ?s ''judge'' ''trusted'' ''JUDGE'' 2]"
    by (simp add: demo_batch_def demo_spec_sel)
  have "\<exists>d' ks' es. batch_transaction demo_be 0 None (assign_orders 0 demo_batch) empty_db [] = Inr ([1, 2, 3], d', ks', es)"
    unfolding o batch_transaction_def using d3(3) ex
    by (simp add: d1(1) d2(1) d3(1) ids_where_def is_reviewer_def spec_tainted_def is_non_trusted_def levels
      demo_spec_sel demo_be_def Let_def insert_state_def state_cell_put_state arc_exists_def)
  moreover have "judge_last (assign_orders 0 demo_batch)"
    unfolding o by (simp add: judge_last_def demo_spec_sel)
  ultimately show ?thesis
    by (auto simp: handle_create_batch_def demo_batch_def demo_spec_sel demo_be_def is_reviewer_def role_name_def
      truthy_str_def spec_tainted_def levels is_non_trusted_def batch_hint_def Let_def)
qed

section \<open>Properties\<close>

text \<open>C11: No untrusted arc without review. When a batch succeeds, its arcs are appended to the table
  under the returned ids; if one of them is not trusted, it is the only one, the batch has a
  REVIEWER or JUDGE, every such arc of the batch has it as its review target, and holds a key for
  it where encryption is available.\<close>

theorem batch_reviewed:
  assumes "handle_create_batch be now ss d ks = (Inr (BatchIds is h), d', ks')"
  shows "\<exists>bs. arcs d' = arcs d @ bs \<and> is = map aid bs \<and> distinct is \<and>
    (\<forall>t \<in> set bs. ainteg t \<noteq> TRUSTED \<longrightarrow>
       (\<forall>u \<in> set bs. ainteg u \<noteq> TRUSTED \<longrightarrow> aid u = aid t) \<and> (\<exists>r \<in> set bs. reviews r) \<and>
       (\<forall>r \<in> set bs. reviews r \<longrightarrow>
          state_cell (aid r) ''_review_target'' d' = Some (Parsed (JInt (aid t))) \<and>
          (be_crypto be \<longrightarrow> (aid t, aid r) \<in> set ks')))"
proof -
  obtain n d1 d2 es where b: "insert_specs now (bs_parent (hd ss)) (assign_orders n ss) d = Inr (is, d1)"
    "link_tainted be now (ids_where is_reviewer (assign_orders n ss) is)
       (ids_where (\<lambda>s. spec_tainted s = Inr True) (assign_orders n ss) is) d1 ks = Inr (d2, ks', es)"
    "d' = log_events now es d2"
    and rv: "(\<exists>s \<in> set ss. spec_tainted s = Inr True) \<longrightarrow> (\<exists>s \<in> set ss. is_reviewer s)"
    by (rule batch_success [OF assms])
  obtain bs where bs: "arcs d1 = arcs d @ bs" "map aid bs = is"
    "list_all2 (row_of_spec (bs_parent (hd ss))) (assign_orders n ss) bs" "distinct is"
    using insert_specs_rows [OF b(1)] by blast
  let ?rs = "map aid (filter reviews bs)" and ?ts = "map aid (filter (\<lambda>b. ainteg b \<noteq> TRUSTED) bs)"
  have ids: "ids_where is_reviewer (assign_orders n ss) is = ?rs"
    "ids_where (\<lambda>s. spec_tainted s = Inr True) (assign_orders n ss) is = ?ts"
    using ids_where_rows [OF bs(3), of is_reviewer reviews] spec_reviewer
      ids_where_rows [OF bs(3), of "\<lambda>s. spec_tainted s = Inr True" "\<lambda>b. ainteg b \<noteq> TRUSTED"] spec_taint bs(2)
    by blast+
  show ?thesis
  proof (cases "\<exists>t \<in> set bs. ainteg t \<noteq> TRUSTED")
    case False
    have "?ts = []" using False by (simp add: filter_empty_conv)
    then have "arcs d2 = arcs d1" using b(2) ids by simp
    then show ?thesis using False bs b(3) by auto
  next
    case True
    then obtain r where r: "r \<in> set bs" "reviews r" using tainted_reviewed [OF bs(3) rv] by blast
    then have "?rs \<noteq> []" by (auto simp: filter_empty_conv)
    note l = link_tainted_one [OF b(2) [unfolded ids] this]
    have "?ts \<noteq> []" using True by (auto simp: filter_empty_conv)
    with l have "\<exists>t. ?ts = [t] \<and> (\<forall>r \<in> set ?rs. state_cell r ''_review_target'' d2 = Some (Parsed (JInt t)) \<and>
      (be_crypto be \<longrightarrow> (t, r) \<in> set ks'))" by (simp only: simp_thms)
    then obtain t where t: "?ts = [t]" "\<forall>r \<in> set ?rs. state_cell r ''_review_target'' d2 = Some (Parsed (JInt t)) \<and>
      (be_crypto be \<longrightarrow> (t, r) \<in> set ks')" by (elim exE conjE) (rule that)
    have one: "aid u = t" if "u \<in> set bs" "ainteg u \<noteq> TRUSTED" for u
    proof -
      have "aid u \<in> set ?ts" using that by simp
      then show ?thesis unfolding t(1) by simp
    qed
    have "state_cell i k d' = state_cell i k d2" for i k using b(3) by (intro cell_cong) simp
    then show ?thesis using t(2) one bs l r b(3) by (intro exI [of _ bs]) auto
  qed
qed

theorem batch_reviewed_witness:
  "\<exists>bs d' ks'. handle_create_batch demo_be 0 demo_batch empty_db [] = (Inr (BatchIds (map aid bs) False), d', ks') \<and>
     arcs d' = bs \<and> (\<forall>t \<in> set bs. ainteg t \<noteq> TRUSTED \<longrightarrow> (\<forall>r \<in> set bs. reviews r \<longrightarrow> (aid t, aid r) \<in> set ks'))"
proof -
  obtain d' ks' where b: "handle_create_batch demo_be 0 demo_batch empty_db [] = (Inr (BatchIds [1, 2, 3] False), d', ks')"
    using demo_batch_ok by blast
  have "be_crypto demo_be" by (simp add: demo_be_def)
  moreover obtain bs :: "arc list" where bs: "arcs d' = arcs empty_db @ bs" "[1, 2, 3] = map aid bs"
    "\<forall>t \<in> set bs. ainteg t \<noteq> TRUSTED \<longrightarrow>
       (\<forall>u \<in> set bs. ainteg u \<noteq> TRUSTED \<longrightarrow> aid u = aid t) \<and> (\<exists>r \<in> set bs. reviews r) \<and>
       (\<forall>r \<in> set bs. reviews r \<longrightarrow>
          state_cell (aid r) ''_review_target'' d' = Some (Parsed (JInt (aid t))) \<and>
          (be_crypto demo_be \<longrightarrow> (aid t, aid r) \<in> set ks'))"
    using batch_reviewed [OF b] by (elim exE conjE) (rule that)
  ultimately have 1: "\<forall>t \<in> set bs. ainteg t \<noteq> TRUSTED \<longrightarrow> (\<forall>r \<in> set bs. reviews r \<longrightarrow> (aid t, aid r) \<in> set ks')"
    by blast
  have 2: "handle_create_batch demo_be 0 demo_batch empty_db [] = (Inr (BatchIds (map aid bs) False), d', ks')"
    using b by (simp only: bs(2))
  have 3: "arcs d' = bs" using bs(1) by simp
  show ?thesis by (intro exI conjI) (rule 2, rule 3, rule 1)
qed

text \<open>The judge of a batch comes last. When a batch succeeds, at most one of its arcs is a
  JUDGE, and every REVIEWER of the batch has a smaller step order, whatever orders the caller gave.\<close>

theorem batch_judge_last:
  assumes "handle_create_batch be now ss d ks = (Inr (BatchIds is h), d', ks')"
  shows "\<exists>bs. arcs d' = arcs d @ bs \<and> is = map aid bs \<and>
    length (filter (\<lambda>b. aagent b = JUDGE) bs) \<le> 1 \<and>
    (\<forall>j \<in> set bs. \<forall>r \<in> set bs. aagent j = JUDGE \<and> aagent r = REVIEWER \<longrightarrow> step_order r < step_order j)"
proof -
  obtain n d1 d2 es where b: "insert_specs now (bs_parent (hd ss)) (assign_orders n ss) d = Inr (is, d1)"
    "link_tainted be now (ids_where is_reviewer (assign_orders n ss) is)
       (ids_where (\<lambda>s. spec_tainted s = Inr True) (assign_orders n ss) is) d1 ks = Inr (d2, ks', es)"
    "d' = log_events now es d2" "judge_last (assign_orders n ss)"
    and one: "length (filter (\<lambda>s. bs_agent s = ''JUDGE'') ss) \<le> 1"
    by (rule batch_success [OF assms])
  let ?as = "assign_orders n ss"
  obtain bs where bs: "arcs d1 = arcs d @ bs" "map aid bs = is" "list_all2 (row_of_spec (bs_parent (hd ss))) ?as bs"
    using insert_specs_rows [OF b(1)] by blast
  have js: "length (filter (\<lambda>s. bs_agent s = ''JUDGE'') ?as) = length (filter (\<lambda>b. aagent b = JUDGE) bs)"
    using ids_where_rows [OF bs(3), of "\<lambda>s. bs_agent s = ''JUDGE''" "\<lambda>b. aagent b = JUDGE"] spec_judge by blast
  have same: "length (filter (\<lambda>s. bs_agent s = ''JUDGE'') ?as) = length (filter (\<lambda>s. bs_agent s = ''JUDGE'') ss)"
    by (rule assign_orders_judges)
  have "step_order r < step_order j"
    if "j \<in> set bs" "r \<in> set bs" "aagent j = JUDGE" "aagent r = REVIEWER" for j r
  proof -
    note h = that
    obtain sj sr where s: "sj \<in> set ?as" "row_of_spec (bs_parent (hd ss)) sj j" "sr \<in> set ?as"
      "row_of_spec (bs_parent (hd ss)) sr r"
      using row_spec [OF bs(3)] h(1,2) by blast
    have o: "step_order j = the (bs_order sj)" "step_order r = the (bs_order sr)" "bs_agent sj = ''JUDGE''"
      "bs_agent sr = ''REVIEWER''"
      using s(2,4) h(3,4) by (simp_all add: row_of_spec_def)
    have "sj \<in> set (filter (\<lambda>s. bs_agent s = ''JUDGE'') ?as)" using s(1) o(3) by simp
    moreover have "length (filter (\<lambda>s. bs_agent s = ''JUDGE'') ?as) \<le> 1" using one same by simp
    ultimately have "filter (\<lambda>s. bs_agent s = ''JUDGE'') ?as = [sj]"
      by (cases "filter (\<lambda>s. bs_agent s = ''JUDGE'') ?as") auto
    then show ?thesis using b(4) s(3) o by (simp add: judge_last_def list_all_iff)
  qed
  moreover have "arcs d2 = arcs d1" by (rule link_tainted_arcs [OF b(2)])
  ultimately show ?thesis using bs b(3) js same one by (intro exI [of _ bs]) auto
qed

theorem batch_judge_last_witness:
  "\<exists>bs d' ks'. handle_create_batch demo_be 0 demo_batch empty_db [] = (Inr (BatchIds (map aid bs) False), d', ks') \<and>
     arcs d' = bs \<and> length (filter (\<lambda>b. aagent b = JUDGE) bs) \<le> 1"
proof -
  obtain d' ks' where b: "handle_create_batch demo_be 0 demo_batch empty_db [] = (Inr (BatchIds [1, 2, 3] False), d', ks')"
    using demo_batch_ok by blast
  obtain bs :: "arc list" where bs: "arcs d' = arcs empty_db @ bs" "[1, 2, 3] = map aid bs" "length (filter (\<lambda>b. aagent b = JUDGE) bs) \<le> 1"
    using batch_judge_last [OF b] by (elim exE conjE) (rule that)
  show ?thesis using b bs(1,3) unfolding bs(2) by (intro exI [of _ bs] exI [of _ d'] exI [of _ ks']) simp
qed

text \<open>A batch with a reviewer and two non-trusted arcs never succeeds. Each reviewer's review
  target is inserted once per non-trusted arc under the same key, so the second insertion breaks
  the uniqueness of (arc, key) and the whole batch is rolled back, whatever else it holds.\<close>

theorem batch_two_tainted:
  assumes "i < j" "j < length ss" "spec_tainted (ss ! i) = Inr True" "spec_tainted (ss ! j) = Inr True"
  shows "\<exists>r. handle_create_batch be now ss d ks = (r, d, ks) \<and> (\<forall>is h. r \<noteq> Inr (BatchIds is h))"
proof (cases "\<exists>is h d' ks'. handle_create_batch be now ss d ks = (Inr (BatchIds is h), d', ks')")
  case False
  then show ?thesis using batch_rollback [of be now ss d ks] by (cases "handle_create_batch be now ss d ks") auto
next
  case True
  then obtain "is" h d' ks' where c: "handle_create_batch be now ss d ks = (Inr (BatchIds is h), d', ks')" by blast
  obtain n d1 d2 es where b: "insert_specs now (bs_parent (hd ss)) (assign_orders n ss) d = Inr (is, d1)"
    "link_tainted be now (ids_where is_reviewer (assign_orders n ss) is)
       (ids_where (\<lambda>s. spec_tainted s = Inr True) (assign_orders n ss) is) d1 ks = Inr (d2, ks', es)"
    and rv: "(\<exists>s \<in> set ss. spec_tainted s = Inr True) \<longrightarrow> (\<exists>s \<in> set ss. is_reviewer s)"
    by (rule batch_success [OF c])
  let ?as = "assign_orders n ss" and ?T = "\<lambda>s. spec_tainted s = Inr True"
  have len: "length is = length ?as" using insert_specs_length [OF b(1)] .
  have nth: "f (?as ! k) = f (ss ! k)" if "map f ?as = map f ss" "k < length ss" for k and f :: "spec \<Rightarrow> 'x"
    using arg_cong [OF that(1), of "\<lambda>xs. xs ! k"] that(2) by (simp add: assign_orders_same)
  have "ss ! i \<in> set ss" using assms(1,2) by simp
  then obtain s where "s \<in> set ss" "is_reviewer s" using rv assms(3) by blast
  then obtain k where k: "k < length ss" "is_reviewer (ss ! k)" by (auto simp: in_set_conv_nth)
  have "?as ! k \<in> set (filter is_reviewer ?as)" using nth [OF assign_orders_taint(2) k(1)] k by (simp add: assign_orders_same)
  then have "ids_where is_reviewer ?as is \<noteq> []"
    using ids_where_length [OF len, of is_reviewer] by (cases "filter is_reviewer ?as") auto
  from link_tainted_one [OF b(2) this] have "length (ids_where ?T ?as is) \<le> 1" by auto
  moreover have "2 \<le> length (filter ?T ?as)"
    by (rule filter_two [of i j]) (use assms nth [OF assign_orders_taint(1)] in \<open>simp_all add: assign_orders_same\<close>)
  ultimately show ?thesis using ids_where_length [OF len, of ?T] by simp
qed

theorem batch_two_tainted_witness:
  "\<exists>r. handle_create_batch demo_be 0
       [demo_spec ''a'' ''untrusted'' ''EXECUTOR'', demo_spec ''b'' ''untrusted'' ''EXECUTOR'', demo_spec ''c'' ''trusted'' ''REVIEWER'']
       empty_db [] = (r, empty_db, []) \<and> (\<forall>is h. r \<noteq> Inr (BatchIds is h))"
proof (rule batch_two_tainted [of 0 1])
  show "(0::nat) < 1" by simp
qed (simp_all add: demo_spec_sel spec_tainted_def integrity_of_def is_non_trusted_def)

end
