(* ===== verification/Error_Classifier.thy ===== *)
theory Error_Classifier
  imports Arc_Retry Py_Text
begin

text \<open>
  \<open>agent/error_classifier.py\<close>: the classification of the exceptions of a model call. An
  exception is what the classifier reads of it: the name of its type, \<open>str()\<close> of it, its
  \<open>status_code\<close> attribute and its \<open>response\<close> with status, headers and body. The body can be
  missing a \<open>json\<close> method, raise, or be a value. Reading a header as a float is the parameter
  \<open>fl\<close> (texts of finite numbers), the time stamp of the record is the argument \<open>ts\<close>. The em
  dash of the budget message is written as its three UTF-8 bytes.

  The error types decide, in \<open>Arc_Retry\<close>, whether the arc is tried again.
\<close>

section \<open>Exceptions\<close>

record response =
  rs_status :: "json option"
  rs_headers :: "(string \<Rightarrow> json option) option"
  rs_json :: "(exn + json) option"

record exc =
  x_type :: string
  x_text :: string
  x_status :: "json option"
  x_response :: "response option"

text \<open>\<open>isinstance(v, int)\<close> holds of the booleans too.\<close>

definition status_int :: "json option \<Rightarrow> int option" where
  "status_int v = (case v of Some (JInt i) \<Rightarrow> Some i | Some (JBool b) \<Rightarrow> Some (if b then 1 else 0) | _ \<Rightarrow> None)"

definition extract_status_code :: "exc \<Rightarrow> int option" where
  "extract_status_code x =
     (case status_int (x_status x) of
        Some i \<Rightarrow> Some i
      | None \<Rightarrow> (case x_response x of Some r \<Rightarrow> status_int (rs_status r) | None \<Rightarrow> None))"

definition extract_retry_after :: "(string \<Rightarrow> rat option) \<Rightarrow> exc \<Rightarrow> rat" where
  "extract_retry_after fl x =
     (case x_response x of
        Some r \<Rightarrow>
          (case rs_headers r of
             Some get \<Rightarrow>
               (let v = (case get ''retry-after'' of
                           Some v \<Rightarrow> if jtruthy v then Some v else get ''Retry-After''
                         | None \<Rightarrow> get ''Retry-After'')
                in case v of
                     Some v \<Rightarrow> if jtruthy v then (case py_float fl v of Inr s \<Rightarrow> s | Inl _ \<Rightarrow> 5) else 5
                   | None \<Rightarrow> 5)
           | None \<Rightarrow> 5)
      | None \<Rightarrow> 5)"

definition type_indicators :: "string list" where
  "type_indicators = [''ConnectError'', ''ConnectionError'', ''TimeoutError'', ''TimeoutException'',
     ''ConnectTimeout'', ''ReadTimeout'']"

definition message_indicators :: "string list" where
  "message_indicators = [''timeout'', ''timed out'', ''connection refused'', ''network unreachable'',
     ''name or service not known'', ''temporary failure in name resolution'']"

definition is_network_error :: "exc \<Rightarrow> bool" where
  "is_network_error x =
     (list_ex (contains (x_type x)) type_indicators \<or>
      list_ex (contains (lower (x_text x))) message_indicators)"

text \<open>The reason a provider gives in the body \<open>{"error": {"message": ...}}\<close>.\<close>

definition extract_api_error_message :: "exc \<Rightarrow> exn + string option" where
  "extract_api_error_message x =
     (case x_response x of
        None \<Rightarrow> Inr None
      | Some r \<Rightarrow>
          (case rs_json r of
             None \<Rightarrow> Inr None
           | Some (Inl (ValueError _)) \<Rightarrow> Inr None
           | Some (Inl e) \<Rightarrow> Inl e
           | Some (Inr (JObj b)) \<Rightarrow>
               Inr (case jget b ''error'' of
                      Some (JObj e) \<Rightarrow>
                        (case jget e ''message'' of
                           Some (JStr m) \<Rightarrow> if strip m = [] then None else Some (strip m)
                         | _ \<Rightarrow> None)
                    | _ \<Rightarrow> None)
           | Some (Inr _) \<Rightarrow> Inr None))"

section \<open>Messages\<close>

definition trunc :: "rat \<Rightarrow> int" where
  "trunc r = (if 0 \<le> r then \<lfloor>r\<rfloor> else \<lceil>r\<rceil>)"

definition format_rate_limit_message :: "rat \<Rightarrow> int \<Rightarrow> string" where
  "format_rate_limit_message wait n =
     (if n = 1
      then ''API rate limit reached. Retrying in '' @ show_int (trunc wait) @ '' seconds...''
      else ''API rate limit reached after '' @ show_int n @ '' attempts. Please wait before retrying.'')"

definition format_outage_message :: "int \<Rightarrow> bool \<Rightarrow> string" where
  "format_outage_message n open_circuit =
     (if open_circuit
      then ''AI service circuit breaker activated after '' @ show_int n @ '' attempts. '' @
           ''Service may be experiencing issues. Please try again later.''
      else ''AI service temporarily unavailable (retried '' @ show_int n @ '' times). '' @
           ''The service may be experiencing issues. Please try again later.'')"

definition format_network_message :: "exc \<Rightarrow> string" where
  "format_network_message x =
     (let s = lower (x_text x) in
      if contains s ''timeout'' \<or> contains s ''timed out''
      then ''Request timed out. Please check your network connection and try again.''
      else if contains s ''refused''
      then ''Connection refused. The service may be down or unreachable.''
      else if contains s ''unreachable'' \<or> contains s ''resolution''
      then ''Network unreachable. Please check your internet connection.''
      else ''Network connection error. Please check your connection and try again.'')"

definition format_client_error_message :: "int \<Rightarrow> exc \<Rightarrow> exn + string" where
  "format_client_error_message code x =
     (case extract_api_error_message x of
        Inl e \<Rightarrow> Inl e
      | Inr (Some reason) \<Rightarrow> Inr (''API request rejected (HTTP '' @ show_int code @ ''): '' @ reason)
      | Inr None \<Rightarrow> Inr (''API request error (HTTP '' @ show_int code @
                         ''). This may indicate a configuration issue.''))"

section \<open>Classification\<close>

text \<open>The record of one branch: what differs between them is the type, the message and two fields.\<close>

definition info :: "string \<Rightarrow> exc \<Rightarrow> int \<Rightarrow> string option \<Rightarrow> string option \<Rightarrow> string \<Rightarrow>
    string \<Rightarrow> int option \<Rightarrow> rat option \<Rightarrow> error_info" where
  "info ts x n model provider ty msg code wait =
     \<lparr> ei_type = ty, ei_retry_count = n, ei_source = ''invocation._call_with_retries'',
       ei_message = msg, ei_status_code = code, ei_retry_after = wait, ei_model = model,
       ei_provider = provider, ei_raw = Some (x_text x), ei_timestamp = ts \<rparr>"

definition code_between :: "int \<Rightarrow> int \<Rightarrow> int option \<Rightarrow> bool" where
  "code_between lo hi c = (case c of Some i \<Rightarrow> lo \<le> i \<and> i < hi | None \<Rightarrow> False)"

definition budget_message :: string where
  "budget_message = ''API budget kill-switch is active '' @ em_dash @
     '' model calls are blocked until the breaker is cleared.''"

definition classify_error ::
    "(string \<Rightarrow> rat option) \<Rightarrow> string \<Rightarrow> exc \<Rightarrow> int \<Rightarrow> string option \<Rightarrow> string option \<Rightarrow> exn + error_info" where
  "classify_error fl ts x n model provider =
     (let code = extract_status_code x;
          mk = info ts x n model provider in
      if code = Some 429 then
        (let wait = extract_retry_after fl x
         in Inr (mk ''RateLimitError'' (format_rate_limit_message wait n) code (Some wait)))
      else if code_between 500 600 code then
        Inr (mk ''APIOutageError'' (format_outage_message n False) code None)
      else if contains (x_type x) ''BudgetExceededError'' then
        Inr (mk ''BudgetExceededError'' budget_message None None)
      else if contains (x_type x) ''CircuitOpenError'' \<or> contains (x_type x) ''CircuitBreakerError'' then
        Inr (mk ''APIOutageError'' (format_outage_message n True) None None)
      else if is_network_error x then
        Inr (mk ''NetworkError'' (format_network_message x) None None)
      else if code = Some 401 \<or> code = Some 403 then
        Inr (mk ''AuthError'' ''Authentication failed. Please check your API credentials.'' code None)
      else if code = Some 404 then
        Inr (mk ''ModelError'' (''Model '' @ CHR 0x27 #
               (case model of Some m \<Rightarrow> if m = [] then ''requested model'' else m | None \<Rightarrow> ''requested model'') @
               CHR 0x27 # '' not available. Please try a different model.'') code None)
      else if code_between 400 500 code then
        (case format_client_error_message (the code) x of
           Inl e \<Rightarrow> Inl e
         | Inr msg \<Rightarrow> Inr (mk ''ClientError'' msg code None))
      else Inr (mk ''UnknownError'' (''Unexpected error: '' @ x_type x @
                  ''. Please contact support if this persists.'') None None))"

section \<open>Provider errors\<close>

definition PROVIDER_ERROR_TYPES :: "string list" where
  "PROVIDER_ERROR_TYPES = [''NetworkError'', ''APIOutageError'', ''ConnectionError'', ''ConnectTimeout'',
     ''TimeoutError'', ''ConnectError'', ''ServerError'', ''ServiceUnavailable'']"

definition is_provider_error :: "error_info option \<Rightarrow> bool" where
  "is_provider_error ei =
     (case ei of
        None \<Rightarrow> False
      | Some e \<Rightarrow>
          ei_type e \<in> set PROVIDER_ERROR_TYPES \<or>
          list_ex (contains (lower (ei_type e))) [''connect'', ''timeout'', ''unavailable'', ''unreachable''])"

text \<open>Python's \<open>a or b\<close> of a string and an optional string.\<close>

definition or_text :: "string option \<Rightarrow> string option \<Rightarrow> string option" where
  "or_text a b = (case a of Some s \<Rightarrow> if s = [] then b else a | None \<Rightarrow> b)"

definition failure_reason :: "error_info \<Rightarrow> string option" where
  "failure_reason e =
     (if ei_type e = ''UnknownError'' then or_text (ei_raw e) (Some (ei_message e))
      else or_text (Some (ei_message e)) (ei_raw e))"

section \<open>Facts\<close>

definition circuit_named :: "exc \<Rightarrow> bool" where
  "circuit_named x = (contains (x_type x) ''CircuitOpenError'' \<or> contains (x_type x) ''CircuitBreakerError'')"

definition budget_named :: "exc \<Rightarrow> bool" where
  "budget_named x = contains (x_type x) ''BudgetExceededError''"

text \<open>The type of the record alone, as a cascade.\<close>

definition error_type :: "exc \<Rightarrow> string" where
  "error_type x =
     (let c = extract_status_code x in
      if c = Some 429 then ''RateLimitError''
      else if code_between 500 600 c then ''APIOutageError''
      else if budget_named x then ''BudgetExceededError''
      else if circuit_named x then ''APIOutageError''
      else if is_network_error x then ''NetworkError''
      else if c = Some 401 \<or> c = Some 403 then ''AuthError''
      else if c = Some 404 then ''ModelError''
      else if code_between 400 500 c then ''ClientError''
      else ''UnknownError'')"

lemma info_sel [simp]:
  "ei_type (info ts x n m p ty msg code w) = ty" "ei_retry_count (info ts x n m p ty msg code w) = n"
  "ei_message (info ts x n m p ty msg code w) = msg" "ei_retry_after (info ts x n m p ty msg code w) = w"
  "ei_model (info ts x n m p ty msg code w) = m" "ei_raw (info ts x n m p ty msg code w) = Some (x_text x)"
  by (simp_all add: info_def)

lemma classify_type: "classify_error fl ts x n m p = Inr e \<Longrightarrow> ei_type e = error_type x"
  by (auto simp: classify_error_def error_type_def Let_def circuit_named_def budget_named_def
      split: if_splits sum.splits)

lemma classify_fields:
  "classify_error fl ts x n m p = Inr e \<Longrightarrow>
     ei_model e = m \<and> ei_retry_count e = n \<and> ei_raw e = Some (x_text x) \<and>
     (ei_retry_after e \<noteq> None \<longleftrightarrow> error_type x = ''RateLimitError'')"
  by (auto simp: classify_error_def error_type_def Let_def circuit_named_def budget_named_def
      split: if_splits sum.splits)

text \<open>Only a client error with a body that raises something else than \<open>ValueError\<close> is not classified.\<close>

lemma classify_fails:
  assumes "classify_error fl ts x n m p = Inl err"
  shows "\<exists>r. x_response x = Some r \<and> rs_json r = Some (Inl err) \<and> error_type x = ''ClientError''"
proof -
  have "format_client_error_message c x = Inl err \<Longrightarrow> \<exists>r. x_response x = Some r \<and> rs_json r = Some (Inl err)" for c
    by (auto simp: format_client_error_message_def extract_api_error_message_def
        split: option.splits sum.splits exn.splits json.splits if_splits)
  then show ?thesis using assms
    by (auto simp: classify_error_def error_type_def Let_def circuit_named_def budget_named_def
        split: if_splits sum.splits)
qed

lemma should_retry_zero:
  assumes "map_of (get_error_max_retries cfg) (ei_type e) = Some 0"
  shows "should_retry_arc cfg hcfg now u a e d t =
    (Inr (no_retry (or_default (map_of (get_escalate_on_exhaust cfg) (ei_type e)) False)), t)"
  using assms by (simp add: should_retry_arc_def Let_def)

text \<open>What the shipped configuration allows an arc whose errors classify as \<open>ty\<close>.\<close>

lemma default_limits:
  "map_of (get_error_max_retries default_retry_config) ''RateLimitError'' = Some 5"
  "map_of (get_error_max_retries default_retry_config) ''APIOutageError'' = Some 4"
  "map_of (get_error_max_retries default_retry_config) ''NetworkError'' = Some 3"
  "map_of (get_error_max_retries default_retry_config) ''UnknownError'' = Some 2"
  "map_of (get_error_max_retries default_retry_config) ''AuthError'' = Some 0"
  "map_of (get_error_max_retries default_retry_config) ''ModelError'' = Some 0"
  "map_of (get_error_max_retries default_retry_config) ''ClientError'' = Some 0"
  "map_of (get_error_max_retries default_retry_config) ''BudgetExceededError'' = None"
  by code_simp+

lemma retried_iff:
  assumes "retry_counts a k m d" "0 \<le> k"
  shows "(\<exists>r. fst (should_retry_arc cfg hcfg now u a e d t) = Inr r \<and> should_retry r) \<longleftrightarrow>
    k < limit_of m (map_of (get_error_max_retries cfg) (ei_type e))"
  using assms(2) unfolding should_retry_arc_counted [OF assms(1)]
  by (auto simp: Let_def no_retry_def limit_of_def split: prod.split)

lemma error_type_client:
  assumes "extract_status_code x = Some c" "400 \<le> c" "c < 500" "c \<noteq> 429"
    and "\<not> budget_named x" "\<not> circuit_named x" "\<not> is_network_error x"
  shows "error_type x \<in> {''AuthError'', ''ModelError'', ''ClientError''}"
  using assms by (auto simp: error_type_def Let_def code_between_def)

lemma provider_types:
  "is_provider_error (Some (e\<lparr> ei_type := ''NetworkError'' \<rparr>))"
  "is_provider_error (Some (e\<lparr> ei_type := ''APIOutageError'' \<rparr>))"
  "\<not> is_provider_error (Some (e\<lparr> ei_type := ''RateLimitError'' \<rparr>))"
  "\<not> is_provider_error (Some (e\<lparr> ei_type := ''BudgetExceededError'' \<rparr>))"
  "\<not> is_provider_error (Some (e\<lparr> ei_type := ''AuthError'' \<rparr>))"
  "\<not> is_provider_error (Some (e\<lparr> ei_type := ''ModelError'' \<rparr>))"
  "\<not> is_provider_error (Some (e\<lparr> ei_type := ''ClientError'' \<rparr>))"
  "\<not> is_provider_error (Some (e\<lparr> ei_type := ''UnknownError'' \<rparr>))"
  by (simp_all add: is_provider_error_def PROVIDER_ERROR_TYPES_def lower_def lower_char_def Let_def
      starts_with_def)

lemma provider_error_type:
  "is_provider_error (Some e) = is_provider_error (Some (f\<lparr> ei_type := ei_type e \<rparr>))"
  by (simp add: is_provider_error_def)

section \<open>Properties\<close>

definition http_exc :: "int \<Rightarrow> string \<Rightarrow> exc" where
  "http_exc code text = \<lparr> x_type = ''HTTPStatusError'', x_text = text, x_status = None,
     x_response = Some \<lparr> rs_status = Some (JInt code), rs_headers = Some (\<lambda>_. None), rs_json = None \<rparr> \<rparr>"

text \<open>A client error is hopeless. When the provider answers with a 4xx other than 429 and the
  exception does not look like a network failure or a local breaker, the arc is not tried again,
  whatever its counters are, as long as the configuration leaves the limits of these errors at the
  shipped 0.\<close>

theorem client_errors_not_retried:
  assumes "classify_error fl ts x n model provider = Inr e"
    and "extract_status_code x = Some c" "400 \<le> c" "c < 500" "c \<noteq> 429"
    and "\<not> budget_named x" "\<not> circuit_named x" "\<not> is_network_error x"
    and "\<forall>ty \<in> {''AuthError'', ''ModelError'', ''ClientError''}.
      map_of (get_error_max_retries cfg) ty = Some 0"
  shows "\<exists>esc. should_retry_arc cfg hcfg now u a e d t = (Inr (no_retry esc), t)"
proof -
  have "ei_type e \<in> {''AuthError'', ''ModelError'', ''ClientError''}"
    using classify_type [OF assms(1)] error_type_client [OF assms(2-8)] by simp
  then have "map_of (get_error_max_retries cfg) (ei_type e) = Some 0" using assms(9) by blast
  from should_retry_zero [OF this] show ?thesis by blast
qed

lemma forbidden_simps:
  "extract_status_code (http_exc c s) = Some c" "\<not> budget_named (http_exc c s)"
  "\<not> circuit_named (http_exc c s)"
  by (simp_all add: http_exc_def extract_status_code_def status_int_def budget_named_def
      circuit_named_def starts_with_def)

lemma forbidden_not_network: "\<not> is_network_error (http_exc 403 ''Forbidden'')"
  by (simp add: is_network_error_def http_exc_def type_indicators_def message_indicators_def
      starts_with_def lower_def lower_char_def Let_def)

theorem client_errors_not_retried_witness:
  "\<exists>e esc. classify_error (\<lambda>_. None) ''t'' (http_exc 403 ''Forbidden'') 1 None None = Inr e \<and>
     should_retry_arc default_retry_config demo_health 0 0 1 e demo_retry_db empty_tracker =
       (Inr (no_retry esc), empty_tracker)"
proof -
  obtain e where e: "classify_error (\<lambda>_. None) ''t'' (http_exc 403 ''Forbidden'') 1 None None = Inr e"
    using forbidden_not_network forbidden_simps [of 403 "''Forbidden''"]
    by (auto simp: classify_error_def Let_def code_between_def budget_named_def circuit_named_def)
  have "\<exists>esc. should_retry_arc default_retry_config demo_health 0 0 1 e demo_retry_db empty_tracker =
      (Inr (no_retry esc), empty_tracker)"
    by (rule client_errors_not_retried [OF e forbidden_simps(1) _ _ _ forbidden_simps(2,3)
        forbidden_not_network]) (simp_all add: default_limits)
  then show ?thesis using e by blast
qed

text \<open>Failover is for outages. The error of a failed call makes the dispatcher try the next
  model exactly when the status is a 5xx, or, for a call that is neither rate limited nor
  stopped by the budget, when the breaker was open or the exception looks like a network
  failure.\<close>

theorem provider_error_iff:
  assumes "classify_error fl ts x n model provider = Inr e"
  shows "is_provider_error (Some e) \<longleftrightarrow>
    extract_status_code x \<noteq> Some 429 \<and>
    (code_between 500 600 (extract_status_code x) \<or>
     \<not> budget_named x \<and> (circuit_named x \<or> is_network_error x))"
  using provider_types [of e]
  unfolding provider_error_type [of e e] classify_type [OF assms] error_type_def Let_def
  by (cases "extract_status_code x = Some 429"; cases "code_between 500 600 (extract_status_code x)";
      cases "budget_named x"; cases "circuit_named x"; cases "is_network_error x") simp_all

theorem provider_error_iff_witness:
  "\<exists>e. classify_error (\<lambda>_. None) ''t'' (http_exc 503 ''busy'') 1 None None = Inr e \<and> is_provider_error (Some e)"
proof -
  obtain e where e: "classify_error (\<lambda>_. None) ''t'' (http_exc 503 ''busy'') 1 None None = Inr e"
    using forbidden_simps(1) [of 503 "''busy''"] by (simp add: classify_error_def Let_def code_between_def)
  from provider_error_iff [OF e] show ?thesis
    using e forbidden_simps(1) [of 503 "''busy''"] by (simp add: code_between_def)
qed

text \<open>The text of the exception is looked at before the status 401: an authentication failure
  that mentions a timeout anywhere is a network error, and an arc with retries left is tried again.\<close>

lemma auth_error_retried:
  assumes "classify_error fl ts (http_exc 401 ''401 for url http://h/timeout'') n model provider = Inr e"
    and "retry_counts a 0 m d" "0 < m"
  shows "\<exists>r. fst (should_retry_arc default_retry_config hcfg now u a e d t) = Inr r \<and> should_retry r"
proof -
  have "is_network_error (http_exc 401 ''401 for url http://h/timeout'')"
    by (simp add: is_network_error_def http_exc_def message_indicators_def
      starts_with_def lower_def lower_char_def Let_def)
  then have "ei_type e = ''NetworkError''"
    unfolding classify_type [OF assms(1)] error_type_def Let_def
    by (simp add: forbidden_simps code_between_def)
  then show ?thesis unfolding retried_iff [OF assms(2) order.refl]
    using assms(3) by (simp add: limit_of_def default_limits)
qed

text \<open>The limits have no entry for the budget error, so it is retried as often as the arc allows.\<close>

lemma budget_error_retried:
  assumes "classify_error fl ts x n model provider = Inr e" "budget_named x"
    and "extract_status_code x = None" "retry_counts a k m d" "0 \<le> k" "k < m"
  shows "\<exists>r. fst (should_retry_arc default_retry_config hcfg now u a e d t) = Inr r \<and> should_retry r"
proof -
  have "ei_type e = ''BudgetExceededError''"
    using assms(2,3) unfolding classify_type [OF assms(1)] error_type_def by (simp add: code_between_def)
  then show ?thesis unfolding retried_iff [OF assms(4,5)]
    using assms(6) by (simp add: limit_of_def default_limits)
qed

end
