(* ===== verification/Arc_Dispatch.thy ===== *)
theory Arc_Dispatch
  imports Arc_Outputs Arc_Batch Error_Classifier Judge
begin

text \<open>
  The dispatch of an arc: \<open>handle_arc_dispatch\<close> of \<open>core/arcs/dispatch_handler.py\<close> with the clone
  for recurring jobs, the run of the agent, the failure path with failover, circuit breaker, retry
  and escalation; \<open>core/arcs/dispatch_model_resolver.py\<close> and \<open>core/arcs/model_fallback.py\<close>.

  The state is a \<open>world\<close>: the database, the health tracker and the pairs of the table
  \<open>review_keys\<close>. An exception is either one of the modelled operations (\<open>Fault\<close>) or one of the
  call of a model (\<open>Raised\<close>), which the classifier looks at; the text of a \<open>Fault\<close> is the parameter
  \<open>de_text\<close>, the label of an \<open>OtherError\<close> is the name of its type.

  Parameters (\<open>denv\<close>): the agent, which may change the whole world, answers with a text and maybe
  an error or raises; the handlers that templates registered; the execution of code; the prompt
  templates; the newest system message of a conversation that mentions an error; the clock's
  stamp and the jitter. The conversation an agent runs in is created and archived outside the
  model. Ids in payloads are integers; a numeric text, which SQLite would convert, is refused
  like any other text.
\<close>

section \<open>State\<close>

record world =
  w_db :: db
  w_tracker :: tracker
  w_keys :: "(int \<times> int) list"

datatype fault = Fault exn | Raised exc

type_synonym 'a dact = "(fault + 'a) \<times> world"

record agent_reply =
  ar_text :: string
  ar_error :: "string option option"

record denv =
  de_env :: env
  de_fmt :: "json \<Rightarrow> string"
  de_vcfg :: vconfig
  de_judge :: judge_env
  de_convs :: "int list"
  de_linked :: "int \<times> int \<Rightarrow> int"
  de_execute :: "int \<Rightarrow> int \<Rightarrow> db \<Rightarrow> (exn + json) \<times> db"
  de_agent :: "int \<Rightarrow> string \<Rightarrow> int option \<Rightarrow> string option \<Rightarrow> world \<Rightarrow> (exc + agent_reply) \<times> world"
  de_handler :: "string \<Rightarrow> string \<Rightarrow> (int \<Rightarrow> arc \<Rightarrow> world \<Rightarrow> unit dact) option"
  de_prompt :: "json \<Rightarrow> jdict \<Rightarrow> json \<Rightarrow> exn + string"
  de_template :: "string \<Rightarrow> jdict \<Rightarrow> exn + string"
  de_crypto :: crypto
  de_parse :: "string \<Rightarrow> jtext"
  de_batch :: batch_env
  de_text :: "exn \<Rightarrow> string"
  de_float :: "string \<Rightarrow> rat option"
  de_logged :: "int \<Rightarrow> jtext option"
  de_stamp :: string
  de_jitter :: rat

definition dbind :: "'a dact \<Rightarrow> ('a \<Rightarrow> world \<Rightarrow> 'b dact) \<Rightarrow> 'b dact" where
  "dbind m f = (case m of (Inl e, w) \<Rightarrow> (Inl e, w) | (Inr x, w) \<Rightarrow> f x w)"

definition on_db :: "(db \<Rightarrow> 'a act) \<Rightarrow> world \<Rightarrow> 'a dact" where
  "on_db f w = (case f (w_db w) of (r, d) \<Rightarrow> (map_sum Fault id r, w\<lparr> w_db := d \<rparr>))"

definition env_of :: "denv \<Rightarrow> world \<Rightarrow> env" where
  "env_of de w = (de_env de)\<lparr> env_tracker := w_tracker w \<rparr>"

abbreviation dstatus :: "denv \<Rightarrow> time \<Rightarrow> int \<Rightarrow> string \<Rightarrow> world \<Rightarrow> unit dact" where
  "dstatus de now i s w \<equiv>
     on_db (\<lambda>d. stmt (update_status (de_fmt de) (env_of de w) now i s ''system'' d) d) w"

definition dfreeze :: "denv \<Rightarrow> time \<Rightarrow> int \<Rightarrow> world \<Rightarrow> unit dact" where
  "dfreeze de now i w =
     on_db (\<lambda>d. stmt (freeze_arc (failure_hook (de_fmt de) (env_of de w)) now i d) d) w"

definition dpropagate :: "denv \<Rightarrow> time \<Rightarrow> int \<Rightarrow> world \<Rightarrow> unit dact" where
  "dpropagate de now i w = on_db (propagate_completion (de_fmt de) (env_of de w) now i) w"

text \<open>\<open>freeze_arc\<close> and \<open>_propagate_completion\<close>, which always follow each other.\<close>

definition finish :: "denv \<Rightarrow> time \<Rightarrow> int \<Rightarrow> world \<Rightarrow> unit dact" where
  "finish de now i w = dbind (dfreeze de now i w) (\<lambda>_. dpropagate de now i)"

section \<open>Which model\<close>

record chosen =
  ch_config :: "string option option"
  ch_fallbacks :: "string list"
  ch_selected :: "string option"

definition no_model :: chosen where
  "no_model = \<lparr> ch_config = None, ch_fallbacks = [], ch_selected = None \<rparr>"

text \<open>\<open>except (ImportError, KeyError, ValueError, TypeError)\<close>.\<close>

definition selector_error :: "exn \<Rightarrow> bool" where
  "selector_error e =
     (case e of KeyError _ \<Rightarrow> True | ValueError _ \<Rightarrow> True | TypeError _ \<Rightarrow> True | _ \<Rightarrow> False)"

text \<open>An empty text in \<open>policy_json\<close> counts as none.\<close>

definition has_policy_json :: "policy_row \<Rightarrow> bool" where
  "has_policy_json r = (case p_json r of None \<Rightarrow> False | Some (Malformed s) \<Rightarrow> s \<noteq> [] | Some (Parsed _) \<Rightarrow> True)"

text \<open>\<open>None\<close>: the selection found nothing, the connection is degraded.\<close>

definition resolve_dispatch_model :: "denv \<Rightarrow> time \<Rightarrow> int option \<Rightarrow> world \<Rightarrow> chosen option dact" where
  "resolve_dispatch_model de now policy w =
     (case (case policy of None \<Rightarrow> None | Some p \<Rightarrow> get_model_policy p (w_db w)) of
        None \<Rightarrow> (Inr (Some no_model), w)
      | Some row \<Rightarrow>
          if has_policy_json row \<and> \<not> truthy_str (p_model row) then
            (case (case from_db_row row of
                     Inl e \<Rightarrow> (Inl e, w_tracker w)
                   | Inr p \<Rightarrow> select_models (env_health (de_env de)) now (env_registry (de_env de)) p None 0 (w_tracker w)) of
               (Inl e, t) \<Rightarrow>
                 if selector_error e
                 then (Inr (Some (no_model\<lparr> ch_config := Some (p_model row) \<rparr>)), w\<lparr> w_tracker := t \<rparr>)
                 else (Inl (Fault e), w\<lparr> w_tracker := t \<rparr>)
             | (Inr [], t) \<Rightarrow> (Inr None, w\<lparr> w_tracker := t \<rparr>)
             | (Inr (best # rest), t) \<Rightarrow>
                 (Inr (Some \<lparr> ch_config = Some (Some (sel_id best)), ch_fallbacks = map sel_id rest,
                              ch_selected = Some (sel_id best) \<rparr>), w\<lparr> w_tracker := t \<rparr>))
          else (Inr (Some (no_model\<lparr> ch_config := Some (p_model row) \<rparr>)), w))"

section \<open>The run of an agent\<close>

definition arc_message :: "denv \<Rightarrow> int \<Rightarrow> string \<Rightarrow> int option \<Rightarrow> db \<Rightarrow> exn + string" where
  "arc_message de i text conv d =
     (let ctx = [(''arc_id'', JInt i), (''goal'', JStr text), (''source_conv_id'', JInt (dflt 0 conv))];
          default = de_template de
            (if (case get_arc i d of Some a \<Rightarrow> aagent a = REVIEWER | None \<Rightarrow> False)
             then ''arc_execute_reviewer'' else ''arc_execute'') ctx
      in xbind (get_arc_state i ''_prompt_template_config'' JNull d) (\<lambda>cfg.
           case cfg of
             JObj c \<Rightarrow>
               if jtruthy (dget c ''template'')
               then (case de_prompt de (dget c ''template'') ctx
                            (if jtruthy (dget c ''subdir'') then dget c ''subdir'' else JStr []) of
                       Inl (FileNotFoundError _) \<Rightarrow> default
                     | r \<Rightarrow> r)
               else default
           | _ \<Rightarrow> default))"

text \<open>\<open>INSERT ... ON CONFLICT DO NOTHING\<close> of \<open>_agent_response\<close>.\<close>

definition store_response :: "time \<Rightarrow> int \<Rightarrow> string \<Rightarrow> db \<Rightarrow> exn + db" where
  "store_response now i text d =
     (if text = [] then Inr d
      else if \<not> arc_exists i d then Inl (IntegrityError ''FOREIGN KEY'')
      else if state_cell i ''_agent_response'' d \<noteq> None then Inr d
      else Inr (put_state now i ''_agent_response'' (Parsed (JStr text)) d))"

definition runtime_exc :: "string \<Rightarrow> exc" where
  "runtime_exc s = \<lparr> x_type = ''RuntimeError'', x_text = s, x_status = None, x_response = None \<rparr>"

definition reply_error :: "agent_reply \<Rightarrow> unit + exc" where
  "reply_error r =
     (case ar_error r of
        None \<Rightarrow> Inl ()
      | Some m \<Rightarrow> Inr (runtime_exc (case m of
            Some (c # cs) \<Rightarrow> c # cs
          | _ \<Rightarrow> ''arc agent invocation returned error result'')))"

definition run_arc_agent :: "denv \<Rightarrow> time \<Rightarrow> int \<Rightarrow> string \<Rightarrow> int option \<Rightarrow> string option option \<Rightarrow> world \<Rightarrow> unit dact" where
  "run_arc_agent de now i text conv cfg w =
     dbind (on_db (\<lambda>d. (arc_message de i text conv d, d)) w) (\<lambda>msg w1.
       case de_agent de i msg conv (case cfg of Some m \<Rightarrow> m | None \<Rightarrow> None) w1 of
         (Inl x, w2) \<Rightarrow> (Inl (Raised x), w2)
       | (Inr r, w2) \<Rightarrow>
           dbind (on_db (\<lambda>d. stmt (store_response now i (ar_text r) d) d) w2) (\<lambda>_ w3.
             case reply_error r of Inl _ \<Rightarrow> (Inr (), w3) | Inr x \<Rightarrow> (Inl (Raised x), w3)))"

section \<open>What went wrong\<close>

fun exn_name :: "exn \<Rightarrow> string" where
  "exn_name (ValueError _) = ''ValueError''"
| "exn_name (RuntimeError _) = ''RuntimeError''"
| "exn_name (PermissionError _) = ''PermissionError''"
| "exn_name (FileNotFoundError _) = ''FileNotFoundError''"
| "exn_name (KeyError _) = ''KeyError''"
| "exn_name (TypeError _) = ''TypeError''"
| "exn_name (IntegrityError _) = ''IntegrityError''"
| "exn_name (AttributeError _) = ''AttributeError''"
| "exn_name (PolicyValidationError _) = ''PolicyValidationError''"
| "exn_name RecursionError = ''RecursionError''"
| "exn_name (OtherError s) = s"

definition exc_of :: "denv \<Rightarrow> fault \<Rightarrow> exc" where
  "exc_of de f =
     (case f of
        Raised x \<Rightarrow> x
      | Fault e \<Rightarrow> \<lparr> x_type = exn_name e, x_text = de_text de e, x_status = None, x_response = None \<rparr>)"

text \<open>
  \<open>ErrorInfo(**d)\<close> of a logged error: unknown or missing fields raise \<open>TypeError\<close>. The fields have the
  types \<open>to_json\<close> writes; a field of another type is treated as a missing one.
\<close>

definition error_fields :: "string list" where
  "error_fields = [''type'', ''retry_count'', ''source_location'', ''message'', ''status_code'', ''retry_after'',
     ''model'', ''provider'', ''raw_error'', ''timestamp'']"

definition opt_text :: "json \<Rightarrow> string option" where
  "opt_text v = (case v of JStr s \<Rightarrow> Some s | _ \<Rightarrow> None)"

definition error_of_json :: "string \<Rightarrow> json \<Rightarrow> error_info option" where
  "error_of_json stamp v =
     (case v of
        JObj ps \<Rightarrow>
          if \<not> list_all (\<lambda>(k, _). k \<in> set error_fields) ps then None
          else (case (dget ps ''type'', dget ps ''retry_count'', dget ps ''source_location'', dget ps ''message'') of
                  (JStr ty, JInt n, JStr src, JStr msg) \<Rightarrow>
                    Some \<lparr> ei_type = ty, ei_retry_count = n, ei_source = src, ei_message = msg,
                           ei_status_code = (case dget ps ''status_code'' of JInt c \<Rightarrow> Some c | _ \<Rightarrow> None),
                           ei_retry_after = (case dget ps ''retry_after'' of JNum r \<Rightarrow> Some r
                                             | JInt k \<Rightarrow> Some (of_int k) | _ \<Rightarrow> None),
                           ei_model = opt_text (dget ps ''model''), ei_provider = opt_text (dget ps ''provider''),
                           ei_raw = opt_text (dget ps ''raw_error''),
                           ei_timestamp = (case dget ps ''timestamp'' of JStr s \<Rightarrow> s | _ \<Rightarrow> stamp) \<rparr>
                | _ \<Rightarrow> None)
      | _ \<Rightarrow> None)"

definition logged_error :: "denv \<Rightarrow> int \<Rightarrow> db \<Rightarrow> error_info option" where
  "logged_error de i d =
     (case find (\<lambda>l. snd l = i) (conv_arcs d) of
        None \<Rightarrow> None
      | Some l \<Rightarrow>
          (case de_logged de (fst l) of
             Some (Parsed (JObj ps)) \<Rightarrow>
               (case jget ps ''error_info'' of Some v \<Rightarrow> error_of_json (de_stamp de) v | None \<Rightarrow> None)
           | _ \<Rightarrow> None))"

definition extract_error_info :: "denv \<Rightarrow> int \<Rightarrow> fault \<Rightarrow> world \<Rightarrow> error_info dact" where
  "extract_error_info de i f w =
     (case logged_error de i (w_db w) of
        Some e \<Rightarrow> (Inr e, w)
      | None \<Rightarrow>
          (map_sum Fault id
             (xbind (as_int (or_default (map_of (get_retry_state i (w_db w)) ''_retry_count'') (JInt 0))) (\<lambda>n.
                classify_error (de_float de) (de_stamp de) (exc_of de f) (n + 1) None None)), w))"

definition record_call :: "denv \<Rightarrow> time \<Rightarrow> string option \<Rightarrow> error_info option \<Rightarrow> world \<Rightarrow> world" where
  "record_call de now m err w =
     (if \<not> truthy_str m then w
      else w\<lparr> w_tracker := record_model_call (env_health (de_env de)) now (the m) (err = None)
                (map_option ei_type err) (case err of None \<Rightarrow> None | Some e \<Rightarrow> failure_reason e) (w_tracker w) \<rparr>)"

section \<open>Failover\<close>

text \<open>\<open>a or b\<close> of the goal and the name.\<close>

definition arc_goal :: "int \<Rightarrow> arc option \<Rightarrow> string" where
  "arc_goal i a =
     (let fb = ''Arc #'' @ show_int i in
      case a of
        None \<Rightarrow> fb
      | Some r \<Rightarrow> if truthy_str (goal r) then the (goal r) else if aname r \<noteq> [] then aname r else fb)"

definition try_model :: "denv \<Rightarrow> time \<Rightarrow> int \<Rightarrow> string \<Rightarrow> int \<Rightarrow> string \<Rightarrow> world \<Rightarrow> unit dact" where
  "try_model de now i text conv m w =
     dbind (run_arc_agent de now i text (Some conv) (Some (Some m)) w) (\<lambda>_ w1.
       finish de now i (record_call de now (Some m) None w1))"

fun try_models :: "denv \<Rightarrow> time \<Rightarrow> int \<Rightarrow> string \<Rightarrow> int \<Rightarrow> string list \<Rightarrow> world \<Rightarrow> bool dact" where
  "try_models de now i text conv [] w = (Inr False, w)"
| "try_models de now i text conv (m # ms) w =
     (case try_model de now i text conv m w of
        (Inr _, w1) \<Rightarrow> (Inr True, w1)
      | (Inl f, w1) \<Rightarrow>
          dbind (extract_error_info de i f w1) (\<lambda>e w2.
            let w3 = record_call de now (Some m) (Some e) w2 in
            if is_provider_error (Some e) then try_models de now i text conv ms w3 else (Inr False, w3)))"

definition try_fallback_models :: "denv \<Rightarrow> time \<Rightarrow> int \<Rightarrow> chosen \<Rightarrow> world \<Rightarrow> bool dact" where
  "try_fallback_models de now i ch w =
     (if ch_fallbacks ch = [] \<or> ch_config ch = None then (Inr False, w)
      else case get_arc i (w_db w) of
        None \<Rightarrow> (Inr False, w)
      | Some a \<Rightarrow>
          (case find_arc_conversation (de_convs de) (de_linked de) i (w_db w) of
             None \<Rightarrow> (Inr False, w)
           | Some c \<Rightarrow>
               if c = 0 then (Inr False, w)
               else try_models de now i (arc_goal i (Some a)) c (ch_fallbacks ch) w))"

section \<open>The failure path\<close>

text \<open>\<open>int(time.time())\<close> makes the key of an attempt; the scheduled time carries a zone.\<close>

definition retry_key :: "time \<Rightarrow> int \<Rightarrow> string" where
  "retry_key now i = ''arc_dispatch_'' @ show_int i @ ''_'' @ show_int (cur_ts now)"

definition reenqueue_arc_dispatch :: "time \<Rightarrow> int \<Rightarrow> rat \<Rightarrow> db \<Rightarrow> db" where
  "reenqueue_arc_dispatch now i wait d =
     d\<lparr> queue := snd (enqueue now ''arc.dispatch'' (dispatch_payload i) (Some (retry_key now i)) SINGLE_ATTEMPT
          (Some (At (backoff_until now wait))) (case get_arc i d of Some a \<Rightarrow> apriority a | None \<Rightarrow> 100) (queue d)) \<rparr>"

text \<open>\<open>escalate_to_next_model\<close> inside \<open>except (ValueError, sqlite3.Error)\<close>, then \<open>failed\<close> without a new arc.\<close>

definition escalate_or_fail :: "denv \<Rightarrow> time \<Rightarrow> int \<Rightarrow> world \<Rightarrow> unit dact" where
  "escalate_or_fail de now i w =
     dbind (on_db (\<lambda>d. case escalate_to_next_model (env_of de w) now i d of
                         (Inl e, d1) \<Rightarrow> (if value_or_db_error e then Inr None else Inl e, d1)
                       | (Inr r, d1) \<Rightarrow> (Inr r, d1)) w) (\<lambda>r w1.
       case r of Some _ \<Rightarrow> (Inr (), w1) | None \<Rightarrow> dstatus de now i ''failed'' w1)"

definition failed_docs :: "denv \<Rightarrow> time \<Rightarrow> int \<Rightarrow> world \<Rightarrow> unit dact" where
  "failed_docs de now i w =
     on_db (handle_failed_docs_arc (de_vcfg de) (de_fmt de) (env_of de w) now i) w"

definition schedule_retry :: "denv \<Rightarrow> time \<Rightarrow> int \<Rightarrow> error_info \<Rightarrow> rat \<Rightarrow> world \<Rightarrow> unit dact" where
  "schedule_retry de now i e wait w =
     dbind (on_db (\<lambda>d. stmt (record_retry_attempt now i e wait d) d) w) (\<lambda>_ w1.
     dbind (case dstatus de now i ''waiting'' w1 of
              (Inl (Fault x), w2) \<Rightarrow> (if value_or_db_error x then Inr () else Inl (Fault x), w2)
            | r \<Rightarrow> r) (\<lambda>_ w2.
       (Inr (), w2\<lparr> w_db := reenqueue_arc_dispatch now i wait (w_db w2) \<rparr>)))"

definition give_up_arc :: "denv \<Rightarrow> time \<Rightarrow> int \<Rightarrow> bool \<Rightarrow> world \<Rightarrow> unit dact" where
  "give_up_arc de now i escalate w =
     (let w1 = w\<lparr> w_db := notify ''normal'' ''retry_exhausted'' (w_db w) \<rparr> in
      dbind (if escalate then escalate_or_fail de now i w1 else dstatus de now i ''failed'' w1)
        (\<lambda>_. failed_docs de now i))"

definition circuit_open :: "denv \<Rightarrow> time \<Rightarrow> error_info \<Rightarrow> world \<Rightarrow> bool \<times> world" where
  "circuit_open de now e w =
     (if truthy_str (ei_model e)
      then (case should_circuit_break (env_health (de_env de)) now (the (ei_model e)) (w_tracker w) of
              (b, t) \<Rightarrow> (b, w\<lparr> w_tracker := t \<rparr>))
      else (False, w))"

definition settle_failure :: "denv \<Rightarrow> time \<Rightarrow> int \<Rightarrow> error_info \<Rightarrow> world \<Rightarrow> unit dact" where
  "settle_failure de now i e w =
     (case circuit_open de now e w of
        (True, w1) \<Rightarrow> escalate_or_fail de now i w1
      | (False, w1) \<Rightarrow>
          (case should_retry_arc (env_retry (de_env de)) (env_health (de_env de)) now (de_jitter de) i e
                  (w_db w1) (w_tracker w1) of
             (Inl x, t) \<Rightarrow> (Inl (Fault x), w1\<lparr> w_tracker := t \<rparr>)
           | (Inr r, t) \<Rightarrow>
               let w2 = w1\<lparr> w_tracker := t \<rparr> in
               if should_retry r then schedule_retry de now i e (backoff_seconds r) w2
               else give_up_arc de now i (escalate_on_exhaust r) w2))"

definition handle_failure :: "denv \<Rightarrow> time \<Rightarrow> int \<Rightarrow> chosen \<Rightarrow> fault \<Rightarrow> world \<Rightarrow> unit dact" where
  "handle_failure de now i ch f w =
     dbind (extract_error_info de i f w) (\<lambda>e w1.
       let w2 = record_call de now (or_text (ch_selected ch) (ei_model e)) (Some e) w1 in
       dbind (if ch_fallbacks ch \<noteq> [] \<and> is_provider_error (Some e)
              then try_fallback_models de now i ch w2 else (Inr False, w2)) (\<lambda>done w3.
         if done then (Inr (), w3) else settle_failure de now i e w3))"

section \<open>The attempt\<close>

definition fire_connectivity_degraded :: "denv \<Rightarrow> time \<Rightarrow> int \<Rightarrow> world \<Rightarrow> unit dact" where
  "fire_connectivity_degraded de now i w =
     (let d = w_db w;
          d1 = d\<lparr> events := snd (record_event now ''system.connectivity_degraded'' [(''arc_id'', JInt i)]
                                  None 0 None (events d)) \<rparr>
      in case dstatus de now i ''waiting'' (w\<lparr> w_db := notify ''normal'' ''connectivity'' d1 \<rparr>) of
           (Inl (Fault x), w2) \<Rightarrow> (if value_or_db_error x then Inr () else Inl (Fault x), w2)
         | r \<Rightarrow> r)"

datatype plan = Finished | Executed | Invoke agent_type "int option" string chosen

text \<open>\<open>dispatch_arc\<close> and what follows up to the choice of the model.\<close>

definition prepare :: "denv \<Rightarrow> time \<Rightarrow> int \<Rightarrow> world \<Rightarrow> plan dact" where
  "prepare de now i w =
     dbind (on_db (dispatch_arc (failure_hook (de_fmt de) (env_of de w)) (de_execute de) now i) w) (\<lambda>r w1.
       case r of
         ExecuteCode _ _ \<Rightarrow> (Inr Executed, w1)
       | InvokeAgent _ \<Rightarrow>
           let a = get_arc i (w_db w1);
               ag = (case a of Some r \<Rightarrow> aagent r | None \<Rightarrow> EXECUTOR);
               pol = (case a of Some r \<Rightarrow> model_policy_id r | None \<Rightarrow> None)
           in dbind (on_db (\<lambda>d. (render_goal (vc_steps (de_vcfg de)) (de_prompt de) i d, d)) w1) (\<lambda>g w2.
              let text = dflt (arc_goal i a) g in
              if ag = JUDGE then
                (case run_judge_checks (de_fmt de) (env_of de w2) (de_judge de) now i (w_db w2) of
                   (ok, d3) \<Rightarrow>
                     let w3 = w2\<lparr> w_db := d3 \<rparr> in
                     dbind (if ok then dfreeze de now i w3
                            else on_db (fail_judge_arc (de_fmt de) (env_of de w3) now i) w3) (\<lambda>_ w4.
                     dbind (dpropagate de now i w4) (\<lambda>_ w5. (Inr Finished, w5))))
              else
                dbind (if ag = REVIEWER
                       then on_db (try_inject_fetched_content (de_fmt de) (de_crypto de) (de_parse de) now (w_keys w2) i) w2
                       else (Inr False, w2)) (\<lambda>injected w3.
                  if injected then dbind (finish de now i w3) (\<lambda>_ w4. (Inr Finished, w4))
                  else
                    dbind (resolve_dispatch_model de now pol w3) (\<lambda>ch w4.
                      case ch of
                        None \<Rightarrow> dbind (fire_connectivity_degraded de now i w4) (\<lambda>_ w5. (Inr Finished, w5))
                      | Some c \<Rightarrow> (Inr (Invoke ag pol text c), w4)))))"

definition wake_goal :: "denv \<Rightarrow> bool \<Rightarrow> jdict \<Rightarrow> agent_type \<Rightarrow> string \<Rightarrow> string" where
  "wake_goal de wake pl ag text =
     (if ag = SUPERVISOR \<and> wake \<and> jtruthy (dget pl ''failure_summary'')
      then text @ [CHR 0x0A, CHR 0x0A] @ text_of (de_fmt de) (dget pl ''failure_summary'') else text)"

definition should_invoke :: "bool \<Rightarrow> agent_type \<Rightarrow> int option \<Rightarrow> chosen \<Rightarrow> bool" where
  "should_invoke wake ag pol ch = (ch_config ch \<noteq> None \<or> pol \<noteq> None \<or> ag = EXECUTOR \<or> ag = SUPERVISOR \<and> wake)"

text \<open>The end of an attempt: hand over the documentation, record the call of the model.\<close>

definition conclude_dispatch :: "denv \<Rightarrow> time \<Rightarrow> int \<Rightarrow> string option \<Rightarrow> world \<Rightarrow> unit dact" where
  "conclude_dispatch de now i selected w =
     dbind (case get_arc i (w_db w) of
              None \<Rightarrow> (Inr (), w)
            | Some a \<Rightarrow>
                if is_docs_arc (de_vcfg de) a
                then on_db (handle_docs_completed (de_fmt de) (env_of de w) now a) w else (Inr (), w)) (\<lambda>_ w1.
       if truthy_str selected then (Inr (), record_call de now selected None w1)
       else case (case get_arc i (w_db w1) of Some a \<Rightarrow> model_policy_id a | None \<Rightarrow> None) of
           None \<Rightarrow> (Inr (), w1)
         | Some p \<Rightarrow>
             if p = 0 then (Inr (), w1)
             else (case get_model_policy p (w_db w1) of
                     None \<Rightarrow> (Inr (), w1)
                   | Some row \<Rightarrow> (Inr (), record_call de now (p_model row) None w1)))"

definition invoke_plan :: "denv \<Rightarrow> time \<Rightarrow> int \<Rightarrow> bool \<Rightarrow> jdict \<Rightarrow> agent_type \<Rightarrow> int option \<Rightarrow> string \<Rightarrow> chosen \<Rightarrow> world \<Rightarrow> unit dact" where
  "invoke_plan de now i wake pl ag pol text ch w =
     dbind (if should_invoke wake ag pol ch
            then run_arc_agent de now i (wake_goal de wake pl ag text)
                   (find_arc_conversation (de_convs de) (de_linked de) i (w_db w)) (ch_config ch) w
            else (Inr (), w)) (\<lambda>_ w1.
     dbind (finish de now i w1) (\<lambda>_. conclude_dispatch de now i (ch_selected ch)))"

text \<open>\<open>try ... except Exception\<close>; what is known of the model when the exception comes.\<close>

definition attempt :: "denv \<Rightarrow> time \<Rightarrow> int \<Rightarrow> bool \<Rightarrow> jdict \<Rightarrow> world \<Rightarrow> unit dact" where
  "attempt de now i wake pl w =
     (case prepare de now i w of
        (Inl f, w1) \<Rightarrow> handle_failure de now i no_model f w1
      | (Inr Finished, w1) \<Rightarrow> (Inr (), w1)
      | (Inr Executed, w1) \<Rightarrow>
          (case dbind (finish de now i w1) (\<lambda>_. conclude_dispatch de now i None) of
             (Inl f, w2) \<Rightarrow> handle_failure de now i no_model f w2
           | r \<Rightarrow> r)
      | (Inr (Invoke ag pol text ch), w1) \<Rightarrow>
          (case invoke_plan de now i wake pl ag pol text ch w1 of
             (Inl f, w2) \<Rightarrow> handle_failure de now i ch f w2
           | r \<Rightarrow> r))"

section \<open>Recurring jobs\<close>

definition link_arc :: "denv \<Rightarrow> int \<Rightarrow> int \<Rightarrow> db \<Rightarrow> exn + db" where
  "link_arc de c i d =
     (if c \<notin> set (de_convs de) \<or> \<not> arc_exists i d then Inl (IntegrityError ''FOREIGN KEY'')
      else if (c, i) \<in> set (conv_arcs d) then Inr d
      else Inr (d\<lparr> conv_arcs := conv_arcs d @ [(c, i)] \<rparr>))"

definition link_json :: "denv \<Rightarrow> json \<Rightarrow> int \<Rightarrow> db \<Rightarrow> exn + db" where
  "link_json de v i d =
     (if \<not> jtruthy v then Inr d
      else case v of
        JInt c \<Rightarrow> link_arc de c i d
      | JBool b \<Rightarrow> link_arc de (if b then 1 else 0) i d
      | _ \<Rightarrow> Inl (IntegrityError ''binding''))"

definition clone_args :: "arc \<Rightarrow> int option \<Rightarrow> create_args" where
  "clone_args a p =
     (default_args (aname a))\<lparr> ca_goal := goal a, ca_parent := p, ca_integrity := integrity_value (ainteg a),
       ca_output := output_value (aoutput a), ca_agent := agent_value (aagent a), ca_policy := model_policy_id a,
       ca_timeout := timeout_minutes a \<rparr>"

text \<open>The profile of a reviewer, which is a text wherever it is written.\<close>

definition read_reviewer_profile :: "int \<Rightarrow> db \<Rightarrow> string option" where
  "read_reviewer_profile i d =
     (case state_cell i ''_reviewer_profile'' d of Some (Parsed (JStr s)) \<Rightarrow> Some s | _ \<Rightarrow> None)"

definition clone_spec :: "db \<Rightarrow> int \<Rightarrow> arc \<Rightarrow> spec" where
  "clone_spec d p c =
     \<lparr> bs_name = aname c, bs_goal = goal c, bs_parent = Some p, bs_integrity = integrity_value (ainteg c),
       bs_output = output_value (aoutput c), bs_agent = agent_value (aagent c), bs_order = Some (step_order c),
       bs_profile = read_reviewer_profile (aid c) d, bs_role = None, bs_policy = model_policy_id c,
       bs_policy_name = None, bs_code = None \<rparr>"

fun link_all :: "denv \<Rightarrow> json \<Rightarrow> int list \<Rightarrow> db \<Rightarrow> unit act" where
  "link_all de v [] d = (Inr (), d)"
| "link_all de v (i # is) d = abind (stmt (link_json de v i d) d) (\<lambda>_. link_all de v is)"

fun clone_children :: "denv \<Rightarrow> env \<Rightarrow> time \<Rightarrow> json \<Rightarrow> int \<Rightarrow> arc list \<Rightarrow> db \<Rightarrow> unit act" where
  "clone_children de env now v p [] d = (Inr (), d)"
| "clone_children de env now v p (c # cs) d =
     (case create_arc env now (clone_args c (Some p)) d of
        Inl e \<Rightarrow> (Inl e, d)
      | Inr (n, d1) \<Rightarrow> abind (stmt (link_json de v n d1) d1) (\<lambda>_. clone_children de env now v p cs))"

definition clone_batch :: "denv \<Rightarrow> time \<Rightarrow> json \<Rightarrow> int \<Rightarrow> arc list \<Rightarrow> world \<Rightarrow> (exn + bool) \<times> world" where
  "clone_batch de now v p cs w =
     (case handle_create_batch (de_batch de) now (map (clone_spec (w_db w) p) cs) (w_db w) (w_keys w) of
        (Inl e, d1, ks) \<Rightarrow> (Inl e, w\<lparr> w_db := d1, w_keys := ks \<rparr>)
      | (Inr (BatchError _), d1, ks) \<Rightarrow> (Inr False, w\<lparr> w_db := d1, w_keys := ks \<rparr>)
      | (Inr (BatchIds is _), d1, ks) \<Rightarrow>
          (case link_all de v is d1 of
             (Inl e, d2) \<Rightarrow> (Inl e, w\<lparr> w_db := d2, w_keys := ks \<rparr>)
           | (Inr _, d2) \<Rightarrow> (Inr True, w\<lparr> w_db := d2, w_keys := ks \<rparr>)))"

text \<open>\<open>except (ValueError, sqlite3.Error, KeyError)\<close> around all of it; the new arc, or none.\<close>

definition clone_body :: "denv \<Rightarrow> time \<Rightarrow> arc \<Rightarrow> json \<Rightarrow> world \<Rightarrow> (exn + int option) \<times> world" where
  "clone_body de now a v w =
     (case create_arc (env_of de w) now (clone_args a None) (w_db w) of
        Inl e \<Rightarrow> (Inl e, w)
      | Inr (n, d1) \<Rightarrow>
          (case link_json de v n d1 of
             Inl e \<Rightarrow> (Inl e, w\<lparr> w_db := d1 \<rparr>)
           | Inr d2 \<Rightarrow>
               let cs = get_children (aid a) d2; w2 = w\<lparr> w_db := d2 \<rparr> in
               if list_ex (\<lambda>c. is_non_trusted (ainteg c)) cs then
                 (case clone_batch de now v n cs w2 of
                    (Inl e, w3) \<Rightarrow> (Inl e, w3)
                  | (Inr ok, w3) \<Rightarrow> (Inr (if ok then Some n else None), w3))
               else
                 (case clone_children de (env_of de w) now v n cs d2 of
                    (Inl e, d3) \<Rightarrow> (Inl e, w\<lparr> w_db := d3 \<rparr>)
                  | (Inr _, d3) \<Rightarrow> (Inr (Some n), w\<lparr> w_db := d3 \<rparr>))))"

definition clone_arc_for_cron :: "denv \<Rightarrow> time \<Rightarrow> arc \<Rightarrow> json \<Rightarrow> world \<Rightarrow> int option dact" where
  "clone_arc_for_cron de now a v w =
     (if is_non_trusted (ainteg a) then (Inr None, w)
      else case clone_body de now a v w of
        (Inl e, w1) \<Rightarrow> (if caught_by_root_handler e then Inr None else Inl (Fault e), w1)
      | (Inr r, w1) \<Rightarrow> (Inr r, w1))"

section \<open>The handler\<close>

definition event_field :: "jdict \<Rightarrow> string \<Rightarrow> exn + json" where
  "event_field pl k =
     (let v = dget pl ''event_payload'' in
      if \<not> jtruthy v then Inr JNull
      else case v of JObj ps \<Rightarrow> Inr (dget ps k) | _ \<Rightarrow> Inl (AttributeError ''get''))"

definition requested_arc :: "jdict \<Rightarrow> exn + int option" where
  "requested_arc pl =
     xbind (if dget pl ''arc_id'' = JNull then event_field pl ''arc_id''
            else Inr (dget pl ''arc_id'')) (\<lambda>v.
       let v1 = (case v of JObj ps \<Rightarrow> (case jget ps ''arc_id'' of Some x \<Rightarrow> x | None \<Rightarrow> v) | _ \<Rightarrow> v)
       in Inr (case v1 of JInt i \<Rightarrow> Some i | JBool b \<Rightarrow> Some (if b then 1 else 0) | _ \<Rightarrow> None))"

definition is_judge_arc :: "vconfig \<Rightarrow> arc \<Rightarrow> bool" where
  "is_judge_arc cfg a = (case step_role a of Some r \<Rightarrow> r = ''judge'' | None \<Rightarrow> aname a = vc_judge cfg)"

text \<open>\<open>get_template\<close>: a row whose steps are no JSON list or dict makes it raise.\<close>

definition template_for :: "denv \<Rightarrow> int \<Rightarrow> db \<Rightarrow> exn + string option" where
  "template_for de t d =
     (case map_of (templates d) t of
        None \<Rightarrow> Inr None
      | Some nm \<Rightarrow>
          (case vc_steps (de_vcfg de) t of
             Some (Malformed _) \<Rightarrow> Inl (ValueError ''JSON'')
           | Some (Parsed (JList _)) \<Rightarrow> Inr (Some nm)
           | Some (Parsed (JObj _)) \<Rightarrow> Inr (Some nm)
           | Some (Parsed _) \<Rightarrow> Inl (AttributeError ''get'')
           | None \<Rightarrow> Inr (Some nm)))"

definition lookup_step_handler :: "denv \<Rightarrow> string \<Rightarrow> string \<Rightarrow> (int \<Rightarrow> arc \<Rightarrow> world \<Rightarrow> unit dact) option" where
  "lookup_step_handler de tn role = (if tn = [] \<or> role = [] then None else de_handler de tn role)"

definition step_handler :: "denv \<Rightarrow> arc \<Rightarrow> db \<Rightarrow> exn + (int \<Rightarrow> arc \<Rightarrow> world \<Rightarrow> unit dact) option" where
  "step_handler de a d =
     (case template_id a of
        None \<Rightarrow> Inr None
      | Some t \<Rightarrow>
          if t = 0 \<or> \<not> truthy_str (step_role a) \<and> aname a = [] then Inr None
          else xbind (template_for de t d) (\<lambda>tn.
            case tn of
              None \<Rightarrow> Inr None
            | Some nm \<Rightarrow>
                Inr (case (if truthy_str (step_role a) then lookup_step_handler de nm (the (step_role a)) else None) of
                       Some h \<Rightarrow> Some h
                     | None \<Rightarrow> lookup_step_handler de nm (aname a))))"

text \<open>An arc that can be dispatched: who takes it.\<close>

definition route_arc :: "denv \<Rightarrow> string \<Rightarrow> time \<Rightarrow> int \<Rightarrow> arc \<Rightarrow> jdict \<Rightarrow> world \<Rightarrow> unit dact" where
  "route_arc de ts now i a pl w =
     (if starts_with (aname a) CODING_CHANGE_PREFIX then (Inr (), w)
      else if is_judge_arc (de_vcfg de) a
      then on_db (handle_judge_verification (de_vcfg de) (de_fmt de) (env_of de w) (de_jitter de) ts now i a) w
      else dbind (on_db (\<lambda>d. (step_handler de a d, d)) w) (\<lambda>h w1.
        case h of
          Some f \<Rightarrow> f i a w1
        | None \<Rightarrow>
            let wake = jtruthy (dget pl ''supervisor_wake'') in
            if \<not> wake \<and> aagent a = SUPERVISOR then (Inr (), w1)
            else attempt de now i wake pl w1))"

definition handle_arc_dispatch :: "denv \<Rightarrow> time \<Rightarrow> jdict \<Rightarrow> world \<Rightarrow> unit dact" where
  "handle_arc_dispatch de now pl w =
     dbind (on_db (\<lambda>d. (requested_arc pl, d)) w) (\<lambda>r w0.
       case r of
         None \<Rightarrow> (Inr (), w0)
       | Some i \<Rightarrow>
           let cron = (jget pl ''cron_id'' \<noteq> None) in
           dbind (on_db (\<lambda>d. (if cron then event_field pl ''conversation_id'' else Inr JNull, d)) w0) (\<lambda>v w1.
           dbind (on_db (\<lambda>d. stmt (link_json de v i d) d) w1) (\<lambda>_ w2.
             case get_arc i (w_db w2) of
               None \<Rightarrow> (Inr (), w2)
             | Some a \<Rightarrow>
                 if live_status (astatus a) then route_arc de (de_stamp de) now i a pl w2
                 else if cron \<and> (astatus a = Completed \<or> astatus a = Failed)
                 then dbind (clone_arc_for_cron de now a v w2) (\<lambda>n w3.
                   case n of
                     None \<Rightarrow> (Inr (), w3)
                   | Some k \<Rightarrow>
                       (case get_arc k (w_db w3) of
                          None \<Rightarrow> (Inl (Fault (AttributeError ''get'')), w3)
                        | Some b \<Rightarrow> route_arc de (de_stamp de) now k b pl w3))
                 else (Inr (), w2))))"

section \<open>Facts\<close>

lemma dbind_simps [simp]: "dbind (Inl e, w) f = (Inl e, w)" "dbind (Inr x, w) f = f x w"
  by (simp_all add: dbind_def)

lemma dbind_Inr: "dbind m f = (Inr y, w') \<longleftrightarrow> (\<exists>x w1. m = (Inr x, w1) \<and> f x w1 = (Inr y, w'))"
  by (cases m) (auto simp: dbind_def split: sum.splits)

lemma on_db_Inr:
  "on_db f w = (Inr x, w') \<longleftrightarrow> (\<exists>d'. f (w_db w) = (Inr x, d') \<and> w' = w\<lparr> w_db := d' \<rparr>)"
  by (cases "f (w_db w)"; cases "fst (f (w_db w))") (auto simp: on_db_def)

lemma on_db_Inl:
  "on_db f w = (Inl y, w') \<longleftrightarrow> (\<exists>e d'. f (w_db w) = (Inl e, d') \<and> y = Fault e \<and> w' = w\<lparr> w_db := d' \<rparr>)"
  by (cases "f (w_db w)"; cases "fst (f (w_db w))") (auto simp: on_db_def)

lemma record_call_db [simp]: "w_db (record_call de now m e w) = w_db w"
  by (simp add: record_call_def)

subsection \<open>Failure\<close>

text \<open>The arc is not running any more: it waits with a dispatch in the queue, or it is over.\<close>

definition settled :: "time \<Rightarrow> int \<Rightarrow> db \<Rightarrow> bool" where
  "settled now i d \<longleftrightarrow> (\<exists>b. find_arc i d = Some b \<and>
     (astatus b = Waiting \<and> live_key (retry_key now i) (queue d) \<or> astatus b = Failed \<or> astatus b = Escalated))"

definition over :: "int \<Rightarrow> db \<Rightarrow> bool" where
  "over i d \<longleftrightarrow> wf_tree (arcs d) \<and> (\<exists>b. find_arc i d = Some b \<and> (astatus b = Failed \<or> astatus b = Escalated))"

lemma over_settled: "over i d \<Longrightarrow> settled now i d"
  by (auto simp: over_def settled_def)

lemma over_ev: "over i d \<Longrightarrow> ev d d' \<Longrightarrow> over i d'"
  unfolding over_def evolves_def row_evolves_def using move_failed by blast

lemma over_arcs: "over i d \<Longrightarrow> arcs d' = arcs d \<Longrightarrow> over i d'"
  by (simp add: over_def)

lemma fail_over:
  assumes "update_status fmt env now i ''failed'' ''system'' d = Inr d'" "wf_tree (arcs d)"
  shows "over i d'"
proof -
  obtain a' where "find_arc i d' = Some a'" "arc_life.move\<^sup>*\<^sup>* Failed (astatus a')"
    by (rule update_status_row [OF assms, of Failed]) simp_all
  moreover have "wf_tree (arcs d')" using ev_update_status [OF assms(1)] assms(2) by (simp add: evolves_def)
  ultimately show ?thesis using move_failed by (auto simp: over_def)
qed

text \<open>An escalation that made a new arc has moved the old one.\<close>

lemma replace_over:
  assumes "replace_arc env now i ca reason d = (Inr n, d')" "find_arc i d = Some a" "astatus a = Active"
    and "wf_tree (arcs d)"
  shows "over i d'"
proof -
  obtain m d1 where c: "create_arc env now ca d = Inr (m, d1)"
    using assms(1) by (auto simp: replace_arc_def split: sum.splits prod.splits)
  have e: "ev d d1" by (rule ev_create_arc [OF c])
  obtain r ag ot ro po d0 where "arcs d1 = arcs d @ [r]"
    by (rule create_arc_row [OF c])
  then have f: "find_arc i d1 = Some a" using assms(2) by (simp add: find_row_append)
  have wf: "wf_tree (arcs d1)" using e assms(4) by (simp add: evolves_def)
  obtain d2 where q: "update_status_quiet now i ''escalated'' ''system'' d1 = Inr d2"
    "arcs d2 = upd_row aid i (mark_status now Escalated) (arcs d1)"
    by (rule quiet_escalates [OF f]) (use assms(3) in simp_all)
  have "over i d2"
    using ev_quiet [OF q(1)] wf f q(2) by (auto simp: over_def evolves_def find_row_upd_row mark_status_def)
  moreover have "arcs d' = arcs d2"
    using assms(1) c q(1) by (auto simp: replace_arc_def dest!: insert_state_frame grant_frame split: sum.splits prod.splits)
  ultimately show ?thesis using over_arcs by blast
qed

lemma escalate_over:
  assumes "escalate_to_next_model env now i d = (Inr (Some n), d')" "find_arc i d = Some a" "astatus a = Active"
    and "wf_tree (arcs d)"
  shows "over i d'"
proof -
  obtain m where e: "escalate_arc env now i m d = (Inr (Some n), d')"
    using assms(1) by (auto simp: escalate_to_next_model_def Let_def split: option.splits if_splits)
  obtain po d1 k where r: "get_or_create_model_policy now (Some m) None None None None None d = (po, d1)"
    "replace_arc env now i (sibling_args a (aname a @ '' (escalated)'') po) ''Platform escalation'' d1 = (Inr k, d')"
    using e assms(2) by (auto simp: escalate_arc_def get_arc_def Let_def split: prod.splits sum.splits)
  have "arcs d1 = arcs d" using get_or_create_frame [OF r(1)] by simp
  then show ?thesis using replace_over [OF r(2), of a] assms(2-4) by simp
qed

lemma docs_ev: "handle_failed_docs_arc cfg fmt env now i d = (Inr u, d') \<Longrightarrow> ev d d'"
  by (auto simp: handle_failed_docs_arc_def enqueue_ext_post_verification_def abind_Inr stmt_Inr set_arc_state_def read_state_def
      split: option.splits if_splits dest!: notify_chat_same dest: ev_update_status)

lemma escalate_or_fail_over:
  assumes "escalate_or_fail de now i w = (Inr (), w')" "find_arc i (w_db w) = Some a" "astatus a = Active"
    and "wf_tree (arcs (w_db w))"
  shows "over i (w_db w')"
proof -
  obtain r d1 where r: "escalate_to_next_model (env_of de w) now i (w_db w) = (r, d1)" by fastforce
  have wf: "wf_tree (arcs d1)" using ev_escalateD(2) [OF r] assms(4) by (simp add: evolves_def)
  show ?thesis
  proof (cases "\<exists>n. r = Inr (Some n)")
    case True
    then have "w_db w' = d1" using assms(1) r by (auto simp: escalate_or_fail_def dbind_Inr on_db_Inr)
    then show ?thesis using True r escalate_over assms(2-4) by blast
  next
    case False
    then have "update_status (de_fmt de) (env_of de (w\<lparr> w_db := d1 \<rparr>)) now i ''failed'' ''system'' d1 = Inr (w_db w')"
      using assms(1) r by (auto simp: escalate_or_fail_def dbind_Inr on_db_Inr stmt_Inr split: sum.splits if_splits option.splits)
    then show ?thesis by (rule fail_over) (rule wf)
  qed
qed

lemma give_up_arc_over:
  assumes "give_up_arc de now i esc w = (Inr (), w')" "find_arc i (w_db w) = Some a" "astatus a = Active"
    and "wf_tree (arcs (w_db w))"
  shows "over i (w_db w')"
proof -
  let ?w = "w\<lparr> w_db := notify ''normal'' ''retry_exhausted'' (w_db w) \<rparr>"
  obtain w1 where w1: "(if esc then escalate_or_fail de now i ?w else dstatus de now i ''failed'' ?w) = (Inr (), w1)"
    "failed_docs de now i w1 = (Inr (), w')"
    using assms(1) by (auto simp: give_up_arc_def Let_def dbind_Inr)
  have "over i (w_db w1)"
  proof (cases esc)
    case True
    then show ?thesis using escalate_or_fail_over [of de now i ?w w1 a] w1(1) assms(2-4) by simp
  next
    case False
    then show ?thesis using w1(1) assms(4) by (auto simp: on_db_Inr stmt_Inr intro: fail_over)
  qed
  moreover have "ev (w_db w1) (w_db w')" using w1(2) by (auto simp: failed_docs_def on_db_Inr dest: docs_ev)
  ultimately show ?thesis by (rule over_ev)
qed

lemma schedule_retry_settled:
  assumes "schedule_retry de now i e wait w = (Inr (), w')" "find_arc i (w_db w) = Some a" "astatus a = Active"
  shows "settled now i (w_db w')"
proof -
  obtain d1 where d1: "record_retry_attempt now i e wait (w_db w) = Inr d1"
    using assms(1) by (auto simp: schedule_retry_def dbind_Inr on_db_Inr stmt_Inr)
  have "arcs d1 = arcs (w_db w)" using record_retry_frame [OF d1] by simp
  then have f: "find_arc i d1 = Some a" using assms(2) by simp
  let ?w1 = "w\<lparr> w_db := d1 \<rparr>"
  obtain d2 where d2: "update_status (de_fmt de) (env_of de ?w1) now i ''waiting'' ''system'' d1 = Inr d2"
    "arcs d2 = upd_row aid i (mark_status now Waiting) (arcs d1)"
    using plain_update [OF f, of "''waiting''" Waiting "de_fmt de" "env_of de ?w1" now "''system''"] assms(3) by auto
  have w': "w_db w' = reenqueue_arc_dispatch now i wait d2"
    using assms(1) d1 d2(1) by (auto simp: schedule_retry_def dbind_Inr on_db_def)
  have "live_key (retry_key now i) (queue (w_db w'))" by (simp add: w' reenqueue_arc_dispatch_def enqueue_live)
  moreover have "find_arc i (w_db w') = Some (mark_status now Waiting a)"
    using f d2(2) by (simp add: w' reenqueue_arc_dispatch_def find_row_upd_row)
  ultimately show ?thesis by (simp add: settled_def mark_status_def)
qed

lemma settle_failure_settled:
  assumes "settle_failure de now i e w = (Inr (), w')" "find_arc i (w_db w) = Some a" "astatus a = Active"
    and "wf_tree (arcs (w_db w))"
  shows "settled now i (w_db w')"
proof -
  obtain b w1 where c: "circuit_open de now e w = (b, w1)" by fastforce
  have d: "w_db w1 = w_db w" using c by (auto simp: circuit_open_def split: if_splits prod.splits)
  show ?thesis
  proof (cases b)
    case True
    then show ?thesis using assms c d escalate_or_fail_over [of de now i w1 w' a] over_settled
      by (simp add: settle_failure_def)
  next
    case False
    then obtain r :: retry_decision and t where "should_retry_arc (env_retry (de_env de)) (env_health (de_env de)) now (de_jitter de) i e
        (w_db w1) (w_tracker w1) = (Inr r, t)" and
      r: "(if should_retry r then schedule_retry de now i e (backoff_seconds r) (w1\<lparr> w_tracker := t \<rparr>)
         else give_up_arc de now i (escalate_on_exhaust r) (w1\<lparr> w_tracker := t \<rparr>)) = (Inr (), w')"
      using assms(1) c by (auto simp: settle_failure_def Let_def split: sum.splits prod.splits if_splits)
    show ?thesis
    proof (cases "should_retry r")
      case True
      then show ?thesis using r d assms(2,3) schedule_retry_settled [of de now i e _ "w1\<lparr> w_tracker := t \<rparr>" w' a] by simp
    next
      case False
      then show ?thesis using r d assms(2-4) give_up_arc_over [of de now i _ "w1\<lparr> w_tracker := t \<rparr>" w' a] over_settled by simp
    qed
  qed
qed

lemma handle_failure_settled:
  assumes "handle_failure de now i ch f w = (Inr (), w')" "ch_fallbacks ch = []"
    and "find_arc i (w_db w) = Some a" "astatus a = Active" "wf_tree (arcs (w_db w))"
  shows "settled now i (w_db w')"
proof -
  obtain e w1 where e: "extract_error_info de i f w = (Inr e, w1)"
    using assms(1) by (auto simp: handle_failure_def dbind_Inr)
  have "w_db w1 = w_db w" using e by (auto simp: extract_error_info_def split: option.splits)
  moreover have "settle_failure de now i e (record_call de now (or_text (ch_selected ch) (ei_model e)) (Some e) w1) = (Inr (), w')"
    using assms(1,2) e by (simp add: handle_failure_def Let_def)
  ultimately show ?thesis using settle_failure_settled [where a = a] assms(3-5) by simp
qed

subsection \<open>The agent\<close>

text \<open>An error result of the agent is raised, and the rows of the arcs are those the agent left.\<close>

lemma error_reply_raised:
  assumes "arc_message de i text conv (w_db w) = Inr msg"
    and "de_agent de i msg conv (case cfg of Some m \<Rightarrow> m | None \<Rightarrow> None) w = (r, w1)"
    and "\<And>a. r = Inr a \<Longrightarrow> ar_error a \<noteq> None"
  shows "\<exists>f w2. run_arc_agent de now i text conv cfg w = (Inl f, w2) \<and> arcs (w_db w2) = arcs (w_db w1)"
proof (cases r)
  case (Inl x)
  then show ?thesis using assms(1,2) by (simp add: run_arc_agent_def on_db_def)
next
  case (Inr a)
  then obtain m where m: "ar_error a = Some m" using assms(3) by blast
  show ?thesis
  proof (cases "store_response now i (ar_text a) (w_db w1)")
    case (Inl e)
    then show ?thesis using assms(1,2) Inr by (simp add: run_arc_agent_def on_db_def)
  next
    case s: (Inr d)
    then have "arcs d = arcs (w_db w1)" by (auto simp: store_response_def split: if_splits)
    then show ?thesis using assms(1,2) Inr s m by (simp add: run_arc_agent_def on_db_def reply_error_def)
  qed
qed

subsection \<open>Clones\<close>

lemma clone_args_sel [simp]:
  "ca_parent (clone_args a p) = p" "ca_step_order (clone_args a p) = 0" "ca_goal (clone_args a p) = goal a"
  by (simp_all add: clone_args_def default_args_def)

lemma link_json_arcs: "link_json de v i d = Inr d' \<Longrightarrow> arcs d' = arcs d"
  by (auto simp: link_json_def link_arc_def split: if_splits json.splits)

lemma clone_children_rows:
  "clone_children de env now v p cs d = (Inr u, d') \<Longrightarrow>
     \<exists>bs. arcs d' = arcs d @ bs \<and> length bs = length cs \<and> (\<forall>b \<in> set bs. parent_id b = Some p \<and> step_order b = 0)"
proof (induction cs arbitrary: d)
  case (Cons c cs)
  obtain n d1 d2 where c: "create_arc env now (clone_args c (Some p)) d = Inr (n, d1)" "link_json de v n d1 = Inr d2"
    "clone_children de env now v p cs d2 = (Inr u, d')"
    using Cons.prems by (auto simp: abind_Inr stmt_Inr split: sum.splits)
  obtain b ag ot ro po d0 where b: "arcs d1 = arcs d @ [b]" "b = new_arc_row now (clone_args c (Some p)) TRUSTED ot ag ro po d0"
    by (rule create_arc_row [OF c(1)])
  obtain bs where "arcs d' = arcs d2 @ bs" "length bs = length cs" "\<forall>b \<in> set bs. parent_id b = Some p \<and> step_order b = 0"
    using Cons.IH [OF c(3)] by blast
  then show ?case using b link_json_arcs [OF c(2)] by (intro exI [of _ "b # bs"]) simp
qed simp

lemma no_children_new: "wf_tree as \<Longrightarrow> a \<in> set as \<Longrightarrow> parent_id a \<noteq> Some (next_rowid aid as)"
  by (auto simp: wf_tree_def)

lemma no_order_no_wait:
  assumes "\<And>b. b \<in> set (arcs d) \<Longrightarrow> parent_id b = Some p \<Longrightarrow> step_order b = 0" "find_arc i d = Some a" "parent_id a = Some p"
  shows "check_dependencies i d"
  using assms by (auto simp: check_dependencies_def preceding_siblings_def list_all_iff dest: find_row_in)

lemma create_arc_ids:
  assumes "create_arc env now ca d = Inr (n, d')" "wf_ids aid (arcs d)"
  shows "wf_ids aid (arcs d')"
  by (rule create_arc_row [OF assms(1)]) (use assms(2) in \<open>simp add: wf_ids_insert\<close>)

lemma clone_children_ids:
  "clone_children de env now v p cs d = (Inr u, d') \<Longrightarrow> wf_ids aid (arcs d) \<Longrightarrow> wf_ids aid (arcs d')"
proof (induction cs arbitrary: d)
  case (Cons c cs)
  obtain n d1 d2 where c: "create_arc env now (clone_args c (Some p)) d = Inr (n, d1)" "link_json de v n d1 = Inr d2"
    "clone_children de env now v p cs d2 = (Inr u, d')"
    using Cons.prems by (auto simp: abind_Inr stmt_Inr split: sum.splits)
  show ?case
    using Cons.IH [OF c(3)] create_arc_ids [OF c(1) Cons.prems(2)] link_json_arcs [OF c(2)] by simp
qed simp

text \<open>What the clone of an arc with trusted children looks like.\<close>

lemma clone_body_rows:
  assumes "clone_body de now a v w = (Inr (Some n), w')" "wf_tree (arcs (w_db w))"
    and "\<forall>c \<in> set (arcs (w_db w)). parent_id c = Some (aid a) \<longrightarrow> ainteg c = TRUSTED" "find_arc (aid a) (w_db w) = Some a"
  shows "\<exists>r bs. arcs (w_db w') = arcs (w_db w) @ r # bs \<and> aid r = n \<and> n = next_rowid aid (arcs (w_db w)) \<and>
    parent_id r = None \<and> length bs = length (children_rows (arcs (w_db w)) (aid a)) \<and>
    (\<forall>b \<in> set bs. parent_id b = Some n \<and> step_order b = 0) \<and> wf_ids aid (arcs (w_db w'))"
proof -
  let ?d = "w_db w"
  obtain m d1 d2 where c: "create_arc (env_of de w) now (clone_args a None) ?d = Inr (m, d1)" "link_json de v m d1 = Inr d2"
    using assms(1) by (auto simp: clone_body_def split: sum.splits prod.splits)
  obtain r ag ot ro po d0 where r: "arcs d1 = arcs ?d @ [r]" "aid r = m" "m = next_rowid aid (arcs ?d)"
    "r = new_arc_row now (clone_args a None) TRUSTED ot ag ro po d0"
    by (rule create_arc_row [OF c(1)])
  have p: "parent_id r = None" using r(4) by simp
  have cs: "children_rows (arcs d2) (aid a) = children_rows (arcs ?d) (aid a)"
    using link_json_arcs [OF c(2)] r(1) p by (simp add: children_rows_def)
  have "\<not> list_ex (\<lambda>c. is_non_trusted (ainteg c)) (get_children (aid a) d2)"
    using assms(3) cs by (auto simp: list_ex_iff get_children_def children_rows_def is_non_trusted_def)
  then obtain d3 u where d3: "clone_children de (env_of de w) now v m (get_children (aid a) d2) d2 = (Inr u, d3)"
    "n = m" "w_db w' = d3"
    using assms(1) c by (auto simp: clone_body_def Let_def split: sum.splits prod.splits)
  obtain bs where bs: "arcs d3 = arcs d2 @ bs" "length bs = length (get_children (aid a) d2)"
    "\<forall>b \<in> set bs. parent_id b = Some m \<and> step_order b = 0"
    using clone_children_rows [OF d3(1)] by blast
  have "length (get_children (aid a) d2) = length (children_rows (arcs ?d) (aid a))"
    using cs by (simp add: get_children_def)
  moreover have "wf_ids aid (arcs d3)"
    using clone_children_ids [OF d3(1)] create_arc_ids [OF c(1)] link_json_arcs [OF c(2)] assms(2) by (simp add: wf_tree_def)
  ultimately show ?thesis using r p bs d3 link_json_arcs [OF c(2)] by (intro exI [of _ r] exI [of _ bs]) simp
qed

lemma unprofiled_refused:
  "s \<in> set ss \<Longrightarrow> is_reviewer s \<Longrightarrow> \<not> truthy_str (role_name s) \<Longrightarrow> check_roles roles ss \<noteq> None"
  by (induction ss) auto

text \<open>A clone whose children cannot be rebuilt leaves its new root behind, ready to be dispatched.\<close>

lemma failed_clone_leaves_root:
  assumes "ainteg a = TRUSTED" "create_arc (env_of de w) now (clone_args a None) (w_db w) = Inr (n, d1)"
    and "link_json de v n d1 = Inr d2" "c \<in> set (get_children (aid a) d2)" "ainteg c \<noteq> TRUSTED"
    and "r \<in> set (get_children (aid a) d2)" "reviews r" "state_cell (aid r) ''_reviewer_profile'' d2 = None"
  shows "clone_arc_for_cron de now a v w = (Inr None, w\<lparr> w_db := d2 \<rparr>)" "\<exists>b \<in> set (arcs d2). aid b = n \<and> parent_id b = None"
proof -
  let ?cs = "get_children (aid a) d2" and ?w = "w\<lparr> w_db := d2 \<rparr>"
  let ?ss = "map (clone_spec d2 n) ?cs"
  have s: "is_reviewer (clone_spec d2 n r)" "\<not> truthy_str (role_name (clone_spec d2 n r))"
    using assms(7,8) by (auto simp: is_reviewer_def clone_spec_def reviews_def role_name_def read_reviewer_profile_def truthy_str_def)
  have ne: "check_roles (be_roles (de_batch de)) ?ss \<noteq> None"
    by (rule unprofiled_refused [OF _ s]) (use assms(6) in simp)
  moreover have cs: "?cs \<noteq> []" using assms(6) by (metis empty_iff empty_set)
  moreover have "list_all (\<lambda>s. bs_parent s = bs_parent (hd ?ss)) ?ss"
    using cs by (simp add: list_all_iff clone_spec_def hd_map)
  ultimately have "clone_batch de now v n ?cs ?w = (Inr False, ?w)"
    by (auto simp: clone_batch_def handle_create_batch_def)
  moreover have "list_ex (\<lambda>c. is_non_trusted (ainteg c)) ?cs"
    using assms(4,5) by (auto simp: list_ex_iff is_non_trusted_def)
  ultimately show "clone_arc_for_cron de now a v w = (Inr None, ?w)"
    using assms(1-3) by (simp add: clone_arc_for_cron_def clone_body_def is_non_trusted_def)
  obtain b ag ot ro po d0 where "arcs d1 = arcs (w_db w) @ [b]" "aid b = n"
    "b = new_arc_row now (clone_args a None) TRUSTED ot ag ro po d0"
    by (rule create_arc_row [OF assms(2)])
  then show "\<exists>b \<in> set (arcs d2). aid b = n \<and> parent_id b = None"
    using link_json_arcs [OF assms(3)] by auto
qed

text \<open>Executed code counts as a successful call of the model that the arc's policy names.\<close>

lemma code_counts_as_model_call:
  assumes "get_arc i (w_db w) = Some a" "\<not> is_docs_arc (de_vcfg de) a" "model_policy_id a = Some p" "p \<noteq> 0"
    and "get_model_policy p (w_db w) = Some row" "p_model row = Some m" "m \<noteq> []"
  shows "conclude_dispatch de now i None w =
    (Inr (), w\<lparr> w_tracker := record_model_call (env_health (de_env de)) now m True None None (w_tracker w) \<rparr>)"
  using assms by (simp add: conclude_dispatch_def record_call_def truthy_str_def)

section \<open>Properties\<close>



text \<open>A recurring plan loses its order. When a finished arc with trusted children is cloned for a
  recurring job, the clone has as many children as the original, but all at step 0, so that none
  of them waits for another, whatever the order of the originals was.\<close>

theorem cron_clone_unordered:
  assumes "clone_body de now a v w = (Inr (Some n), w')" "wf_tree (arcs (w_db w))" "find_arc (aid a) (w_db w) = Some a"
    and "\<forall>c \<in> set (arcs (w_db w)). parent_id c = Some (aid a) \<longrightarrow> ainteg c = TRUSTED"
  shows "length (children_rows (arcs (w_db w')) n) = length (children_rows (arcs (w_db w)) (aid a)) \<and>
    (\<forall>c \<in> set (children_rows (arcs (w_db w')) n). step_order c = 0 \<and> check_dependencies (aid c) (w_db w'))"
proof -
  obtain r bs where r: "arcs (w_db w') = arcs (w_db w) @ r # bs" "n = next_rowid aid (arcs (w_db w))" "parent_id r = None"
    "length bs = length (children_rows (arcs (w_db w)) (aid a))" "\<forall>b \<in> set bs. parent_id b = Some n \<and> step_order b = 0"
    "wf_ids aid (arcs (w_db w'))"
    using clone_body_rows [OF assms(1,2,4,3)] by blast
  have old: "parent_id c \<noteq> Some n" if "c \<in> set (arcs (w_db w))" for c
    using no_children_new [OF assms(2) that] r(2) by simp
  have rows: "children_rows (arcs (w_db w')) n = bs"
    using r old by (auto simp: children_rows_def filter_empty_conv filter_id_conv)
  have zero: "step_order b = 0" if "b \<in> set (arcs (w_db w'))" "parent_id b = Some n" for b
    using that r old by auto
  have "check_dependencies (aid c) (w_db w')" if c: "c \<in> set bs" for c
  proof -
    have "find_arc (aid c) (w_db w') = Some c"
      using find_row_distinct [OF r(6), of c] c r(1) by simp
    from no_order_no_wait [OF zero this] show ?thesis using c r(5) by blast
  qed
  then show ?thesis using rows r(4,5) by simp
qed

section \<open>Witnesses\<close>

text \<open>An arc that runs, and an agent whose call fails with a time-out.\<close>

definition demo_de :: denv where
  "demo_de = \<lparr> de_env = demo_env, de_fmt = demo_fmt, de_vcfg = demo_vconfig, de_judge = demo_je, de_convs = [5],
     de_linked = fst, de_execute = (\<lambda>_ _ d. (Inr JNull, d)),
     de_agent = (\<lambda>_ _ _ _ w. (Inl \<lparr> x_type = ''ReadTimeout'', x_text = ''timed out'', x_status = None, x_response = None \<rparr>, w)),
     de_handler = (\<lambda>_ _. None), de_prompt = (\<lambda>_ _ _. Inr ''p''), de_template = (\<lambda>_ _. Inr ''run''),
     de_crypto = \<lparr> cr_available = True, cr_fernet = (\<lambda>_ _ s. Inr s) \<rparr>, de_parse = (\<lambda>s. Malformed s),
     de_batch = demo_be, de_text = (\<lambda>_. []), de_float = (\<lambda>_. None), de_logged = (\<lambda>_. None),
     de_stamp = ''t'', de_jitter = 0 \<rparr>"

definition demo_run :: world where
  "demo_run = \<lparr> w_db = empty_db\<lparr> arcs := [(blank_arc 1)\<lparr> astatus := Active \<rparr>] \<rparr>, w_tracker = empty_tracker, w_keys = [] \<rparr>"

lemma demo_run_prepared:
  "\<exists>w1. prepare demo_de 7 1 demo_run = (Inr (Invoke EXECUTOR None ''a'' no_model), w1) \<and>
     arcs (w_db w1) = arcs (w_db demo_run) \<and> conv_arcs (w_db w1) = [] \<and> state (w_db w1) = []"
  by (simp add: prepare_def on_db_def demo_run_def dispatch_arc_def empty_db_def live_status_def add_history_def blank_arc_def
    render_goal_def get_arc_state_def state_cell_def get_arc_def resolve_dispatch_model_def arc_goal_def truthy_str_def Let_def
    arc_exists_def dflt_def log_history_def no_model_def)

lemma demo_run_returns: "\<not> isl (fst (attempt demo_de 7 1 False [] demo_run))"
  by code_simp



text \<open>A plan of two steps, to be run again.\<close>

definition demo_plan :: world where
  "demo_plan = \<lparr> w_db = empty_db\<lparr> arcs := [blank_arc 1, (blank_arc 2)\<lparr> parent_id := Some 1, step_order := 0 \<rparr>,
     (blank_arc 3)\<lparr> parent_id := Some 1, step_order := 1 \<rparr>] \<rparr>, w_tracker = empty_tracker, w_keys = [] \<rparr>"

lemma demo_plan_cloned:
  "case clone_body demo_de 7 (blank_arc 1) JNull demo_plan of
     (Inl _, _) \<Rightarrow> False | (Inr r, _) \<Rightarrow> r = Some 4"
  by code_simp

theorem cron_clone_unordered_witness:
  "\<exists>w'. clone_body demo_de 7 (blank_arc 1) JNull demo_plan = (Inr (Some 4), w') \<and>
     length (children_rows (arcs (w_db w')) 4) = 2 \<and> (\<forall>c \<in> set (children_rows (arcs (w_db w')) 4). step_order c = 0)"
proof -
  obtain w' where w': "clone_body demo_de 7 (blank_arc 1) JNull demo_plan = (Inr (Some 4), w')"
    using demo_plan_cloned by (auto split: prod.splits sum.splits)
  have "wf_tree (arcs (w_db demo_plan))" "find_arc (aid (blank_arc 1)) (w_db demo_plan) = Some (blank_arc 1)"
    "\<forall>c \<in> set (arcs (w_db demo_plan)). parent_id c = Some (aid (blank_arc 1)) \<longrightarrow> ainteg c = TRUSTED"
    "length (children_rows (arcs (w_db demo_plan)) (aid (blank_arc 1))) = 2"
    by (simp_all add: demo_plan_def wf_tree_def wf_ids_def children_rows_def)
  then show ?thesis using cron_clone_unordered [OF w'] w' by simp
qed

section \<open>The error log\<close>

lemma dget_opt:
  "dget (opt_json k f v @ ps) k' =
     (case v of Some x \<Rightarrow> if k' = k then f x else dget ps k' | None \<Rightarrow> dget ps k')"
  by (auto simp: dget_def opt_json_def split: option.splits)

lemma dget_cons: "dget ((k, v) # ps) k' = (if k' = k then v else dget ps k')" "dget [] k' = JNull"
  by (simp_all add: dget_def)

lemma opt_json_keys: "list_all P (opt_json k f v) = (case v of None \<Rightarrow> True | Some x \<Rightarrow> P (k, f x))"
  by (auto simp: opt_json_def split: option.splits)


end
