(* ===== verification/Pending_Install.thy ===== *)
theory Pending_Install
  imports Work_Queue Py_Text "HOL-Library.List_Lexorder" "HOL-Library.Char_ord"
begin

text \<open>
  Package installs requested from chat (\<open>packages/pending_install.py\<close>): the durable row of a
  request with its state machine, the expiry of what nobody decided, the recovery after a restart
  and the removal of the quarantine directories; and the handler that runs an approved install
  (\<open>packages/install_approved_handler.py\<close>).

  The batch itself, the notice to the conversation and path resolution are parameters. Times are
  microseconds; the code compares their ISO texts, all of one format and offset, which sort like
  the times. A status the platform does not know stays in its row as it is. Directories are
  those the quarantine code can see: a path, a name, an age, and whether it is a link.
\<close>

section \<open>Statuses\<close>

datatype pi_status = Requested | Approved | Installing | Installed | IFailed | Rejected | Expired
  | Unknown string

definition pi_status_of :: "string \<Rightarrow> pi_status" where
  "pi_status_of s =
     (if s = ''requested'' then Requested else if s = ''approved'' then Approved
      else if s = ''installing'' then Installing else if s = ''installed'' then Installed
      else if s = ''failed'' then IFailed else if s = ''rejected'' then Rejected
      else if s = ''expired'' then Expired else Unknown s)"

definition TERMINAL_STATUSES :: "pi_status set" where
  "TERMINAL_STATUSES = {Installed, IFailed, Rejected, Expired}"

fun PI_TRANSITIONS :: "pi_status \<Rightarrow> pi_status set" where
  "PI_TRANSITIONS Requested = {Approved, Rejected, Expired}"
| "PI_TRANSITIONS Approved = {Installing, IFailed}"
| "PI_TRANSITIONS Installing = {Installed, IFailed}"
| "PI_TRANSITIONS _ = {}"

section \<open>The row\<close>

record install_row =
  pi_id :: int
  pi_token :: string
  pi_status :: pi_status
  requested_at :: time
  expires_at :: time
  decided_at :: "time option"
  finished_at :: "time option"
  conversation_id :: "int option"
  channel_type :: "string option"
  request_text :: "string option"
  sources_json :: jtext
  preview_json :: jtext
  staging_root :: "string option"
  grants_json :: "jtext option"
  result_json :: "jtext option"
  pi_error :: "string option"
  attempts :: int

text \<open>\<open>PendingInstall\<close> with its columns decoded; a column that does not decode is empty.\<close>

record pending_install =
  row :: install_row
  sources :: "string list"
  preview :: "(string \<times> json) list list"
  pi_grants :: "(string \<times> json) list"
  pi_result :: "(string \<times> json) list"

definition loads :: "jtext option \<Rightarrow> json \<Rightarrow> json" where
  "loads raw d = (case raw of None \<Rightarrow> d | Some (Malformed _) \<Rightarrow> d | Some (Parsed v) \<Rightarrow> v)"

definition jdict_of :: "json \<Rightarrow> (string \<times> json) list" where
  "jdict_of v = (case v of JObj o' \<Rightarrow> o' | _ \<Rightarrow> [])"

definition row_to_record :: "(json \<Rightarrow> string) \<Rightarrow> install_row \<Rightarrow> pending_install" where
  "row_to_record fmt r =
     \<lparr> row = r,
       sources = (case loads (Some (sources_json r)) (JList []) of JList xs \<Rightarrow> map fmt xs | _ \<Rightarrow> []),
       preview = (case loads (Some (preview_json r)) (JList []) of
           JList xs \<Rightarrow> List.map_filter (\<lambda>v. case v of JObj o' \<Rightarrow> Some o' | _ \<Rightarrow> None) xs
         | _ \<Rightarrow> []),
       pi_grants = jdict_of (loads (grants_json r) (JObj [])),
       pi_result = jdict_of (loads (result_json r) (JObj [])) \<rparr>"

definition token_prefix :: "string \<Rightarrow> string" where
  "token_prefix t = take 8 t"

definition is_terminal :: "install_row \<Rightarrow> bool" where
  "is_terminal r = (pi_status r \<in> TERMINAL_STATUSES)"

definition is_expired :: "time \<Rightarrow> install_row \<Rightarrow> bool" where
  "is_expired now r = (\<not> is_terminal r \<and> expires_at r < now)"

section \<open>Time to live\<close>

definition hours_setting :: "(string \<Rightarrow> rat option) \<Rightarrow> string \<Rightarrow> rat \<Rightarrow> json option \<Rightarrow> rat" where
  "hours_setting fl key d section =
     (let raw = (case section of
                   Some (JObj o') \<Rightarrow> (case jget o' key of None \<Rightarrow> JNum d | Some v \<Rightarrow> v)
                 | _ \<Rightarrow> JNum d)
      in case py_float fl raw of Inl _ \<Rightarrow> d | Inr h \<Rightarrow> if h \<le> 0 then d else h)"

definition default_ttl_hours :: "(string \<Rightarrow> rat option) \<Rightarrow> json option \<Rightarrow> rat" where
  "default_ttl_hours fl section = hours_setting fl ''request_ttl_hours'' 24 section"

definition approved_grace_hours :: "(string \<Rightarrow> rat option) \<Rightarrow> json option \<Rightarrow> rat" where
  "approved_grace_hours fl section = hours_setting fl ''approved_grace_hours'' 6 section"

text \<open>\<open>timedelta(hours=h)\<close> in microseconds.\<close>

definition hours_us :: "rat \<Rightarrow> int" where
  "hours_us h = \<lfloor>round_dp 0 (h * 3600000000)\<rfloor>"

definition expires_at_for :: "(string \<Rightarrow> rat option) \<Rightarrow> json option \<Rightarrow> rat option \<Rightarrow> timestr \<Rightarrow> exn + time" where
  "expires_at_for fl section ttl stamp =
     (case stamp of
        BadTime _ \<Rightarrow> Inl (OtherError ''PendingInstallError'')
      | At t \<Rightarrow> Inr (t + hours_us (case ttl of Some h \<Rightarrow> h | None \<Rightarrow> default_ttl_hours fl section)))"

section \<open>Requests\<close>

text \<open>The table, the last id its \<open>AUTOINCREMENT\<close> gave out, and the configuration section.\<close>

record installs =
  rows :: "install_row list"
  last_id :: int

record pi_env =
  pe_float :: "string \<Rightarrow> rat option"
  pe_section :: "json option"

record request_args =
  ra_sources :: "string list"
  ra_preview :: "(string \<times> json) list list"
  ra_token :: "string option"
  ra_text :: "string option"
  ra_conversation :: "int option"
  ra_channel :: "string option"
  ra_staging :: "string option"
  ra_requested_at :: "timestr option"
  ra_ttl :: "rat option"

definition by_token :: "string \<Rightarrow> installs \<Rightarrow> install_row option" where
  "by_token t st = List.find (\<lambda>r. pi_token r = t) (rows st)"

text \<open>\<open>fresh\<close> is the token \<open>uuid4\<close> gives.\<close>

definition create_request ::
    "pi_env \<Rightarrow> time \<Rightarrow> string \<Rightarrow> request_args \<Rightarrow> installs \<Rightarrow> exn + install_row \<times> installs" where
  "create_request env now fresh ra st =
     (if ra_sources ra = [] then Inl (OtherError ''PendingInstallError'')
      else
        let tok = (case ra_token ra of Some t \<Rightarrow> if t = [] then fresh else t | None \<Rightarrow> fresh);
            stamp = (case ra_requested_at ra of Some t \<Rightarrow> t | None \<Rightarrow> At now)
        in case expires_at_for (pe_float env) (pe_section env) (ra_ttl ra) stamp of
             Inl e \<Rightarrow> Inl e
           | Inr ex \<Rightarrow>
               if by_token tok st \<noteq> None then Inl (OtherError ''PendingInstallError'')
               else
                 let r = \<lparr> pi_id = last_id st + 1, pi_token = tok, pi_status = Requested,
                       requested_at = (case stamp of At t \<Rightarrow> t | BadTime _ \<Rightarrow> 0), expires_at = ex,
                       decided_at = None, finished_at = None, conversation_id = ra_conversation ra,
                       channel_type = ra_channel ra, request_text = ra_text ra,
                       sources_json = Parsed (JList (map JStr (ra_sources ra))),
                       preview_json = Parsed (JList (map JObj (ra_preview ra))),
                       staging_root = ra_staging ra, grants_json = None, result_json = None,
                       pi_error = None, attempts = 0 \<rparr>
                 in Inr (r, \<lparr> rows = rows st @ [r], last_id = last_id st + 1 \<rparr>))"

definition get_request :: "string \<Rightarrow> installs \<Rightarrow> install_row option" where
  "get_request t st = (if t = [] then None else by_token t st)"

definition get_request_by_id :: "int \<Rightarrow> installs \<Rightarrow> install_row option" where
  "get_request_by_id i st = find_row pi_id i (rows st)"

definition list_requests :: "pi_status option \<Rightarrow> int \<Rightarrow> installs \<Rightarrow> install_row list" where
  "list_requests s n st =
     sql_limit n (rev (sort_key pi_id (filter (\<lambda>r. s = None \<or> Some (pi_status r) = s) (rows st))))"

definition count_active_requests :: "time \<Rightarrow> installs \<Rightarrow> nat" where
  "count_active_requests now st =
     length (filter (\<lambda>r. pi_status r = Requested \<and> now < expires_at r) (rows st))"

definition count_requests_since :: "time \<Rightarrow> installs \<Rightarrow> nat" where
  "count_requests_since since st = length (filter (\<lambda>r. since \<le> requested_at r) (rows st))"

definition source_id_of :: "json \<Rightarrow> string option" where
  "source_id_of v =
     (case v of
        JObj o' \<Rightarrow> (case jget o' ''source_id'' of Some (JStr s) \<Rightarrow> if s = [] then None else Some s | _ \<Rightarrow> None)
      | _ \<Rightarrow> None)"

text \<open>When a decision was made, or the request if nobody decided: \<open>COALESCE\<close>.\<close>

definition decision_time :: "install_row \<Rightarrow> time" where
  "decision_time r = (case decided_at r of Some t \<Rightarrow> t | None \<Rightarrow> requested_at r)"

definition preview_items :: "install_row \<Rightarrow> exn + json list" where
  "preview_items r =
     (let v = loads (Some (preview_json r)) (JList []) in
      if \<not> jtruthy v then Inr []
      else case v of
          JList xs \<Rightarrow> Inr xs
        | JObj o' \<Rightarrow> Inr (map (\<lambda>(k, _). JStr k) o')
        | JStr s \<Rightarrow> Inr (map (\<lambda>c. JStr [c]) s)
        | _ \<Rightarrow> Inl (TypeError ''not iterable''))"

definition rejected_source_ids_since :: "time \<Rightarrow> installs \<Rightarrow> exn + string list" where
  "rejected_source_ids_since since st =
     xbind (map_x preview_items (filter (\<lambda>r. pi_status r = Rejected \<and> since \<le> decision_time r) (rows st)))
       (\<lambda>vs. Inr (remdups (List.map_filter source_id_of (concat vs))))"

definition due_for_expiry :: "time \<Rightarrow> int \<Rightarrow> installs \<Rightarrow> install_row list" where
  "due_for_expiry now n st =
     sql_limit n (sort_key pi_id (filter (\<lambda>r. pi_status r = Requested \<and> expires_at r \<le> now) (rows st)))"

definition approved_awaiting_install :: "int \<Rightarrow> installs \<Rightarrow> install_row list" where
  "approved_awaiting_install n st =
     sql_limit n (sort_key pi_id (filter (\<lambda>r. pi_status r = Approved) (rows st)))"

section \<open>The state machine\<close>

record change =
  ch_grants :: "(string \<times> json) list option"
  ch_result :: "(string \<times> json) list option"
  ch_error :: "string option"
  ch_decided :: "time option"
  ch_finished :: "time option"
  ch_bump :: bool
  ch_expect :: "pi_status option"

definition no_change :: change where
  "no_change = \<lparr> ch_grants = None, ch_result = None, ch_error = None, ch_decided = None,
     ch_finished = None, ch_bump = False, ch_expect = None \<rparr>"

definition written :: "time \<Rightarrow> pi_status \<Rightarrow> change \<Rightarrow> install_row \<Rightarrow> install_row" where
  "written now s c r =
     r\<lparr> pi_status := s,
        decided_at := (if s = Approved \<or> s = Rejected
           then Some (case ch_decided c of Some t \<Rightarrow> t | None \<Rightarrow> now)
           else case ch_decided c of Some t \<Rightarrow> Some t | None \<Rightarrow> decided_at r),
        finished_at := (if s \<in> TERMINAL_STATUSES \<or> ch_finished c \<noteq> None
           then Some (case ch_finished c of Some t \<Rightarrow> t | None \<Rightarrow> now) else finished_at r),
        grants_json := (case ch_grants c of Some g \<Rightarrow> Some (Parsed (JObj g)) | None \<Rightarrow> grants_json r),
        result_json := (case ch_result c of Some g \<Rightarrow> Some (Parsed (JObj g)) | None \<Rightarrow> result_json r),
        pi_error := (case ch_error c of Some e \<Rightarrow> Some e | None \<Rightarrow> pi_error r),
        attempts := (if ch_bump c then attempts r + 1 else attempts r) \<rparr>"

definition state_error :: "exn + 'a" where
  "state_error = Inl (OtherError ''PendingInstallStateError'')"

definition set_status :: "time \<Rightarrow> string \<Rightarrow> string \<Rightarrow> change \<Rightarrow> installs \<Rightarrow> exn + install_row \<times> installs" where
  "set_status now tok new c st =
     (case pi_status_of new of
        Unknown _ \<Rightarrow> state_error
      | s \<Rightarrow>
          (case get_request tok st of
             None \<Rightarrow> state_error
           | Some r \<Rightarrow>
               if ch_expect c \<noteq> None \<and> ch_expect c \<noteq> Some (pi_status r) then state_error
               else if s \<notin> PI_TRANSITIONS (pi_status r) then state_error
               else
                 let st' = st\<lparr> rows := upd_where (\<lambda>x. pi_token x = tok \<and> pi_status x = pi_status r)
                                          (written now s c) (rows st) \<rparr>
                 in Inr (written now s c r, st')))"

definition mark_approved where
  "mark_approved now tok gr st = set_status now tok ''approved''
     (no_change\<lparr> ch_grants := Some gr, ch_expect := Some Requested \<rparr>) st"

definition mark_rejected where
  "mark_rejected now tok reason st = set_status now tok ''rejected''
     (no_change\<lparr> ch_error := reason, ch_expect := Some Requested \<rparr>) st"

definition mark_expired where
  "mark_expired now tok st = set_status now tok ''expired''
     (no_change\<lparr> ch_error := Some ''the request expired before it was decided'',
        ch_expect := Some Requested \<rparr>) st"

definition mark_installing where
  "mark_installing now tok st = set_status now tok ''installing''
     (no_change\<lparr> ch_expect := Some Approved, ch_bump := True \<rparr>) st"

definition mark_installed where
  "mark_installed now tok res st = set_status now tok ''installed'' (no_change\<lparr> ch_result := Some res \<rparr>) st"

definition mark_failed where
  "mark_failed now tok err res st = set_status now tok ''failed''
     (no_change\<lparr> ch_error := Some err, ch_result := res \<rparr>) st"

section \<open>The quarantine\<close>

text \<open>A directory below or at the quarantine base: its resolved path, its parents from the nearest
  up, its name, its age as a modification time in seconds, and whether the entry is a link.\<close>

record qdir =
  q_path :: string
  q_parents :: "string list"
  q_name :: string
  q_mtime :: rat
  q_link :: bool

record path_env =
  quarantine_root :: "string option"
  resolve :: "string \<Rightarrow> string option"
  parents :: "string \<Rightarrow> string list"

definition rmtree :: "string \<Rightarrow> qdir list \<Rightarrow> qdir list" where
  "rmtree p ds = filter (\<lambda>d. q_path d \<noteq> p \<and> p \<notin> set (q_parents d)) ds"

definition remove_staging :: "path_env \<Rightarrow> install_row \<Rightarrow> qdir list \<Rightarrow> bool \<times> qdir list" where
  "remove_staging pe r ds =
     (case staging_root r of
        None \<Rightarrow> (False, ds)
      | Some raw \<Rightarrow>
          if raw = [] then (False, ds)
          else case quarantine_root pe of
              None \<Rightarrow> (False, ds)
            | Some base \<Rightarrow>
                (case resolve pe raw of
                   None \<Rightarrow> (False, ds)
                 | Some cdir \<Rightarrow>
                     if cdir = base \<or> base \<notin> set (parents pe cdir) then (False, ds)
                     else if cdir \<notin> q_path ` set ds then (False, ds)
                     else (True, rmtree cdir ds)))"

definition owned_dirs :: "path_env \<Rightarrow> installs \<Rightarrow> string list" where
  "owned_dirs pe st =
     List.map_filter (\<lambda>r. if pi_status r \<in> TERMINAL_STATUSES then None
        else (case staging_root r of None \<Rightarrow> None | Some raw \<Rightarrow> if raw = [] then None else resolve pe raw))
       (rows st)"

definition batch_dir :: "rat \<Rightarrow> string list \<Rightarrow> qdir \<Rightarrow> bool" where
  "batch_dir cutoff owned d =
     (\<not> q_link d \<and> (starts_with (q_name d) ''_req-'' \<or> starts_with (q_name d) ''req-'') \<and>
      q_mtime d \<le> cutoff \<and> q_path d \<notin> set owned)"

fun sweep_dirs :: "nat \<Rightarrow> rat \<Rightarrow> string list \<Rightarrow> qdir list \<Rightarrow> qdir list \<Rightarrow> string list \<times> qdir list" where
  "sweep_dirs n cutoff owned [] ds = ([], ds)"
| "sweep_dirs 0 cutoff owned cs ds = ([], ds)"
| "sweep_dirs (Suc n) cutoff owned (c # cs) ds =
     (if batch_dir cutoff owned c
      then (case sweep_dirs n cutoff owned cs (rmtree (q_path c) ds) of (ps, ds') \<Rightarrow> (q_path c # ps, ds'))
      else sweep_dirs (Suc n) cutoff owned cs ds)"

definition children_of :: "string \<Rightarrow> qdir list \<Rightarrow> qdir list" where
  "children_of base ds = sort_key q_name (filter (\<lambda>d. q_parents d \<noteq> [] \<and> hd (q_parents d) = base) ds)"

definition sweep_orphan_quarantines ::
    "path_env \<Rightarrow> rat \<Rightarrow> rat \<Rightarrow> nat \<Rightarrow> installs \<Rightarrow> qdir list \<Rightarrow> string list \<times> qdir list" where
  "sweep_orphan_quarantines pe now_s min_age n st ds =
     (case quarantine_root pe of
        None \<Rightarrow> ([], ds)
      | Some base \<Rightarrow>
          if base \<notin> q_path ` set ds then ([], ds)
          else sweep_dirs n (now_s - max min_age 0) (owned_dirs pe st) (children_of base ds) ds)"

section \<open>Sweeps and recovery\<close>

text \<open>The loop the three sweeps share: change the row, then free its quarantine.\<close>

fun sweep_rows ::
    "path_env \<Rightarrow> (string \<Rightarrow> installs \<Rightarrow> exn + install_row \<times> installs) \<Rightarrow> install_row list \<Rightarrow>
     installs \<Rightarrow> qdir list \<Rightarrow> install_row list \<times> installs \<times> qdir list" where
  "sweep_rows pe mark [] st ds = ([], st, ds)"
| "sweep_rows pe mark (r # rs) st ds =
     (case mark (pi_token r) st of
        Inl _ \<Rightarrow> sweep_rows pe mark rs st ds
      | Inr (u, st') \<Rightarrow>
          (case sweep_rows pe mark rs st' (snd (remove_staging pe r ds)) of
             (us, res) \<Rightarrow> (u # us, res)))"

definition sweep_expired where
  "sweep_expired pe now st ds = sweep_rows pe (mark_expired now) (due_for_expiry now 200 st) st ds"

definition STALE_APPROVAL_ERROR :: string where
  "STALE_APPROVAL_ERROR = ''approved, but the install never started within the grace period (the platform was down, or the queued work item never ran). Nothing was installed and the quarantined copy has been removed; ask again if you still want it.''"

definition mark_stale :: "time \<Rightarrow> string \<Rightarrow> installs \<Rightarrow> exn + install_row \<times> installs" where
  "mark_stale now tok st = set_status now tok ''failed''
     (no_change\<lparr> ch_error := Some STALE_APPROVAL_ERROR,
        ch_expect := Some Approved \<rparr>) st"

definition fail_stale_approved where
  "fail_stale_approved pe env now st ds =
     (let cutoff = now - hours_us (approved_grace_hours (pe_float env) (pe_section env)) in
      sweep_rows pe (mark_stale now)
        (take 200 (sort_key pi_id (filter (\<lambda>r. pi_status r = Approved \<and> decision_time r \<le> cutoff) (rows st))))
        st ds)"

definition mark_interrupted :: "time \<Rightarrow> string \<Rightarrow> installs \<Rightarrow> exn + install_row \<times> installs" where
  "mark_interrupted now tok st = set_status now tok ''failed''
     (no_change\<lparr> ch_error := Some ''interrupted by restart'', ch_expect := Some Installing \<rparr>) st"

definition fail_interrupted_installs where
  "fail_interrupted_installs pe now st ds =
     sweep_rows pe (mark_interrupted now)
       (take 200 (sort_key pi_id (filter (\<lambda>r. pi_status r = Installing) (rows st)))) st ds"

definition recover_installs ::
    "path_env \<Rightarrow> pi_env \<Rightarrow> time \<Rightarrow> installs \<Rightarrow> qdir list \<Rightarrow> (nat \<times> nat) \<times> installs \<times> qdir list" where
  "recover_installs pe env now st ds =
     (case fail_interrupted_installs pe now st ds of (f1, st1, ds1) \<Rightarrow>
      case fail_stale_approved pe env now st1 ds1 of (f2, st2, ds2) \<Rightarrow>
      case sweep_expired pe now st2 ds2 of (f3, st3, ds3) \<Rightarrow>
        ((length f3, length f1 + length f2), st3,
         snd (sweep_orphan_quarantines pe (of_int now / 1000000) 3600 500 st3 ds3)))"

section \<open>The handler\<close>

definition install_key :: "int \<Rightarrow> string" where
  "install_key i = ''pkg_install:'' @ show_int i"

definition enqueue_approved_install :: "time \<Rightarrow> install_row \<Rightarrow> work_item list \<Rightarrow> int option \<times> work_item list" where
  "enqueue_approved_install now r q =
     enqueue now ''package.install.approved'' (JObj [(''request_id'', JInt (pi_id r))])
       (Some (install_key (pi_id r))) SINGLE_ATTEMPT None 50 q"

fun enqueue_all :: "time \<Rightarrow> install_row list \<Rightarrow> work_item list \<Rightarrow> nat \<times> work_item list" where
  "enqueue_all now [] q = (0, q)"
| "enqueue_all now (r # rs) q =
     (case enqueue_approved_install now r q of (w, q1) \<Rightarrow>
      case enqueue_all now rs q1 of (n, q2) \<Rightarrow> (if w = None then n else Suc n, q2))"

definition recover_approved_installs where
  "recover_approved_installs pe env now st ds q =
     (case fail_stale_approved pe env now st ds of (failed, st1, ds1) \<Rightarrow>
      case enqueue_all now (approved_awaiting_install 200 st1) q of (n, q1) \<Rightarrow>
        ((n, length failed), st1, ds1, q1))"

definition load_request :: "int option \<Rightarrow> string option \<Rightarrow> installs \<Rightarrow> install_row option" where
  "load_request i tok st =
     (case Option.bind i (\<lambda>k. get_request_by_id k st) of
        Some r \<Rightarrow> Some r
      | None \<Rightarrow> (case tok of None \<Rightarrow> None | Some t \<Rightarrow> get_request t st))"

text \<open>The part of the handler before the batch runs: \<open>None\<close> drops the work item.\<close>

definition claim_install :: "time \<Rightarrow> int option \<Rightarrow> string option \<Rightarrow> installs \<Rightarrow>
    exn + (install_row option \<times> installs)" where
  "claim_install now i tok st =
     (case load_request i tok st of
        None \<Rightarrow> Inr (None, st)
      | Some r \<Rightarrow>
          if pi_status r \<noteq> Approved then Inr (None, st)
          else (case mark_installing now (pi_token r) st of
                  Inl e \<Rightarrow> Inl e | Inr (u, st') \<Rightarrow> Inr (Some u, st')))"

record batch_result =
  b_ok :: bool
  b_error :: "string option"
  b_result :: "(string \<times> json) list"

definition crashed_batch :: "string \<Rightarrow> batch_result" where
  "crashed_batch why = \<lparr> b_ok = False, b_error = Some (''the install crashed: '' @ why),
     b_result = [(''status'', JStr ''failed''), (''packages'', JList []), (''error'', JStr why)] \<rparr>"

definition finish_install ::
    "path_env \<Rightarrow> time \<Rightarrow> install_row \<Rightarrow> string + batch_result \<Rightarrow> installs \<Rightarrow> qdir list \<Rightarrow>
     (exn + install_row) \<times> installs \<times> qdir list" where
  "finish_install pe now r outcome st ds =
     (let b = (case outcome of Inl why \<Rightarrow> crashed_batch why | Inr b \<Rightarrow> b);
          res = (if b_ok b then mark_installed now (pi_token r) (b_result b) st
                 else mark_failed now (pi_token r)
                   (case b_error b of None \<Rightarrow> ''the install failed''
                    | Some e \<Rightarrow> if e = [] then ''the install failed'' else e) (Some (b_result b)) st)
      in case res of
           Inl e \<Rightarrow> (Inl e, st, ds)
         | Inr (u, st') \<Rightarrow> (Inr u, st', snd (remove_staging pe u ds)))"

text \<open>The whole handler; \<open>batch\<close> runs the install of the claimed request.\<close>

definition handle_package_install_approved ::
    "path_env \<Rightarrow> time \<Rightarrow> (int \<Rightarrow> string + batch_result) \<Rightarrow> int option \<Rightarrow> string option \<Rightarrow> installs \<Rightarrow>
     qdir list \<Rightarrow> (exn + install_row option) \<times> installs \<times> qdir list" where
  "handle_package_install_approved pe now batch i tok st ds =
     (case claim_install now i tok st of
        Inl e \<Rightarrow> (Inl e, st, ds)
      | Inr (None, st') \<Rightarrow> (Inr None, st', ds)
      | Inr (Some r, st') \<Rightarrow>
          (case finish_install pe now r (batch (pi_id r)) st' ds of
             (Inl e, res) \<Rightarrow> (Inl e, res) | (Inr u, res) \<Rightarrow> (Inr (Some u), res)))"

section \<open>The status of a request as a lifecycle\<close>

interpretation install_life: lifecycle "\<lambda>s t. t \<in> PI_TRANSITIONS s" "\<lambda>s. s \<in> TERMINAL_STATUSES"
  by unfold_locales (auto simp: TERMINAL_STATUSES_def)

section \<open>Runs\<close>

inductive pi_step :: "pi_env \<Rightarrow> installs \<Rightarrow> installs \<Rightarrow> bool" for env where
  ps_create: "create_request env now tok ra st = Inr (u, st') \<Longrightarrow> pi_step env st st'"
| ps_approved: "mark_approved now tok gr st = Inr (u, st') \<Longrightarrow> pi_step env st st'"
| ps_rejected: "mark_rejected now tok why st = Inr (u, st') \<Longrightarrow> pi_step env st st'"
| ps_expired: "mark_expired now tok st = Inr (u, st') \<Longrightarrow> pi_step env st st'"
| ps_installing: "mark_installing now tok st = Inr (u, st') \<Longrightarrow> pi_step env st st'"
| ps_installed: "mark_installed now tok res st = Inr (u, st') \<Longrightarrow> pi_step env st st'"
| ps_failed: "mark_failed now tok err res st = Inr (u, st') \<Longrightarrow> pi_step env st st'"
| ps_stale: "mark_stale now tok st = Inr (u, st') \<Longrightarrow> pi_step env st st'"
| ps_interrupted: "mark_interrupted now tok st = Inr (u, st') \<Longrightarrow> pi_step env st st'"

text \<open>Every operation of the platform on the table: the routes decide and expire, the heartbeat and
  the startup sweep, the handler claims and finishes; a crash between the two is a claim that is
  never finished.\<close>

inductive pi_op :: "path_env \<Rightarrow> pi_env \<Rightarrow> installs \<Rightarrow> installs \<Rightarrow> bool" for pe env where
  po_request: "create_request env now tok ra st = Inr (u, st') \<Longrightarrow> pi_op pe env st st'"
| po_approve: "mark_approved now tok gr st = Inr (u, st') \<Longrightarrow> pi_op pe env st st'"
| po_reject: "mark_rejected now tok why st = Inr (u, st') \<Longrightarrow> pi_op pe env st st'"
| po_expire: "mark_expired now tok st = Inr (u, st') \<Longrightarrow> pi_op pe env st st'"
| po_sweep: "sweep_expired pe now st ds = (us, st', ds') \<Longrightarrow> pi_op pe env st st'"
| po_recover: "recover_installs pe env now st ds = (ns, st', ds') \<Longrightarrow> pi_op pe env st st'"
| po_requeue: "recover_approved_installs pe env now st ds q = (ns, st', ds', q') \<Longrightarrow> pi_op pe env st st'"
| po_claim: "claim_install now i tok st = Inr (res, st') \<Longrightarrow> pi_op pe env st st'"
| po_finish: "finish_install pe now r outcome st ds = (res, st', ds') \<Longrightarrow> pi_op pe env st st'"

section \<open>Facts about rows\<close>

definition pi_wf :: "installs \<Rightarrow> bool" where
  "pi_wf st = (distinct (map pi_token (rows st)) \<and> wf_ids pi_id (rows st) \<and>
     (\<forall>r \<in> set (rows st). pi_id r \<le> last_id st))"

abbreviation row_at :: "int \<Rightarrow> installs \<Rightarrow> install_row option" where
  "row_at i st \<equiv> find_row pi_id i (rows st)"

lemma written_sel [simp]:
  "pi_id (written now s c r) = pi_id r" "pi_token (written now s c r) = pi_token r"
  "pi_status (written now s c r) = s" "staging_root (written now s c r) = staging_root r"
  "expires_at (written now s c r) = expires_at r" "requested_at (written now s c r) = requested_at r"
  by (simp_all add: written_def)

lemma state_error_Inr [simp]: "state_error \<noteq> Inr x"
  by (simp add: state_error_def)

lemma set_status_Inr:
  assumes "set_status now tok new c st = Inr (u, st')"
  obtains r s where "pi_status_of new = s" "get_request tok st = Some r"
    "ch_expect c = None \<or> ch_expect c = Some (pi_status r)" "s \<in> PI_TRANSITIONS (pi_status r)"
    "u = written now s c r"
    "rows st' = upd_where (\<lambda>x. pi_token x = tok \<and> pi_status x = pi_status r) (written now s c) (rows st)"
    "last_id st' = last_id st"
  using assms by (auto simp: set_status_def Let_def split: pi_status.splits option.splits if_splits)

text \<open>What a change may write beside the status.\<close>

definition row_step :: "install_row \<Rightarrow> install_row \<Rightarrow> bool" where
  "row_step r r' =
     (r' = r \<or>
      (\<exists>now c s. s \<in> PI_TRANSITIONS (pi_status r) \<and> r' = written now s c r \<and>
         (ch_bump c \<longleftrightarrow> s = Installing) \<and> (s = Approved \<longrightarrow> ch_grants c \<noteq> None)))"

lemma by_token_Some: "get_request tok st = Some r \<Longrightarrow> r \<in> set (rows st) \<and> pi_token r = tok"
  by (auto simp: get_request_def by_token_def find_Some_iff split: if_splits)

lemma by_token_mem:
  "distinct (map pi_token rs) \<Longrightarrow> r \<in> set rs \<Longrightarrow> List.find (\<lambda>x. pi_token x = pi_token r) rs = Some r"
  by (induction rs) auto

lemma token_row:
  "pi_wf st \<Longrightarrow> r \<in> set (rows st) \<Longrightarrow> x \<in> set (rows st) \<Longrightarrow> pi_token x = pi_token r \<Longrightarrow> x = r"
  by (auto simp: pi_wf_def distinct_map inj_on_def)

lemma set_status_rows:
  assumes wf: "pi_wf st" and set: "set_status now tok new c st = Inr (u, st')"
    and shape: "ch_bump c \<longleftrightarrow> pi_status_of new = Installing"
      "pi_status_of new = Approved \<longrightarrow> ch_grants c \<noteq> None"
  shows "pi_wf st'" "row_at i st = Some r \<Longrightarrow> \<exists>r'. row_at i st' = Some r' \<and> row_step r r'"
    "row_at i st = None \<Longrightarrow> row_at i st' = None"
proof -
  obtain x s where x: "pi_status_of new = s" "get_request tok st = Some x"
    "s \<in> PI_TRANSITIONS (pi_status x)" "last_id st' = last_id st"
    "rows st' = upd_where (\<lambda>y. pi_token y = tok \<and> pi_status y = pi_status x) (written now s c) (rows st)"
    using set_status_Inr [OF set] by metis
  have keys: "map pi_token (rows st') = map pi_token (rows st)" "map pi_id (rows st') = map pi_id (rows st)"
    unfolding x(5) by (simp_all add: map_key_upd_where)
  then have "pi_id ` set (rows st') = pi_id ` set (rows st)" by (metis list.set_map)
  moreover have "\<forall>k \<in> pi_id ` set (rows st). k \<le> last_id st" using wf by (simp add: pi_wf_def)
  ultimately have "\<forall>k \<in> pi_id ` set (rows st'). k \<le> last_id st" by metis
  then have "\<forall>r \<in> set (rows st'). pi_id r \<le> last_id st" by blast
  then show "pi_wf st'" using wf keys x(4) by (simp add: pi_wf_def wf_ids_def)
  show "\<exists>r'. row_at i st' = Some r' \<and> row_step r r'" if "row_at i st = Some r"
    using that x(1,3) shape unfolding x(5) by (auto simp: find_row_upd_where row_step_def)
  show "row_at i st' = None" if "row_at i st = None"
    using that unfolding x(5) by (simp add: find_row_upd_where)
qed

lemma fresh_id: "pi_wf st \<Longrightarrow> row_at (last_id st + 1) st = None"
  by (auto simp: find_row_None pi_wf_def)

definition fresh_row :: "install_row \<Rightarrow> bool" where
  "fresh_row r = (pi_status r = Requested \<and> attempts r = 0)"

lemma create_rows:
  assumes wf: "pi_wf st" and c: "create_request env now tok ra st = Inr (u, st')"
  shows "pi_wf st'" "row_at i st = Some r \<Longrightarrow> row_at i st' = Some r"
    "row_at i st = None \<Longrightarrow> row_at i st' = Some r \<Longrightarrow> fresh_row r"
proof -
  have s: "rows st' = rows st @ [u]" "last_id st' = last_id st + 1" "pi_id u = last_id st + 1"
    "fresh_row u" "by_token (pi_token u) st = None"
    using c by (auto simp: create_request_def Let_def fresh_row_def split: if_splits sum.splits option.splits)
  have "pi_token u \<notin> pi_token ` set (rows st)"
    using s(5) by (auto simp: by_token_def find_None_iff)
  moreover have "pi_id u \<notin> pi_id ` set (rows st)" using wf s(3) by (auto simp: pi_wf_def)
  ultimately show "pi_wf st'" using wf s by (auto simp: pi_wf_def wf_ids_def)
  show "row_at i st = Some r \<Longrightarrow> row_at i st' = Some r" by (simp add: s find_row_append)
  show "row_at i st = None \<Longrightarrow> row_at i st' = Some r \<Longrightarrow> fresh_row r"
    using s(4) by (auto simp: s(1) find_row_append split: if_splits)
qed

lemmas mark_defs = mark_approved_def mark_rejected_def mark_expired_def mark_installing_def
  mark_installed_def mark_failed_def mark_stale_def mark_interrupted_def

lemma pi_step_rows:
  assumes "pi_step env st st'" and wf: "pi_wf st"
  shows "pi_wf st' \<and> (\<forall>i r. row_at i st = Some r \<longrightarrow> (\<exists>r'. row_at i st' = Some r' \<and> row_step r r')) \<and>
    (\<forall>i r. row_at i st = None \<longrightarrow> row_at i st' = Some r \<longrightarrow> fresh_row r)"
  using assms(1)
proof (cases rule: pi_step.cases)
  case ps_create
  then show ?thesis using create_rows [OF wf] by (fastforce simp: row_step_def)
qed (use set_status_rows [OF wf] in
     \<open>fastforce simp: mark_defs no_change_def pi_status_of_def\<close>)+

lemma sweep_rows_run:
  assumes mark: "\<And>tok st u st'. mark tok st = Inr (u, st') \<Longrightarrow> pi_step env st st'"
  shows "sweep_rows pe mark rs st ds = (us, st', ds') \<Longrightarrow> (pi_step env)\<^sup>*\<^sup>* st st'"
proof (induction rs arbitrary: st ds us)
  case (Cons r rs)
  show ?case
  proof (cases "mark (pi_token r) st")
    case (Inl e)
    then show ?thesis using Cons by simp
  next
    case (Inr p)
    obtain u s1 where p: "mark (pi_token r) st = Inr (u, s1)" using Inr by (cases p) simp
    then have "(pi_step env)\<^sup>*\<^sup>* s1 st'"
      using Cons.IH [of s1] Cons.prems by (auto split: prod.splits)
    then show ?thesis using mark [OF p] by (rule converse_rtranclp_into_rtranclp [rotated])
  qed
qed simp

lemmas sweep_defs = sweep_expired_def fail_stale_approved_def fail_interrupted_installs_def

lemma sweeps_run:
  "sweep_expired pe now st ds = (us, st', ds') \<Longrightarrow> (pi_step env)\<^sup>*\<^sup>* st st'"
  "fail_stale_approved pe env now st ds = (us, st', ds') \<Longrightarrow> (pi_step env)\<^sup>*\<^sup>* st st'"
  "fail_interrupted_installs pe now st ds = (us, st', ds') \<Longrightarrow> (pi_step env)\<^sup>*\<^sup>* st st'"
  unfolding sweep_defs Let_def by (blast intro: sweep_rows_run pi_step.intros)+

lemma pi_op_run: "pi_op pe env st st' \<Longrightarrow> (pi_step env)\<^sup>*\<^sup>* st st'"
proof (induction rule: pi_op.induct)
  case (po_recover now st ds ns st' ds')
  then show ?case
    by (auto simp: recover_installs_def split: prod.splits dest!: sweeps_run [where env = env] intro: rtranclp_trans)
next
  case (po_requeue now st ds q ns st' ds' q')
  then show ?case by (auto simp: recover_approved_installs_def split: prod.splits dest!: sweeps_run)
next
  case (po_claim now i tok st res st')
  then show ?case
    by (auto simp: claim_install_def split: option.splits if_splits sum.splits intro: ps_installing)
next
  case (po_finish now r outcome st ds res st' ds')
  then show ?case
    by (auto simp: finish_install_def Let_def split: sum.splits if_splits option.splits
        intro: ps_installed ps_failed)
qed (auto intro: pi_step.intros sweeps_run)

lemma pi_run_steps: "(pi_op pe env)\<^sup>*\<^sup>* st st' \<Longrightarrow> (pi_step env)\<^sup>*\<^sup>* st st'"
  by (induction rule: rtranclp_induct) (auto dest: pi_op_run intro: rtranclp_trans)

lemma pi_steps_rows:
  assumes "(pi_step env)\<^sup>*\<^sup>* st st'" and "pi_wf st"
  shows "pi_wf st' \<and> (\<forall>i r. row_at i st = Some r \<longrightarrow> (\<exists>r'. row_at i st' = Some r' \<and> row_step\<^sup>*\<^sup>* r r'))"
  using assms
proof (induction rule: rtranclp_induct)
  case (step st1 st2)
  then have 1: "pi_wf st1" "\<And>i r. row_at i st = Some r \<Longrightarrow> \<exists>r'. row_at i st1 = Some r' \<and> row_step\<^sup>*\<^sup>* r r'"
    by auto
  show ?case using pi_step_rows [OF step(2) 1(1)] 1(2) by (meson rtranclp.rtrancl_into_rtrancl)
qed simp

lemma row_step_status: "row_step r r' \<Longrightarrow> install_life.move (pi_status r) (pi_status r')"
  by (auto simp: row_step_def install_life.move_def)

lemma row_steps_terminal: "row_step\<^sup>*\<^sup>* r r' \<Longrightarrow> pi_status r \<in> TERMINAL_STATUSES \<Longrightarrow> r' = r"
proof (induction rule: rtranclp_induct)
  case (step y z)
  then have "y = r" "PI_TRANSITIONS (pi_status r) = {}" by (auto simp: TERMINAL_STATUSES_def)
  then show ?case using step(2) by (auto simp: row_step_def)
qed simp

lemma row_steps_decided:
  "row_step\<^sup>*\<^sup>* r r' \<Longrightarrow> pi_status r \<noteq> Requested \<Longrightarrow>
     pi_status r' \<noteq> Requested \<and> pi_token r' = pi_token r"
proof (induction rule: rtranclp_induct)
  case (step y z)
  have "Requested \<notin> PI_TRANSITIONS s" for s by (cases s) auto
  then show ?case using step by (auto simp: row_step_def)
qed simp

text \<open>The evidence a row carries for its status.\<close>

definition row_ok :: "install_row \<Rightarrow> bool" where
  "row_ok r =
     (attempts r \<le> 1 \<and>
      (case pi_status r of
         Requested \<Rightarrow> attempts r = 0
       | Approved \<Rightarrow> attempts r = 0 \<and> grants_json r \<noteq> None \<and> decided_at r \<noteq> None
       | Installing \<Rightarrow> attempts r = 1 \<and> grants_json r \<noteq> None \<and> decided_at r \<noteq> None
       | Installed \<Rightarrow> attempts r = 1 \<and> grants_json r \<noteq> None \<and> decided_at r \<noteq> None
       | _ \<Rightarrow> True))"

lemma written_evidence:
  "attempts (written now s c r) = (if ch_bump c then attempts r + 1 else attempts r)"
  "grants_json (written now s c r) = None \<longleftrightarrow> ch_grants c = None \<and> grants_json r = None"
  "decided_at (written now s c r) = None \<longleftrightarrow>
     s \<noteq> Approved \<and> s \<noteq> Rejected \<and> ch_decided c = None \<and> decided_at r = None"
  by (simp_all add: written_def split: option.splits)

lemma row_step_ok: "row_step r r' \<Longrightarrow> row_ok r \<Longrightarrow> row_ok r'"
proof -
  assume "row_step r r'" and ok: "row_ok r"
  then consider "r' = r" | now c s where "s \<in> PI_TRANSITIONS (pi_status r)" "r' = written now s c r"
    "ch_bump c \<longleftrightarrow> s = Installing" "s = Approved \<longrightarrow> ch_grants c \<noteq> None"
    unfolding row_step_def by blast
  then show ?thesis
  proof cases
    case 2
    then show ?thesis using ok
      by (cases "pi_status r") (auto simp: row_ok_def written_evidence)
  qed (use ok in simp)
qed

definition no_installs :: installs where
  "no_installs = \<lparr> rows = [], last_id = 0 \<rparr>"

lemma pi_steps_ok: "(pi_step env)\<^sup>*\<^sup>* no_installs st \<Longrightarrow> pi_wf st \<and> (\<forall>i r. row_at i st = Some r \<longrightarrow> row_ok r)"
proof (induction rule: rtranclp_induct)
  case base
  then show ?case by (simp add: no_installs_def pi_wf_def wf_ids_def)
next
  case (step st1 st2)
  have "row_ok r" if "row_at i st2 = Some r" for i r
  proof (cases "row_at i st1")
    case None
    then show ?thesis using that pi_step_rows [OF step(2)] step(3) by (auto simp: fresh_row_def row_ok_def)
  next
    case (Some x)
    then obtain y where "row_at i st2 = Some y" "row_step x y"
      using pi_step_rows [OF step(2)] step(3) by blast
    then show ?thesis using that Some step(3) row_step_ok by auto
  qed
  then show ?case using pi_step_rows [OF step(2)] step(3) by blast
qed

lemma row_at_mem: "pi_wf st \<Longrightarrow> r \<in> set (rows st) \<Longrightarrow> row_at (pi_id r) st = Some r"
  by (simp add: pi_wf_def find_row_distinct)

lemma set_status_refused:
  assumes "pi_wf st" "row_at i st = Some r" "pi_status r \<noteq> Requested"
  shows "set_status now (pi_token r) new (c\<lparr> ch_expect := Some Requested \<rparr>) st = state_error"
proof -
  have m: "r \<in> set (rows st)" using assms(2) by (rule find_row_in)
  have "get_request (pi_token r) st \<in> {None, Some r}"
    using by_token_mem [of "rows st" r] assms(1) m by (auto simp: get_request_def by_token_def pi_wf_def)
  then show ?thesis using assms(3) by (auto simp: set_status_def split: pi_status.splits)
qed

section \<open>Facts about the sweeps\<close>

definition failing :: "pi_status \<Rightarrow> string \<Rightarrow> change" where
  "failing s why = no_change\<lparr> ch_error := Some why, ch_expect := Some s \<rparr>"

lemma set_status_accepts:
  assumes "pi_wf st" "r \<in> set (rows st)" "pi_token r \<noteq> []" "pi_status r = S"
    and "pi_status_of new = T" "T \<in> PI_TRANSITIONS S" "\<And>u. T \<noteq> Unknown u"
  shows "set_status now (pi_token r) new (failing S why) st =
    Inr (written now T (failing S why) r,
      st\<lparr> rows := map (\<lambda>x. if x = r then written now T (failing S why) x else x) (rows st) \<rparr>)"
proof -
  have g: "get_request (pi_token r) st = Some r"
    using assms(1-3) by_token_mem [of "rows st" r] by (simp add: get_request_def by_token_def pi_wf_def)
  have "upd_where (\<lambda>x. pi_token x = pi_token r \<and> pi_status x = pi_status r) f (rows st) =
      map (\<lambda>x. if x = r then f x else x) (rows st)" for f
    using token_row [OF assms(1,2)] by (auto simp: upd_where_def)
  then show ?thesis
    using assms(4-7) g by (cases T) (auto simp: set_status_def failing_def Let_def)
qed

lemma map_row_wf:
  assumes "pi_wf st" "\<And>x. pi_token (f x) = pi_token x" "\<And>x. pi_id (f x) = pi_id x"
  shows "pi_wf (st\<lparr> rows := map (\<lambda>x. if P x then f x else x) (rows st) \<rparr>)"
proof -
  have "pi_token \<circ> (\<lambda>x. if P x then f x else x) = pi_token"
    "pi_id \<circ> (\<lambda>x. if P x then f x else x) = pi_id"
    using assms(2,3) by (auto simp: fun_eq_iff)
  then show ?thesis using assms by (auto simp: pi_wf_def wf_ids_def)
qed

lemma sweep_rows_effect:
  assumes "pi_wf st" "[] \<notin> pi_token ` set (rows st)" "distinct rs"
    and "\<forall>r \<in> set rs. r \<in> set (rows st) \<and> pi_status r = S"
    and T: "pi_status_of new = T" "T \<in> PI_TRANSITIONS S" "\<And>u. T \<noteq> Unknown u"
    and "sweep_rows pe (\<lambda>tok st. set_status now tok new (failing S why) st) rs st ds = (us, st', ds')"
  shows "length us = length rs \<and> last_id st' = last_id st \<and>
    rows st' = map (\<lambda>x. if x \<in> set rs then written now T (failing S why) x else x) (rows st)"
  using assms(1-4,8)
proof (induction rs arbitrary: st ds us)
  case (Cons r rs)
  let ?w = "written now T (failing S why)"
  let ?s1 = "st\<lparr> rows := map (\<lambda>x. if x = r then ?w x else x) (rows st) \<rparr>"
  have r: "r \<in> set (rows st)" "pi_status r = S" "pi_token r \<noteq> []"
    using Cons.prems(2,4) by (simp_all add: image_iff) (metis list.set_intros(1))
  have m: "set_status now (pi_token r) new (failing S why) st = Inr (?w r, ?s1)"
    using set_status_accepts [OF Cons.prems(1) r(1,3,2) T] .
  have wf: "pi_wf ?s1" by (rule map_row_wf [OF Cons.prems(1)]) simp_all
  have tok: "[] \<notin> pi_token ` set (rows ?s1)" using Cons.prems(2) by (auto split: if_splits)
  then have rs: "\<forall>x \<in> set rs. x \<in> set (rows ?s1) \<and> pi_status x = S"
    using Cons.prems(3,4) by auto
  obtain us2 where s: "sweep_rows pe (\<lambda>tok st. set_status now tok new (failing S why) st) rs ?s1
      (snd (remove_staging pe r ds)) = (us2, st', ds')" "us = ?w r # us2"
    using Cons.prems(5) m by (auto split: prod.splits)
  have "T \<noteq> S" using T(2) by (cases S) auto
  then have ns: "?w x \<notin> set rs" for x using Cons.prems(4) by (metis list.set_intros(2) written_sel(3))
  show ?case using Cons.IH [OF wf tok _ rs s(1)] Cons.prems(3) s(2) ns by auto
qed simp

text \<open>What one sweep of the recovery does to the table: the rows with status \<open>S\<close> that \<open>Q\<close> selects
  get an outcome, the others stay, provided they are not more than the batch holds.\<close>

lemma sweep_selected:
  assumes "pi_wf st" "[] \<notin> pi_token ` set (rows st)"
    and "T \<in> PI_TRANSITIONS S" "pi_status_of new = T" "\<And>u. T \<noteq> Unknown u" "T \<in> TERMINAL_STATUSES"
    and rs: "rs = take 200 (sort_key pi_id (filter (\<lambda>r. pi_status r = S \<and> Q r) (rows st)))"
    and few: "length (rows st) \<le> 200"
    and "sweep_rows pe (\<lambda>tok st. set_status now tok new (failing S why) st) rs st ds = (us, st', ds')"
  shows "pi_wf st' \<and> [] \<notin> pi_token ` set (rows st') \<and> length (rows st') = length (rows st) \<and>
    (\<forall>x' \<in> set (rows st'). (x' \<in> set (rows st) \<and> \<not> (pi_status x' = S \<and> Q x')) \<or> pi_status x' \<in> TERMINAL_STATUSES)"
proof -
  have d: "distinct (rows st)" using assms(1) by (auto simp: pi_wf_def distinct_map)
  have "length (filter (\<lambda>r. pi_status r = S \<and> Q r) (rows st)) \<le> 200"
    using few length_filter_le le_trans by blast
  then have all: "rs = sort_key pi_id (filter (\<lambda>r. pi_status r = S \<and> Q r) (rows st))"
    by (simp add: rs)
  have drs: "distinct rs" "\<forall>r \<in> set rs. r \<in> set (rows st) \<and> pi_status r = S"
    using d unfolding all by simp_all
  have e: "last_id st' = last_id st"
    "rows st' = map (\<lambda>x. if x \<in> set rs then written now T (failing S why) x else x) (rows st)"
    using sweep_rows_effect [OF assms(1,2) drs assms(4,3,5,9)] by simp_all
  have "st' = st\<lparr> rows := map (\<lambda>x. if x \<in> set rs then written now T (failing S why) x else x) (rows st) \<rparr>"
    using e by simp
  then have "pi_wf st'" using map_row_wf [OF assms(1)] by simp
  moreover have "[] \<notin> pi_token ` set (rows st')" using assms(2) by (auto simp: e(2) split: if_splits)
  moreover have "\<forall>x' \<in> set (rows st'). (x' \<in> set (rows st) \<and> \<not> (pi_status x' = S \<and> Q x')) \<or> pi_status x' \<in> TERMINAL_STATUSES"
    using assms(6) by (auto simp: e(2) all)
  ultimately show ?thesis by (simp add: e(2))
qed

text \<open>Only directories below the quarantine root disappear.\<close>

definition paths_ok :: "path_env \<Rightarrow> qdir list \<Rightarrow> bool" where
  "paths_ok pe ds =
     ((\<forall>d \<in> set ds. q_parents d = parents pe (q_path d)) \<and>
      (\<forall>p q. q \<in> set (parents pe p) \<longrightarrow> set (parents pe q) \<subseteq> set (parents pe p)))"

definition below_root :: "path_env \<Rightarrow> qdir \<Rightarrow> bool" where
  "below_root pe d = (\<exists>b. quarantine_root pe = Some b \<and> b \<in> set (q_parents d))"

definition confined :: "path_env \<Rightarrow> qdir list \<Rightarrow> qdir list \<Rightarrow> bool" where
  "confined pe ds ds' = (set ds' \<subseteq> set ds \<and> (\<forall>d \<in> set ds - set ds'. below_root pe d))"

lemma confined_refl [simp]: "confined pe ds ds"
  by (simp add: confined_def)

lemma confined_trans: "confined pe a b \<Longrightarrow> confined pe b c \<Longrightarrow> confined pe a c"
  by (auto simp: confined_def)

lemma paths_ok_sub: "paths_ok pe ds \<Longrightarrow> set ds' \<subseteq> set ds \<Longrightarrow> paths_ok pe ds'"
  by (auto simp: paths_ok_def)

lemma rmtree_confined:
  assumes "paths_ok pe ds" "quarantine_root pe = Some b" "b \<in> set (parents pe p)"
  shows "confined pe ds (rmtree p ds)"
  using assms by (auto simp: confined_def rmtree_def below_root_def paths_ok_def) (meson subsetD)

lemma remove_staging_confined: "paths_ok pe ds \<Longrightarrow> confined pe ds (snd (remove_staging pe r ds))"
  by (auto simp: remove_staging_def rmtree_confined split: option.splits)

lemma confined_ok: "paths_ok pe ds \<Longrightarrow> confined pe ds ds' \<Longrightarrow> paths_ok pe ds'"
  by (rule paths_ok_sub) (auto simp: confined_def)

lemma sweep_rows_confined:
  "paths_ok pe ds \<Longrightarrow> sweep_rows pe mark rs st ds = (us, st', ds') \<Longrightarrow> confined pe ds ds'"
proof (induction rs arbitrary: st ds us)
  case (Cons r rs)
  note c = remove_staging_confined [OF Cons.prems(1), of r]
  show ?case
    using Cons.prems(2) Cons.IH [OF Cons.prems(1)] Cons.IH [OF confined_ok [OF Cons.prems(1) c]]
    by (auto split: sum.splits prod.splits intro: confined_trans [OF c])
qed simp

lemma sweep_dirs_confined:
  "paths_ok pe ds \<Longrightarrow> quarantine_root pe = Some b \<Longrightarrow> \<forall>c \<in> set cs. b \<in> set (parents pe (q_path c)) \<Longrightarrow>
     confined pe ds (snd (sweep_dirs n cutoff owned cs ds))"
proof (induction n cutoff owned cs ds rule: sweep_dirs.induct)
  case (3 n cutoff owned c cs ds)
  have k: "confined pe ds (rmtree (q_path c) ds)"
    using 3(3-5) by (intro rmtree_confined) auto
  have "confined pe (rmtree (q_path c) ds) (snd (sweep_dirs n cutoff owned cs (rmtree (q_path c) ds)))"
    if "batch_dir cutoff owned c"
    using 3(1) [OF that confined_ok [OF 3(3) k] 3(4)] 3(5) by simp
  moreover have "confined pe ds (snd (sweep_dirs (Suc n) cutoff owned cs ds))" if "\<not> batch_dir cutoff owned c"
    using 3(2) [OF that 3(3,4)] 3(5) by simp
  ultimately show ?case using confined_trans [OF k] by (auto split: prod.splits)
qed simp_all

lemma sweep_orphan_confined:
  assumes "paths_ok pe ds"
  shows "confined pe ds (snd (sweep_orphan_quarantines pe s m n st ds))"
proof -
  have "\<forall>c \<in> set (children_of b ds). b \<in> set (parents pe (q_path c))" for b
    using assms by (auto simp: children_of_def paths_ok_def)
  then show ?thesis
    using sweep_dirs_confined [OF assms] by (auto simp: sweep_orphan_quarantines_def split: option.splits)
qed

section \<open>Properties\<close>

text \<open>C4: An install runs at most once, and only after a human said yes. In every reachable table each
  request was claimed at most once, and a request that is being or has been installed was claimed
  exactly once and carries the time of the decision and the grants that were ticked.\<close>

theorem install_once_approved:
  assumes "(pi_op pe env)\<^sup>*\<^sup>* no_installs st" and "r \<in> set (rows st)"
  shows "attempts r \<le> 1 \<and>
    (pi_status r \<in> {Installing, Installed} \<longrightarrow>
       attempts r = 1 \<and> grants_json r \<noteq> None \<and> decided_at r \<noteq> None)"
proof -
  have "row_ok r"
    using pi_steps_ok [OF pi_run_steps [OF assms(1)]] row_at_mem assms(2) by blast
  then show ?thesis by (auto simp: row_ok_def)
qed

text \<open>A decision is made once. From any well-formed table on, over any run of operations, a request
  that is no longer undecided refuses every further approval, rejection and expiry, and a request
  that has an outcome keeps its row as it is.\<close>

theorem install_decided_once:
  assumes "pi_wf st" and "row_at i st = Some r" and "pi_status r \<noteq> Requested" and "(pi_op pe env)\<^sup>*\<^sup>* st st'"
  shows "mark_approved now (pi_token r) gr st' = state_error \<and>
    mark_rejected now (pi_token r) why st' = state_error \<and>
    mark_expired now (pi_token r) st' = state_error \<and>
    (is_terminal r \<longrightarrow> row_at i st' = Some r)"
proof -
  obtain r' where r': "pi_wf st'" "row_at i st' = Some r'" "row_step\<^sup>*\<^sup>* r r'"
    using pi_steps_rows [OF pi_run_steps [OF assms(4)] assms(1)] assms(2) by blast
  note d = row_steps_decided [OF r'(3) assms(3)]
  show ?thesis
    using set_status_refused [OF r'(1,2)] d row_steps_terminal [OF r'(3)] r'(2)
    by (auto simp: mark_defs is_terminal_def)
qed

definition demo_pi_env :: pi_env where
  "demo_pi_env = \<lparr> pe_float = (\<lambda>_. None), pe_section = None \<rparr>"

definition demo_path_env :: path_env where
  "demo_path_env = \<lparr> quarantine_root = Some ''q'', resolve = Some,
     parents = (\<lambda>p. if p = ''q/req-1'' then [''q''] else []) \<rparr>"

definition demo_request :: request_args where
  "demo_request = \<lparr> ra_sources = [''git:a''], ra_preview = [], ra_token = None, ra_text = None,
     ra_conversation = None, ra_channel = None, ra_staging = Some ''q/req-1'', ra_requested_at = None,
     ra_ttl = Some 1 \<rparr>"

definition demo_row :: install_row where
  "demo_row = \<lparr> pi_id = 1, pi_token = ''t'', pi_status = Requested, requested_at = 0,
     expires_at = 3600000000, decided_at = None, finished_at = None, conversation_id = None,
     channel_type = None, request_text = None, sources_json = Parsed (JList [JStr ''git:a'']),
     preview_json = Parsed (JList []), staging_root = Some ''q/req-1'', grants_json = None,
     result_json = None, pi_error = None, attempts = 0 \<rparr>"

definition demo_claimed :: install_row where
  "demo_claimed = demo_row\<lparr> pi_status := Installing, decided_at := Some 5,
     grants_json := Some (Parsed (JObj [])), attempts := 1 \<rparr>"

lemmas pi_demo = demo_pi_env_def demo_path_env_def demo_request_def demo_row_def demo_claimed_def
  no_installs_def

lemma demo_hour: "hours_us 1 = 3600000000"
  by (simp add: hours_us_def round_dp_def Let_def)

lemma demo_created:
  "create_request demo_pi_env 0 ''t'' demo_request no_installs =
     Inr (demo_row, \<lparr> rows = [demo_row], last_id = 1 \<rparr>)"
  by (simp add: create_request_def expires_at_for_def by_token_def demo_hour pi_demo Let_def)

lemma demo_marked:
  "mark_approved 5 ''t'' [] \<lparr> rows = [demo_row], last_id = 1 \<rparr> =
     Inr (written 5 Approved (no_change\<lparr> ch_grants := Some [], ch_expect := Some Requested \<rparr>) demo_row,
       \<lparr> rows = [demo_row\<lparr> pi_status := Approved, decided_at := Some 5, grants_json := Some (Parsed (JObj [])) \<rparr>],
         last_id = 1 \<rparr>)"
  by (simp add: mark_approved_def set_status_def pi_status_of_def get_request_def by_token_def
      no_change_def written_def upd_where_def TERMINAL_STATUSES_def pi_demo Let_def)

lemma demo_claim:
  "claim_install 6 (Some 1) None \<lparr> rows = [demo_row\<lparr> pi_status := Approved, decided_at := Some 5,
       grants_json := Some (Parsed (JObj [])) \<rparr>], last_id = 1 \<rparr> =
     Inr (Some demo_claimed, \<lparr> rows = [demo_claimed], last_id = 1 \<rparr>)"
  by (simp add: claim_install_def load_request_def get_request_by_id_def mark_installing_def
      set_status_def pi_status_of_def get_request_def by_token_def no_change_def written_def
      upd_where_def TERMINAL_STATUSES_def pi_demo Let_def)

lemma demo_install_run: "(pi_op demo_path_env demo_pi_env)\<^sup>*\<^sup>* no_installs \<lparr> rows = [demo_claimed], last_id = 1 \<rparr>"
  using po_request [OF demo_created] po_approve [OF demo_marked] po_claim [OF demo_claim]
  by (meson converse_rtranclp_into_rtranclp r_into_rtranclp)

theorem install_once_approved_witness:
  "pi_status demo_claimed = Installing \<and> attempts demo_claimed = 1 \<and> grants_json demo_claimed \<noteq> None"
proof -
  have s: "pi_status demo_claimed = Installing" by (simp add: pi_demo)
  show ?thesis using install_once_approved [OF demo_install_run, of demo_claimed] s by simp
qed

theorem install_decided_once_witness:
  "mark_approved 9 ''t'' [] (fst (snd (recover_installs demo_path_env demo_pi_env 8
      \<lparr> rows = [demo_claimed], last_id = 1 \<rparr> []))) = state_error"
proof -
  let ?st = "\<lparr> rows = [demo_claimed], last_id = 1 \<rparr>"
  obtain ns st' ds' where r: "recover_installs demo_path_env demo_pi_env 8 ?st [] = (ns, st', ds')"
    by (metis prod_cases3)
  have w: "pi_wf ?st" by (simp add: pi_wf_def wf_ids_def pi_demo)
  have at1: "row_at 1 ?st = Some demo_claimed" "pi_status demo_claimed \<noteq> Requested" "pi_token demo_claimed = ''t''"
    by (simp_all add: pi_demo)
  have run: "(pi_op demo_path_env demo_pi_env)\<^sup>*\<^sup>* ?st st'"
    by (rule r_into_rtranclp) (rule po_recover [OF r])
  show ?thesis using install_decided_once [OF w at1(1,2) run] r at1(3) by simp
qed

definition settled :: "pi_env \<Rightarrow> time \<Rightarrow> install_row \<Rightarrow> bool" where
  "settled env now r =
     (pi_status r \<noteq> Installing \<and> \<not> (pi_status r = Requested \<and> expires_at r \<le> now) \<and>
      \<not> (pi_status r = Approved \<and>
         decision_time r \<le> now - hours_us (approved_grace_hours (pe_float env) (pe_section env))))"

text \<open>A restart leaves nothing half done. After the startup sweep of a table that fits its batches no
  request is still installing, none is undecided past its time to live, and none has been approved
  for longer than the grace period.\<close>

theorem recovery_settles:
  assumes "pi_wf st" and "[] \<notin> pi_token ` set (rows st)" and "length (rows st) \<le> 200"
    and "recover_installs pe env now st ds = (ns, st', ds')" and "r \<in> set (rows st')"
  shows "settled env now r"
proof -
  obtain f1 s1 d1 f2 s2 d2 f3 d3 where
    r1: "fail_interrupted_installs pe now st ds = (f1, s1, d1)" and
    r2: "fail_stale_approved pe env now s1 d1 = (f2, s2, d2)" and
    r3: "sweep_expired pe now s2 d2 = (f3, st', d3)"
    using assms(4) by (auto simp: recover_installs_def split: prod.splits)
  note fold_failing = failing_def [symmetric]
  have 1: "pi_wf s1 \<and> [] \<notin> pi_token ` set (rows s1) \<and> length (rows s1) = length (rows st) \<and>
      (\<forall>x \<in> set (rows s1). x \<in> set (rows st) \<and> \<not> (pi_status x = Installing \<and> True) \<or> pi_status x \<in> TERMINAL_STATUSES)"
    using r1 unfolding fail_interrupted_installs_def mark_interrupted_def fold_failing
    using sweep_selected [of st IFailed Installing "''failed''" _ "\<lambda>x. True"] assms(1-3)
    by (simp add: pi_status_of_def TERMINAL_STATUSES_def)
  have 2: "pi_wf s2 \<and> [] \<notin> pi_token ` set (rows s2) \<and> length (rows s2) = length (rows s1) \<and>
      (\<forall>x \<in> set (rows s2). x \<in> set (rows s1) \<and> \<not> (pi_status x = Approved \<and>
           decision_time x \<le> now - hours_us (approved_grace_hours (pe_float env) (pe_section env)))
         \<or> pi_status x \<in> TERMINAL_STATUSES)"
    using r2 1 assms(3) unfolding fail_stale_approved_def mark_stale_def fold_failing Let_def
    using sweep_selected [of s1 IFailed Approved "''failed''" _ "\<lambda>x. decision_time x \<le> now - hours_us (approved_grace_hours (pe_float env) (pe_section env))"]
    by (simp add: pi_status_of_def TERMINAL_STATUSES_def)
  have 3: "\<forall>x \<in> set (rows st'). x \<in> set (rows s2) \<and> \<not> (pi_status x = Requested \<and> expires_at x \<le> now)
         \<or> pi_status x \<in> TERMINAL_STATUSES"
    using r3 1 2 assms(3) sweep_selected [of s2 Expired Requested "''expired''" _ "\<lambda>x. expires_at x \<le> now"]
    unfolding sweep_expired_def mark_expired_def fold_failing due_for_expiry_def sql_limit_def
    by (simp add: pi_status_of_def TERMINAL_STATUSES_def)
  have a: "pi_status r \<in> TERMINAL_STATUSES \<or> r \<in> set (rows s2) \<and> \<not> (pi_status r = Requested \<and> expires_at r \<le> now)"
    using 3 assms(5) by blast
  have b: "pi_status r \<in> TERMINAL_STATUSES \<or> r \<in> set (rows s1) \<and> \<not> (pi_status r = Approved \<and>
      decision_time r \<le> now - hours_us (approved_grace_hours (pe_float env) (pe_section env)))"
    using 2 a by blast
  have c: "pi_status r \<in> TERMINAL_STATUSES \<or> pi_status r \<noteq> Installing" using 1 b by blast
  show ?thesis using a b c by (auto simp: settled_def TERMINAL_STATUSES_def)
qed

theorem recovery_settles_witness:
  "\<exists>ns st' ds'. recover_installs demo_path_env demo_pi_env 8 \<lparr> rows = [demo_claimed], last_id = 1 \<rparr> []
     = (ns, st', ds') \<and> (\<forall>r \<in> set (rows st'). settled demo_pi_env 8 r)"
proof -
  let ?st = "\<lparr> rows = [demo_claimed], last_id = 1 \<rparr>"
  obtain ns st' ds' where r: "recover_installs demo_path_env demo_pi_env 8 ?st [] = (ns, st', ds')"
    by (metis prod_cases3)
  have "pi_wf ?st" "[] \<notin> pi_token ` set (rows ?st)" "length (rows ?st) \<le> 200"
    by (simp_all add: pi_wf_def wf_ids_def pi_demo)
  from recovery_settles [OF this r] show ?thesis using r by blast
qed

text \<open>The sweeps stay in the quarantine. With parents that nest as those of paths do, the startup sweep
  only removes directories that lie strictly below the configured quarantine root, whatever the
  rows record as their staging directory.\<close>

theorem recovery_confined:
  assumes "paths_ok pe ds" and "recover_installs pe env now st ds = (ns, st', ds')"
    and "d \<in> set ds" and "d \<notin> set ds'"
  shows "\<exists>b. quarantine_root pe = Some b \<and> b \<in> set (q_parents d)"
proof -
  obtain f1 s1 d1 f2 s2 d2 f3 d3 where
    r: "fail_interrupted_installs pe now st ds = (f1, s1, d1)"
      "fail_stale_approved pe env now s1 d1 = (f2, s2, d2)" "sweep_expired pe now s2 d2 = (f3, st', d3)"
    and d': "ds' = snd (sweep_orphan_quarantines pe (of_int now / 1000000) 3600 500 st' d3)"
    using assms(2) by (auto simp: recover_installs_def split: prod.splits)
  have c1: "confined pe ds d1"
    using r(1) unfolding fail_interrupted_installs_def by (rule sweep_rows_confined [OF assms(1)])
  note p1 = confined_ok [OF assms(1) c1]
  have c2: "confined pe d1 d2"
    using r(2) unfolding fail_stale_approved_def Let_def by (rule sweep_rows_confined [OF p1])
  note p2 = confined_ok [OF p1 c2]
  have c3: "confined pe d2 d3"
    using r(3) unfolding sweep_expired_def by (rule sweep_rows_confined [OF p2])
  have "confined pe d3 ds'" unfolding d' by (rule sweep_orphan_confined [OF confined_ok [OF p2 c3]])
  then have "confined pe ds ds'" using c1 c2 c3 confined_trans by blast
  then show ?thesis using assms(3,4) by (auto simp: confined_def below_root_def)
qed

definition demo_dirs :: "qdir list" where
  "demo_dirs =
     [\<lparr> q_path = ''q'', q_parents = [], q_name = ''q'', q_mtime = 0, q_link = False \<rparr>,
      \<lparr> q_path = ''q/req-1'', q_parents = [''q''], q_name = ''req-1'', q_mtime = 0, q_link = False \<rparr>]"

lemma demo_swept:
  "snd (snd (recover_installs demo_path_env demo_pi_env 8 \<lparr> rows = [demo_claimed], last_id = 1 \<rparr> demo_dirs))
     = [hd demo_dirs]"
  by (simp add: recover_installs_def fail_interrupted_installs_def fail_stale_approved_def
      sweep_expired_def mark_interrupted_def set_status_def pi_status_of_def get_request_def by_token_def
      no_change_def remove_staging_def rmtree_def sweep_orphan_quarantines_def children_of_def
      due_for_expiry_def sql_limit_def upd_where_def demo_dirs_def pi_demo Let_def split: prod.split)

theorem recovery_confined_witness:
  "let d = demo_dirs ! 1 in
     d \<notin> set (snd (snd (recover_installs demo_path_env demo_pi_env 8 \<lparr> rows = [demo_claimed], last_id = 1 \<rparr> demo_dirs)))
     \<and> ''q'' \<in> set (q_parents d)"
proof -
  let ?st = "\<lparr> rows = [demo_claimed], last_id = 1 \<rparr>"
  obtain ns st' ds' where r: "recover_installs demo_path_env demo_pi_env 8 ?st demo_dirs = (ns, st', ds')"
    by (metis prod_cases3)
  have p: "paths_ok demo_path_env demo_dirs" by (auto simp: paths_ok_def demo_dirs_def demo_path_env_def)
  have d: "demo_dirs ! 1 \<in> set demo_dirs" "demo_dirs ! 1 \<notin> set ds'"
    using demo_swept unfolding r by (simp_all add: demo_dirs_def)
  from recovery_confined [OF p r d] show ?thesis using d r by (simp add: demo_path_env_def)
qed

end
