(* ===== verification/Startup_Recovery.thy ===== *)
theory Startup_Recovery
  imports Arc_Escalation Arc_Ready Pending_Install
begin

text \<open>
  What the platform does to its database when it starts: \<open>_recover_on_startup\<close> of \<open>db.py\<close>.

  The state is the database with three tables it does not hold: executions, execution sessions
  and package install requests (absent until a package was ever installed). All of it is one
  transaction, committed when one of the counters is positive. Times of history entries are cut
  to seconds.
\<close>

section \<open>State\<close>

record run_row =
  ru_id :: int
  ru_status :: string
  ru_done :: "time option"

record session_row =
  ss_id :: string
  ss_expires :: time

record platform =
  pf_db :: db
  pf_runs :: "run_row list"
  pf_sessions :: "session_row list"
  pf_installs :: "installs option"
  pf_dirs :: "qdir list"

section \<open>The steps\<close>

definition reset_item :: "work_item \<Rightarrow> work_item" where
  "reset_item r = r\<lparr> wstatus := WPending, claimed_at := None \<rparr>"

definition recovered :: "string \<Rightarrow> string \<Rightarrow> json" where
  "recovered from why = JObj [(''from'', JStr from), (''to'', JStr ''pending''), (''reason'', JStr why)]"

definition log_recovered :: "time \<Rightarrow> string \<Rightarrow> string \<Rightarrow> int list \<Rightarrow> db \<Rightarrow> db" where
  "log_recovered now from why is d =
     fold (\<lambda>i. log_history now i ''status_change'' (recovered from why) None (Some ''startup_recovery'')) is d"

definition reset_active :: "time \<Rightarrow> db \<Rightarrow> nat \<times> db" where
  "reset_active now d =
     (let is = map aid (filter (\<lambda>a. astatus a = Active) (arcs d));
          d1 = d\<lparr> arcs := upd_where (\<lambda>a. astatus a = Active) (\<lambda>a. a\<lparr> astatus := Pending \<rparr>) (arcs d) \<rparr>
      in (length is, log_recovered now ''active'' ''orphaned by crash/restart'' is d1))"

definition retry_waiting :: "db \<Rightarrow> int list" where
  "retry_waiting d =
     map aid (filter (\<lambda>a. astatus a = Waiting \<and> state_cell (aid a) ''_retry_count'' d \<noteq> None) (arcs d))"

definition reset_waiting :: "time \<Rightarrow> db \<Rightarrow> nat \<times> db" where
  "reset_waiting now d =
     (let is = retry_waiting d;
          d1 = d\<lparr> arcs := upd_where (\<lambda>a. aid a \<in> set is) (\<lambda>a. a\<lparr> astatus := Pending \<rparr>) (arcs d) \<rparr>
      in (length is, log_recovered now ''waiting'' ''retry backoff interrupted by restart'' is d1))"

definition crash_run :: "time \<Rightarrow> run_row \<Rightarrow> run_row" where
  "crash_run now r = r\<lparr> ru_status := ''crashed'', ru_done := Some now \<rparr>"

definition stale_prompt :: "state_row \<Rightarrow> bool" where
  "stale_prompt r = (s_arc r = 0 \<and> s_key r = ''pending_escalation'')"

definition recover_pending_installs ::
    "path_env \<Rightarrow> pi_env \<Rightarrow> time \<Rightarrow> installs option \<Rightarrow> qdir list \<Rightarrow> (nat \<times> nat) \<times> installs option \<times> qdir list" where
  "recover_pending_installs pe ie now st ds =
     (case st of
        None \<Rightarrow> ((0, 0), None, ds)
      | Some s \<Rightarrow> (case recover_installs pe ie now s ds of (ns, s', ds') \<Rightarrow> (ns, Some s', ds')))"

definition count :: "('r \<Rightarrow> bool) \<Rightarrow> 'r list \<Rightarrow> nat" where
  "count P rs = length (filter P rs)"

definition recover_on_startup :: "path_env \<Rightarrow> pi_env \<Rightarrow> time \<Rightarrow> platform \<Rightarrow> platform" where
  "recover_on_startup pe ie now pf =
     (let d = pf_db pf;
          claimed = count (\<lambda>r. wstatus r = WClaimed) (queue d);
          d1 = d\<lparr> queue := upd_where (\<lambda>r. wstatus r = WClaimed) reset_item (queue d) \<rparr>;
          (active, d2) = reset_active now d1;
          (waiting, d3) = reset_waiting now d2;
          crashed = count (\<lambda>r. ru_status r = ''running'') (pf_runs pf);
          runs = upd_where (\<lambda>r. ru_status r = ''running'') (crash_run now) (pf_runs pf);
          old = count (\<lambda>s. ss_expires s < now) (pf_sessions pf);
          live = del_where (\<lambda>s. ss_expires s < now) (pf_sessions pf);
          cleared = count stale_prompt (state d3);
          d4 = d3\<lparr> state := del_where stale_prompt (state d3) \<rparr>;
          ((gone, cut), sts, ds) = recover_pending_installs pe ie now (pf_installs pf) (pf_dirs pf)
      in if claimed + active + waiting + crashed + old + cleared + gone + cut = 0 then pf\<lparr> pf_dirs := ds \<rparr>
         else \<lparr> pf_db = d4, pf_runs = runs, pf_sessions = live, pf_installs = sts, pf_dirs = ds \<rparr>)"

section \<open>Facts\<close>

lemma log_recovered_frame [simp]:
  "arcs (log_recovered now f w is d) = arcs d" "state (log_recovered now f w is d) = state d"
  "queue (log_recovered now f w is d) = queue d"
  by (induction "is" arbitrary: d) (simp_all add: log_recovered_def)

lemma count_0: "count P rs = 0 \<longleftrightarrow> (\<forall>r \<in> set rs. \<not> P r)"
  by (auto simp: count_def filter_empty_conv)

lemma upd_where_none: "\<forall>r \<in> set rs. \<not> P r \<Longrightarrow> upd_where P f rs = rs"
  by (induction rs) auto

text \<open>Every created arc gets a retry counter, whether or not it is ever retried.\<close>

lemma create_arc_cells:
  assumes "create_arc env now ca d = Inr (n, d')"
  shows "state_cell n ''_retry_count'' d' \<noteq> None"
    and "i \<noteq> n \<Longrightarrow> state_cell i k d' = state_cell i k d"
proof -
  obtain a d1 where r: "insert_arc_row env now ca d = Inr (a, d1)" and
    ins: "insert_arc env now ca d = Inr (n, d')"
    using create_arc_insert [OF assms] by (auto simp: insert_arc_def split: sum.splits prod.splits)
  have n: "aid a = n" using ins r by (simp add: insert_arc_def Let_def)
  have st: "state d1 = state d" and ex: "arc_exists (aid a) d1"
    using r by (auto elim!: insert_arc_row_spec simp: arc_exists_def find_row_append)
  obtain d2 where d2: "initialize_retry_state (env_retry env) now (aid a) ''transient_only'' None d1 = Inr d2"
    using ex by (simp add: initialize_retry_state_def Let_def)
  have cells: "state_cell n ''_retry_count'' d2 \<noteq> None" "i \<noteq> n \<Longrightarrow> state_cell i k d2 = state_cell i k d1" for i k
    using d2 n by (auto simp: initialize_retry_state_def Let_def state_cell_put_state split: if_splits)
  have "state d' = state d2" using ins r d2 by (auto simp: insert_arc_def Let_def)
  then show "state_cell n ''_retry_count'' d' \<noteq> None" "i \<noteq> n \<Longrightarrow> state_cell i k d' = state_cell i k d"
    using cells st by (auto simp: state_cell_def)
qed

definition fell_idle :: "db \<Rightarrow> arc \<Rightarrow> bool" where
  "fell_idle d a = (astatus a = Active \<or> astatus a = Waiting \<and> state_cell (aid a) ''_retry_count'' d \<noteq> None)"

lemma retry_waiting_mem:
  "wf_ids aid (arcs d) \<Longrightarrow> a \<in> set (arcs d) \<Longrightarrow>
     aid a \<in> set (retry_waiting d) \<longleftrightarrow> astatus a = Waiting \<and> state_cell (aid a) ''_retry_count'' d \<noteq> None"
  by (auto simp: retry_waiting_def wf_ids_def distinct_map inj_on_def)

lemma reset_arcs:
  assumes "wf_ids aid (arcs d)"
  shows "arcs (snd (reset_waiting now (snd (reset_active now (d\<lparr> queue := q \<rparr>))))) =
    map (\<lambda>a. if fell_idle d a then a\<lparr> astatus := Pending \<rparr> else a) (arcs d)"
proof -
  let ?d2 = "snd (reset_active now (d\<lparr> queue := q \<rparr>))"
  have a2: "arcs ?d2 = map (\<lambda>a. if astatus a = Active then a\<lparr> astatus := Pending \<rparr> else a) (arcs d)"
    and s2: "state_cell i k ?d2 = state_cell i k d" for i k
    by (simp_all add: reset_active_def Let_def upd_where_def state_cell_def)
  have wf: "wf_ids aid (arcs ?d2)"
    using assms by (simp add: reset_active_def Let_def wf_ids_upd_where)
  have "arcs (snd (reset_waiting now ?d2)) =
      map (\<lambda>a. if aid a \<in> set (retry_waiting ?d2) then a\<lparr> astatus := Pending \<rparr> else a) (arcs ?d2)"
    by (simp add: reset_waiting_def Let_def upd_where_def)
  also have "\<dots> = map (\<lambda>a. if astatus a = Waiting \<and> state_cell (aid a) ''_retry_count'' ?d2 \<noteq> None
      then a\<lparr> astatus := Pending \<rparr> else a) (arcs ?d2)"
    by (rule map_cong [OF refl]) (simp add: retry_waiting_mem [OF wf])
  finally show ?thesis by (auto simp: a2 s2 fell_idle_def)
qed

lemma reset_counts:
  assumes "wf_ids aid (arcs d)"
    and "fst (reset_active now (d\<lparr> queue := q \<rparr>)) = 0"
    and "fst (reset_waiting now (snd (reset_active now (d\<lparr> queue := q \<rparr>)))) = 0"
  shows "\<forall>a \<in> set (arcs d). \<not> fell_idle d a"
proof -
  have act: "\<forall>a \<in> set (arcs d). astatus a \<noteq> Active"
    using assms(2) by (auto simp: reset_active_def Let_def filter_empty_conv)
  then have "arcs (snd (reset_active now (d\<lparr> queue := q \<rparr>))) = arcs d"
    by (simp add: reset_active_def Let_def upd_where_none)
  then show ?thesis
    using act assms(3)
    by (auto simp: reset_waiting_def Let_def retry_waiting_def filter_empty_conv fell_idle_def state_cell_def reset_active_def)
qed

lemma recovered_db:
  assumes "wf_ids aid (arcs (pf_db pf))"
  shows "arcs (pf_db (recover_on_startup pe ie now pf)) =
      map (\<lambda>a. if fell_idle (pf_db pf) a then a\<lparr> astatus := Pending \<rparr> else a) (arcs (pf_db pf))"
    and "queue (pf_db (recover_on_startup pe ie now pf)) =
      upd_where (\<lambda>r. wstatus r = WClaimed) reset_item (queue (pf_db pf))"
    and "pf_runs (recover_on_startup pe ie now pf) = upd_where (\<lambda>r. ru_status r = ''running'') (crash_run now) (pf_runs pf)"
    and "state (pf_db (recover_on_startup pe ie now pf)) = del_where stale_prompt (state (pf_db pf))"
proof -
  let ?d = "pf_db pf"
  let ?q = "upd_where (\<lambda>r. wstatus r = WClaimed) reset_item (queue ?d)"
  obtain n2 d2 where d2: "reset_active now (?d\<lparr> queue := ?q \<rparr>) = (n2, d2)" by fastforce
  obtain n3 d3 where d3: "reset_waiting now d2 = (n3, d3)" by fastforce
  obtain g c sts ds where p: "recover_pending_installs pe ie now (pf_installs pf) (pf_dirs pf) = ((g, c), sts, ds)"
    by (metis prod.collapse)
  let ?n = "count (\<lambda>r. wstatus r = WClaimed) (queue ?d) + n2 + n3 + count (\<lambda>r. ru_status r = ''running'') (pf_runs pf) +
    count (\<lambda>s. ss_expires s < now) (pf_sessions pf) + count stale_prompt (state d3) + g + c"
  have fr: "queue d3 = ?q" "state d3 = state ?d"
    using d2 d3 by (auto simp: reset_active_def reset_waiting_def Let_def)
  have as: "arcs d3 = map (\<lambda>a. if fell_idle ?d a then a\<lparr> astatus := Pending \<rparr> else a) (arcs ?d)"
    using reset_arcs [OF assms, of now ?q] d2 d3 by simp
  have r: "recover_on_startup pe ie now pf =
    (if ?n = 0 then pf\<lparr> pf_dirs := ds \<rparr>
     else \<lparr> pf_db = d3\<lparr> state := del_where stale_prompt (state d3) \<rparr>,
            pf_runs = upd_where (\<lambda>r. ru_status r = ''running'') (crash_run now) (pf_runs pf),
            pf_sessions = del_where (\<lambda>s. ss_expires s < now) (pf_sessions pf), pf_installs = sts, pf_dirs = ds \<rparr>)"
    using d2 d3 p by (simp add: recover_on_startup_def Let_def)
  have z: "?q = queue ?d" "upd_where (\<lambda>r. ru_status r = ''running'') (crash_run now) (pf_runs pf) = pf_runs pf"
    "del_where stale_prompt (state ?d) = state ?d" "\<forall>a \<in> set (arcs ?d). \<not> fell_idle ?d a" if "?n = 0"
    using that reset_counts [OF assms, of now ?q] d2 d3 fr
    by (simp_all add: count_0 upd_where_none del_where_def filter_id_conv)
  show "arcs (pf_db (recover_on_startup pe ie now pf)) = map (\<lambda>a. if fell_idle ?d a then a\<lparr> astatus := Pending \<rparr> else a) (arcs ?d)"
    unfolding r using z(4) by (simp add: as map_idI)
  show "queue (pf_db (recover_on_startup pe ie now pf)) = ?q"
    unfolding r using z(1) by (simp add: fr)
  show "pf_runs (recover_on_startup pe ie now pf) = upd_where (\<lambda>r. ru_status r = ''running'') (crash_run now) (pf_runs pf)"
    unfolding r using z(2) by simp
  show "state (pf_db (recover_on_startup pe ie now pf)) = del_where stale_prompt (state ?d)"
    unfolding r using z(3) by (simp add: fr)
qed

section \<open>Properties\<close>

text \<open>C22: What a restart does to arcs and work. Exactly the active arcs, and the waiting ones with a
  retry counter, become pending, every other arc keeps its row; no item stays claimed, each keeps
  its identity, and no execution is left running.\<close>

theorem recovery_exact:
  assumes "wf_ids aid (arcs (pf_db pf))"
  shows "find_arc i (pf_db (recover_on_startup pe ie now pf)) =
      map_option (\<lambda>a. if astatus a = Active \<or> astatus a = Waiting \<and> state_cell (aid a) ''_retry_count'' (pf_db pf) \<noteq> None
                      then a\<lparr> astatus := Pending \<rparr> else a) (find_arc i (pf_db pf))
    \<and> (\<forall>r \<in> set (queue (pf_db (recover_on_startup pe ie now pf))). wstatus r \<noteq> WClaimed)
    \<and> map wid (queue (pf_db (recover_on_startup pe ie now pf))) = map wid (queue (pf_db pf))
    \<and> (\<forall>r \<in> set (pf_runs (recover_on_startup pe ie now pf)). ru_status r \<noteq> ''running'')"
proof (intro conjI)
  have "arcs (pf_db (recover_on_startup pe ie now pf)) =
      upd_where (fell_idle (pf_db pf)) (\<lambda>a. a\<lparr> astatus := Pending \<rparr>) (arcs (pf_db pf))"
    by (simp add: recovered_db(1) [OF assms] upd_where_def)
  then show "find_arc i (pf_db (recover_on_startup pe ie now pf)) =
      map_option (\<lambda>a. if astatus a = Active \<or> astatus a = Waiting \<and> state_cell (aid a) ''_retry_count'' (pf_db pf) \<noteq> None
                      then a\<lparr> astatus := Pending \<rparr> else a) (find_arc i (pf_db pf))"
    by (simp add: find_row_upd_where fell_idle_def)
  show "\<forall>r \<in> set (queue (pf_db (recover_on_startup pe ie now pf))). wstatus r \<noteq> WClaimed"
    unfolding recovered_db(2) [OF assms] by (auto simp: set_upd_where reset_item_def)
  show "map wid (queue (pf_db (recover_on_startup pe ie now pf))) = map wid (queue (pf_db pf))"
    unfolding recovered_db(2) [OF assms] by (rule map_key_upd_where) (simp add: reset_item_def)
  show "\<forall>r \<in> set (pf_runs (recover_on_startup pe ie now pf)). ru_status r \<noteq> ''running''"
    unfolding recovered_db(3) [OF assms] by (auto simp: set_upd_where crash_run_def)
qed

lemma created_supervisor:
  assumes "create_arc env now ca d = Inr (n, d')" "ca_agent ca = ''SUPERVISOR''"
  shows "\<exists>a. arcs d' = arcs d @ [a] \<and> aid a = n \<and> n = next_rowid aid (arcs d) \<and> aagent a = SUPERVISOR \<and>
    astatus a = Waiting \<and> parent_id a = ca_parent ca"
proof -
  obtain a d1 where i: "insert_arc_row env now ca d = Inr (a, d1)" "aid a = n" "arcs d' = arcs d1"
    using create_arc_insert [OF assms(1)] by (elim conjE insert_arc_spec)
  obtain ag ro po d0 il ot where r: "validate_agent_type (ca_agent ca) = Inr ag" "arcs d0 = arcs d"
    "a = new_arc_row now ca il ot ag ro po d0" "arcs d1 = arcs d @ [a]"
    by (rule insert_arc_row_spec [OF i(1)]) blast
  have "ag = SUPERVISOR" using r(1) assms(2) by (cases ag) (auto simp: validate_agent_type_Inr)
  then show ?thesis using i r by (intro exI [of _ a]) simp
qed

text \<open>A restart deafens the supervisors. A SUPERVISOR that was created waiting is pending after a
  restart, because its retry counter was written at its creation; no heartbeat dispatches it from
  there, and the failure of an arc below it changes nothing: no record, no wake-up.\<close>

theorem supervisor_deaf_after_restart:
  assumes "create_arc env now ca d = Inr (s, d1)" "ca_parent ca = None" "ca_agent ca = ''SUPERVISOR''" "wf_tree (arcs d)"
    and "create_arc env now2 cb d1 = Inr (c, d2)" "ca_parent cb = Some s" "pf_db pf = d2"
  shows "\<exists>a. find_arc s (pf_db (recover_on_startup pe ie t pf)) = Some a \<and> astatus a = Pending \<and>
      (\<forall>le u. a \<notin> set (scan_rows le u (arcs (pf_db (recover_on_startup pe ie t pf))))) \<and>
      notify_parent_of_failure fmt env u c (pf_db (recover_on_startup pe ie t pf)) =
        (Inr (), pf_db (recover_on_startup pe ie t pf))"
proof -
  let ?d = "pf_db (recover_on_startup pe ie t pf)"
  obtain ra where ra: "arcs d1 = arcs d @ [ra]" "aid ra = s" "s = next_rowid aid (arcs d)" "aagent ra = SUPERVISOR"
    "astatus ra = Waiting" "parent_id ra = None"
    using created_supervisor [OF assms(1,3)] assms(2) by auto
  obtain rb ag ot ro po d0 where rb: "arcs d2 = arcs d1 @ [rb]" "aid rb = c" "c = next_rowid aid (arcs d1)"
    "rb = new_arc_row now2 cb TRUSTED ot ag ro po d0" by (rule create_arc_row [OF assms(5)])
  have wf: "wf_tree (arcs d2)"
    using ev_create_arc [OF assms(1)] ev_create_arc [OF assms(5)] assms(4) by (simp add: evolves_def)
  then have ids: "wf_ids aid (arcs (pf_db pf))" using assms(7) by (simp add: wf_tree_def)
  have sc: "s < c" using ra rb next_rowid_gt [of ra "arcs d1" aid] by auto
  have cell: "state_cell s ''_retry_count'' d2 \<noteq> None"
    using create_arc_cells(1) [OF assms(1)] create_arc_cells(2) [OF assms(5)] sc by auto
  have f: "find_arc s d2 = Some ra" "find_arc c d2 = Some rb"
    using find_row_distinct [of aid "arcs d2"] wf ra(1,2) rb(1,2) by (auto simp: wf_tree_def)
  have g: "find_arc i ?d = map_option (\<lambda>a. if fell_idle d2 a then a\<lparr> astatus := Pending \<rparr> else a) (find_arc i d2)" for i
    unfolding recovered_db(1) [OF ids] assms(7) upd_where_def [symmetric] by (rule find_row_upd_where) simp
  have idle: "fell_idle d2 ra" using ra cell by (simp add: fell_idle_def)
  have s: "find_arc s ?d = Some (ra\<lparr> astatus := Pending \<rparr>)" using g f idle by simp
  obtain b where b: "find_arc c ?d = Some b" "parent_id b = Some s" using g f(2) rb(4) assms(6) by simp
  have par: "parent_of (arcs ?d) c = Some s" "parent_of (arcs ?d) s = None"
    using s b ra(6) by (simp_all add: parent_of_def)
  have w: "walk_ancestors (arcs ?d) c = [s]"
  proof -
    have "2 \<le> nat c" using sc next_rowid_pos [of aid "arcs d"] ra(3) by linarith
    then obtain m where n: "nat c = Suc (Suc m)" using le_Suc_ex by (metis add_2_eq_Suc)
    show ?thesis using par by (simp add: walk_ancestors_def n)
  qed
  have "find_supervisor_ancestor c ?d = None"
    using s w by (simp add: find_supervisor_ancestor_def get_arc_def waiting_supervisor_def)
  then have "notify_parent_of_failure fmt env u c ?d = (Inr (), ?d)"
    using b s by (simp add: notify_parent_of_failure_def get_arc_def waiting_supervisor_def)
  moreover have "ra\<lparr> astatus := Pending \<rparr> \<notin> set (scan_rows le v (arcs ?d))" for le v
    using ra(4) by (simp add: scan_rows_def)
  ultimately show ?thesis using s by (intro exI [of _ "ra\<lparr> astatus := Pending \<rparr>"]) simp
qed

section \<open>Witnesses\<close>

definition on_disk :: "db \<Rightarrow> platform" where
  "on_disk d = \<lparr> pf_db = d, pf_runs = [\<lparr> ru_id = 1, ru_status = ''running'', ru_done = None \<rparr>], pf_sessions = [],
     pf_installs = None, pf_dirs = [] \<rparr>"

text \<open>A crash while one arc ran, a second one waited for its retry and a third for its children.\<close>

definition demo_crashed :: db where
  "demo_crashed = empty_db\<lparr>
     arcs := [(blank_arc 1)\<lparr> astatus := Active \<rparr>, (blank_arc 2)\<lparr> astatus := Waiting \<rparr>, (blank_arc 3)\<lparr> astatus := Waiting \<rparr>],
     state := [\<lparr> sid = 1, s_arc = 2, s_key = ''_retry_count'', s_value = Parsed (JInt 1), s_updated_at = 0 \<rparr>] \<rparr>"

theorem recovery_exact_witness:
  "map_option astatus (find_arc 2 (pf_db (recover_on_startup demo_path_env demo_pi_env 9 (on_disk demo_crashed)))) = Some Pending \<and>
   map_option astatus (find_arc 3 (pf_db (recover_on_startup demo_path_env demo_pi_env 9 (on_disk demo_crashed)))) = Some Waiting"
proof -
  have wf: "wf_ids aid (arcs (pf_db (on_disk demo_crashed)))"
    by (simp add: on_disk_def demo_crashed_def wf_ids_def)
  show ?thesis
    using recovery_exact [OF wf, of 2 demo_path_env demo_pi_env 9] recovery_exact [OF wf, of 3 demo_path_env demo_pi_env 9]
    by (simp add: on_disk_def demo_crashed_def state_cell_def empty_db_def)
qed

text \<open>A supervisor with one arc below it.\<close>

definition demo_supervisor :: create_args where
  "demo_supervisor = (default_args ''s'')\<lparr> ca_agent := ''SUPERVISOR'' \<rparr>"

definition demo_below :: create_args where
  "demo_below = (default_args ''w'')\<lparr> ca_parent := Some 1 \<rparr>"

lemma demo_supervised:
  "case create_arc demo_env 5 demo_supervisor empty_db of
     Inl _ \<Rightarrow> False
   | Inr (s, d1) \<Rightarrow> s = 1 \<and> (case create_arc demo_env 6 demo_below d1 of Inl _ \<Rightarrow> False | Inr (c, _) \<Rightarrow> c = 2)"
  by code_simp

theorem supervisor_deaf_after_restart_witness:
  "\<exists>d a. map aagent (arcs d) = [SUPERVISOR, EXECUTOR] \<and> map astatus (arcs d) = [Waiting, Pending] \<and>
     find_arc 1 (pf_db (recover_on_startup demo_path_env demo_pi_env 9 (on_disk d))) = Some a \<and> astatus a = Pending"
proof -
  obtain d1 d2 where c: "create_arc demo_env 5 demo_supervisor empty_db = Inr (1, d1)"
    "create_arc demo_env 6 demo_below d1 = Inr (2, d2)"
    using demo_supervised
    by (cases "create_arc demo_env 5 demo_supervisor empty_db"; cases "create_arc demo_env 6 demo_below (snd (projr (create_arc demo_env 5 demo_supervisor empty_db)))") auto
  have a: "ca_parent demo_supervisor = None" "ca_agent demo_supervisor = ''SUPERVISOR''" "ca_parent demo_below = Some 1"
    "wf_tree (arcs empty_db)" "pf_db (on_disk d2) = d2"
    by (simp_all add: demo_supervisor_def demo_below_def default_args_def wf_tree_def wf_ids_def empty_db_def on_disk_def)
  have "case create_arc demo_env 5 demo_supervisor empty_db of
     Inl _ \<Rightarrow> False
   | Inr (s, d1) \<Rightarrow> (case create_arc demo_env 6 demo_below d1 of Inl _ \<Rightarrow> False
       | Inr (c, d2) \<Rightarrow> map aagent (arcs d2) = [SUPERVISOR, EXECUTOR] \<and> map astatus (arcs d2) = [Waiting, Pending])"
    by code_simp
  then have "map aagent (arcs d2) = [SUPERVISOR, EXECUTOR] \<and> map astatus (arcs d2) = [Waiting, Pending]"
    using c by simp
  moreover obtain a where "find_arc 1 (pf_db (recover_on_startup demo_path_env demo_pi_env 9 (on_disk d2))) = Some a" "astatus a = Pending"
    using supervisor_deaf_after_restart [OF c(1) a(1,2,4) c(2) a(3,5), where pe = demo_path_env and ie = demo_pi_env and t = 9
      and fmt = demo_fmt and u = 9] by (elim exE conjE) (rule that)
  ultimately show ?thesis by (intro exI [of _ d2] exI [of _ a] conjI) simp_all
qed

end
