(* ===== verification/Retention.thy ===== *)
theory Retention
  imports Arc_Dispatch Startup_Recovery
begin

text \<open>
  The daily retention sweep (\<open>core/engine/retention.py\<close>): which rows of six tables are old enough,
  the deletion in batches, the configuration and the summary.

  The state is the database with the tables of conversations, messages and tool calls. Columns
  with the default \<open>CURRENT_TIMESTAMP\<close> hold seconds, as text with a blank; the cutoff is ISO text
  with a \<open>T\<close>, so a comparison of the two texts decides by the day. \<open>updated_at\<close> of an arc is
  ISO text as well and compares exactly. The subquery of a batch yields the rows in the order of
  their rowids. Counting rows does not fail. The parameter reads an integer from text.
\<close>

section \<open>State\<close>

record conv_row =
  cv_id :: int
  cv_archived :: bool
  cv_last :: "int option"
  cv_started :: int

record message_row =
  ms_id :: int
  ms_conv :: "int option"
  ms_created :: int

record tool_call_row =
  tc_id :: int
  tc_conv :: "int option"
  tc_message :: "int option"
  tc_created :: int

record archive =
  ar_db :: db
  ar_convs :: "conv_row list"
  ar_messages :: "message_row list"
  ar_calls :: "tool_call_row list"

section \<open>Old rows\<close>

datatype sweep_table = TEvents | TWorkQueue | THistory | TState | TCalls | TMessages

definition stamp_before :: "int \<Rightarrow> time \<Rightarrow> bool" where
  "stamp_before c cutoff = (c div 86400 \<le> cutoff div 86400000000)"

definition old_arc :: "time \<Rightarrow> arc \<Rightarrow> bool" where
  "old_arc cutoff a =
     (astatus a \<in> FROZEN_STATUSES \<and>
      (case aupdated_at a of Some t \<Rightarrow> t < cutoff | None \<Rightarrow> stamp_before (acreated_at a) cutoff))"

definition of_old_arc :: "time \<Rightarrow> db \<Rightarrow> int \<Rightarrow> bool" where
  "of_old_arc cutoff d i = (case find_arc i d of Some a \<Rightarrow> old_arc cutoff a | None \<Rightarrow> False)"

definition old_item :: "time \<Rightarrow> work_item \<Rightarrow> bool" where
  "old_item cutoff r =
     ((wstatus r = WComplete \<or> wstatus r = WDeadLetter) \<and>
      stamp_before (case wcompleted_at r of Some c \<Rightarrow> c | None \<Rightarrow> wcreated_at r) cutoff)"

definition of_old_conv :: "time \<Rightarrow> conv_row list \<Rightarrow> int option \<Rightarrow> bool" where
  "of_old_conv cutoff cs c =
     (case c of
        None \<Rightarrow> False
      | Some i \<Rightarrow>
          (case find_row cv_id i cs of
             None \<Rightarrow> False
           | Some r \<Rightarrow> cv_archived r \<and>
               stamp_before (case cv_last r of Some l \<Rightarrow> l | None \<Rightarrow> cv_started r) cutoff))"

definition prunable :: "sweep_table \<Rightarrow> time \<Rightarrow> archive \<Rightarrow> int list" where
  "prunable t cutoff st =
     (case t of
        TEvents \<Rightarrow> map eid (filter (\<lambda>e. eprocessed e \<and> stamp_before (ecreated_at e) cutoff) (events (ar_db st)))
      | TWorkQueue \<Rightarrow> map wid (filter (old_item cutoff) (queue (ar_db st)))
      | THistory \<Rightarrow> map hid (filter (\<lambda>h. of_old_arc cutoff (ar_db st) (h_arc h)) (history (ar_db st)))
      | TState \<Rightarrow> map sid (filter (\<lambda>s. of_old_arc cutoff (ar_db st) (s_arc s)) (state (ar_db st)))
      | TCalls \<Rightarrow> map tc_id (filter (\<lambda>c. of_old_conv cutoff (ar_convs st) (tc_conv c) \<and> stamp_before (tc_created c) cutoff) (ar_calls st))
      | TMessages \<Rightarrow> map ms_id (filter (\<lambda>m. of_old_conv cutoff (ar_convs st) (ms_conv m) \<and> stamp_before (ms_created m) cutoff) (ar_messages st)))"

definition delete_rows :: "sweep_table \<Rightarrow> int list \<Rightarrow> archive \<Rightarrow> archive" where
  "delete_rows t ids st =
     (let d = ar_db st in
      case t of
        TEvents \<Rightarrow> st\<lparr> ar_db := d\<lparr> events := del_where (\<lambda>r. eid r \<in> set ids) (events d) \<rparr> \<rparr>
      | TWorkQueue \<Rightarrow> st\<lparr> ar_db := d\<lparr> queue := del_where (\<lambda>r. wid r \<in> set ids) (queue d) \<rparr> \<rparr>
      | THistory \<Rightarrow> st\<lparr> ar_db := d\<lparr> history := del_where (\<lambda>r. hid r \<in> set ids) (history d) \<rparr> \<rparr>
      | TState \<Rightarrow> st\<lparr> ar_db := d\<lparr> state := del_where (\<lambda>r. sid r \<in> set ids) (state d) \<rparr> \<rparr>
      | TCalls \<Rightarrow> st\<lparr> ar_calls := del_where (\<lambda>r. tc_id r \<in> set ids) (ar_calls st) \<rparr>
      | TMessages \<Rightarrow> st\<lparr> ar_messages := del_where (\<lambda>r. ms_id r \<in> set ids) (ar_messages st) \<rparr>)"

text \<open>A message that a tool call refers to cannot be deleted; its whole batch fails.\<close>

definition blocked :: "sweep_table \<Rightarrow> int list \<Rightarrow> archive \<Rightarrow> bool" where
  "blocked t ids st = (t = TMessages \<and> list_ex (\<lambda>c. tc_message c \<in> Some ` set ids) (ar_calls st))"

lemma prunable_delete: "prunable t c (delete_rows t ids st) = filter (\<lambda>i. i \<notin> set ids) (prunable t c st)"
  by (cases t)
    (simp_all add: prunable_def delete_rows_def Let_def del_where_def filter_map comp_def of_old_arc_def conj_commute)

function batch_loop :: "sweep_table \<Rightarrow> time \<Rightarrow> nat \<Rightarrow> archive \<Rightarrow> nat \<times> archive" where
  "batch_loop t c b st =
     (let ids = take b (prunable t c st) in
      if blocked t ids st \<or> ids = [] then (0, st)
      else let st1 = delete_rows t ids st in
        if length ids < b then (length ids, st1)
        else case batch_loop t c b st1 of (n, st2) \<Rightarrow> (length ids + n, st2))"
  by pat_completeness auto

termination
proof (relation "measure (\<lambda>(t, c, b, st). length (prunable t c st))", goal_cases)
  case (2 t c b st ids st1)
  then have "take b (prunable t c st) \<noteq> []" by simp
  then obtain i where i: "i \<in> set (take b (prunable t c st))" by (meson list.set_sel(1))
  then have "i \<in> set (prunable t c st)" by (rule in_set_takeD)
  then have "length (filter (\<lambda>i. i \<notin> set (take b (prunable t c st))) (prunable t c st)) < length (prunable t c st)"
    by (intro length_filter_less) (use i in auto)
  then show ?case using 2 by (simp add: prunable_delete)
qed simp

declare batch_loop.simps [simp del]

section \<open>The sweep\<close>

definition table_name :: "sweep_table \<Rightarrow> string" where
  "table_name t = (case t of TEvents \<Rightarrow> ''events'' | TWorkQueue \<Rightarrow> ''work_queue'' | THistory \<Rightarrow> ''arc_history''
     | TState \<Rightarrow> ''arc_state'' | TCalls \<Rightarrow> ''tool_calls'' | TMessages \<Rightarrow> ''messages'')"

definition TABLE_ORDER :: "sweep_table list" where
  "TABLE_ORDER = [TEvents, TWorkQueue, THistory, TState, TCalls, TMessages]"

text \<open>\<open>int()\<close> of a value out of JSON.\<close>

fun days_int :: "(string \<Rightarrow> int option) \<Rightarrow> json \<Rightarrow> exn + int" where
  "days_int rd (JInt i) = Inr i"
| "days_int rd (JBool b) = Inr (if b then 1 else 0)"
| "days_int rd (JNum r) = Inr (if 0 \<le> r then \<lfloor>r\<rfloor> else \<lceil>r\<rceil>)"
| "days_int rd (JStr s) = (case rd s of Some i \<Rightarrow> Inr i | None \<Rightarrow> Inl (ValueError ''int''))"
| "days_int rd _ = Inl (TypeError ''int'')"

definition section_of :: "json option \<Rightarrow> jdict" where
  "section_of c = (case c of Some (JObj d) \<Rightarrow> d | _ \<Rightarrow> [])"

text \<open>A falsy entry counts as an empty dict; a section \<open>tables\<close> of another type has no \<open>get\<close>.\<close>

definition as_dict :: "json \<Rightarrow> jdict option" where
  "as_dict v = (case v of JObj d \<Rightarrow> Some d | _ \<Rightarrow> if jtruthy v then None else Some [])"

definition table_cfg :: "(string \<Rightarrow> int option) \<Rightarrow> sweep_table \<Rightarrow> jdict \<Rightarrow> exn + (bool \<times> int)" where
  "table_cfg rd t cfg =
     (case as_dict (dget cfg ''tables'') of
        None \<Rightarrow> Inl (AttributeError ''get'')
      | Some tables \<Rightarrow>
          Inr (case as_dict (dget tables (table_name t)) of
                 None \<Rightarrow> (False, 0)
               | Some e \<Rightarrow>
                   (case days_int rd (or_default (map_of e ''retention_days'') (JInt 0)) of
                      Inl _ \<Rightarrow> (False, 0)
                    | Inr n \<Rightarrow> if n \<le> 0 then (False, 0) else (jtruthy (dget e ''enabled''), n))))"

definition batch_size :: "(string \<Rightarrow> int option) \<Rightarrow> jdict \<Rightarrow> exn + nat" where
  "batch_size rd cfg =
     (let v = or_default (map_of cfg ''batch_size'') (JInt 1000) in
      xbind (days_int rd (if jtruthy v then v else JInt 1000)) (\<lambda>n. Inr (if n \<le> 0 then 1000 else nat n)))"

record table_report =
  tr_enabled :: bool
  tr_days :: int
  tr_projected :: nat
  tr_deleted :: nat

text \<open>Days beyond a \<open>timedelta\<close>, and a cutoff before the year 1, raise \<open>OverflowError\<close>.\<close>

definition cutoff_of :: "time \<Rightarrow> int \<Rightarrow> exn + time" where
  "cutoff_of now days =
     (if days > 999999999 \<or> now - days * 86400000000 < -62135596800000000 then Inl (OtherError ''OverflowError'')
      else Inr (now - days * 86400000000))"

definition sweep_one ::
    "(string \<Rightarrow> int option) \<Rightarrow> time \<Rightarrow> jdict \<Rightarrow> bool \<Rightarrow> nat \<Rightarrow> sweep_table \<Rightarrow> archive \<Rightarrow> (exn + table_report) \<times> archive" where
  "sweep_one rd now cfg dry b t st =
     (case table_cfg rd t cfg of
        Inl e \<Rightarrow> (Inl e, st)
      | Inr (on, days) \<Rightarrow>
          let rep = \<lparr> tr_enabled = on, tr_days = days, tr_projected = 0, tr_deleted = 0 \<rparr> in
          if \<not> on then (Inr rep, st)
          else (case cutoff_of now days of
                  Inl e \<Rightarrow> (Inl e, st)
                | Inr c \<Rightarrow>
                    let n = length (prunable t c st); rep1 = rep\<lparr> tr_projected := n \<rparr> in
                    if dry \<or> n = 0 then (Inr rep1, st)
                    else (case batch_loop t c b st of (k, st1) \<Rightarrow> (Inr (rep1\<lparr> tr_deleted := k \<rparr>), st1))))"

fun sweep_tables ::
    "(string \<Rightarrow> int option) \<Rightarrow> time \<Rightarrow> jdict \<Rightarrow> bool \<Rightarrow> nat \<Rightarrow> sweep_table list \<Rightarrow> archive \<Rightarrow>
     (exn + (sweep_table \<times> table_report) list) \<times> archive" where
  "sweep_tables rd now cfg dry b [] st = (Inr [], st)"
| "sweep_tables rd now cfg dry b (t # ts) st =
     (case sweep_one rd now cfg dry b t st of
        (Inl e, st1) \<Rightarrow> (Inl e, st1)
      | (Inr r, st1) \<Rightarrow>
          (case sweep_tables rd now cfg dry b ts st1 of
             (Inl e, st2) \<Rightarrow> (Inl e, st2)
           | (Inr rs, st2) \<Rightarrow> (Inr ((t, r) # rs), st2)))"

definition run_retention_sweep ::
    "(string \<Rightarrow> int option) \<Rightarrow> json option \<Rightarrow> time \<Rightarrow> bool option \<Rightarrow> archive \<Rightarrow>
     (exn + (sweep_table \<times> table_report) list) \<times> archive" where
  "run_retention_sweep rd conf now dry st =
     (let cfg = section_of conf;
          d = (case dry of Some b \<Rightarrow> b | None \<Rightarrow> jtruthy (dget cfg ''dry_run'')) in
      case batch_size rd cfg of
        Inl e \<Rightarrow> (Inl e, st)
      | Inr b \<Rightarrow> if \<not> jtruthy (dget cfg ''enabled'') then (Inr [], st)
                 else sweep_tables rd now cfg d b TABLE_ORDER st)"

section \<open>Facts\<close>

lemma delete_rows_append:
  "delete_rows t js (delete_rows t ks st) = delete_rows t (ks @ js) st"
  by (cases t) (simp_all add: delete_rows_def Let_def del_where_def conj_commute)

lemma delete_rows_Nil [simp]: "delete_rows t [] st = st"
  by (cases t) (simp_all add: delete_rows_def Let_def del_where_def)

lemma delete_rows_set: "set js = set ks \<Longrightarrow> delete_rows t js st = delete_rows t ks st"
  by (cases t) (simp_all add: delete_rows_def)

text \<open>What a batch loop deletes, whether or not it ends early.\<close>

lemma batch_loop_deletes:
  "batch_loop t c b st = (n, st') \<Longrightarrow>
     \<exists>ids. st' = delete_rows t ids st \<and> set ids \<subseteq> set (prunable t c st) \<and> n = length ids"
proof (induction t c b st arbitrary: n st' rule: batch_loop.induct)
  case (1 t c b st)
  let ?ids = "take b (prunable t c st)"
  let ?st = "delete_rows t ?ids st"
  show ?case
  proof (cases "blocked t ?ids st \<or> ?ids = [] \<or> length ?ids < b")
    case True
    then have "(n, st') = (0, st) \<or> (n, st') = (length ?ids, ?st)"
      using 1(2) unfolding batch_loop.simps [of t c b st] by (auto simp: Let_def split: if_splits)
    then show ?thesis
    proof
      assume "(n, st') = (0, st)"
      then show ?thesis by (intro exI [of _ "[]"]) simp
    next
      assume "(n, st') = (length ?ids, ?st)"
      then show ?thesis by (intro exI [of _ ?ids]) (auto dest: in_set_takeD)
    qed
  next
    case False
    then obtain m where m: "batch_loop t c b ?st = (m, st')" "n = length ?ids + m"
      using 1(2) unfolding batch_loop.simps [of t c b st] by (auto simp: Let_def split: if_splits prod.splits)
    obtain js where js: "st' = delete_rows t js ?st" "set js \<subseteq> set (prunable t c ?st)" "m = length js"
      using 1(1) [OF refl _ refl _ m(1)] False by blast
    then show ?thesis using m(2)
      by (intro exI [of _ "?ids @ js"]) (auto simp: delete_rows_append prunable_delete dest: in_set_takeD)
  qed
qed

lemma batch_loop_state:
  "t \<noteq> TMessages \<Longrightarrow> 0 < b \<Longrightarrow> snd (batch_loop t c b st) = delete_rows t (prunable t c st) st"
proof (induction t c b st rule: batch_loop.induct)
  case (1 t c b st)
  let ?ids = "take b (prunable t c st)"
  let ?st = "delete_rows t ?ids st"
  show ?case
  proof (cases "?ids = [] \<or> length ?ids < b")
    case True
    then have "prunable t c st = ?ids" using 1(3) by (cases "prunable t c st") auto
    then show ?thesis
      unfolding batch_loop.simps [of t c b st] using 1(2,3) True
      by (auto simp: Let_def blocked_def)
  next
    case False
    have "snd (batch_loop t c b ?st) = delete_rows t (prunable t c ?st) ?st"
      using 1(1) [OF refl _ refl _ 1(2,3)] 1(2) False by (simp add: blocked_def)
    moreover have "snd (batch_loop t c b st) = snd (batch_loop t c b ?st)"
      unfolding batch_loop.simps [of t c b st] using 1(2) False by (simp add: Let_def blocked_def split: prod.splits)
    moreover have "set (?ids @ prunable t c ?st) = set (prunable t c st)"
      by (auto simp: prunable_delete dest: in_set_takeD)
    then have "delete_rows t (?ids @ prunable t c ?st) st = delete_rows t (prunable t c st) st" by (rule delete_rows_set)
    ultimately show ?thesis by (simp only: delete_rows_append)
  qed
qed

text \<open>The sweep as steps, each of which deletes some rows that are old enough.\<close>

inductive prune :: "archive \<Rightarrow> archive \<Rightarrow> bool" where
  prune: "set ids \<subseteq> set (prunable t c st) \<Longrightarrow> prune st (delete_rows t ids st)"

lemma sweep_one_prunes: "sweep_one rd now cfg dry b t st = (r, st') \<Longrightarrow> prune\<^sup>*\<^sup>* st st'"
proof -
  assume a: "sweep_one rd now cfg dry b t st = (r, st')"
  have "st' = st \<or> (\<exists>c k. batch_loop t c b st = (k, st'))"
    using a by (auto simp: sweep_one_def Let_def split: sum.splits prod.splits if_splits)
  then show ?thesis
  proof
    assume "\<exists>c k. batch_loop t c b st = (k, st')"
    then obtain c ids where "st' = delete_rows t ids st" "set ids \<subseteq> set (prunable t c st)"
      using batch_loop_deletes by blast
    then show ?thesis using prune.prune by blast
  qed simp
qed

lemma sweep_tables_prunes: "sweep_tables rd now cfg dry b ts st = (r, st') \<Longrightarrow> prune\<^sup>*\<^sup>* st st'"
proof (induction ts arbitrary: st r)
  case (Cons t ts)
  obtain r1 st1 where one: "sweep_one rd now cfg dry b t st = (r1, st1)" by fastforce
  then have "st' = st1 \<or> (\<exists>r2. sweep_tables rd now cfg dry b ts st1 = (r2, st'))"
    using Cons.prems by (auto split: sum.splits prod.splits)
  then show ?case using Cons.IH sweep_one_prunes [OF one] by (meson rtranclp_trans)
qed simp

lemma sweep_prunes: "run_retention_sweep rd conf now dry st = (r, st') \<Longrightarrow> prune\<^sup>*\<^sup>* st st'"
  by (auto simp: run_retention_sweep_def Let_def split: sum.splits if_splits dest: sweep_tables_prunes)

definition wf_archive :: "archive \<Rightarrow> bool" where
  "wf_archive st \<longleftrightarrow> wf_ids eid (events (ar_db st)) \<and> wf_ids wid (queue (ar_db st)) \<and>
     wf_ids hid (history (ar_db st)) \<and> wf_ids sid (state (ar_db st)) \<and>
     wf_ids tc_id (ar_calls st) \<and> wf_ids ms_id (ar_messages st)"

text \<open>A row whose id stands for it alone goes only if it is old.\<close>

lemma prunable_row:
  assumes "wf_ids key tab" "set ids \<subseteq> set (map key (filter P tab))" "r \<in> set tab" "\<not> P r"
  shows "r \<in> set (del_where (\<lambda>r. key r \<in> set ids) tab)"
proof -
  have "key r \<notin> key ` {x \<in> set tab. P x}"
    using assms(1,3,4) by (auto simp: wf_ids_def distinct_map inj_on_def)
  then show ?thesis using assms(2,3) by (auto simp: del_where_def)
qed

text \<open>What a sweep never deletes.\<close>

definition unfrozen :: "db \<Rightarrow> int \<Rightarrow> bool" where
  "unfrozen d i = (case find_arc i d of Some a \<Rightarrow> astatus a \<notin> FROZEN_STATUSES | None \<Rightarrow> True)"

definition unarchived :: "conv_row list \<Rightarrow> int option \<Rightarrow> bool" where
  "unarchived cs c =
     (case c of None \<Rightarrow> True
      | Some i \<Rightarrow> (case find_row cv_id i cs of Some r \<Rightarrow> \<not> cv_archived r | None \<Rightarrow> True))"

definition kept :: "archive \<Rightarrow> archive \<Rightarrow> bool" where
  "kept st st' \<longleftrightarrow>
     arcs (ar_db st') = arcs (ar_db st) \<and> ar_convs st' = ar_convs st \<and>
     (\<forall>e \<in> set (events (ar_db st)). \<not> eprocessed e \<longrightarrow> e \<in> set (events (ar_db st'))) \<and>
     (\<forall>r \<in> set (queue (ar_db st)). wstatus r = WPending \<or> wstatus r = WClaimed \<longrightarrow> r \<in> set (queue (ar_db st'))) \<and>
     (\<forall>h \<in> set (history (ar_db st)). unfrozen (ar_db st) (h_arc h) \<longrightarrow> h \<in> set (history (ar_db st'))) \<and>
     (\<forall>s \<in> set (state (ar_db st)). unfrozen (ar_db st) (s_arc s) \<longrightarrow> s \<in> set (state (ar_db st'))) \<and>
     (\<forall>c \<in> set (ar_calls st). unarchived (ar_convs st) (tc_conv c) \<longrightarrow> c \<in> set (ar_calls st')) \<and>
     (\<forall>m \<in> set (ar_messages st). unarchived (ar_convs st) (ms_conv m) \<longrightarrow> m \<in> set (ar_messages st'))"

lemma unfrozen_not_old: "unfrozen d i \<Longrightarrow> \<not> of_old_arc c d i"
  by (auto simp: unfrozen_def of_old_arc_def old_arc_def split: option.splits)

lemma unarchived_not_old: "unarchived cs v \<Longrightarrow> \<not> of_old_conv c cs v"
  by (auto simp: unarchived_def of_old_conv_def split: option.splits)

lemma wf_archive_delete: "wf_archive st \<Longrightarrow> wf_archive (delete_rows t ids st)"
  by (cases t) (auto simp: wf_archive_def delete_rows_def Let_def del_where_def wf_ids_filter)

lemma delete_kept:
  assumes "wf_archive st" "set ids \<subseteq> set (prunable t c st)"
  shows "kept st (delete_rows t ids st)"
proof (cases t)
  case TEvents
  then show ?thesis using assms prunable_row [of eid "events (ar_db st)" ids "\<lambda>e. eprocessed e \<and> stamp_before (ecreated_at e) c"]
    by (auto simp: kept_def delete_rows_def Let_def wf_archive_def prunable_def)
next
  case TWorkQueue
  then show ?thesis using assms prunable_row [of wid "queue (ar_db st)" ids "old_item c"]
    by (auto simp: kept_def delete_rows_def Let_def wf_archive_def prunable_def old_item_def)
next
  case THistory
  then show ?thesis using assms prunable_row [of hid "history (ar_db st)" ids "\<lambda>h. of_old_arc c (ar_db st) (h_arc h)"]
    by (auto simp: kept_def delete_rows_def Let_def wf_archive_def prunable_def dest: unfrozen_not_old)
next
  case TState
  then show ?thesis using assms prunable_row [of sid "state (ar_db st)" ids "\<lambda>s. of_old_arc c (ar_db st) (s_arc s)"]
    by (auto simp: kept_def delete_rows_def Let_def wf_archive_def prunable_def dest: unfrozen_not_old)
next
  case TCalls
  then show ?thesis using assms prunable_row [of tc_id "ar_calls st" ids "\<lambda>r. of_old_conv c (ar_convs st) (tc_conv r) \<and> stamp_before (tc_created r) c"]
    by (auto simp: kept_def delete_rows_def Let_def wf_archive_def prunable_def dest: unarchived_not_old)
next
  case TMessages
  then show ?thesis using assms prunable_row [of ms_id "ar_messages st" ids "\<lambda>r. of_old_conv c (ar_convs st) (ms_conv r) \<and> stamp_before (ms_created r) c"]
    by (auto simp: kept_def delete_rows_def Let_def wf_archive_def prunable_def dest: unarchived_not_old)
qed

lemma kept_trans: "kept a b \<Longrightarrow> kept b c \<Longrightarrow> kept a c"
  by (auto simp: kept_def unfrozen_def)

lemma prunes_kept: "prune\<^sup>*\<^sup>* st st' \<Longrightarrow> wf_archive st \<Longrightarrow> wf_archive st' \<and> kept st st'"
proof (induction rule: rtranclp_induct)
  case base
  then show ?case by (simp add: kept_def)
next
  case (step b c)
  then show ?case by (auto elim!: prune.cases dest: wf_archive_delete delete_kept intro: kept_trans)
qed

text \<open>After the sweep of the state table nothing is left of the old arcs.\<close>

lemma swept_state:
  assumes "sweep_one rd now cfg False b TState st = (Inr rep, st')" "table_cfg rd TState cfg = Inr (True, days)"
    and "cutoff_of now days = Inr co" "0 < b" "of_old_arc co (ar_db st) i"
  shows "state_cell i k (ar_db st') = None" "arcs (ar_db st') = arcs (ar_db st)"
proof -
  have st': "st' = delete_rows TState (prunable TState co st) st"
  proof (cases "prunable TState co st = []")
    case True
    then show ?thesis using assms(1-3) by (simp add: sweep_one_def Let_def)
  next
    case False
    then have "st' = snd (batch_loop TState co b st)"
      using assms(1-3) by (simp add: sweep_one_def Let_def split: prod.splits)
    then show ?thesis using batch_loop_state assms(4) by simp
  qed
  show "arcs (ar_db st') = arcs (ar_db st)" by (simp add: st' delete_rows_def Let_def)
  have "s_arc s \<noteq> i" if "s \<in> set (state (ar_db st'))" for s
    using that assms(5) by (auto simp: st' delete_rows_def Let_def del_where_def prunable_def)
  then show "state_cell i k (ar_db st') = None" by (auto simp: state_cell_def find_None_iff)
qed

lemma link_json_state: "link_json de v i d = Inr d' \<Longrightarrow> state d' = state d"
  by (auto simp: link_json_def link_arc_def split: if_splits json.splits)

section \<open>Properties\<close>

text \<open>C24: The sweep deletes nothing in use. Whatever the configuration, and also when it stops with an
  error half-way, a retention sweep keeps every arc and conversation, every unprocessed event, every
  pending or claimed item, the history and the state of every arc that has not ended, and the
  messages and tool calls of every conversation that is not archived.\<close>

theorem retention_safe:
  assumes "run_retention_sweep rd conf now dry st = (r, st')" "wf_archive st"
  shows "arcs (ar_db st') = arcs (ar_db st) \<and> ar_convs st' = ar_convs st \<and>
     (\<forall>e \<in> set (events (ar_db st)). \<not> eprocessed e \<longrightarrow> e \<in> set (events (ar_db st'))) \<and>
     (\<forall>q \<in> set (queue (ar_db st)). wstatus q = WPending \<or> wstatus q = WClaimed \<longrightarrow> q \<in> set (queue (ar_db st'))) \<and>
     (\<forall>h \<in> set (history (ar_db st)). unfrozen (ar_db st) (h_arc h) \<longrightarrow> h \<in> set (history (ar_db st'))) \<and>
     (\<forall>s \<in> set (state (ar_db st)). unfrozen (ar_db st) (s_arc s) \<longrightarrow> s \<in> set (state (ar_db st'))) \<and>
     (\<forall>c \<in> set (ar_calls st). unarchived (ar_convs st) (tc_conv c) \<longrightarrow> c \<in> set (ar_calls st')) \<and>
     (\<forall>m \<in> set (ar_messages st). unarchived (ar_convs st) (ms_conv m) \<longrightarrow> m \<in> set (ar_messages st'))"
  using prunes_kept [OF sweep_prunes [OF assms(1)] assms(2)] unfolding kept_def by blast

text \<open>The sweep ends recurring jobs. Once the state of the finished arcs of a plan is swept, a plan
  with a non-trusted step and its reviewer can no longer be cloned for its next firing, because the
  profile of the reviewer is gone; each firing only leaves a pending arc without children behind.\<close>

theorem retention_ends_recurring:
  assumes "sweep_one rd now cfg False b TState st = (Inr rep, st')" "table_cfg rd TState cfg = Inr (True, days)"
    and "cutoff_of now days = Inr co" "0 < b"
    and "ainteg a = TRUSTED" "c \<in> set (arcs (ar_db st))" "parent_id c = Some (aid a)" "ainteg c \<noteq> TRUSTED"
    and "r \<in> set (arcs (ar_db st))" "parent_id r = Some (aid a)" "reviews r" "old_arc co r" "wf_ids aid (arcs (ar_db st))"
    and "create_arc (env_of de w) t (clone_args a None) (w_db w) = Inr (n, d1)" "link_json de v n d1 = Inr d2"
    and "w_db w = ar_db st'"
  shows "clone_arc_for_cron de t a v w = (Inr None, w\<lparr> w_db := d2 \<rparr>) \<and>
    (\<exists>x \<in> set (arcs d2). aid x = n \<and> parent_id x = None)"
proof -
  have old: "of_old_arc co (ar_db st) (aid r)"
    using find_row_distinct [OF assms(13,9)] assms(12) by (simp add: of_old_arc_def)
  note sw = swept_state [OF assms(1-4) old]
  obtain x ag ot ro po d0 where x: "arcs d1 = arcs (w_db w) @ [x]" "aid x = n" "n = next_rowid aid (arcs (w_db w))"
    "x = new_arc_row t (clone_args a None) TRUSTED ot ag ro po d0" by (rule create_arc_row [OF assms(14)])
  have rn: "aid r \<noteq> n" using x(3) sw(2) assms(9,16) next_rowid_gt [of r "arcs (w_db w)" aid] by auto
  have "state_cell (aid r) ''_reviewer_profile'' d2 = None"
    using create_arc_cells(2) [OF assms(14) rn] sw(1) assms(16) link_json_state [OF assms(15)] by (simp add: state_cell_def)
  moreover have "set (get_children (aid a) d2) = {y \<in> set (arcs (ar_db st)). parent_id y = Some (aid a)}"
    using x link_json_arcs [OF assms(15)] sw(2) assms(16) by (auto simp: get_children_def children_rows_def)
  ultimately show ?thesis
    using failed_clone_leaves_root [OF assms(5,14,15), of c r] assms(6-11) by auto
qed

text \<open>Rows younger than the retention go as well: a row of the last second of the cutoff's day is old
  at the first second of that day, almost a day too early.\<close>

lemma swept_a_day_early:
  "cutoff_of (30 * 86400000000) 30 = Inr 0 \<and>
   prunable TEvents 0 \<lparr> ar_db = empty_db\<lparr> events := [\<lparr> eid = 1, etype = ''e'', epayload = [], esource = None,
     eprocessed = True, epriority = 0, ekey = None, ecreated_at = 86399 \<rparr>] \<rparr>, ar_convs = [], ar_messages = [], ar_calls = [] \<rparr> = [1]"
  by (simp add: cutoff_of_def prunable_def stamp_before_def)

text \<open>One old message that a younger or kept tool call refers to keeps every message of its batch.\<close>

lemma messages_blocked:
  assumes "tc \<in> set (ar_calls st)" "tc_message tc = Some m" "m \<in> set (take b (prunable TMessages c st))"
  shows "batch_loop TMessages c b st = (0, st)"
proof -
  have "blocked TMessages (take b (prunable TMessages c st)) st"
    using assms by (auto simp: blocked_def list_ex_iff)
  then show ?thesis unfolding batch_loop.simps [of TMessages c b st] by (simp add: Let_def)
qed

section \<open>Witnesses\<close>

text \<open>An ended arc with a cell, an event not yet processed, and the default configuration switched on.\<close>

definition demo_sweep_cfg :: jdict where
  "demo_sweep_cfg = [(''enabled'', JBool True), (''tables'', JObj [(''arc_state'', JObj
     [(''enabled'', JBool True), (''retention_days'', JInt 30)])])]"

definition demo_archive :: archive where
  "demo_archive = \<lparr> ar_db = empty_db\<lparr>
       arcs := [(blank_arc 1)\<lparr> astatus := Completed, aupdated_at := Some 0 \<rparr>,
         (blank_arc 2)\<lparr> parent_id := Some 1, ainteg := UNTRUSTED, astatus := Completed, aupdated_at := Some 0 \<rparr>,
         (blank_arc 3)\<lparr> parent_id := Some 1, aagent := REVIEWER, astatus := Completed, aupdated_at := Some 0 \<rparr>],
       state := [\<lparr> sid = 1, s_arc = 3, s_key = ''_reviewer_profile'', s_value = Parsed (JStr ''p''), s_updated_at = 0 \<rparr>],
       events := [\<lparr> eid = 1, etype = ''e'', epayload = [], esource = None, eprocessed = False, epriority = 0,
         ekey = None, ecreated_at = 0 \<rparr>] \<rparr>,
     ar_convs = [], ar_messages = [], ar_calls = [] \<rparr>"

theorem retention_safe_witness:
  "arcs (ar_db (snd (run_retention_sweep (\<lambda>_. None) (Some (JObj demo_sweep_cfg)) 9000000000000 None demo_archive))) =
     arcs (ar_db demo_archive) \<and>
   set (events (ar_db demo_archive)) \<subseteq>
     set (events (ar_db (snd (run_retention_sweep (\<lambda>_. None) (Some (JObj demo_sweep_cfg)) 9000000000000 None demo_archive))))"
proof -
  have wf: "wf_archive demo_archive" by (simp add: wf_archive_def demo_archive_def wf_ids_def empty_db_def)
  show ?thesis
    using retention_safe [OF surjective_pairing wf, of "\<lambda>_. None" "Some (JObj demo_sweep_cfg)" 9000000000000 None]
    by (auto simp: demo_archive_def)
qed

definition demo_swept :: archive where
  "demo_swept = snd (sweep_one (\<lambda>_. None) 9000000000000 demo_sweep_cfg False 1000 TState demo_archive)"

definition demo_plan_arc :: arc where
  "demo_plan_arc = (blank_arc 1)\<lparr> astatus := Completed, aupdated_at := Some 0 \<rparr>"

definition demo_firing :: world where
  "demo_firing = \<lparr> w_db = ar_db demo_swept, w_tracker = empty_tracker, w_keys = [] \<rparr>"

lemma demo_firing_created:
  "case create_arc (env_of demo_de demo_firing) 9 (clone_args demo_plan_arc None) (w_db demo_firing) of
     Inl _ \<Rightarrow> False | Inr (n, _) \<Rightarrow> n = 4"
  by code_simp

theorem retention_ends_recurring_witness:
  "\<exists>d. clone_arc_for_cron demo_de 9 demo_plan_arc JNull demo_firing = (Inr None, demo_firing\<lparr> w_db := d \<rparr>) \<and>
     (\<exists>x \<in> set (arcs d). aid x = 4 \<and> parent_id x = None)"
proof -
  obtain d1 where d1: "create_arc (env_of demo_de demo_firing) 9 (clone_args demo_plan_arc None) (w_db demo_firing) = Inr (4, d1)"
    using demo_firing_created by (cases "create_arc (env_of demo_de demo_firing) 9 (clone_args demo_plan_arc None) (w_db demo_firing)") auto
  have ok: "table_cfg (\<lambda>_. None) TState demo_sweep_cfg = Inr (True, 30)" "cutoff_of 9000000000000 30 = Inr 6408000000000"
    by (simp_all add: table_cfg_def as_dict_def demo_sweep_cfg_def dget_def table_name_def cutoff_of_def or_default_def)
  have "\<exists>rep. fst (sweep_one (\<lambda>_. None) 9000000000000 demo_sweep_cfg False 1000 TState demo_archive) = Inr rep"
    using ok by (simp add: sweep_one_def Let_def split: prod.splits)
  then obtain rep where rep: "sweep_one (\<lambda>_. None) 9000000000000 demo_sweep_cfg False 1000 TState demo_archive = (Inr rep, demo_swept)"
    by (metis demo_swept_def prod.collapse)
  show ?thesis
    using retention_ends_recurring [OF rep ok, of demo_plan_arc
        "(blank_arc 2)\<lparr> parent_id := Some 1, ainteg := UNTRUSTED, astatus := Completed, aupdated_at := Some 0 \<rparr>"
        "(blank_arc 3)\<lparr> parent_id := Some 1, aagent := REVIEWER, astatus := Completed, aupdated_at := Some 0 \<rparr>"
        demo_de demo_firing 9 4 d1 JNull d1] d1
    by (simp add: demo_plan_arc_def demo_archive_def reviews_def old_arc_def FROZEN_STATUSES_def wf_ids_def link_json_def
        demo_firing_def)
qed

end
