(* ===== verification/Triggers.thy ===== *)
theory Triggers
  imports Arc_Ready
begin

text \<open>
  Sources of events: the cron table (\<open>core/engine/trigger_manager.py\<close>), the base class of triggers,
  the timer and the counter (\<open>core/engine/triggers\<close>).

  The engine is the database with the tables of matchers, cron entries and counters, and the budget.
  \<open>croniter\<close> and the parsing and printing of ISO times are parameters: \<open>cl_next\<close> is the next time an
  expression matches after a time, or an exception when it never does. ISO texts of UTC times compare
  like the times. \<open>created_at\<close> of an event has a blank where an ISO text has a \<open>T\<close>.
\<close>

section \<open>State\<close>

record cron_row =
  cr_id :: int
  cr_name :: string
  cr_expr :: string
  cr_type :: string
  cr_payload :: "json option"
  cr_next :: time
  cr_enabled :: bool
  cr_once :: bool
  cr_created :: int

record counter_row =
  tg_name :: string
  tg_type :: string
  tg_last :: "time option"
  tg_counter :: int

record engine =
  en_db :: db
  en_matchers :: "matcher_row list"
  en_crons :: "cron_row list"
  en_counters :: "counter_row list"
  en_budget :: budget

record cron_lib =
  cl_valid :: "string \<Rightarrow> bool"
  cl_next :: "string \<Rightarrow> time \<Rightarrow> exn + time"
  cl_iso :: "time \<Rightarrow> string"
  cl_parse :: "string \<Rightarrow> time option"

definition TIMER_FIRED_EVENT :: string where
  "TIMER_FIRED_EVENT = ''timer.fired''"

section \<open>The cron table\<close>

definition stored_payload :: "json option \<Rightarrow> json option" where
  "stored_payload p = (case p of None \<Rightarrow> None | Some v \<Rightarrow> if jtruthy v then Some v else None)"

text \<open>An entry of the name is replaced in place and enabled, else a row is added.\<close>

definition put_cron ::
    "time \<Rightarrow> string \<Rightarrow> string \<Rightarrow> string \<Rightarrow> json option \<Rightarrow> time \<Rightarrow> bool \<Rightarrow> cron_row list \<Rightarrow> int \<times> cron_row list" where
  "put_cron now nm ex ty pl nx once cs =
     (case List.find (\<lambda>c. cr_name c = nm) cs of
        Some c \<Rightarrow>
          (cr_id c, upd_row cr_id (cr_id c) (\<lambda>r. r\<lparr> cr_expr := ex, cr_type := ty, cr_payload := stored_payload pl,
             cr_next := nx, cr_enabled := True, cr_once := once \<rparr>) cs)
      | None \<Rightarrow>
          (next_rowid cr_id cs,
           cs @ [\<lparr> cr_id = next_rowid cr_id cs, cr_name = nm, cr_expr = ex, cr_type = ty, cr_payload = stored_payload pl,
                   cr_next = nx, cr_enabled = True, cr_once = once, cr_created = cur_ts now \<rparr>]))"

definition add_cron ::
    "cron_lib \<Rightarrow> time \<Rightarrow> string \<Rightarrow> string \<Rightarrow> string \<Rightarrow> json option \<Rightarrow> cron_row list \<Rightarrow> exn + (int \<times> cron_row list)" where
  "add_cron cl now nm ex ty pl cs =
     (if \<not> cl_valid cl ex then Inl (ValueError ''Invalid cron expression'')
      else xbind (cl_next cl ex now) (\<lambda>nx. Inr (put_cron now nm ex ty pl nx False cs)))"

text \<open>The expression of a one-shot entry is never evaluated.\<close>

definition add_once ::
    "cron_lib \<Rightarrow> time \<Rightarrow> string \<Rightarrow> string \<Rightarrow> string \<Rightarrow> json option \<Rightarrow> cron_row list \<Rightarrow> exn + (int \<times> cron_row list)" where
  "add_once cl now nm txt ty pl cs =
     (case cl_parse cl txt of
        None \<Rightarrow> Inl (ValueError ''Invalid ISO datetime'')
      | Some nx \<Rightarrow> Inr (put_cron now nm ''0 0 31 2 *'' ty pl nx True cs))"

definition remove_cron :: "string \<Rightarrow> cron_row list \<Rightarrow> bool \<times> cron_row list" where
  "remove_cron nm cs = (list_ex (\<lambda>c. cr_name c = nm) cs, del_where (\<lambda>c. cr_name c = nm) cs)"

definition enable_cron :: "string \<Rightarrow> bool \<Rightarrow> cron_row list \<Rightarrow> bool \<times> cron_row list" where
  "enable_cron nm on cs =
     (list_ex (\<lambda>c. cr_name c = nm) cs, upd_where (\<lambda>c. cr_name c = nm) (\<lambda>c. c\<lparr> cr_enabled := on \<rparr>) cs)"

definition get_cron :: "string \<Rightarrow> cron_row list \<Rightarrow> cron_row option" where
  "get_cron nm cs = List.find (\<lambda>c. cr_name c = nm) cs"

definition list_cron :: "cron_row list \<Rightarrow> cron_row list" where
  "list_cron cs = sort_key (\<lambda>c. map (of_char :: char \<Rightarrow> nat) (cr_name c)) cs"

section \<open>Firing\<close>

definition due :: "time \<Rightarrow> cron_row \<Rightarrow> bool" where
  "due now c = (cr_enabled c \<and> cr_next c \<le> now)"

definition fire_key :: "cron_lib \<Rightarrow> cron_row \<Rightarrow> string" where
  "fire_key cl c = ''cron-'' @ show_int (cr_id c) @ ''-'' @ cl_iso cl (cr_next c)"

definition fire_payload :: "cron_lib \<Rightarrow> cron_row \<Rightarrow> jdict" where
  "fire_payload cl c =
     [(''cron_id'', JInt (cr_id c)), (''cron_name'', JStr (cr_name c)), (''cron_event_type'', JStr (cr_type c)),
      (''fire_time'', JStr (cl_iso cl (cr_next c)))]
     @ (case cr_payload c of None \<Rightarrow> [] | Some v \<Rightarrow> [(''event_payload'', v)])"

definition record_firing :: "cron_lib \<Rightarrow> time \<Rightarrow> cron_row \<Rightarrow> event_row list \<Rightarrow> int option \<times> event_row list" where
  "record_firing cl now c evs =
     record_event now TIMER_FIRED_EVENT (fire_payload cl c) (Some (''cron:'' @ cr_name c)) 0 (Some (fire_key cl c)) evs"

text \<open>After firing, an entry goes or moves on to its next time after now.\<close>

definition advance :: "cron_lib \<Rightarrow> time \<Rightarrow> cron_row \<Rightarrow> cron_row list \<Rightarrow> exn + cron_row list" where
  "advance cl now c cs =
     (if cr_once c then Inr (del_where (\<lambda>r. cr_id r = cr_id c) cs)
      else xbind (cl_next cl (cr_expr c) now) (\<lambda>nx. Inr (upd_row cr_id (cr_id c) (\<lambda>r. r\<lparr> cr_next := nx \<rparr>) cs)))"

fun fire_all ::
    "cron_lib \<Rightarrow> time \<Rightarrow> cron_row list \<Rightarrow> nat \<times> event_row list \<times> cron_row list \<Rightarrow>
     exn + (nat \<times> event_row list \<times> cron_row list)" where
  "fire_all cl now [] st = Inr st"
| "fire_all cl now (c # sel) (n, evs, cs) =
     (case record_firing cl now c evs of
        (i, evs1) \<Rightarrow>
          (case advance cl now c cs of
             Inl e \<Rightarrow> Inl e
           | Inr cs1 \<Rightarrow> fire_all cl now sel (if i = None then n else n + 1, evs1, cs1)))"

text \<open>One transaction; while the budget restricts autonomous work nothing fires and nothing moves.\<close>

definition check_cron ::
    "cron_lib \<Rightarrow> budget_config \<Rightarrow> model_entry list \<Rightarrow> usage list \<Rightarrow> time \<Rightarrow> engine \<Rightarrow> (exn + nat) \<times> engine" where
  "check_cron cl cfg es us now en =
     (case autonomous_allowed cfg es now us (en_budget en) of
        ((ok, reason), bud) \<Rightarrow>
          let en1 = en\<lparr> en_budget := bud \<rparr>; d = en_db en in
          if \<not> ok then (Inr 0, en1)
          else (case fire_all cl now (filter (due now) (en_crons en)) (0, events d, en_crons en) of
                  Inl e \<Rightarrow> (Inl e, en1)
                | Inr (n, evs, cs) \<Rightarrow> (Inr n, en1\<lparr> en_db := d\<lparr> events := evs \<rparr>, en_crons := cs \<rparr>)))"

section \<open>Triggers\<close>

record trigger =
  tr_name :: string
  tr_type :: string
  tr_package :: "string option"

text \<open>A handle of another package is refused when the trigger is made.\<close>

definition new_trigger ::
    "string \<Rightarrow> string \<Rightarrow> string option \<Rightarrow> string option \<Rightarrow> string option \<Rightarrow> exn + trigger" where
  "new_trigger nm ty pkg st vec =
     (if (st \<noteq> None \<and> pkg \<noteq> None \<and> st \<noteq> pkg) \<or> (vec \<noteq> None \<and> pkg \<noteq> None \<and> vec \<noteq> pkg)
      then Inl (ValueError ''package handle'')
      else Inr \<lparr> tr_name = nm, tr_type = ty, tr_package = pkg \<rparr>)"

definition stamp_payload :: "trigger \<Rightarrow> jdict \<Rightarrow> jdict" where
  "stamp_payload t p =
     (let p1 = AList.update ''_trigger_type'' (JStr (tr_type t)) (AList.update ''_trigger'' (JStr (tr_name t)) p) in
      case tr_package t of None \<Rightarrow> p1 | Some g \<Rightarrow> AList.update ''_source_package'' (JStr g) p1)"

definition emit ::
    "trigger \<Rightarrow> time \<Rightarrow> string \<Rightarrow> jdict \<Rightarrow> string option \<Rightarrow> int \<Rightarrow> event_row list \<Rightarrow> int option \<times> event_row list" where
  "emit t now ty p key prio evs =
     record_event now ty (stamp_payload t p) (Some (''trigger:'' @ tr_name t)) prio key evs"

text \<open>\<open>TimerTrigger.start\<close>: every exception is logged; without a schedule nothing is registered.\<close>

definition timer_start ::
    "cron_lib \<Rightarrow> time \<Rightarrow> string \<Rightarrow> jdict \<Rightarrow> cron_row list \<Rightarrow> cron_row list" where
  "timer_start cl now nm cfg cs =
     (case dget cfg ''schedule'' of
        JStr ex \<Rightarrow>
          if ex = [] then cs
          else (case or_default (map_of cfg ''emits'') (JStr (''timer.'' @ nm)) of
                  JStr ty \<Rightarrow>
                    (case add_cron cl now (''trigger:'' @ nm) ex ty (map_of cfg ''payload'') cs of
                       Inl _ \<Rightarrow> cs | Inr (i, cs1) \<Rightarrow> cs1)
                | _ \<Rightarrow> cs)
      | _ \<Rightarrow> cs)"

section \<open>The counter\<close>

record counter_cfg =
  cc_name :: string
  cc_counts :: string
  cc_threshold :: int
  cc_emits :: "string option"
  cc_filter :: jdict
  cc_payload :: jdict

definition counter_start :: "string \<Rightarrow> counter_row list \<Rightarrow> counter_row list" where
  "counter_start nm ts =
     (if list_ex (\<lambda>t. tg_name t = nm) ts then ts
      else ts @ [\<lparr> tg_name = nm, tg_type = ''counter'', tg_last = None, tg_counter = 0 \<rparr>])"

text \<open>\<open>created_at > last_fired\<close> on texts: a blank is less than a \<open>T\<close>, so the day decides.\<close>

definition created_after :: "time \<Rightarrow> event_row \<Rightarrow> bool" where
  "created_after l e = (l div 86400000000 < ecreated_at e div 86400)"

definition counted :: "counter_cfg \<Rightarrow> time option \<Rightarrow> event_row \<Rightarrow> bool" where
  "counted c l e =
     (etype e = cc_counts c \<and> (case l of None \<Rightarrow> True | Some t \<Rightarrow> created_after t e) \<and>
      list_all (\<lambda>(k, v). json_eq (dget (epayload e) k) v) (cc_filter c))"

definition counter_payload :: "counter_cfg \<Rightarrow> nat \<Rightarrow> jdict" where
  "counter_payload c n =
     AList.update ''counts_type'' (JStr (cc_counts c)) (AList.update ''threshold'' (JInt (cc_threshold c))
       (AList.update ''count'' (JInt (int n)) (cc_payload c)))"

definition counter_key :: "cron_lib \<Rightarrow> time \<Rightarrow> counter_cfg \<Rightarrow> string" where
  "counter_key cl now c = ''counter-'' @ cc_name c @ ''-'' @ cl_iso cl now"

definition counter_emits :: "counter_cfg \<Rightarrow> string" where
  "counter_emits c = (case cc_emits c of Some e \<Rightarrow> e | None \<Rightarrow> ''counter.'' @ cc_name c)"

definition check_counter ::
    "cron_lib \<Rightarrow> time \<Rightarrow> counter_cfg \<Rightarrow> counter_row list \<times> event_row list \<Rightarrow> counter_row list \<times> event_row list" where
  "check_counter cl now c st =
     (case st of (ts, evs) \<Rightarrow>
        if cc_counts c = [] then (ts, evs)
        else
          let l = (case List.find (\<lambda>t. tg_name t = cc_name c) ts of None \<Rightarrow> None | Some t \<Rightarrow> tg_last t);
              n = length (filter (counted c l) evs) in
          if int n < cc_threshold c then (ts, evs)
          else (upd_where (\<lambda>t. tg_name t = cc_name c) (\<lambda>t. t\<lparr> tg_last := Some now, tg_counter := tg_counter t + 1 \<rparr>) ts,
                snd (record_event now (counter_emits c) (counter_payload c n) (Some (''trigger:'' @ cc_name c)) 0
                  (Some (counter_key cl now c)) evs)))"

section \<open>Facts\<close>

lemma record_firing_key: "\<exists>e \<in> set (snd (record_firing cl now c evs)). ekey e = Some (fire_key cl c)"
  by (auto simp: record_firing_def record_event_def list_ex_iff new_event_def)

lemma record_firing_grows:
  "\<exists>new. snd (record_firing cl now c evs) = evs @ new \<and> length new = (if fst (record_firing cl now c evs) = None then 0 else 1) \<and>
     (\<forall>e \<in> set new. etype e = TIMER_FIRED_EVENT \<and> \<not> eprocessed e \<and> epayload e = fire_payload cl c)"
  by (auto simp: record_firing_def record_event_def new_event_def)

definition croniter_ok :: "cron_lib \<Rightarrow> bool" where
  "croniter_ok cl = (\<forall>ex t nx. cl_next cl ex t = Inr nx \<longrightarrow> t < nx)"

lemma fire_all_spec:
  assumes "fire_all cl now sel (n, evs, cs) = Inr (n', evs', cs')" "croniter_ok cl"
  shows "\<exists>new. evs' = evs @ new \<and> n' = n + length new \<and>
      (\<forall>e \<in> set new. etype e = TIMER_FIRED_EVENT \<and> \<not> eprocessed e \<and> epayload e \<in> fire_payload cl ` set sel) \<and>
      (\<forall>c \<in> set sel. \<exists>e \<in> set evs'. ekey e = Some (fire_key cl c)) \<and>
      (\<forall>r. cr_id r \<notin> cr_id ` set sel \<longrightarrow> (r \<in> set cs' \<longleftrightarrow> r \<in> set cs)) \<and>
      (\<forall>r \<in> set cs'. (\<exists>c \<in> set sel. cr_id c = cr_id r) \<longrightarrow> now < cr_next r)"
  using assms(1)
proof (induction sel arbitrary: n evs cs)
  case (Cons c sel)
  obtain i evs1 where r: "record_firing cl now c evs = (i, evs1)" by fastforce
  obtain cs1 where a: "advance cl now c cs = Inr cs1"
    using Cons.prems r by (auto split: sum.splits)
  let ?m = "if i = None then n else n + 1"
  have rest: "fire_all cl now sel (?m, evs1, cs1) = Inr (n', evs', cs')" using Cons.prems r a by simp
  obtain new where new: "evs' = evs1 @ new" "n' = ?m + length new"
    "\<forall>e \<in> set new. etype e = TIMER_FIRED_EVENT \<and> \<not> eprocessed e \<and> epayload e \<in> fire_payload cl ` set sel"
    "\<forall>c \<in> set sel. \<exists>e \<in> set evs'. ekey e = Some (fire_key cl c)"
    "\<forall>r. cr_id r \<notin> cr_id ` set sel \<longrightarrow> (r \<in> set cs' \<longleftrightarrow> r \<in> set cs1)"
    "\<forall>r \<in> set cs'. (\<exists>c \<in> set sel. cr_id c = cr_id r) \<longrightarrow> now < cr_next r"
    using Cons.IH [OF rest] by blast
  obtain one where one: "evs1 = evs @ one" "length one = (if i = None then 0 else 1)"
    "\<forall>e \<in> set one. etype e = TIMER_FIRED_EVENT \<and> \<not> eprocessed e \<and> epayload e = fire_payload cl c"
    using record_firing_grows [of cl now c evs] r by auto
  have key: "\<exists>e \<in> set evs1. ekey e = Some (fire_key cl c)" using record_firing_key [of cl now c evs] r by simp
  have cs1: "cr_id r \<noteq> cr_id c \<Longrightarrow> r \<in> set cs1 \<longleftrightarrow> r \<in> set cs"
    "r \<in> set cs1 \<Longrightarrow> cr_id r = cr_id c \<Longrightarrow> now < cr_next r" for r
    using a assms(2) by (cases "cl_next cl (cr_expr c) now";
      auto simp: advance_def del_where_def upd_row_def upd_where_def croniter_ok_def split: if_splits)+
  have out: "r \<in> set cs' \<longleftrightarrow> r \<in> set cs" if "cr_id r \<notin> cr_id ` set (c # sel)" for r
    using new(5) cs1(1) [of r] that by auto
  have later: "now < cr_next r" if "r \<in> set cs'" "\<exists>x \<in> set (c # sel). cr_id x = cr_id r" for r
  proof (cases "cr_id r \<in> cr_id ` set sel")
    case True
    then show ?thesis using that(1) new(6) by force
  next
    case False
    then show ?thesis using that new(5) cs1(2) [of r] by (auto simp: image_iff)
  qed
  show ?case
    by (rule exI [of _ "one @ new"]) (use new(1-4) one key out later in \<open>auto split: if_splits\<close>)
qed simp

text \<open>C31: The clock. When autonomous work is allowed and croniter returns later times, after \<open>check_cron\<close>
  no enabled entry is due, every entry that was due has an event with its key, the events added are
  new firings of entries that were due, as many as it returns, and entries not due are untouched.\<close>

theorem cron_fires:
  assumes "check_cron cl cfg es us now en = (Inr n, en')" "fst (fst (autonomous_allowed cfg es now us (en_budget en)))"
    and "croniter_ok cl"
  shows "(\<forall>c \<in> set (en_crons en'). \<not> due now c) \<and>
    (\<exists>new. events (en_db en') = events (en_db en) @ new \<and> length new = n \<and>
       (\<forall>e \<in> set new. etype e = TIMER_FIRED_EVENT \<and> epayload e \<in> fire_payload cl ` {c \<in> set (en_crons en). due now c})) \<and>
    (\<forall>c \<in> set (en_crons en). due now c \<longrightarrow> (\<exists>e \<in> set (events (en_db en')). ekey e = Some (fire_key cl c))) \<and>
    (\<forall>c \<in> set (en_crons en). (\<forall>r \<in> set (en_crons en). due now r \<longrightarrow> cr_id r \<noteq> cr_id c) \<longrightarrow> c \<in> set (en_crons en'))"
proof -
  let ?sel = "filter (due now) (en_crons en)"
  obtain evs cs where f: "fire_all cl now ?sel (0, events (en_db en), en_crons en) = Inr (n, evs, cs)"
    and en': "events (en_db en') = evs" "en_crons en' = cs"
    using assms(1,2) by (auto simp: check_cron_def Let_def split: prod.splits if_splits sum.splits)
  obtain new where s: "evs = events (en_db en) @ new" "n = length new"
    "\<forall>e \<in> set new. etype e = TIMER_FIRED_EVENT \<and> \<not> eprocessed e \<and> epayload e \<in> fire_payload cl ` set ?sel"
    "\<forall>c \<in> set ?sel. \<exists>e \<in> set evs. ekey e = Some (fire_key cl c)"
    "\<forall>r. cr_id r \<notin> cr_id ` set ?sel \<longrightarrow> (r \<in> set cs \<longleftrightarrow> r \<in> set (en_crons en))"
    "\<forall>r \<in> set cs. (\<exists>c \<in> set ?sel. cr_id c = cr_id r) \<longrightarrow> now < cr_next r"
    using fire_all_spec [OF f assms(3)] by auto
  have "\<not> due now c" if "c \<in> set cs" for c
    using that s(5,6) by (cases "cr_id c \<in> cr_id ` set ?sel") (force simp: due_def image_iff)+
  moreover have "c \<in> set cs" if "c \<in> set (en_crons en)" "\<forall>r \<in> set (en_crons en). due now r \<longrightarrow> cr_id r \<noteq> cr_id c" for c
  proof -
    have "cr_id c \<notin> cr_id ` set ?sel" using that(2) by force
    then show ?thesis using that(1) s(5) by blast
  qed
  ultimately show ?thesis using s(1-4) en' by auto
qed

text \<open>Restarting skips what was due. When its timer starts again the entry of a schedule is replaced,
  its time counted from now, so a firing that was due is never made.\<close>

theorem restart_skips_due:
  assumes "dget tc ''schedule'' = JStr ex" "ex \<noteq> []" "dget tc ''emits'' = JStr ty" "cl_valid cl ex" "cl_next cl ex now = Inr nx"
    and "croniter_ok cl" "c \<in> set cs" "cr_name c = ''trigger:'' @ nm" "wf_ids cr_id cs" "distinct (map cr_name cs)"
    and "due now c"
  shows "\<exists>c1 \<in> set (timer_start cl now nm tc cs). cr_id c1 = cr_id c \<and> cr_name c1 = cr_name c \<and> now < cr_next c1 \<and>
    (\<forall>c2 \<in> set (timer_start cl now nm tc cs). cr_name c2 = cr_name c \<longrightarrow> \<not> due now c2)"
proof -
  obtain c0 where c0: "List.find (\<lambda>r. cr_name r = ''trigger:'' @ nm) cs = Some c0"
    using assms(7,8) by (cases "List.find (\<lambda>r. cr_name r = ''trigger:'' @ nm) cs") (auto simp: find_None_iff)
  then have "c0 \<in> set cs" "cr_name c0 = cr_name c" using assms(8) by (auto simp: find_Some_iff)
  then have same: "c0 = c" using assms(7,10) by (meson distinct_map inj_onD)
  have em: "map_of tc ''emits'' = Some (JStr ty)" using assms(3) by (auto simp: dget_def split: option.splits)
  let ?f = "\<lambda>r. r\<lparr> cr_expr := ex, cr_type := ty, cr_payload := stored_payload (map_of tc ''payload''),
             cr_next := nx, cr_enabled := True, cr_once := False \<rparr>"
  have st: "timer_start cl now nm tc cs = upd_row cr_id (cr_id c) ?f cs"
    using assms(1,2,4,5) em c0 same by (simp add: timer_start_def add_cron_def put_cron_def or_default_def)
  have nx: "now < nx" using assms(5,6) by (auto simp: croniter_ok_def)
  have "?f c \<in> set (upd_row cr_id (cr_id c) ?f cs)"
    using assms(7) by (force simp: upd_row_def upd_where_def)
  moreover have "\<not> due now c2" if "c2 \<in> set (upd_row cr_id (cr_id c) ?f cs)" "cr_name c2 = cr_name c" for c2
  proof -
    have "c2 \<in> (\<lambda>r. if cr_id r = cr_id c then ?f r else r) ` set cs"
      using that(1) by (simp add: upd_row_def upd_where_def)
    then obtain r where r: "r \<in> set cs" "c2 = (if cr_id r = cr_id c then ?f r else r)" by blast
    then have "r = c" using that(2) assms(7,10) by (auto split: if_splits dest: inj_onD simp: distinct_map)
    then show ?thesis using r nx by (simp add: due_def)
  qed
  ultimately show ?thesis unfolding st using nx by (intro bexI [of _ "?f c"]) simp_all
qed

text \<open>The counter fires when the threshold is reached, and then not again on the same day: the events
  recorded after it fired, until midnight, are never counted.\<close>

lemma counter_deaf_same_day:
  assumes "List.find (\<lambda>t. tg_name t = cc_name c) ts = Some t" "tg_last t = Some l" "0 < cc_threshold c"
    and "\<forall>e \<in> set evs. etype e = cc_counts c \<longrightarrow> ecreated_at e div 86400 \<le> l div 86400000000"
  shows "check_counter cl now c (ts, evs) = (ts, evs)"
proof -
  have "filter (counted c (Some l)) evs = []"
    using assms(4) by (auto simp: filter_empty_conv counted_def created_after_def)
  then show ?thesis using assms(1-3) by (simp add: check_counter_def)
qed

lemma counter_fires:
  assumes "List.find (\<lambda>t. tg_name t = cc_name c) ts = Some t" "cc_counts c \<noteq> []"
    and "cc_threshold c \<le> int (length (filter (counted c (tg_last t)) evs))"
    and "\<forall>e \<in> set evs. ekey e \<noteq> Some (counter_key cl now c)"
  shows "\<exists>ts' e. check_counter cl now c (ts, evs) = (ts', evs @ [e]) \<and> etype e = counter_emits c \<and>
    dget (epayload e) ''count'' = JInt (int (length (filter (counted c (tg_last t)) evs)))"
proof -
  have "\<not> list_ex (\<lambda>e. ekey e = Some (counter_key cl now c)) evs" using assms(4) by (simp add: list_ex_iff)
  then show ?thesis using assms(1-3)
    by (auto simp: check_counter_def record_event_def new_event_def counter_payload_def dget_def update_conv')
qed

text \<open>Row ids are used again. A one-shot entry that has fired is deleted; the next entry gets its id, and
  when it is for the same time its firing counts as the one already recorded: it is lost.\<close>

lemma reused_id_swallows:
  assumes "add_once cl now nm txt ty pl [] = Inr (i, [c])" "autonomous_allowed cfg es t us bud = ((True, r), bud)"
    and "cr_next c \<le> t" "add_once cl t nm2 txt ty2 pl2 [] = Inr (j, [c2])" "events d = []"
  shows "\<exists>d1. check_cron cl cfg es us t \<lparr> en_db = d, en_matchers = [], en_crons = [c], en_counters = [], en_budget = bud \<rparr> =
      (Inr 1, \<lparr> en_db = d1, en_matchers = [], en_crons = [], en_counters = [], en_budget = bud \<rparr>) \<and>
    check_cron cl cfg es us t \<lparr> en_db = d1, en_matchers = [], en_crons = [c2], en_counters = [], en_budget = bud \<rparr> =
      (Inr 0, \<lparr> en_db = d1, en_matchers = [], en_crons = [], en_counters = [], en_budget = bud \<rparr>)"
proof -
  obtain nx where p: "cl_parse cl txt = Some nx" using assms(1) by (auto simp: add_once_def split: option.splits)
  then have "c = \<lparr> cr_id = 1, cr_name = nm, cr_expr = ''0 0 31 2 *'', cr_type = ty, cr_payload = stored_payload pl,
      cr_next = nx, cr_enabled = True, cr_once = True, cr_created = cur_ts now \<rparr>"
    "c2 = \<lparr> cr_id = 1, cr_name = nm2, cr_expr = ''0 0 31 2 *'', cr_type = ty2, cr_payload = stored_payload pl2,
      cr_next = nx, cr_enabled = True, cr_once = True, cr_created = cur_ts t \<rparr>"
    using assms(1,4) by (auto simp: add_once_def put_cron_def next_rowid_def)
  moreover from this have "nx \<le> t" using assms(3) by simp
  ultimately show ?thesis using assms(2,5)
    by (simp add: check_cron_def Let_def due_def record_firing_def record_event_def new_event_def advance_def fire_key_def
        del_where_def)
qed

section \<open>Witnesses\<close>

definition demo_cl :: cron_lib where
  "demo_cl = \<lparr> cl_valid = (\<lambda>s. s = ''hourly''), cl_next = (\<lambda>s t. Inr (t + 10)), cl_iso = show_int, cl_parse = py_int_of_string \<rparr>"

lemma demo_croniter: "croniter_ok demo_cl"
  by (simp add: croniter_ok_def demo_cl_def)

definition demo_cron :: cron_row where
  "demo_cron = \<lparr> cr_id = 4, cr_name = ''trigger:sweep'', cr_expr = ''hourly'', cr_type = ''sweep'', cr_payload = None,
     cr_next = 5, cr_enabled = True, cr_once = False, cr_created = 0 \<rparr>"

definition demo_engine :: engine where
  "demo_engine = \<lparr> en_db = empty_db, en_matchers = [], en_crons = [demo_cron], en_counters = [], en_budget = no_budget \<rparr>"

lemma demo_check: "\<exists>en. check_cron demo_cl demo_budget_config [] [] 7 demo_engine = (Inr 1, en)"
  using no_budget_allowed
  by (simp add: check_cron_def demo_engine_def demo_cron_def demo_cl_def due_def record_firing_def record_event_def advance_def
      empty_db_def Let_def)

theorem cron_fires_witness:
  "\<exists>en. check_cron demo_cl demo_budget_config [] [] 7 demo_engine = (Inr 1, en) \<and> (\<forall>c \<in> set (en_crons en). \<not> due 7 c)"
proof -
  obtain en where "check_cron demo_cl demo_budget_config [] [] 7 demo_engine = (Inr 1, en)" using demo_check by blast
  with cron_fires [OF this _ demo_croniter] show ?thesis using no_budget_allowed by (auto simp: demo_engine_def)
qed

theorem restart_skips_due_witness:
  "\<exists>c1 \<in> set (timer_start demo_cl 7 ''sweep'' [(''schedule'', JStr ''hourly''), (''emits'', JStr ''sweep'')] [demo_cron]).
     cr_id c1 = cr_id demo_cron \<and> cr_name c1 = cr_name demo_cron \<and> 7 < cr_next c1 \<and>
    (\<forall>c2 \<in> set (timer_start demo_cl 7 ''sweep'' [(''schedule'', JStr ''hourly''), (''emits'', JStr ''sweep'')] [demo_cron]).
       cr_name c2 = cr_name demo_cron \<longrightarrow> \<not> due 7 c2)"
  by (rule restart_skips_due [where ex = "''hourly''" and ty = "''sweep''" and nx = 17, OF _ _ _ _ _ demo_croniter])
    (simp_all add: dget_def demo_cl_def demo_cron_def wf_ids_def due_def)

end
