(* ===== verification/Subscriptions.thy ===== *)
theory Subscriptions
  imports Triggers
begin

text \<open>
  Subscriptions, which turn events into work (\<open>core/engine/subscriptions.py\<close>), and the main loop that
  runs everything (\<open>core/engine/main_loop.py\<close>).

  Names and event types of subscriptions are texts. A filter is what the configuration holds; as a
  text it is parsed (\<open>sl_parse\<close>). \<open>sl_format\<close> is \<open>str.format\<close>. The actions of one run over all
  events are one transaction. Handlers of claimed items run as tasks of their own: an iteration of
  the loop claims items and hands them out; triggers of packages and the hooks are functions.
\<close>

section \<open>Subscriptions\<close>

record subscription =
  su_name :: string
  su_type :: string
  su_filter :: json
  su_action :: json
  su_config :: jdict
  su_enabled :: bool
  su_package :: "string option"

record sub_lib =
  sl_parse :: "string \<Rightarrow> jtext"
  sl_format :: "string \<Rightarrow> jdict \<Rightarrow> exn + string"

definition text_field :: "json \<Rightarrow> string option" where
  "text_field v = (case v of JStr (c # cs) \<Rightarrow> Some (c # cs) | _ \<Rightarrow> None)"

fun first_text :: "json list \<Rightarrow> string option" where
  "first_text [] = None"
| "first_text (v # vs) = (case text_field v of Some s \<Rightarrow> Some s | None \<Rightarrow> first_text vs)"

text \<open>YAML reads a bare \<open>on\<close> as true, which is the key \<open>true\<close> after a round trip through JSON.\<close>

definition event_type_of :: "jdict \<Rightarrow> string option" where
  "event_type_of c = first_text [dget c ''on'', dget c ''event'', dget c ''true'']"

definition load_one :: "jdict \<Rightarrow> exn + subscription option" where
  "load_one c =
     (case (text_field (dget c ''name''), event_type_of c) of
        (Some n, Some ty) \<Rightarrow>
          (case or_default (map_of c ''action'') (JObj []) of
             JObj a \<Rightarrow> Inr (Some \<lparr> su_name = n, su_type = ty, su_filter = dget c ''filter'',
               su_action = or_default (map_of a ''type'') (JStr ''enqueue_work''),
               su_config = filter (\<lambda>(k, v). k \<noteq> ''type'') a,
               su_enabled = jtruthy (or_default (map_of c ''enabled'') (JBool True)), su_package = None \<rparr>)
           | _ \<Rightarrow> Inl (AttributeError ''get''))
      | _ \<Rightarrow> Inr None)"

fun load_subscriptions :: "jdict list \<Rightarrow> subscription list \<Rightarrow> (exn + nat) \<times> subscription list" where
  "load_subscriptions [] ss = (Inr 0, ss)"
| "load_subscriptions (c # cs) ss =
     (case load_one c of
        Inl e \<Rightarrow> (Inl e, ss)
      | Inr None \<Rightarrow> load_subscriptions cs ss
      | Inr (Some s) \<Rightarrow>
          (case load_subscriptions cs (ss @ [s]) of
             (Inl e, ss1) \<Rightarrow> (Inl e, ss1) | (Inr n, ss1) \<Rightarrow> (Inr (Suc n), ss1)))"

definition unregister_subscriptions :: "string \<Rightarrow> subscription list \<Rightarrow> nat \<times> subscription list" where
  "unregister_subscriptions p ss =
     (if p = [] then (0, ss)
      else let ss1 = filter (\<lambda>s. su_package s \<noteq> Some p) ss in (length ss - length ss1, ss1))"

definition package_entry :: "string \<Rightarrow> nat \<Rightarrow> jdict \<Rightarrow> subscription option" where
  "package_entry p i e =
     (case (text_field (dget e ''event''), text_field (dget e ''handler'')) of
        (Some ty, Some h) \<Rightarrow>
          Some \<lparr> su_name = ''_pkg.'' @ p @ ''.'' @ show_int (int i), su_type = ty, su_filter = JNull,
            su_action = JStr ''package_dispatch'',
            su_config = [(''package'', JStr p), (''handler'', JStr h)], su_enabled = True, su_package = Some p \<rparr>
      | _ \<Rightarrow> None)"

definition package_entries :: "string \<Rightarrow> jdict list \<Rightarrow> subscription list" where
  "package_entries p es = List.map_filter (\<lambda>(i, e). package_entry p i e) (enumerate 0 es)"

fun load_package_subscriptions :: "(string \<times> jdict list) list \<Rightarrow> subscription list \<Rightarrow> nat \<times> subscription list" where
  "load_package_subscriptions [] ss = (0, ss)"
| "load_package_subscriptions ((p, es) # rs) ss =
     (let new = package_entries p es in
      case load_package_subscriptions rs (snd (unregister_subscriptions p ss) @ new) of
        (n, ss1) \<Rightarrow> (length new + n, ss1))"

definition timer_forward :: subscription where
  "timer_forward = \<lparr> su_name = ''_builtin.timer_forward'', su_type = TIMER_FIRED_EVENT, su_filter = JNull,
     su_action = JStr ''forward_timer'', su_config = [], su_enabled = True, su_package = None \<rparr>"

definition webhook_dispatch :: subscription where
  "webhook_dispatch = \<lparr> su_name = ''webhook-dispatch'', su_type = ''webhook.received'', su_filter = JNull,
     su_action = JStr ''enqueue_work'',
     su_config = [(''event_type'', JStr ''webhook.received''), (''payload_merge'', JBool True)],
     su_enabled = True, su_package = None \<rparr>"

definition load_builtin_subscriptions :: "subscription list \<Rightarrow> nat \<times> subscription list" where
  "load_builtin_subscriptions ss =
     (let new = filter (\<lambda>s. su_name s \<notin> su_name ` set ss) [timer_forward, webhook_dispatch] in (length new, ss @ new))"

section \<open>Matching\<close>

definition sub_filter_matches :: "sub_lib \<Rightarrow> json \<Rightarrow> jdict \<Rightarrow> exn + bool" where
  "sub_filter_matches sl f p =
     (case f of
        JNull \<Rightarrow> Inr True
      | JStr s \<Rightarrow> filter_matches (Some (sl_parse sl s)) p
      | v \<Rightarrow> filter_matches (Some (Parsed v)) p)"

definition source_package_matches :: "subscription \<Rightarrow> jdict \<Rightarrow> bool" where
  "source_package_matches s p =
     (case su_package s of
        None \<Rightarrow> True
      | Some g \<Rightarrow> (case dget p ''_source_package'' of JNull \<Rightarrow> True | v \<Rightarrow> v = JStr g))"

section \<open>Actions\<close>

text \<open>\<open>INSERT OR IGNORE\<close> into the queue: whether a row was added, and the queue.\<close>

definition insert_ignore :: "time \<Rightarrow> string \<Rightarrow> jdict \<Rightarrow> string \<Rightarrow> int \<Rightarrow> work_item list \<Rightarrow> bool \<times> work_item list" where
  "insert_ignore now typ pl k maxr q =
     (if key_taken (Some k) q then (False, q)
      else (True, q @ [\<lparr> wid = next_rowid wid q, event_type = typ, payload = JObj pl, wstatus = WPending,
            wretry_count = 0, wmax_retries = maxr, idempotency_key = Some k, werror = None,
            wcreated_at = cur_ts now, claimed_at = None, wcompleted_at = None,
            scheduled_at = None, wpriority = 100 \<rparr>]))"

definition sub_key :: "string \<Rightarrow> subscription \<Rightarrow> event_row \<Rightarrow> string" where
  "sub_key prefix s e = prefix @ su_name s @ ''-event-'' @ show_int (eid e)"

definition update_dict :: "jdict \<Rightarrow> jdict \<Rightarrow> jdict" where
  "update_dict d p = fold (\<lambda>(k, v). AList.update k v) p d"

definition sub_meta :: "subscription \<Rightarrow> event_row \<Rightarrow> jdict \<Rightarrow> jdict" where
  "sub_meta s e d = AList.update ''_event_id'' (JInt (eid e)) (AList.update ''_subscription'' (JStr (su_name s)) d)"

definition action_enqueue_work :: "time \<Rightarrow> subscription \<Rightarrow> event_row \<Rightarrow> work_item list \<Rightarrow> exn + (bool \<times> work_item list)" where
  "action_enqueue_work now s e q =
     (case (or_default (map_of (su_config s) ''event_type'') (JStr (etype e)),
            or_default (map_of (su_config s) ''payload'') (JObj [])) of
        (JStr ty, JObj d) \<Rightarrow>
          Inr (insert_ignore now ty
            (sub_meta s e (if jtruthy (dget (su_config s) ''payload_merge'') then update_dict d (epayload e) else d))
            (sub_key ''sub-'' s e) 3 q)
      | _ \<Rightarrow> Inl (TypeError ''config''))"

definition action_forward_timer :: "time \<Rightarrow> subscription \<Rightarrow> event_row \<Rightarrow> work_item list \<Rightarrow> exn + (bool \<times> work_item list)" where
  "action_forward_timer now s e q =
     (let p = epayload e in
      if \<not> jtruthy (dget p ''cron_event_type'') then Inr (False, q)
      else case dget p ''cron_event_type'' of
          JStr ty \<Rightarrow>
            Inr (insert_ignore now ty
              ([(''cron_id'', dget p ''cron_id''), (''cron_name'', dget p ''cron_name''), (''fire_time'', dget p ''fire_time'')]
               @ (case map_of p ''event_payload'' of None \<Rightarrow> [] | Some v \<Rightarrow> [(''event_payload'', v)]))
              (sub_key ''sub-'' s e) 4 q)
        | _ \<Rightarrow> Inl (TypeError ''cron_event_type''))"

text \<open>With an id the template must exist, and bear the name when one is given too.\<close>

definition resolve_template :: "json \<Rightarrow> json \<Rightarrow> (int \<times> string) list \<Rightarrow> (int \<times> string) option" where
  "resolve_template nm i ts =
     (if i \<noteq> JNull
      then (case i of
              JInt k \<Rightarrow> (case List.find (\<lambda>t. fst t = k) ts of
                           None \<Rightarrow> None
                         | Some t \<Rightarrow> if jtruthy nm \<and> nm \<noteq> JStr (snd t) then None else Some t)
            | _ \<Rightarrow> None)
      else if jtruthy nm then List.find (\<lambda>t. JStr (snd t) = nm) ts else None)"

definition action_create_arc ::
    "time \<Rightarrow> (int \<times> string) list \<Rightarrow> subscription \<Rightarrow> event_row \<Rightarrow> work_item list \<Rightarrow> exn + (bool \<times> work_item list)" where
  "action_create_arc now ts s e q =
     (let c = AList.update ''_event_payload'' (JObj (epayload e)) (sub_meta s e (su_config s));
          nm = dget c ''template_name''; i = dget c ''template_id'';
          add = (\<lambda>d. Inr (insert_ignore now ''subscription.create_arc'' d (sub_key ''sub-arc-'' s e) 3 q)) in
      if jtruthy nm \<or> i \<noteq> JNull
      then (case resolve_template nm i ts of
              None \<Rightarrow> Inr (False, q)
            | Some t \<Rightarrow> add (AList.update ''template_name'' (JStr (snd t)) (AList.update ''template_id'' (JInt (fst t)) c)))
      else add c)"

definition action_send_notification ::
    "sub_lib \<Rightarrow> time \<Rightarrow> subscription \<Rightarrow> event_row \<Rightarrow> work_item list \<Rightarrow> exn + (bool \<times> work_item list)" where
  "action_send_notification sl now s e q =
     (let c = sub_meta s e (su_config s);
          add = (\<lambda>d. Inr (insert_ignore now ''subscription.notification'' d (sub_key ''sub-notif-'' s e) 1 q)) in
      case or_default (map_of c ''message'') (JStr []) of
        JStr m \<Rightarrow>
          if CHR 0x7B \<notin> set m then add c
          else (case sl_format sl m (epayload e) of
                  Inr t \<Rightarrow> add (AList.update ''message'' (JStr t) c)
                | Inl (KeyError _) \<Rightarrow> add c
                | Inl (OtherError x) \<Rightarrow> if x = ''IndexError'' then add c else Inl (OtherError x)
                | Inl x \<Rightarrow> Inl x)
      | _ \<Rightarrow> Inl (TypeError ''message''))"

definition action_package_dispatch :: "time \<Rightarrow> subscription \<Rightarrow> event_row \<Rightarrow> work_item list \<Rightarrow> exn + (bool \<times> work_item list)" where
  "action_package_dispatch now s e q =
     (let g = dget (su_config s) ''package''; h = dget (su_config s) ''handler'' in
      if \<not> jtruthy g \<or> \<not> jtruthy h then Inr (False, q)
      else Inr (insert_ignore now ''package.dispatch''
        [(''_subscription'', JStr (su_name s)), (''_event_id'', JInt (eid e)), (''package'', g), (''handler'', h),
         (''event_type'', JStr (etype e)), (''event_payload'', JObj (epayload e))]
        (sub_key ''sub-pkg-'' s e) 1 q))"

definition execute_action ::
    "sub_lib \<Rightarrow> time \<Rightarrow> (int \<times> string) list \<Rightarrow> subscription \<Rightarrow> event_row \<Rightarrow> work_item list \<Rightarrow> exn + (bool \<times> work_item list)" where
  "execute_action sl now ts s e q =
     (if su_action s = JStr ''enqueue_work'' then action_enqueue_work now s e q
      else if su_action s = JStr ''forward_timer'' then action_forward_timer now s e q
      else if su_action s = JStr ''create_arc'' then action_create_arc now ts s e q
      else if su_action s = JStr ''send_notification'' then action_send_notification sl now s e q
      else if su_action s = JStr ''package_dispatch'' then action_package_dispatch now s e q
      else Inr (False, q))"

text \<open>An exception of an action is logged; an exception of a filter ends the run.\<close>

fun run_subs ::
    "sub_lib \<Rightarrow> time \<Rightarrow> (int \<times> string) list \<Rightarrow> event_row \<Rightarrow> subscription list \<Rightarrow> nat \<times> work_item list \<Rightarrow>
     exn + (nat \<times> work_item list)" where
  "run_subs sl now ts e [] st = Inr st"
| "run_subs sl now ts e (s # ss) (n, q) =
     (if su_type s \<noteq> etype e then run_subs sl now ts e ss (n, q)
      else case sub_filter_matches sl (su_filter s) (epayload e) of
          Inl x \<Rightarrow> Inl x
        | Inr ok \<Rightarrow>
            if \<not> ok \<or> \<not> source_package_matches s (epayload e) then run_subs sl now ts e ss (n, q)
            else (case execute_action sl now ts s e q of
                    Inl _ \<Rightarrow> run_subs sl now ts e ss (n, q)
                  | Inr (new, q1) \<Rightarrow> run_subs sl now ts e ss (if new then n + 1 else n, q1)))"

fun run_events ::
    "sub_lib \<Rightarrow> time \<Rightarrow> (int \<times> string) list \<Rightarrow> subscription list \<Rightarrow> event_row list \<Rightarrow> nat \<times> work_item list \<Rightarrow>
     exn + (nat \<times> work_item list)" where
  "run_events sl now ts ss [] st = Inr st"
| "run_events sl now ts ss (e # es) st =
     (case run_subs sl now ts e ss st of Inl x \<Rightarrow> Inl x | Inr st1 \<Rightarrow> run_events sl now ts ss es st1)"

definition process_subscriptions :: "sub_lib \<Rightarrow> time \<Rightarrow> subscription list \<Rightarrow> db \<Rightarrow> (exn + nat) \<times> db" where
  "process_subscriptions sl now ss d =
     (let on = filter su_enabled ss in
      if on = [] then (Inr 0, d)
      else case run_events sl now (templates d) on (unprocessed (events d)) (0, queue d) of
          Inl x \<Rightarrow> (Inl x, d)
        | Inr (n, q) \<Rightarrow> (Inr n, d\<lparr> queue := q \<rparr>))"

section \<open>The main loop\<close>

record loop_env =
  lp_sub :: sub_lib
  lp_cron :: cron_lib
  lp_budget :: budget_config
  lp_models :: "model_entry list"
  lp_usage :: "usage list"
  lp_subs :: "subscription list"
  lp_counters :: "counter_cfg list"
  lp_triggers :: "(time \<Rightarrow> engine \<Rightarrow> engine) list"
  lp_hooks :: "(time \<Rightarrow> engine \<Rightarrow> engine) list"

text \<open>Claim while fewer than the allowed handlers run.\<close>

fun dispatch_work_items :: "nat \<Rightarrow> time \<Rightarrow> work_item list \<Rightarrow> work_item list \<times> work_item list" where
  "dispatch_work_items 0 now q = ([], q)"
| "dispatch_work_items (Suc k) now q =
     (case claim now q of
        (None, q1) \<Rightarrow> ([], q1)
      | (Some r, q1) \<Rightarrow> (case dispatch_work_items k now q1 of (rs, q2) \<Rightarrow> (r # rs, q2)))"

definition run_counter :: "loop_env \<Rightarrow> time \<Rightarrow> counter_cfg \<Rightarrow> engine \<Rightarrow> engine" where
  "run_counter le now c en =
     (case check_counter (lp_cron le) now c (en_counters en, events (en_db en)) of
        (ts, evs) \<Rightarrow> en\<lparr> en_counters := ts, en_db := (en_db en)\<lparr> events := evs \<rparr> \<rparr>)"

definition check_pollable_triggers :: "loop_env \<Rightarrow> time \<Rightarrow> engine \<Rightarrow> engine" where
  "check_pollable_triggers le now en =
     fold (\<lambda>f. f now) (lp_triggers le) (fold (run_counter le now) (lp_counters le) en)"

text \<open>The work of one iteration after the claims; an exception ends it, with what was committed.\<close>

definition after_claims :: "loop_env \<Rightarrow> time \<Rightarrow> engine \<Rightarrow> engine" where
  "after_claims le now en =
     (case process_subscriptions (lp_sub le) now (lp_subs le) (en_db en) of
        (Inl _, _) \<Rightarrow> en
      | (Inr _, d1) \<Rightarrow>
          (case process_events now (events d1, en_matchers en, queue d1) of
             Inl _ \<Rightarrow> en\<lparr> en_db := d1 \<rparr>
           | Inr (_, evs2, ms2, q2) \<Rightarrow>
               (case check_timeouts now (evs2, ms2) of
                  (_, evs3, ms3) \<Rightarrow>
                    (case check_cron (lp_cron le) (lp_budget le) (lp_models le) (lp_usage le) now
                        (en\<lparr> en_db := d1\<lparr> events := evs3, queue := q2 \<rparr>, en_matchers := ms3 \<rparr>) of
                       (Inl _, en4) \<Rightarrow> en4
                     | (Inr _, en4) \<Rightarrow> fold (\<lambda>f. f now) (lp_hooks le) (check_pollable_triggers le now en4)))))"

definition iteration :: "loop_env \<Rightarrow> nat \<Rightarrow> time \<Rightarrow> engine \<Rightarrow> work_item list \<times> engine" where
  "iteration le k now en =
     (case dispatch_work_items k now (queue (en_db en)) of
        (rs, q) \<Rightarrow> (rs, after_claims le now (en\<lparr> en_db := (en_db en)\<lparr> queue := q \<rparr> \<rparr>)))"

section \<open>Facts\<close>

definition action_prefix :: "subscription \<Rightarrow> string" where
  "action_prefix s =
     (if su_action s = JStr ''create_arc'' then ''sub-arc-''
      else if su_action s = JStr ''send_notification'' then ''sub-notif-''
      else if su_action s = JStr ''package_dispatch'' then ''sub-pkg-'' else ''sub-'')"

abbreviation action_key :: "subscription \<Rightarrow> event_row \<Rightarrow> string" where
  "action_key s e \<equiv> sub_key (action_prefix s) s e"

text \<open>An action adds at most one item, under the key of subscription and event, and says so.\<close>

definition adds :: "string \<Rightarrow> bool \<times> work_item list \<Rightarrow> work_item list \<Rightarrow> bool" where
  "adds k r q = (\<exists>new. snd r = q @ new \<and> length new = (if fst r then 1 else 0) \<and> (\<forall>i \<in> set new. idempotency_key i = Some k))"

lemma insert_ignore_adds: "adds k (insert_ignore now typ pl k m q) q"
  by (auto simp: adds_def insert_ignore_def)

text \<open>Like the queue's own \<open>enqueue\<close>, an action keeps one row per key.\<close>

definition ignore_keyed :: "string \<Rightarrow> time \<times> string \<times> jdict \<times> int \<Rightarrow> work_item list \<Rightarrow> work_item list" where
  "ignore_keyed k i q = (case i of (now, ty, pl, m) \<Rightarrow> snd (insert_ignore now ty pl k m q))"

lemma keys_of_ignore_keyed:
  "keys_of (ignore_keyed k i q) = (if k \<in> set (keys_of q) then keys_of q else keys_of q @ [k])"
  by (cases i) (simp add: ignore_keyed_def insert_ignore_def key_taken_Some keys_of_def List.map_filter_def)

interpretation sub_queue: dedup_queue ignore_keyed keys_of
  by unfold_locales (auto simp: keys_of_ignore_keyed)

lemma no_add: "adds k (False, q) q"
  by (simp add: adds_def)

lemma action_adds: "execute_action sl now ts s e q = Inr r \<Longrightarrow> adds (action_key s e) r q"
  using insert_ignore_adds no_add
  by (auto simp: execute_action_def action_prefix_def action_enqueue_work_def action_forward_timer_def action_create_arc_def
      action_send_notification_def action_package_dispatch_def Let_def
      split: if_splits json.splits option.splits sum.splits exn.splits)

text \<open>A subscription that fires on an event: its type, filter and package agree.\<close>

definition fires :: "sub_lib \<Rightarrow> subscription \<Rightarrow> event_row \<Rightarrow> bool" where
  "fires sl s e =
     (su_type s = etype e \<and> sub_filter_matches sl (su_filter s) (epayload e) = Inr True \<and>
      source_package_matches s (epayload e))"

lemma run_subs_spec:
  assumes "run_subs sl now ts e ss (n, q) = Inr (n', q')"
  shows "\<exists>new. q' = q @ new \<and> n' = n + length new \<and>
    (\<forall>r \<in> set new. \<exists>s \<in> set ss. fires sl s e \<and> idempotency_key r = Some (action_key s e))"
  using assms
proof (induction ss arbitrary: n q)
  case (Cons s ss)
  show ?case
  proof (cases "fires sl s e \<and> (\<exists>b q1. execute_action sl now ts s e q = Inr (b, q1))")
    case True
    then obtain b q1 where x: "execute_action sl now ts s e q = Inr (b, q1)" by blast
    have rest: "run_subs sl now ts e ss (if b then n + 1 else n, q1) = Inr (n', q')"
      using Cons.prems True x by (simp add: fires_def)
    obtain one where one: "q1 = q @ one" "length one = (if b then 1 else 0)" "\<forall>i \<in> set one. idempotency_key i = Some (action_key s e)"
      using action_adds [OF x] by (auto simp: adds_def)
    obtain new where new: "q' = q1 @ new" "n' = (if b then n + 1 else n) + length new"
      "\<forall>r \<in> set new. \<exists>s \<in> set ss. fires sl s e \<and> idempotency_key r = Some (action_key s e)"
      using Cons.IH [OF rest] by blast
    show ?thesis
      by (rule exI [of _ "one @ new"]) (use one new True in \<open>auto split: if_splits\<close>)
  next
    case False
    then have rest: "run_subs sl now ts e ss (n, q) = Inr (n', q')"
      using Cons.prems by (auto simp: fires_def split: if_splits sum.splits)
    from Cons.IH [OF rest] show ?thesis by (metis list.set_intros(2))
  qed
qed simp

lemma run_events_spec:
  assumes "run_events sl now ts ss es (n, q) = Inr (n', q')"
  shows "\<exists>new. q' = q @ new \<and> n' = n + length new \<and>
    (\<forall>r \<in> set new. \<exists>e \<in> set es. \<exists>s \<in> set ss. fires sl s e \<and> idempotency_key r = Some (action_key s e))"
  using assms
proof (induction es arbitrary: n q)
  case (Cons e es)
  obtain n1 q1 where one: "run_subs sl now ts e ss (n, q) = Inr (n1, q1)" and
    rest: "run_events sl now ts ss es (n1, q1) = Inr (n', q')"
    using Cons.prems by (auto split: sum.splits)
  obtain a where a: "q1 = q @ a" "n1 = n + length a"
    "\<forall>r \<in> set a. \<exists>s \<in> set ss. fires sl s e \<and> idempotency_key r = Some (action_key s e)"
    using run_subs_spec [OF one] by blast
  obtain b where b: "q' = q1 @ b" "n' = n1 + length b"
    "\<forall>r \<in> set b. \<exists>e \<in> set es. \<exists>s \<in> set ss. fires sl s e \<and> idempotency_key r = Some (action_key s e)"
    using Cons.IH [OF rest] by blast
  show ?case by (rule exI [of _ "a @ b"]) (use a b in auto)
qed simp

text \<open>Completeness: an action that succeeds leaves its key in the queue.\<close>

definition responsive :: "sub_lib \<Rightarrow> time \<Rightarrow> (int \<times> string) list \<Rightarrow> subscription \<Rightarrow> event_row \<Rightarrow> bool" where
  "responsive sl now ts s e =
     (\<forall>q. \<exists>r. execute_action sl now ts s e q = Inr r \<and> key_taken (Some (action_key s e)) (snd r))"

lemma insert_ignore_taken [simp]: "key_taken (Some k) (snd (insert_ignore now typ pl k m q))"
  by (simp add: insert_ignore_def key_taken_def)

lemma key_taken_append: "key_taken k q \<Longrightarrow> key_taken k (q @ r)"
  by (auto simp: key_taken_def)

lemma run_subs_acts:
  assumes "run_subs sl now ts e ss (n, q) = Inr (n', q')" "s \<in> set ss" "fires sl s e" "responsive sl now ts s e"
  shows "key_taken (Some (action_key s e)) q'"
  using assms(1,2)
proof (induction ss arbitrary: n q)
  case (Cons x ss)
  show ?case
  proof (cases "x = s")
    case True
    obtain b q1 where a: "execute_action sl now ts s e q = Inr (b, q1)" "key_taken (Some (action_key s e)) q1"
      using assms(4) by (metis responsive_def prod.collapse)
    then have rest: "run_subs sl now ts e ss (if b then n + 1 else n, q1) = Inr (n', q')"
      using Cons.prems(1) assms(3) True by (simp add: fires_def)
    show ?thesis using run_subs_spec [OF rest] a(2) key_taken_append by blast
  next
    case False
    then have "s \<in> set ss" using Cons.prems(2) by simp
    moreover obtain m q1 where "run_subs sl now ts e ss (m, q1) = Inr (n', q')"
      using Cons.prems(1) by (auto split: if_splits sum.splits)
    ultimately show ?thesis using Cons.IH by blast
  qed
qed simp

lemma run_events_acts:
  assumes "run_events sl now ts ss es (n, q) = Inr (n', q')" "e \<in> set es" "s \<in> set ss" "fires sl s e" "responsive sl now ts s e"
  shows "key_taken (Some (action_key s e)) q'"
  using assms(1,2)
proof (induction es arbitrary: n q)
  case (Cons x es)
  obtain n1 q1 where one: "run_subs sl now ts x ss (n, q) = Inr (n1, q1)" and
    rest: "run_events sl now ts ss es (n1, q1) = Inr (n', q')"
    using Cons.prems by (auto split: sum.splits)
  show ?case
  proof (cases "x = e")
    case True
    have "key_taken (Some (action_key s e)) q1" using run_subs_acts [OF one [unfolded True] assms(3-5)] .
    then show ?thesis using run_events_spec [OF rest] key_taken_append by blast
  next
    case False
    then show ?thesis using Cons rest by auto
  qed
qed simp

lemma forward_responsive:
  assumes "su_action s = JStr ''forward_timer''" "dget (epayload e) ''cron_event_type'' = JStr ty" "ty \<noteq> []"
  shows "responsive sl now ts s e"
  using assms
  by (auto simp: responsive_def execute_action_def action_forward_timer_def action_prefix_def Let_def)

lemma enqueue_responsive:
  assumes "su_action s = JStr ''enqueue_work''" "map_of (su_config s) ''event_type'' \<in> {None, Some (JStr ty)}"
    and "map_of (su_config s) ''payload'' = None"
  shows "responsive sl now ts s e"
  using assms
  by (auto simp: responsive_def execute_action_def action_enqueue_work_def action_prefix_def or_default_def
      simp del: split_paired_Ex)

lemma set_unprocessed': "e \<in> set (unprocessed evs) \<longleftrightarrow> e \<in> set evs \<and> \<not> eprocessed e"
  by (auto simp: unprocessed_def)

section \<open>Properties\<close>

text \<open>C30: Only what fires. A run of the subscriptions adds items at the end of the queue, as many as it
  returns, each for an unprocessed event and an enabled subscription of its type whose filter matches;
  a subscription of a package acts on no event that another package's trigger emitted.\<close>

theorem subscriptions_exact:
  assumes "process_subscriptions sl now ss d = (Inr n, d')"
  shows "\<exists>new. queue d' = queue d @ new \<and> length new = n \<and> d' = d\<lparr> queue := queue d' \<rparr> \<and>
    (\<forall>r \<in> set new. \<exists>e \<in> set (events d). \<exists>s \<in> set ss. \<not> eprocessed e \<and> su_enabled s \<and> fires sl s e \<and>
       idempotency_key r = Some (action_key s e) \<and>
       (\<forall>g. su_package s = Some g \<longrightarrow> dget (epayload e) ''_source_package'' \<in> {JNull, JStr g}))"
proof (cases "filter su_enabled ss = []")
  case True
  then show ?thesis using assms by (simp add: process_subscriptions_def)
next
  case False
  then obtain q where q: "run_events sl now (templates d) (filter su_enabled ss) (unprocessed (events d)) (0, queue d) = Inr (n, q)"
    "d' = d\<lparr> queue := q \<rparr>"
    using assms by (auto simp: process_subscriptions_def Let_def split: sum.splits)
  have "dget (epayload e) ''_source_package'' \<in> {JNull, JStr g}" if "fires sl s e" "su_package s = Some g" for s e g
    using that by (auto simp: fires_def source_package_matches_def split: json.splits)
  then show ?thesis using run_events_spec [OF q(1)] q(2) by (fastforce simp: set_unprocessed')
qed


text \<open>The filter of a subscription that cannot be evaluated on an event of its type.\<close>

definition bad_for :: "loop_env \<Rightarrow> subscription \<Rightarrow> event_row \<Rightarrow> bool" where
  "bad_for le s e =
     (su_type s = etype e \<and> (\<exists>x. sub_filter_matches (lp_sub le) (su_filter s) (epayload e) = Inl x))"

lemma run_subs_bad:
  assumes "s \<in> set ss" "su_type s = etype e" "sub_filter_matches sl (su_filter s) (epayload e) = Inl x"
  shows "\<exists>y. run_subs sl now ts e ss st = Inl y"
  using assms(1)
proof (induction ss arbitrary: st)
  case (Cons a ss)
  obtain n q where st: "st = (n, q)" by fastforce
  show ?case
  proof (cases "a = s")
    case False
    then have "\<And>st. \<exists>y. run_subs sl now ts e ss st = Inl y" using Cons by simp
    then show ?thesis by (auto simp: st split: sum.splits)
  qed (use assms(2,3) st in simp)
qed simp

lemma run_events_bad:
  assumes "e \<in> set es" "s \<in> set ss" "su_type s = etype e" "sub_filter_matches sl (su_filter s) (epayload e) = Inl x"
  shows "\<exists>y. run_events sl now ts ss es st = Inl y"
  using assms(1)
proof (induction es arbitrary: st)
  case (Cons a es)
  show ?case
  proof (cases "a = e")
    case True
    then show ?thesis using run_subs_bad [OF assms(2-4), of now ts st] by auto
  next
    case False
    then have "\<And>st. \<exists>y. run_events sl now ts ss es st = Inl y" using Cons by simp
    then show ?thesis by (auto split: sum.splits)
  qed
qed simp

definition only_claims :: "engine \<Rightarrow> engine \<Rightarrow> bool" where
  "only_claims en en' = (\<exists>q. en' = en\<lparr> en_db := (en_db en)\<lparr> queue := q \<rparr> \<rparr>)"

lemma iteration_bad:
  assumes "s \<in> set (lp_subs le)" "su_enabled s" "bad_for le s e" "e \<in> set (events (en_db en))" "\<not> eprocessed e"
  shows "only_claims en (snd (iteration le k now en))"
proof -
  obtain rs q where q: "dispatch_work_items k now (queue (en_db en)) = (rs, q)" by fastforce
  obtain x where x: "su_type s = etype e" "sub_filter_matches (lp_sub le) (su_filter s) (epayload e) = Inl x"
    using assms(3) by (auto simp: bad_for_def)
  have "filter su_enabled (lp_subs le) \<noteq> []" using assms(1,2) by (auto simp: filter_empty_conv)
  moreover have "\<exists>y. run_events (lp_sub le) now ts (filter su_enabled (lp_subs le)) (unprocessed (events (en_db en))) st = Inl y" for ts st
    by (rule run_events_bad [of e _ s _ _ x]) (use assms x in \<open>simp_all add: set_unprocessed'\<close>)
  ultimately have "\<exists>y. process_subscriptions (lp_sub le) now (lp_subs le) ((en_db en)\<lparr> queue := q \<rparr>) = (Inl y, (en_db en)\<lparr> queue := q \<rparr>)"
    by (auto simp: process_subscriptions_def Let_def split: sum.splits) (metis Inl_Inr_False)
  then show ?thesis by (auto simp: iteration_def q after_claims_def only_claims_def)
qed

text \<open>C36: One bad filter stops the engine. When the filter of an enabled subscription cannot be evaluated
  on an unprocessed event of its type, and no earlier one fails first, nothing but claims is left of
  the main loop: whatever the number of iterations, no event is processed, no matcher or timeout
  fires, no cron entry moves and no counter is looked at.\<close>

theorem bad_filter_stops_engine:
  assumes "s \<in> set (lp_subs le)" "su_enabled s" "bad_for le s e" "e \<in> set (events (en_db en))" "\<not> eprocessed e"
  shows "only_claims en (fold (\<lambda>(k, now) x. snd (iteration le k now x)) ts en)"
proof (induction ts rule: rev_induct)
  case (snoc t ts)
  let ?m = "fold (\<lambda>(k, now) x. snd (iteration le k now x)) ts en"
  obtain q where m: "?m = en\<lparr> en_db := (en_db en)\<lparr> queue := q \<rparr> \<rparr>" using snoc by (auto simp: only_claims_def)
  have "only_claims ?m (snd (iteration le (fst t) (snd t) ?m))"
    by (rule iteration_bad [OF assms(1-3)]) (simp_all add: m assms(4,5))
  then show ?case unfolding m by (cases t) (auto simp: only_claims_def m)
next
  case Nil
  have "en = en\<lparr> en_db := (en_db en)\<lparr> queue := queue (en_db en) \<rparr> \<rparr>" by simp
  then show ?case unfolding only_claims_def by (metis fold_simps(1))
qed

text \<open>An event that another thread records between the two passes of an iteration is marked processed
  without any subscription having seen it, and no later run looks at it.\<close>

lemma event_in_between_lost:
  assumes "process_events now (evs @ [e], ms, q) = Inr (m, evs2, ms2, q2)" "wf_ids mid ms" "events d = evs2"
  shows "(\<exists>x \<in> set evs2. eid x = eid e \<and> eprocessed x) \<and> process_subscriptions sl t ss d = (Inr 0, d)"
proof
  have l: "process_loop now (unprocessed (evs @ [e])) (evs @ [e], ms, q, 0) = Inr (evs2, ms2, q2, m)"
    using assms(1) by (auto simp: process_events_def split: sum.splits)
  have all: "eprocessed x" if "x \<in> set evs2" for x
    using process_loop_Inr [OF assms(2) l] that by (auto simp: set_unprocessed' set_upd_where image_iff)
  have "map eid evs2 = map eid (evs @ [e])"
    using process_loop_Inr [OF assms(2) l] by (simp add: map_key_upd_where)
  then have "eid e \<in> eid ` set evs2" by (metis in_set_conv_decomp list.set_map image_eqI)
  then show "\<exists>x \<in> set evs2. eid x = eid e \<and> eprocessed x" using all by auto
  have "unprocessed (events d) = []" using all assms(3) by (auto simp: unprocessed_def filter_empty_conv)
  then show "process_subscriptions sl t ss d = (Inr 0, d)" by (simp add: process_subscriptions_def Let_def)
qed

section \<open>Witnesses\<close>

definition demo_sl :: sub_lib where
  "demo_sl = \<lparr> sl_parse = Malformed, sl_format = (\<lambda>s p. Inr s) \<rparr>"

definition demo_fired :: event_row where
  "demo_fired = new_event 0 TIMER_FIRED_EVENT (fire_payload demo_cl demo_cron) None 0 None []"

definition demo_sdb :: db where
  "demo_sdb = empty_db\<lparr> events := [demo_fired] \<rparr>"

lemma demo_fires: "fires demo_sl timer_forward demo_fired"
  by (simp add: fires_def timer_forward_def demo_fired_def new_event_def sub_filter_matches_def source_package_matches_def)

lemma demo_responsive: "responsive demo_sl 7 ts timer_forward demo_fired"
  by (rule forward_responsive [of _ _ "''sweep''"])
    (simp_all add: timer_forward_def demo_fired_def new_event_def fire_payload_def demo_cron_def dget_def)

lemma demo_pass: "\<exists>d1. process_subscriptions demo_sl 7 [timer_forward, webhook_dispatch] demo_sdb = (Inr 1, d1) \<and> events d1 = [demo_fired]"
  by (simp add: process_subscriptions_def demo_sdb_def empty_db_def unprocessed_def demo_fired_def new_event_def timer_forward_def
      webhook_dispatch_def sub_filter_matches_def source_package_matches_def execute_action_def action_forward_timer_def
      fire_payload_def demo_cron_def dget_def insert_ignore_def key_taken_def TIMER_FIRED_EVENT_def Let_def)

theorem subscriptions_exact_witness:
  "\<exists>d1 r. process_subscriptions demo_sl 7 [timer_forward, webhook_dispatch] demo_sdb = (Inr 1, d1) \<and> queue d1 = queue demo_sdb @ [r]"
proof -
  obtain d1 where d1: "process_subscriptions demo_sl 7 [timer_forward, webhook_dispatch] demo_sdb = (Inr 1, d1)"
    using demo_pass by blast
  from subscriptions_exact [OF this] obtain new where "queue d1 = queue demo_sdb @ new" "length new = 1" by blast
  then show ?thesis using d1 by (auto simp: length_Suc_conv)
qed


definition bad_sub :: subscription where
  "bad_sub = timer_forward\<lparr> su_filter := JObj [(''cron_name'', JObj [(''$nin'', JInt 3)])] \<rparr>"

definition demo_loop :: loop_env where
  "demo_loop = \<lparr> lp_sub = demo_sl, lp_cron = demo_cl, lp_budget = demo_budget_config, lp_models = [], lp_usage = [],
     lp_subs = [bad_sub], lp_counters = [], lp_triggers = [], lp_hooks = [] \<rparr>"

theorem bad_filter_stops_engine_witness:
  "only_claims (demo_engine\<lparr> en_db := demo_sdb \<rparr>)
     (fold (\<lambda>(k, now) x. snd (iteration demo_loop k now x)) [(4, 7), (4, 12)] (demo_engine\<lparr> en_db := demo_sdb \<rparr>))"
proof (rule bad_filter_stops_engine)
  show "bad_for demo_loop bad_sub demo_fired"
    by (simp add: bad_for_def bad_sub_def demo_loop_def timer_forward_def demo_fired_def new_event_def sub_filter_matches_def
        filter_matches_def entry_ok_def fire_payload_def demo_cron_def dget_def)
qed (simp_all add: demo_loop_def bad_sub_def timer_forward_def demo_sdb_def demo_fired_def new_event_def)

end
