(* ===== verification/Package_Capabilities.thy ===== *)
theory Package_Capabilities
  imports Arc_Outputs
begin

text \<open>
  Verbs that packages add to the platform (\<open>packages/capabilities.py\<close> and the loader of
  \<open>packages/loaders.py\<close>): the registry, the context a handler gets, and where its secrets come
  from.

  A handler is trusted code of a package, a function of its context and of the parameters. The
  process environment, the files and the configuration are functions from names to texts.
\<close>

section \<open>Secrets\<close>

record secret_env =
  se_environ :: "string \<Rightarrow> string option"
  se_files :: "string \<Rightarrow> string option"
  se_config :: "string \<Rightarrow> string option"
  se_base :: "string option"

definition letter :: "char \<Rightarrow> bool" where
  "letter c = (of_char c \<in> {65 .. 90 :: nat} \<or> of_char c \<in> {97 .. 122 :: nat})"

definition upper_letter :: "char \<Rightarrow> bool" where
  "upper_letter c = (of_char c \<in> {65 .. 90 :: nat})"

text \<open>The \<open>$\<close> of a pattern also matches before a final newline.\<close>

definition chomp :: "string \<Rightarrow> string" where
  "chomp s = (if s \<noteq> [] \<and> last s = CHR 0x0A then butlast s else s)"

definition secret_suffix :: "string \<Rightarrow> bool" where
  "secret_suffix s =
     (case chomp s of
        [] \<Rightarrow> False
      | c # cs \<Rightarrow> upper_letter c \<and> list_all (\<lambda>x. upper_letter x \<or> ascii_digit x \<or> x = CHR ''_'') cs)"

definition package_name_ok :: "string \<Rightarrow> bool" where
  "package_name_ok s =
     (case chomp s of
        [] \<Rightarrow> False
      | c # cs \<Rightarrow> (letter c \<or> ascii_digit c) \<and>
          list_all (\<lambda>x. letter x \<or> ascii_digit x \<or> x \<in> {CHR ''.'', CHR ''_'', CHR ''-''}) cs)"

definition package_env_path :: "secret_env \<Rightarrow> string \<Rightarrow> string option" where
  "package_env_path se p =
     (if \<not> package_name_ok p then None
      else case se_base se of
          None \<Rightarrow> None
        | Some b \<Rightarrow> if b = [] then None else Some (b @ ''/config/packages/'' @ p @ ''/.env''))"

definition line_break :: "char \<Rightarrow> bool" where
  "line_break c = (of_char c \<in> {10, 11, 12, 13, 28, 29, 30, 133 :: nat})"

text \<open>\<open>splitlines\<close>, with an empty line more between the two characters of a CR LF.\<close>

fun split_lines :: "string \<Rightarrow> string \<Rightarrow> string list" where
  "split_lines acc [] = [rev acc]"
| "split_lines acc (c # cs) = (if line_break c then rev acc # split_lines [] cs else split_lines (c # acc) cs)"

definition env_line :: "string \<Rightarrow> string \<Rightarrow> string option" where
  "env_line key l =
     (let t = strip l in
      if t = [] \<or> hd t = CHR ''#'' \<or> CHR ''='' \<notin> set t then None
      else if strip (takeWhile (\<lambda>c. c \<noteq> CHR ''='') t) = key
      then Some (strip (tl (dropWhile (\<lambda>c. c \<noteq> CHR ''='') t))) else None)"

fun first_value :: "string \<Rightarrow> string list \<Rightarrow> string option" where
  "first_value key [] = None"
| "first_value key (l # ls) = (case env_line key l of Some v \<Rightarrow> Some v | None \<Rightarrow> first_value key ls)"

definition read_package_env_value :: "secret_env \<Rightarrow> string \<Rightarrow> string \<Rightarrow> string option" where
  "read_package_env_value se p key =
     (case package_env_path se p of
        None \<Rightarrow> None
      | Some f \<Rightarrow> (case se_files se f of None \<Rightarrow> None | Some t \<Rightarrow> first_value key (split_lines [] t)))"

definition nonempty :: "string option \<Rightarrow> string option" where
  "nonempty v = (case v of Some (c # cs) \<Rightarrow> Some (c # cs) | _ \<Rightarrow> None)"

fun first_some :: "string option list \<Rightarrow> string option" where
  "first_some [] = None"
| "first_some (v # vs) = (case v of Some x \<Rightarrow> Some x | None \<Rightarrow> first_some vs)"

definition resolve_package_secret :: "secret_env \<Rightarrow> string \<Rightarrow> string \<Rightarrow> string option" where
  "resolve_package_secret se p key =
     first_some
       [nonempty (se_environ se key),
        if p = [] then None else nonempty (read_package_env_value se p key),
        nonempty (se_config se key), nonempty (se_config se (lower key))]"

section \<open>The registry\<close>

record egress_grant =
  eg_protocol :: string
  eg_host_from :: string
  eg_port :: int
  eg_credential :: string

record cap_context =
  cx_package :: string
  cx_verb :: string
  cx_kind :: string
  cx_protocol :: string
  cx_host :: string
  cx_port :: int
  cx_credential :: string

definition secret :: "secret_env \<Rightarrow> cap_context \<Rightarrow> string \<Rightarrow> exn + string" where
  "secret se cx ref =
     (if \<not> secret_suffix ref then Inl (OtherError ''CapabilityError'')
      else case resolve_package_secret se (cx_package cx) (cx_credential cx @ ''_'' @ ref) of
          None \<Rightarrow> Inl (OtherError ''CapabilityError'')
        | Some v \<Rightarrow> Inr v)"

record reg_verb =
  rv_package :: string
  rv_verb :: string
  rv_kind :: string
  rv_handler :: "jdict \<Rightarrow> cap_context \<Rightarrow> exn + json"
  rv_grant :: egress_grant
  rv_host :: string

record registry =
  rg_verbs :: "(string \<times> reg_verb) list"
  rg_packages :: "(string \<times> string list) list"

definition empty_registry :: registry where
  "empty_registry = \<lparr> rg_verbs = [], rg_packages = [] \<rparr>"

text \<open>The built-in tools, the keys of \<open>_DISPATCH\<close>.\<close>

definition DISPATCH :: "string list" where
  "DISPATCH =
      [''messaging.send'', ''messaging.ask'', ''state.get'', ''state.set'', ''state.delete'',
     ''state.list'', ''files.read'', ''files.write'', ''files.list'', ''arc.create'',
     ''arc.add_child'', ''arc.create_batch'', ''arc.invoke_coding_change'',
     ''arc.request_ai_review'', ''arc.get'', ''arc.get_children'', ''arc.get_history'',
     ''arc.cancel'', ''arc.update_status'', ''scheduling.add_cron'', ''scheduling.add_once'',
     ''scheduling.remove_cron'', ''scheduling.list_cron'', ''scheduling.enable_cron'',
     ''web.get'', ''web.post'', ''web.fetch_webpage'', ''web.fetch_webpage_to_resource'',
     ''git.setup_repo'', ''git.create_branch'', ''git.commit_and_push'', ''git.create_pr'',
     ''git.list_prs'', ''git.merge_pr'', ''git.close_pr'', ''git.get_pr'', ''git.get_pr_diff'',
     ''git.post_pr_review'', ''git.create_repo_webhook'', ''git.delete_repo_webhook'',
     ''config.reload'', ''config.set_value'', ''config.get_value'', ''config.list_keys'',
     ''config.models'', ''plugin.submit_task'', ''plugin.check_task'', ''plugin.check_health'',
     ''plugin.read_workspace_file'', ''plugin.list_plugins'', ''plugin.get_task_status'',
     ''arc.get_plan'', ''arc.get_children_plan'', ''review.submit_verdict'',
     ''resource.submit_verdict'', ''resource.finalize'', ''resource.write'', ''resource.create'',
     ''lm.call'', ''policy.validate'', ''webhook.subscribe'', ''webhook.list'',
     ''webhook.delete'', ''arc.grant_read_access'', ''conversation.rename'',
     ''conversation.archive'', ''conversation.archive_batch'', ''conversation.archive_all'',
     ''credentials.request'', ''credentials.verify'', ''credentials.import_file'',
     ''platform.request_restart'', ''kb.edit'', ''kb.add'', ''kb.delete'']"

definition capability_grant_for_package :: "string \<Rightarrow> string" where
  "capability_grant_for_package p = ''pkg.'' @ p"

definition cap_lookup :: "registry \<Rightarrow> string \<Rightarrow> reg_verb option" where
  "cap_lookup rg v = map_of (rg_verbs rg) v"

definition is_capability_verb :: "registry \<Rightarrow> string \<Rightarrow> bool" where
  "is_capability_verb rg v = (cap_lookup rg v \<noteq> None)"

definition package_for_verb :: "registry \<Rightarrow> string \<Rightarrow> string option" where
  "package_for_verb rg v = map_option rv_package (cap_lookup rg v)"

definition package_verbs :: "registry \<Rightarrow> string \<Rightarrow> string list" where
  "package_verbs rg p = or_default (map_of (rg_packages rg) p) []"

definition verbs_for_package :: "registry \<Rightarrow> string \<Rightarrow> string set" where
  "verbs_for_package rg p = set (package_verbs rg p)"

definition register_verb :: "reg_verb \<Rightarrow> registry \<Rightarrow> exn + registry" where
  "register_verb e rg =
     (let v = rv_verb e; p = rv_package e in
      if v \<in> set DISPATCH then Inl (OtherError ''CapabilityError'')
      else if (case cap_lookup rg v of Some x \<Rightarrow> rv_package x \<noteq> p | None \<Rightarrow> False)
      then Inl (OtherError ''CapabilityError'')
      else Inr \<lparr> rg_verbs = AList.update v e (rg_verbs rg),
                 rg_packages = (let vs = package_verbs rg p in
                   AList.update p (if v \<in> set vs then vs else vs @ [v]) (rg_packages rg)) \<rparr>)"

definition context_of :: "reg_verb \<Rightarrow> cap_context" where
  "context_of e =
     \<lparr> cx_package = rv_package e, cx_verb = rv_verb e, cx_kind = rv_kind e,
       cx_protocol = eg_protocol (rv_grant e), cx_host = rv_host e, cx_port = eg_port (rv_grant e),
       cx_credential = eg_credential (rv_grant e) \<rparr>"

definition context_for :: "registry \<Rightarrow> string \<Rightarrow> cap_context option" where
  "context_for rg v = map_option context_of (cap_lookup rg v)"

definition cap_dispatch :: "registry \<Rightarrow> string \<Rightarrow> jdict \<Rightarrow> exn + json" where
  "cap_dispatch rg v ps =
     (case cap_lookup rg v of
        None \<Rightarrow> Inl (OtherError ''CapabilityError'')
      | Some e \<Rightarrow> rv_handler e ps (context_of e))"

definition unregister_package :: "string \<Rightarrow> registry \<Rightarrow> registry" where
  "unregister_package p rg =
     \<lparr> rg_verbs = filter (\<lambda>(v, e). \<not> (v \<in> set (package_verbs rg p) \<and> rv_package e = p)) (rg_verbs rg),
       rg_packages = AList.delete p (rg_packages rg) \<rparr>"

section \<open>Loading the granted verbs of a package\<close>

record cap_decl =
  cd_verb :: string
  cd_kind :: string
  cd_module :: string
  cd_handler :: string
  cd_grant :: egress_grant

text \<open>\<open>imp\<close> imports a module of the package: an \<open>ImportError\<close> or the callables it defines.\<close>

type_synonym importer = "string \<Rightarrow> exn + (string \<Rightarrow> (jdict \<Rightarrow> cap_context \<Rightarrow> exn + json) option)"

definition verb_of :: "secret_env \<Rightarrow> importer \<Rightarrow> string \<Rightarrow> cap_decl \<Rightarrow> reg_verb option" where
  "verb_of se imp p c =
     (case nonempty (resolve_package_secret se p (eg_credential (cd_grant c) @ ''_'' @ eg_host_from (cd_grant c))) of
        None \<Rightarrow> None
      | Some h \<Rightarrow>
          (case imp (cd_module c) of
             Inl _ \<Rightarrow> None
           | Inr m \<Rightarrow>
               (case m (cd_handler c) of
                  None \<Rightarrow> None
                | Some f \<Rightarrow> Some \<lparr> rv_package = p, rv_verb = cd_verb c, rv_kind = cd_kind c, rv_handler = f,
                                   rv_grant = cd_grant c, rv_host = h \<rparr>)))"

text \<open>The numbers of registered verbs and of errors; an error does not stop the rest.\<close>

fun load_platform_capabilities ::
    "secret_env \<Rightarrow> importer \<Rightarrow> string \<Rightarrow> string set \<Rightarrow> cap_decl list \<Rightarrow> registry \<Rightarrow> (nat \<times> nat) \<times> registry" where
  "load_platform_capabilities se imp p granted [] rg = ((0, 0), rg)"
| "load_platform_capabilities se imp p granted (c # cs) rg =
     (let skip = load_platform_capabilities se imp p granted cs rg in
      if cd_verb c \<notin> granted then skip
      else case (case verb_of se imp p c of None \<Rightarrow> Inl (OtherError ''load'') | Some e \<Rightarrow> register_verb e rg) of
          Inl _ \<Rightarrow> (case skip of ((n, k), rg2) \<Rightarrow> ((n, Suc k), rg2))
        | Inr rg1 \<Rightarrow>
            (case load_platform_capabilities se imp p granted cs rg1 of ((n, k), rg2) \<Rightarrow> ((Suc n, k), rg2)))"

section \<open>Facts\<close>

text \<open>What the registry keeps: no verb shadows a tool, and the two tables agree.\<close>

definition wf_registry :: "registry \<Rightarrow> bool" where
  "wf_registry rg =
     ((\<forall>v e. cap_lookup rg v = Some e \<longrightarrow> v \<notin> set DISPATCH \<and> rv_verb e = v) \<and>
      (\<forall>p v. v \<in> verbs_for_package rg p \<longleftrightarrow> package_for_verb rg v = Some p) \<and>
      distinct (map fst (rg_verbs rg)) \<and> distinct (map fst (rg_packages rg)))"

lemma wf_registry_empty: "wf_registry empty_registry"
  by (simp add: wf_registry_def empty_registry_def cap_lookup_def verbs_for_package_def package_verbs_def
      package_for_verb_def or_default_def)

lemma lookup_register:
  assumes "register_verb e rg = Inr rg'"
  shows "cap_lookup rg' v = (if v = rv_verb e then Some e else cap_lookup rg v)"
  using assms by (auto simp: register_verb_def cap_lookup_def Let_def update_conv' split: if_splits)

lemma verbs_register:
  assumes "register_verb e rg = Inr rg'"
  shows "verbs_for_package rg' p = verbs_for_package rg p \<union> (if p = rv_package e then {rv_verb e} else {})"
  using assms by (auto simp: register_verb_def verbs_for_package_def package_verbs_def or_default_def Let_def
      update_conv' split: if_splits option.splits)

lemma wf_register:
  assumes "register_verb e rg = Inr rg'" "wf_registry rg"
  shows "wf_registry rg'"
proof -
  have new: "rv_verb e \<notin> set DISPATCH" "\<And>x. cap_lookup rg (rv_verb e) = Some x \<Longrightarrow> rv_package x = rv_package e"
    using assms(1) by (auto simp: register_verb_def Let_def split: if_splits option.splits)
  have old: "\<And>p v. v \<in> verbs_for_package rg p \<longleftrightarrow> package_for_verb rg v = Some p"
    using assms(2) by (simp add: wf_registry_def)
  have "v \<in> verbs_for_package rg' p \<longleftrightarrow> package_for_verb rg' v = Some p" for p v
  proof (cases "v = rv_verb e")
    case True
    then have "v \<in> verbs_for_package rg p \<Longrightarrow> rv_package e = p"
      using old [of v p] new(2) by (metis (no_types, lifting) map_option_eq_Some package_for_verb_def)
    then show ?thesis unfolding True by (auto simp: verbs_register [OF assms(1)] package_for_verb_def lookup_register [OF assms(1)])
  next
    case False
    then show ?thesis using old [of v p]
      by (simp add: verbs_register [OF assms(1)] package_for_verb_def lookup_register [OF assms(1)])
  qed
  moreover have "distinct (map fst (rg_verbs rg')) \<and> distinct (map fst (rg_packages rg'))"
    using assms by (auto simp: register_verb_def wf_registry_def Let_def distinct_update split: if_splits)
  ultimately show ?thesis
    using assms(2) new(1) by (auto simp: wf_registry_def lookup_register [OF assms(1)])
qed

lemma lookup_unregister:
  assumes "wf_registry rg"
  shows "cap_lookup (unregister_package p rg) v =
    (if package_for_verb rg v = Some p then None else cap_lookup rg v)"
proof -
  have dist: "distinct (map fst (rg_verbs rg))" and
    agree: "v \<in> set (package_verbs rg p) \<longleftrightarrow> package_for_verb rg v = Some p"
    using assms by (auto simp: wf_registry_def verbs_for_package_def)
  have "map_of (filter (\<lambda>(v, e). \<not> (v \<in> set (package_verbs rg p) \<and> rv_package e = p)) xs) v =
      (case map_of xs v of Some e \<Rightarrow> if v \<in> set (package_verbs rg p) \<and> rv_package e = p then None else Some e | None \<Rightarrow> None)"
    if "distinct (map fst xs)" for xs
    using that
  proof (induction xs)
    case (Cons x xs)
    have "fst x \<notin> fst ` set xs" using Cons.prems by simp
    then have "map_of (filter (\<lambda>(v, e). \<not> (v \<in> set (package_verbs rg p) \<and> rv_package e = p)) xs) (fst x) = None"
      by (auto simp: map_of_eq_None_iff)
    then show ?case using Cons by (cases x) auto
  qed simp
  from this [OF dist] show ?thesis using agree
    by (auto simp: unregister_package_def cap_lookup_def package_for_verb_def split: option.splits)
qed

lemma wf_unregister: "wf_registry rg \<Longrightarrow> wf_registry (unregister_package p rg)"
proof -
  assume wf: "wf_registry rg"
  have other: "verbs_for_package (unregister_package p rg) q = (if q = p then {} else verbs_for_package rg q)" for q
    by (auto simp: verbs_for_package_def package_verbs_def unregister_package_def or_default_def delete_conv')
  have "v \<in> verbs_for_package (unregister_package p rg) q \<longleftrightarrow>
      package_for_verb (unregister_package p rg) v = Some q" for q v
    using wf by (auto simp: other package_for_verb_def lookup_unregister wf_registry_def)
  moreover have "distinct (map fst (filter P xs))" if "distinct (map fst xs)" for P and xs :: "(string \<times> reg_verb) list"
    using that by (simp add: distinct_map_filter)
  ultimately show ?thesis using wf
    by (auto simp: wf_registry_def lookup_unregister [OF wf] distinct_delete) (auto simp: unregister_package_def distinct_delete)
qed

text \<open>A declaration is skipped, counted as an error, or registered.\<close>

lemma load_cases:
  assumes "load_platform_capabilities se imp p granted (c # cs) rg = (n, rg')"
  obtains m where "load_platform_capabilities se imp p granted cs rg = (m, rg')"
  | m e rg1 where "cd_verb c \<in> granted" "verb_of se imp p c = Some e" "register_verb e rg = Inr rg1"
      "load_platform_capabilities se imp p granted cs rg1 = (m, rg')"
  using assms by (auto simp: Let_def split: if_splits sum.splits option.splits prod.splits)

lemma wf_load:
  "load_platform_capabilities se imp p granted cs rg = (n, rg') \<Longrightarrow> wf_registry rg \<Longrightarrow> wf_registry rg'"
proof (induction cs arbitrary: rg n)
  case (Cons c cs)
  from Cons.prems(1) show ?case
    by (rule load_cases) (use Cons.IH Cons.prems(2) wf_register in blast)+
qed simp

lemma verb_of_fields: "verb_of se imp p c = Some e \<Longrightarrow> rv_verb e = cd_verb c \<and> rv_package e = p"
  by (auto simp: verb_of_def split: option.splits sum.splits)

text \<open>Only granted verbs are added, all of them under the name of the package.\<close>

lemma load_granted:
  "load_platform_capabilities se imp p granted cs rg = (n, rg') \<Longrightarrow> cap_lookup rg' v = Some e \<Longrightarrow>
     cap_lookup rg v = Some e \<or> v \<in> granted \<and> rv_package e = p \<and> v \<in> cd_verb ` set cs"
proof (induction cs arbitrary: rg n)
  case (Cons c cs)
  from Cons.prems(1) show ?case
  proof (rule load_cases)
    fix m e1 rg1
    assume r: "cd_verb c \<in> granted" "verb_of se imp p c = Some e1" "register_verb e1 rg = Inr rg1"
      "load_platform_capabilities se imp p granted cs rg1 = (m, rg')"
    from Cons.IH [OF r(4) Cons.prems(2)] show ?case
      using r(1) verb_of_fields [OF r(2)] by (auto simp: lookup_register [OF r(3)] split: if_splits)
  qed (use Cons.IH Cons.prems(2) in auto)
qed simp

end
