(* ===== verification/Tool_Dispatch.thy ===== *)
theory Tool_Dispatch
  imports Package_Capabilities Read_Gate Arc_Batch
begin

text \<open>
  What the code of an arc may do: the bridge from executed code to the tools
  (\<open>executor/dispatch_bridge.py\<close> with the tables and look-ups of \<open>api/callbacks.py\<close>) and the
  state tools behind it (\<open>tool_backends/state.py\<close>).

  Parameters of a call are a dict of JSON values, chosen by the code. \<open>sql_id\<close> is the row id a
  value is compared with in SQL, \<open>eq_int\<close> the integer it equals in Python. The tools other than
  those of the state are a parameter, as are encryption, the number SQLite reads in a text, and
  the arc and conversation of the running chat tool.
\<close>

section \<open>State and settings\<close>

record session =
  sn_id :: string
  sn_reviewed :: bool
  sn_conv :: "int option"
  sn_context :: "string option"
  sn_expires :: time

record bridge =
  br_gate :: gate
  br_sessions :: "session list"
  br_keys :: "(int \<times> int) list"

datatype dexn = DispatchError int | Raised exn

type_synonym 'a bact = "(dexn + 'a) \<times> bridge"

record benv =
  be_lists :: "(string \<times> string list) list"
  be_caps :: "(string \<times> cap_config) list"
  be_registry :: registry
  be_depth :: nat
  be_fmt :: "json \<Rightarrow> string"
  be_repr :: "json \<Rightarrow> string"
  be_number :: "string \<Rightarrow> int option"
  be_encrypt :: "int \<Rightarrow> string \<Rightarrow> exn + string"
  be_enforce :: bool
  be_tools :: "string \<Rightarrow> jdict \<Rightarrow> bridge \<Rightarrow> (exn + json) \<times> bridge"
  be_arc :: "int option"
  be_conv :: "int option"

definition bbind :: "'a bact \<Rightarrow> ('a \<Rightarrow> bridge \<Rightarrow> 'b bact) \<Rightarrow> 'b bact" where
  "bbind m f = (case m of (Inl e, b) \<Rightarrow> (Inl e, b) | (Inr x, b) \<Rightarrow> f x b)"

lemma bbind_simps [simp]: "bbind (Inl e, b) f = (Inl e, b)" "bbind (Inr x, b) f = f x b"
  by (simp_all add: bbind_def)

lemma bbind_Inr: "bbind m f = (Inr y, b') \<longleftrightarrow> (\<exists>x b1. m = (Inr x, b1) \<and> f x b1 = (Inr y, b'))"
  by (cases m; cases "fst m") (auto simp: bbind_def)

definition bdb :: "bridge \<Rightarrow> db" where
  "bdb b = gdb (br_gate b)"

definition set_bdb :: "db \<Rightarrow> bridge \<Rightarrow> bridge" where
  "set_bdb d b = b\<lparr> br_gate := (br_gate b)\<lparr> gdb := d \<rparr> \<rparr>"

lemma bdb_set [simp]: "bdb (set_bdb d b) = d" "br_sessions (set_bdb d b) = br_sessions b"
  "br_keys (set_bdb d b) = br_keys b" "taints (br_gate (set_bdb d b)) = taints (br_gate b)"
  "convs (br_gate (set_bdb d b)) = convs (br_gate b)"
  by (simp_all add: bdb_def set_bdb_def)

section \<open>Values as arguments\<close>

text \<open>A list or a dict cannot be bound to a parameter of a statement.\<close>

fun sql_id :: "(string \<Rightarrow> int option) \<Rightarrow> json \<Rightarrow> exn + int option" where
  "sql_id rd JNull = Inr None"
| "sql_id rd (JBool b) = Inr (Some (if b then 1 else 0))"
| "sql_id rd (JInt i) = Inr (Some i)"
| "sql_id rd (JNum r) = Inr (if r = of_int \<lfloor>r\<rfloor> then Some \<lfloor>r\<rfloor> else None)"
| "sql_id rd (JStr s) = Inr (rd s)"
| "sql_id rd _ = Inl (OtherError ''ProgrammingError'')"

fun sql_key :: "(json \<Rightarrow> string) \<Rightarrow> json \<Rightarrow> exn + string option" where
  "sql_key f JNull = Inr None"
| "sql_key f (JBool b) = Inr (Some (if b then ''1'' else ''0''))"
| "sql_key f (JInt i) = Inr (Some (show_int i))"
| "sql_key f (JNum r) = Inr (Some (f (JNum r)))"
| "sql_key f (JStr s) = Inr (Some s)"
| "sql_key f _ = Inl (OtherError ''ProgrammingError'')"

fun eq_int :: "json \<Rightarrow> int option" where
  "eq_int (JBool b) = Some (if b then 1 else 0)"
| "eq_int (JInt i) = Some i"
| "eq_int (JNum r) = (if r = of_int \<lfloor>r\<rfloor> then Some \<lfloor>r\<rfloor> else None)"
| "eq_int _ = None"

text \<open>Iteration over a value: the characters of a text, the keys of a dict.\<close>

fun items_of :: "json \<Rightarrow> exn + json list" where
  "items_of (JList xs) = Inr xs"
| "items_of (JStr s) = Inr (map (\<lambda>c. JStr [c]) s)"
| "items_of (JObj d) = Inr (map (\<lambda>(k, _). JStr k) d)"
| "items_of _ = Inl (TypeError ''not iterable'')"

section \<open>Lists of tools\<close>

definition DEFAULT_SESSION_EXEMPT_TOOLS :: "string set" where
  "DEFAULT_SESSION_EXEMPT_TOOLS =
     {''messaging.ask'', ''state.get'', ''state.list'', ''files.read'', ''files.list'', ''arc.get'',
      ''arc.get_children'', ''arc.get_history'', ''arc.get_plan'', ''arc.get_children_plan'',
      ''config.get_value'', ''config.list_keys'', ''config.models'', ''plugin.check_task'',
      ''plugin.check_health'', ''plugin.read_workspace_file'', ''plugin.list_plugins'',
      ''plugin.get_task_status'', ''policy.validate'', ''git.get_pr'', ''git.get_pr_diff'', ''webhook.list''}"

definition DEFAULT_EXTERNAL_ACCESS_TOOLS :: "string set" where
  "DEFAULT_EXTERNAL_ACCESS_TOOLS =
     {''web.get'', ''web.post'', ''web.fetch_webpage'', ''web.fetch_webpage_to_resource''}"

definition DEFAULT_MESSAGING_TOOLS :: "string set" where
  "DEFAULT_MESSAGING_TOOLS = {''messaging.send'', ''messaging.ask''}"

definition apply_overrides :: "(string \<times> string list) list \<Rightarrow> string set \<Rightarrow> string \<Rightarrow> string \<Rightarrow> string set" where
  "apply_overrides cfg base add rem =
     (base \<union> set (or_default (map_of cfg add) [])) - set (or_default (map_of cfg rem) [])"

definition session_exempt_tools :: "(string \<times> string list) list \<Rightarrow> string set" where
  "session_exempt_tools cfg =
     apply_overrides cfg DEFAULT_SESSION_EXEMPT_TOOLS ''session_exempt_tools_add'' ''session_exempt_tools_remove''"

definition external_access_tools :: "(string \<times> string list) list \<Rightarrow> string set" where
  "external_access_tools cfg =
     apply_overrides cfg DEFAULT_EXTERNAL_ACCESS_TOOLS ''external_access_tools_add'' ''external_access_tools_remove''"

definition messaging_tools :: "(string \<times> string list) list \<Rightarrow> string set" where
  "messaging_tools cfg =
     apply_overrides cfg DEFAULT_MESSAGING_TOOLS ''messaging_tools_add'' ''messaging_tools_remove''"

definition validate_tool_classification :: "(string \<times> string list) list \<Rightarrow> exn + unit" where
  "validate_tool_classification cfg =
     (if session_exempt_tools cfg \<subseteq> set DISPATCH then Inr () else Inl (RuntimeError ''stale''))"

section \<open>The session and the caller\<close>

definition find_session :: "string option \<Rightarrow> bridge \<Rightarrow> session option" where
  "find_session s b =
     (case s of None \<Rightarrow> None | Some i \<Rightarrow> if i = [] then None else List.find (\<lambda>r. sn_id r = i) (br_sessions b))"

definition validate_execution_session :: "time \<Rightarrow> string option \<Rightarrow> bridge \<Rightarrow> bool" where
  "validate_execution_session now s b =
     (case find_session s b of None \<Rightarrow> False | Some r \<Rightarrow> now < sn_expires r \<and> sn_reviewed r)"

definition session_conversation :: "string option \<Rightarrow> bridge \<Rightarrow> int option" where
  "session_conversation s b =
     (case find_session s b of
        None \<Rightarrow> None
      | Some r \<Rightarrow> (case sn_conv r of Some c \<Rightarrow> if c = 0 then None else Some c | None \<Rightarrow> None))"

definition session_tainted :: "string option \<Rightarrow> bridge \<Rightarrow> bool" where
  "session_tainted s b =
     (case session_conversation s b of None \<Rightarrow> False | Some c \<Rightarrow> c \<in> set (taints (br_gate b)))"

definition session_context :: "string option \<Rightarrow> bridge \<Rightarrow> string option" where
  "session_context s b =
     (case find_session s b of
        None \<Rightarrow> None
      | Some r \<Rightarrow> Some (case sn_context r of Some c \<Rightarrow> if c = [] then ''reviewed'' else c | None \<Rightarrow> ''reviewed''))"

text \<open>The platform overwrites or removes the claimed caller before anything reads it.\<close>

definition inject :: "int option \<Rightarrow> int option \<Rightarrow> jdict \<Rightarrow> jdict" where
  "inject conv a ps =
     (let p1 = (case conv of
                  Some c \<Rightarrow> if map_of ps ''conversation_id'' = None
                             then AList.update ''conversation_id'' (JInt c) ps else ps
                | None \<Rightarrow> ps) in
      case a of
        Some i \<Rightarrow>
          let p2 = AList.update ''_caller_arc_id'' (JInt i) p1 in
          if map_of p2 ''arc_id'' = None then AList.update ''arc_id'' (JInt i) p2 else p2
      | None \<Rightarrow> AList.delete ''_caller_arc_id'' p1)"

definition caller_of :: "jdict \<Rightarrow> int option" where
  "caller_of ps = (case map_of ps ''_caller_arc_id'' of Some (JInt i) \<Rightarrow> Some i | _ \<Rightarrow> None)"

definition caller_context :: "jdict \<Rightarrow> bridge \<Rightarrow> arc option" where
  "caller_context ps b = (case caller_of ps of None \<Rightarrow> None | Some i \<Rightarrow> find_arc i (bdb b))"

section \<open>Refusals\<close>

text \<open>A refusal is recorded and then raised; the caller, else the parameter \<open>arc_id\<close>, is its arc.\<close>

definition refused_arc :: "jdict \<Rightarrow> json" where
  "refused_arc ps = (if jtruthy (dget ps ''_caller_arc_id'') then dget ps ''_caller_arc_id'' else dget ps ''arc_id'')"

definition refuse :: "benv \<Rightarrow> time \<Rightarrow> json \<Rightarrow> jdict \<Rightarrow> bridge \<Rightarrow> 'a bact" where
  "refuse env now a details b =
     (case sql_id (be_number env) a of
        Inl e \<Rightarrow> (Inl (Raised e), b)
      | Inr i \<Rightarrow> (Inl (DispatchError 403), set_bdb (snd (log_trust_event now i ''access_denied'' (Some details) (bdb b))) b))"

section \<open>The checks\<close>

definition arc_caps :: "int \<Rightarrow> bridge \<Rightarrow> json set" where
  "arc_caps i b = get_arc_capabilities (state_cell i ''_capabilities'' (bdb b))"

definition check_capability :: "benv \<Rightarrow> time \<Rightarrow> string \<Rightarrow> jdict \<Rightarrow> bridge \<Rightarrow> unit bact" where
  "check_capability env now name ps b =
     (if name \<in> set DISPATCH then (Inr (), b)
      else case caller_of ps of
          None \<Rightarrow> (Inl (DispatchError 403), b)
        | Some i \<Rightarrow>
            (case package_for_verb (be_registry env) name of
               None \<Rightarrow> (Inl (DispatchError 404), b)
             | Some p \<Rightarrow>
                 if JStr (capability_grant_for_package p) \<in> arc_caps i b then (Inr (), b)
                 else refuse env now (JInt i) [(''tool'', JStr name), (''reason'', JStr ''missing grant'')] b))"

definition check_session :: "benv \<Rightarrow> time \<Rightarrow> string \<Rightarrow> string option \<Rightarrow> bridge \<Rightarrow> unit bact" where
  "check_session env now name s b =
     (if name \<in> session_exempt_tools (be_lists env) \<or> validate_execution_session now s b then (Inr (), b)
      else (Inl (DispatchError 403), b))"

definition check_messaging :: "benv \<Rightarrow> time \<Rightarrow> string \<Rightarrow> string option \<Rightarrow> jdict \<Rightarrow> bridge \<Rightarrow> unit bact" where
  "check_messaging env now name s ps b =
     (if name \<in> messaging_tools (be_lists env) \<and> session_context s b = Some ''arc-step''
      then refuse env now (refused_arc ps)
             [(''tool'', JStr name), (''reason'', JStr ''arc executor cannot use messaging tools''),
              (''execution_context'', JStr ''arc-step'')] b
      else (Inr (), b))"

definition check_agent :: "benv \<Rightarrow> time \<Rightarrow> string \<Rightarrow> jdict \<Rightarrow> bridge \<Rightarrow> unit bact" where
  "check_agent env now name ps b =
     (case caller_context ps b of
        None \<Rightarrow> (Inr (), b)
      | Some a \<Rightarrow>
          (case allowed_tools (get_agent_capabilities (be_caps env) (aagent a)) of
             None \<Rightarrow> (Inr (), b)
           | Some ts \<Rightarrow>
               if name \<in> ts then (Inr (), b)
               else case resolve_capability_tools (verbs_for_package (be_registry env))
                      (if aid a = 0 then {} else arc_caps (aid a) b) of
                   Inl e \<Rightarrow> (Inl (Raised e), b)
                 | Inr granted \<Rightarrow>
                     if name \<in> granted then (Inr (), b)
                     else refuse env now (refused_arc ps) [(''tool'', JStr name), (''reason'', JStr ''restricted'')] b))"

definition check_external :: "benv \<Rightarrow> time \<Rightarrow> string \<Rightarrow> jdict \<Rightarrow> bridge \<Rightarrow> unit bact" where
  "check_external env now name ps b =
     (if name \<notin> external_access_tools (be_lists env) then (Inr (), b)
      else case caller_context ps b of
          None \<Rightarrow> (Inl (DispatchError 403), b)
        | Some a \<Rightarrow>
            if ainteg a = UNTRUSTED then (Inr (), b)
            else refuse env now (refused_arc ps)
                   [(''tool'', JStr name), (''reason'', JStr ''external access requires untrusted arc'')] b)"

definition check_single_arc :: "benv \<Rightarrow> time \<Rightarrow> string \<Rightarrow> string option \<Rightarrow> jdict \<Rightarrow> bridge \<Rightarrow> unit bact" where
  "check_single_arc env now name s ps b =
     (if (name = ''arc.create'' \<or> name = ''arc.add_child'') \<and> session_tainted s b
      then refuse env now (refused_arc ps)
             [(''tool'', JStr name), (''reason'', JStr ''tainted conversation requires arc.create_batch'')] b
      else (Inr (), b))"

fun demote_one :: "json \<Rightarrow> exn + json" where
  "demote_one (JObj d) =
     (let ag = or_default (map_of d ''agent_type'') (JStr ''EXECUTOR'') in
      if ag = JStr ''REVIEWER'' \<or> ag = JStr ''JUDGE'' then Inr (JObj d)
      else if or_default (map_of d ''integrity_level'') (JStr ''trusted'') = JStr ''trusted''
      then Inr (JObj (AList.update ''integrity_level'' (JStr ''untrusted'') d)) else Inr (JObj d))"
| "demote_one _ = Inl (AttributeError ''get'')"

fun demote_all :: "json list \<Rightarrow> exn + json list" where
  "demote_all [] = Inr []"
| "demote_all (x # xs) = xbind (demote_one x) (\<lambda>y. xbind (demote_all xs) (\<lambda>ys. Inr (y # ys)))"

definition demote_batch :: "string \<Rightarrow> string option \<Rightarrow> jdict \<Rightarrow> bridge \<Rightarrow> jdict bact" where
  "demote_batch name s ps b =
     (if name = ''arc.create_batch'' \<and> session_tainted s b
      then let v = or_default (map_of ps ''arcs'') (JList []) in
        case xbind (items_of v) demote_all of
          Inl e \<Rightarrow> (Inl (Raised e), b)
        | Inr ys \<Rightarrow> (Inr (if ys = [] then ps else AList.update ''arcs'' (JList ys) ps), b)
      else (Inr ps, b))"

text \<open>Reading the state of another arc: both ids come from the parameters of the call.\<close>

definition may_cross :: "benv \<Rightarrow> json \<Rightarrow> json \<Rightarrow> int option \<Rightarrow> int option \<Rightarrow> bridge \<Rightarrow> bool" where
  "may_cross env t c ti ci b =
     ((case (ti, eq_int c) of (Some i, Some j) \<Rightarrow> is_descendant_of (be_depth env) i j (bdb b) | _ \<Rightarrow> False) \<or>
      (case (ci, ti) of (Some j, Some i) \<Rightarrow> has_read_grant j i (bdb b) | _ \<Rightarrow> False) \<or>
      (case ci of Some j \<Rightarrow> JStr ''system.read'' \<in> arc_caps j b | None \<Rightarrow> False))"

definition check_target :: "benv \<Rightarrow> time \<Rightarrow> string \<Rightarrow> jdict \<Rightarrow> bridge \<Rightarrow> jdict bact" where
  "check_target env now name ps b =
     (case map_of ps ''_target_arc_id'' of
        None \<Rightarrow> (Inr ps, b)
      | Some t \<Rightarrow>
          if name \<noteq> ''state.get'' then (Inr ps, b)
          else let c = dget ps ''arc_id'' in
            if c = JNull then (Inl (DispatchError 403), b)
            else case (sql_id (be_number env) t, sql_id (be_number env) c) of
                (Inl e, _) \<Rightarrow> (Inl (Raised e), b)
              | (_, Inl e) \<Rightarrow> (Inl (Raised e), b)
              | (Inr ti, Inr ci) \<Rightarrow>
                  if \<not> may_cross env t c ti ci b
                  then refuse env now c [(''tool'', JStr ''state.get''), (''reason'', JStr ''not a descendant''),
                         (''target_arc_id'', t)] b
                  else case (case ti of None \<Rightarrow> None | Some i \<Rightarrow> find_arc i (bdb b)) of
                      None \<Rightarrow> (Inl (DispatchError 404), b)
                    | Some a \<Rightarrow>
                        if ainteg a \<noteq> TRUSTED
                        then refuse env now c [(''tool'', JStr ''state.get''), (''reason'', JStr ''target arc is not trusted''),
                               (''target_arc_id'', t)] b
                        else (Inr (AList.delete ''_target_arc_id'' (AList.update ''arc_id'' t ps)), b))"

definition add_conversation :: "string \<Rightarrow> string option \<Rightarrow> jdict \<Rightarrow> bridge \<Rightarrow> jdict" where
  "add_conversation name s ps b =
     (if name \<in> {''arc.invoke_coding_change'', ''scheduling.add_cron'', ''scheduling.add_once'', ''kb.add'', ''kb.edit''}
         \<and> map_of ps ''conversation_id'' = None
      then (case session_conversation s b of
              None \<Rightarrow> ps
            | Some c \<Rightarrow> AList.update ''conversation_id'' (JInt c) ps)
      else ps)"

section \<open>The state tools\<close>

text \<open>The row of a cell; a missing parameter \<open>key\<close> is a \<open>KeyError\<close>.\<close>

definition cell_args :: "benv \<Rightarrow> jdict \<Rightarrow> exn + (string option \<times> int option)" where
  "cell_args env ps =
     (case map_of ps ''key'' of
        None \<Rightarrow> Inl (KeyError ''key'')
      | Some k \<Rightarrow>
          xbind (sql_key (be_fmt env) k) (\<lambda>ks.
          xbind (sql_id (be_number env) (dget ps ''arc_id'')) (\<lambda>i. Inr (ks, i))))"

definition json_label :: "benv \<Rightarrow> json \<Rightarrow> json \<Rightarrow> gate \<Rightarrow> label" where
  "json_label env a v g =
     (if a = JNull \<or> eq_int a = Some 0 then state_label (Some 0) v g
      else arc_label (case sql_id (be_number env) a of Inr i \<Rightarrow> i | Inl _ \<Rightarrow> None) g)"

definition gate_state_read :: "benv \<Rightarrow> time \<Rightarrow> jdict \<Rightarrow> string \<Rightarrow> json \<Rightarrow> bridge \<Rightarrow> (exn + unit) \<times> bridge" where
  "gate_state_read env now ps what v b =
     (let a = dget ps ''arc_id'';
          rd = (case caller_of ps of Some i \<Rightarrow> Some i | None \<Rightarrow> be_arc env) in
      if rd \<noteq> None \<and> eq_int a = rd then (Inr (), b)
      else let l = json_label env a v (br_gate b) in
        if ltrusted l then (Inr (), b)
        else case check now (reader_for (be_conv env) rd (br_gate b)) what (Some l) (br_gate b) of
            (None, g) \<Rightarrow> (Inr (), b\<lparr> br_gate := g \<rparr>)
          | (Some _, g) \<Rightarrow> (Inl (OtherError ''DispatchError''), b\<lparr> br_gate := g \<rparr>))"

definition is_encrypted :: "jtext \<Rightarrow> bool" where
  "is_encrypted t =
     (case t of
        Parsed (JStr s) \<Rightarrow> starts_with s encrypted_marker
      | Parsed _ \<Rightarrow> False
      | Malformed m \<Rightarrow> starts_with m (CHR 0x22 # encrypted_marker))"

definition state_item :: "benv \<Rightarrow> jdict \<Rightarrow> string" where
  "state_item env ps =
     ''State '' @ be_repr env (dget ps ''key'') @ '' of arc #'' @
       (case dget ps ''arc_id'' of JStr s \<Rightarrow> s | a \<Rightarrow> be_repr env a)"

definition handle_get :: "benv \<Rightarrow> time \<Rightarrow> jdict \<Rightarrow> bridge \<Rightarrow> (exn + json) \<times> bridge" where
  "handle_get env now ps b =
     (case cell_args env ps of
        Inl e \<Rightarrow> (Inl e, b)
      | Inr (k, i) \<Rightarrow>
          (case (case (k, i) of (Some s, Some j) \<Rightarrow> state_cell j s (bdb b) | _ \<Rightarrow> None) of
             None \<Rightarrow> (Inr (JObj [(''value'', dget ps ''default'')]), b)
           | Some t \<Rightarrow>
               if is_encrypted t
               then (Inr (JObj [(''value'', JStr (encrypted_marker @ ''(encrypted)'')), (''encrypted'', JBool True)]), b)
               else (case t of
                       Malformed _ \<Rightarrow> (Inl (ValueError ''JSON''), b)
                     | Parsed v \<Rightarrow>
                         (case gate_state_read env now ps (state_item env ps) v b of
                            (Inl e, b1) \<Rightarrow> (Inl e, b1)
                          | (Inr _, b1) \<Rightarrow> (Inr (JObj [(''value'', v)]), b1)))))"

definition arc_non_trusted :: "int option \<Rightarrow> db \<Rightarrow> bool" where
  "arc_non_trusted i d =
     (case i of None \<Rightarrow> False | Some j \<Rightarrow> (case find_arc j d of None \<Rightarrow> False | Some a \<Rightarrow> ainteg a \<noteq> TRUSTED))"

text \<open>\<open>except ImportError\<close> and \<open>except (TypeError, ValueError, RuntimeError)\<close>.\<close>

definition encryption_failed :: "exn \<Rightarrow> bool" where
  "encryption_failed e =
     (case e of TypeError _ \<Rightarrow> True | ValueError _ \<Rightarrow> True | RuntimeError _ \<Rightarrow> True | RecursionError \<Rightarrow> True
      | OtherError s \<Rightarrow> s = ''ImportError'' | _ \<Rightarrow> False)"

definition stored_value :: "benv \<Rightarrow> int option \<Rightarrow> json \<Rightarrow> bridge \<Rightarrow> exn + json" where
  "stored_value env i v b =
     (if \<not> arc_non_trusted i (bdb b) then Inr v
      else if \<not> list_ex (\<lambda>(t, _). Some t = i) (br_keys b)
      then if be_enforce env then Inl (RuntimeError ''no encryption key found'') else Inr v
      else case be_encrypt env (the i) (be_fmt env v) of
          Inr c \<Rightarrow> Inr (JStr (encrypted_marker @ c))
        | Inl e \<Rightarrow>
            if \<not> encryption_failed e then Inl e
            else if be_enforce env then Inl (RuntimeError ''Cannot store state'') else Inr v)"

definition handle_set :: "benv \<Rightarrow> time \<Rightarrow> jdict \<Rightarrow> bridge \<Rightarrow> (exn + json) \<times> bridge" where
  "handle_set env now ps b =
     (case map_of ps ''key'' of
        None \<Rightarrow> (Inl (KeyError ''key''), b)
      | Some k \<Rightarrow>
          (case map_of ps ''value'' of
             None \<Rightarrow> (Inl (KeyError ''value''), b)
           | Some v \<Rightarrow>
               (case sql_id (be_number env) (dget ps ''arc_id'') of
                  Inl e \<Rightarrow> (Inl e, b)
                | Inr i \<Rightarrow>
                    (case stored_value env i v b of
                       Inl e \<Rightarrow> (Inl e, b)
                     | Inr w \<Rightarrow>
                         (case (sql_key (be_fmt env) k, i) of
                            (Inl e, _) \<Rightarrow> (Inl e, b)
                          | (Inr (Some s), Some j) \<Rightarrow>
                              if arc_exists j (bdb b)
                              then (Inr (JObj [(''success'', JBool True)]), set_bdb (put_state now j s (Parsed w) (bdb b)) b)
                              else (Inl (IntegrityError ''FOREIGN KEY''), b)
                          | _ \<Rightarrow> (Inl (IntegrityError ''NOT NULL''), b))))))"

definition handle_delete :: "benv \<Rightarrow> jdict \<Rightarrow> bridge \<Rightarrow> (exn + json) \<times> bridge" where
  "handle_delete env ps b =
     (case cell_args env ps of
        Inl e \<Rightarrow> (Inl e, b)
      | Inr (k, i) \<Rightarrow>
          (Inr (JObj [(''success'', JBool True)]),
           set_bdb ((bdb b)\<lparr> state := del_where (\<lambda>r. Some (s_arc r) = i \<and> Some (s_key r) = k) (state (bdb b)) \<rparr>) b))"

definition handle_list :: "benv \<Rightarrow> jdict \<Rightarrow> bridge \<Rightarrow> (exn + json) \<times> bridge" where
  "handle_list env ps b =
     (case sql_id (be_number env) (dget ps ''arc_id'') of
        Inl e \<Rightarrow> (Inl e, b)
      | Inr i \<Rightarrow> (Inr (JObj [(''keys'', JList (map (\<lambda>r. JStr (s_key r))
                    (filter (\<lambda>r. Some (s_arc r) = i) (state (bdb b)))))]), b))"

section \<open>The bridge\<close>

definition run_tool :: "benv \<Rightarrow> time \<Rightarrow> string \<Rightarrow> jdict \<Rightarrow> bridge \<Rightarrow> (exn + json) \<times> bridge" where
  "run_tool env now name ps b =
     (if name = ''state.get'' then handle_get env now ps b
      else if name = ''state.set'' then handle_set env now ps b
      else if name = ''state.delete'' then handle_delete env ps b
      else if name = ''state.list'' then handle_list env ps b
      else if name \<in> set DISPATCH then be_tools env name ps b
      else (cap_dispatch (be_registry env) name ps, b))"

text \<open>The handler of the bridge turns every exception of a tool into an error 500.\<close>

definition call_tool :: "benv \<Rightarrow> time \<Rightarrow> string \<Rightarrow> jdict \<Rightarrow> bridge \<Rightarrow> json bact" where
  "call_tool env now name ps b =
     (case run_tool env now name ps b of (Inl _, b1) \<Rightarrow> (Inl (DispatchError 500), b1) | (Inr v, b1) \<Rightarrow> (Inr v, b1))"

definition link_to_session :: "benv \<Rightarrow> string option \<Rightarrow> json \<Rightarrow> bridge \<Rightarrow> bridge" where
  "link_to_session env s v b =
     (case (session_conversation s b, sql_id (be_number env) v) of
        (Some c, Inr (Some i)) \<Rightarrow>
          (let d = bdb b in
           if c \<notin> set (map fst (convs (br_gate b))) \<or> \<not> arc_exists i d \<or> (c, i) \<in> set (conv_arcs d) then b
           else set_bdb (d\<lparr> conv_arcs := conv_arcs d @ [(c, i)] \<rparr>) b)
      | _ \<Rightarrow> b)"

definition link_result :: "benv \<Rightarrow> string \<Rightarrow> string option \<Rightarrow> json \<Rightarrow> bridge \<Rightarrow> json bact" where
  "link_result env name s v b =
     (case v of
        JObj d \<Rightarrow>
          if name = ''arc.create'' \<or> name = ''arc.add_child''
          then (Inr v, if jtruthy (dget d ''arc_id'') then link_to_session env s (dget d ''arc_id'') b else b)
          else if name = ''arc.create_batch''
          then (case items_of (or_default (map_of d ''arc_ids'') (JList [])) of
                  Inl e \<Rightarrow> (Inl (Raised e), b)
                | Inr xs \<Rightarrow> (Inr v, fold (link_to_session env s) xs b))
          else (Inr v, b)
      | _ \<Rightarrow> (Inr v, b))"

definition validate_and_dispatch ::
    "benv \<Rightarrow> time \<Rightarrow> string \<Rightarrow> jdict \<Rightarrow> string option \<Rightarrow> int option \<Rightarrow> int option \<Rightarrow> bridge \<Rightarrow> json bact" where
  "validate_and_dispatch env now name ps s conv a b =
     (if name \<notin> set DISPATCH \<and> \<not> is_capability_verb (be_registry env) name then (Inl (DispatchError 404), b)
      else let p = inject conv a ps in
        bbind (check_capability env now name p b) (\<lambda>_ b1.
        bbind (check_session env now name s b1) (\<lambda>_ b2.
        bbind (check_messaging env now name s p b2) (\<lambda>_ b3.
        bbind (check_agent env now name p b3) (\<lambda>_ b4.
        bbind (check_external env now name p b4) (\<lambda>_ b5.
        bbind (check_single_arc env now name s p b5) (\<lambda>_ b6.
        bbind (demote_batch name s p b6) (\<lambda>q b7.
        bbind (check_target env now name q b7) (\<lambda>r b8.
        bbind (call_tool env now name (add_conversation name s r b8) b8) (\<lambda>v b9.
        link_result env name s v b9))))))))))"

section \<open>Facts\<close>

lemma sql_id_int [simp]: "eq_int (JInt i) = Some i"
  by simp

text \<open>The caller that every check sees is the arc of the session, whatever the parameters claim.\<close>

lemma caller_inject [simp]: "caller_of (inject conv a ps) = a"
  by (auto simp: caller_of_def inject_def update_conv' delete_conv' Let_def split: option.splits)

lemma inject_other:
  "k \<notin> {''conversation_id'', ''_caller_arc_id'', ''arc_id''} \<Longrightarrow> map_of (inject conv a ps) k = map_of ps k"
  by (auto simp: inject_def update_conv' delete_conv' Let_def split: option.splits)

lemma inject_arc [simp]:
  "map_of (inject conv a ps) ''arc_id'' =
     (case map_of ps ''arc_id'' of Some x \<Rightarrow> Some x | None \<Rightarrow> map_option JInt a)"
  by (auto simp: inject_def update_conv' delete_conv' Let_def split: option.splits)

lemma refuse_not_Inr [simp]: "refuse env now a ds b \<noteq> (Inr x, b')"
  by (auto simp: refuse_def split: sum.splits)

definition tool_allowed :: "benv \<Rightarrow> string \<Rightarrow> arc \<Rightarrow> bridge \<Rightarrow> bool" where
  "tool_allowed env name r b =
     (case allowed_tools (get_agent_capabilities (be_caps env) (aagent r)) of
        None \<Rightarrow> True
      | Some ts \<Rightarrow> name \<in> ts \<or>
          (\<exists>granted. resolve_capability_tools (verbs_for_package (be_registry env))
             (if aid r = 0 then {} else arc_caps (aid r) b) = Inr granted \<and> name \<in> granted))"

text \<open>What each check lets through, and that it changes nothing then.\<close>

lemma check_capability_Inr:
  "check_capability env now name ps b = (Inr u, b') \<longleftrightarrow> b' = b \<and>
     (name \<in> set DISPATCH \<or> (\<exists>i p. caller_of ps = Some i \<and> package_for_verb (be_registry env) name = Some p \<and>
        JStr (capability_grant_for_package p) \<in> arc_caps i b))"
  by (auto simp: check_capability_def split: option.splits if_splits)

lemma check_session_Inr:
  "check_session env now name s b = (Inr u, b') \<longleftrightarrow> b' = b \<and>
     (name \<in> session_exempt_tools (be_lists env) \<or> validate_execution_session now s b)"
  by (auto simp: check_session_def)

lemma check_messaging_Inr:
  "check_messaging env now name s ps b = (Inr u, b') \<longleftrightarrow> b' = b \<and>
     \<not> (name \<in> messaging_tools (be_lists env) \<and> session_context s b = Some ''arc-step'')"
  by (auto simp: check_messaging_def)

lemma check_agent_Inr:
  "check_agent env now name ps b = (Inr u, b') \<longleftrightarrow> b' = b \<and>
     (\<forall>r. caller_context ps b = Some r \<longrightarrow> tool_allowed env name r b)"
proof (cases "caller_context ps b")
  case (Some r)
  show ?thesis
  proof (cases "allowed_tools (get_agent_capabilities (be_caps env) (aagent r))")
    case tools: (Some ts)
    show ?thesis using Some tools
      by (cases "resolve_capability_tools (verbs_for_package (be_registry env)) (if aid r = 0 then {} else arc_caps (aid r) b)")
        (simp_all add: check_agent_def tool_allowed_def, blast+)
  qed (auto simp: Some check_agent_def tool_allowed_def)
qed (auto simp: check_agent_def)

lemma check_external_Inr:
  "check_external env now name ps b = (Inr u, b') \<longleftrightarrow> b' = b \<and>
     (name \<in> external_access_tools (be_lists env) \<longrightarrow>
        (\<exists>r. caller_context ps b = Some r \<and> ainteg r = UNTRUSTED))"
  by (auto simp: check_external_def split: option.splits if_splits)

lemma check_single_arc_Inr:
  "check_single_arc env now name s ps b = (Inr u, b') \<longleftrightarrow> b' = b \<and>
     \<not> ((name = ''arc.create'' \<or> name = ''arc.add_child'') \<and> session_tainted s b)"
  by (auto simp: check_single_arc_def)

lemmas check_Inr = check_capability_Inr check_session_Inr check_messaging_Inr check_agent_Inr
  check_external_Inr check_single_arc_Inr

definition authorized ::
    "benv \<Rightarrow> time \<Rightarrow> string \<Rightarrow> string option \<Rightarrow> int option \<Rightarrow> bridge \<Rightarrow> bool" where
  "authorized env now name s a b =
     ((name \<in> session_exempt_tools (be_lists env) \<or> validate_execution_session now s b) \<and>
      (name \<notin> set DISPATCH \<longrightarrow> (\<exists>i p. a = Some i \<and> package_for_verb (be_registry env) name = Some p \<and>
         JStr (capability_grant_for_package p) \<in> arc_caps i b)) \<and>
      \<not> (name \<in> messaging_tools (be_lists env) \<and> session_context s b = Some ''arc-step'') \<and>
      (\<forall>i r. a = Some i \<longrightarrow> find_arc i (bdb b) = Some r \<longrightarrow> tool_allowed env name r b) \<and>
      (name \<in> external_access_tools (be_lists env) \<longrightarrow>
         (\<exists>i r. a = Some i \<and> find_arc i (bdb b) = Some r \<and> ainteg r = UNTRUSTED)) \<and>
      \<not> ((name = ''arc.create'' \<or> name = ''arc.add_child'') \<and> session_tainted s b))"

lemma caller_context_inject:
  "caller_context (inject conv a ps) b = Some r \<longleftrightarrow> (\<exists>i. a = Some i \<and> find_arc i (bdb b) = Some r)"
  by (auto simp: caller_context_def split: option.splits)

lemma checks_authorized:
  assumes "bbind (check_capability env now name (inject conv a ps) b) (\<lambda>_ b1.
        bbind (check_session env now name s b1) (\<lambda>_ b2.
        bbind (check_messaging env now name s (inject conv a ps) b2) (\<lambda>_ b3.
        bbind (check_agent env now name (inject conv a ps) b3) (\<lambda>_ b4.
        bbind (check_external env now name (inject conv a ps) b4) (\<lambda>_ b5.
        bbind (check_single_arc env now name s (inject conv a ps) b5) f))))) = (Inr y, b')"
  shows "authorized env now name s a b \<and> f () b = (Inr y, b')"
  using assms
  by (auto simp: bbind_Inr check_Inr authorized_def caller_context_inject)

text \<open>C25: Nothing runs unless every gate let it through.\<close>

theorem dispatch_authorized:
  assumes "validate_and_dispatch env now name ps s conv a b = (Inr v, b')"
  shows "authorized env now name s a b"
proof -
  have known: "\<not> (name \<notin> set DISPATCH \<and> \<not> is_capability_verb (be_registry env) name)"
    using assms by (simp only: validate_and_dispatch_def split: if_splits) simp_all
  note run = assms [unfolded validate_and_dispatch_def Let_def if_not_P [OF known]]
  show ?thesis using checks_authorized [OF run] by (rule conjunct1)
qed

lemma dispatch_passes:
  assumes "authorized env now name s a b" "name \<in> set DISPATCH \<or> is_capability_verb (be_registry env) name"
  shows "validate_and_dispatch env now name ps s conv a b =
    bbind (demote_batch name s (inject conv a ps) b) (\<lambda>q b7.
    bbind (check_target env now name q b7) (\<lambda>r b8.
    bbind (call_tool env now name (add_conversation name s r b8) b8) (\<lambda>v b9.
    link_result env name s v b9)))"
proof -
  have "check_capability env now name (inject conv a ps) b = (Inr (), b)"
    "check_session env now name s b = (Inr (), b)"
    "check_messaging env now name s (inject conv a ps) b = (Inr (), b)"
    "check_agent env now name (inject conv a ps) b = (Inr (), b)"
    "check_external env now name (inject conv a ps) b = (Inr (), b)"
    "check_single_arc env now name s (inject conv a ps) b = (Inr (), b)"
    using assms(1) by (auto simp: check_Inr authorized_def caller_context_inject)
  moreover have known: "\<not> (name \<notin> set DISPATCH \<and> \<not> is_capability_verb (be_registry env) name)"
    using assms(2) by blast
  ultimately show ?thesis
    unfolding validate_and_dispatch_def Let_def if_not_P [OF known] by simp
qed

section \<open>What the gates leave open\<close>

text \<open>No default list names a verb of a package, and writing state is not exempt.\<close>

lemma default_lists:
  "session_exempt_tools [] = DEFAULT_SESSION_EXEMPT_TOOLS"
  "external_access_tools [] = DEFAULT_EXTERNAL_ACCESS_TOOLS"
  "messaging_tools [] = DEFAULT_MESSAGING_TOOLS"
  by (simp_all add: session_exempt_tools_def external_access_tools_def messaging_tools_def apply_overrides_def or_default_def)

lemma default_lists_dispatch:
  "DEFAULT_SESSION_EXEMPT_TOOLS \<subseteq> set DISPATCH" "DEFAULT_EXTERNAL_ACCESS_TOOLS \<subseteq> set DISPATCH"
  "DEFAULT_MESSAGING_TOOLS \<subseteq> set DISPATCH"
  by (simp_all add: DEFAULT_SESSION_EXEMPT_TOOLS_def DEFAULT_EXTERNAL_ACCESS_TOOLS_def DEFAULT_MESSAGING_TOOLS_def DISPATCH_def)

lemma classification_holds: "validate_tool_classification [] = Inr ()"
  using default_lists_dispatch(1) by (simp add: validate_tool_classification_def default_lists)

lemma state_tools:
  "''state.get'' \<in> set DISPATCH" "''state.set'' \<in> set DISPATCH" "''state.get'' \<in> DEFAULT_SESSION_EXEMPT_TOOLS"
  "''state.set'' \<notin> DEFAULT_SESSION_EXEMPT_TOOLS" "''state.get'' \<notin> DEFAULT_EXTERNAL_ACCESS_TOOLS"
  "''state.get'' \<notin> DEFAULT_MESSAGING_TOOLS" "''state.set'' \<notin> DEFAULT_MESSAGING_TOOLS"
  by (simp_all add: DISPATCH_def DEFAULT_SESSION_EXEMPT_TOOLS_def DEFAULT_EXTERNAL_ACCESS_TOOLS_def DEFAULT_MESSAGING_TOOLS_def)

definition reads_state :: "agent_type \<Rightarrow> bool" where
  "reads_state t = (t = EXECUTOR \<or> t = PLANNER \<or> t = SUPERVISOR)"

lemma get_authorized:
  assumes "find_arc r (bdb b) = Some y" "reads_state (aagent y)" "be_lists env = []" "be_caps env = []"
  shows "authorized env now ''state.get'' s (Some r) b"
proof -
  have "tool_allowed env ''state.get'' y b"
    using assms(2,4) by (auto simp: reads_state_def tool_allowed_def get_agent_capabilities_def planner_tools_def)
  then show ?thesis
    using assms(1,3) state_tools by (auto simp: authorized_def default_lists)
qed

text \<open>A call of a state tool with plain arguments is its handler.\<close>

lemma state_call:
  assumes "authorized env now name s (Some i) b" "name = ''state.get'' \<or> name = ''state.set''"
    and "map_of ps ''_target_arc_id'' = None"
  shows "validate_and_dispatch env now name ps s conv (Some i) b =
    call_tool env now name (inject conv (Some i) ps) b"
proof -
  have t: "map_of (inject conv (Some i) ps) ''_target_arc_id'' = None" using assms(3) by (simp add: inject_other)
  have "link_result env name s v b1 = (Inr v, b1)" for v b1
    using assms(2) by (auto simp: link_result_def split: json.splits)
  then have "bbind (call_tool env now name q b1) (link_result env name s) = call_tool env now name q b1" for q b1
    by (auto simp: bbind_def call_tool_def split: prod.splits sum.splits)
  then show ?thesis
    using dispatch_passes [OF assms(1), of ps conv] assms(2) state_tools t
    by (auto simp: demote_batch_def check_target_def add_conversation_def)
qed

lemma set_plain:
  assumes "authorized env now ''state.set'' s (Some u) b" "find_arc t (bdb b) = Some x" "ainteg x = TRUSTED"
  shows "validate_and_dispatch env now ''state.set'' [(''key'', JStr k), (''value'', v), (''arc_id'', JInt t)] s conv (Some u) b =
    (Inr (JObj [(''success'', JBool True)]), set_bdb (put_state now t k (Parsed v) (bdb b)) b)"
proof -
  let ?p = "inject conv (Some u) [(''key'', JStr k), (''value'', v), (''arc_id'', JInt t)]"
  have "map_of ?p ''key'' = Some (JStr k)" "map_of ?p ''value'' = Some v" "dget ?p ''arc_id'' = JInt t"
    by (simp_all add: inject_other dget_def)
  then have "handle_set env now ?p b =
      (Inr (JObj [(''success'', JBool True)]), set_bdb (put_state now t k (Parsed v) (bdb b)) b)"
    using assms(2,3) by (simp add: handle_set_def stored_value_def arc_non_trusted_def arc_exists_def)
  then show ?thesis
    using state_call [OF assms(1), where ps = "[(''key'', JStr k), (''value'', v), (''arc_id'', JInt t)]" and conv = conv]
    by (simp add: call_tool_def run_tool_def)
qed

lemma get_plain:
  assumes "find_arc r (bdb b) = Some y" "reads_state (aagent y)" "be_lists env = []" "be_caps env = []"
    and "find_arc t (bdb b) = Some x" "ainteg x = TRUSTED" "aagent x \<noteq> REVIEWER" "t \<noteq> 0"
    and "state_cell t k (bdb b) = Some (Parsed v)" "\<not> is_encrypted (Parsed v)"
  shows "validate_and_dispatch env now ''state.get'' [(''key'', JStr k), (''arc_id'', JInt t)] s conv (Some r) b =
    (Inr (JObj [(''value'', v)]), b)"
proof -
  let ?p = "inject conv (Some r) [(''key'', JStr k), (''arc_id'', JInt t)]"
  have p: "map_of ?p ''key'' = Some (JStr k)" "dget ?p ''arc_id'' = JInt t"
    by (simp_all add: inject_other dget_def)
  have "json_label env (JInt t) v (br_gate b) = TRUSTED_LABEL"
    using assms(5-8) by (simp add: json_label_def arc_label_def bdb_def)
  then have "gate_state_read env now ?p w v b = (Inr (), b)" for w
    using p by (simp add: gate_state_read_def)
  then have "handle_get env now ?p b = (Inr (JObj [(''value'', v)]), b)"
    using p assms(9,10) by (simp add: handle_get_def cell_args_def)
  then show ?thesis
    using state_call [OF get_authorized [OF assms(1-4)], of "[(''key'', JStr k), (''arc_id'', JInt t)]" now s conv]
    by (simp add: call_tool_def run_tool_def)
qed

text \<open>C38: The owner of a cell is not its writer. Code of any arc that may call \<open>state.set\<close>, an untrusted
  arc too, writes what it likes into the state of any trusted arc, and every trusted arc then reads it
  as trusted: the label of a cell is the label of the arc it belongs to.\<close>

theorem trusted_state_forged:
  assumes "authorized env now ''state.set'' s (Some u) b"
    and "find_arc t (bdb b) = Some x" "ainteg x = TRUSTED" "aagent x \<noteq> REVIEWER" "t \<noteq> 0"
    and "find_arc r (bdb b) = Some y" "ainteg y = TRUSTED" "reads_state (aagent y)"
    and "be_lists env = []" "be_caps env = []" "\<not> is_encrypted (Parsed v)"
  shows "\<exists>b1. validate_and_dispatch env now ''state.set'' [(''key'', JStr k), (''value'', v), (''arc_id'', JInt t)]
        s conv (Some u) b = (Inr (JObj [(''success'', JBool True)]), b1) \<and>
      validate_and_dispatch env now1 ''state.get'' [(''key'', JStr k), (''arc_id'', JInt t)] s1 conv1 (Some r) b1 =
        (Inr (JObj [(''value'', v)]), b1)"
proof -
  let ?b1 = "set_bdb (put_state now t k (Parsed v) (bdb b)) b"
  have "find_arc i (bdb ?b1) = find_arc i (bdb b)" for i by (simp add: put_state_def)
  moreover have "state_cell t k (bdb ?b1) = Some (Parsed v)" by (simp add: state_cell_put_state)
  ultimately show ?thesis
    using set_plain [OF assms(1-3)] get_plain [of r ?b1 y env t x k v now1 s1 conv1] assms by auto
qed

text \<open>C27: The gate of a package's verbs is no gate. Code of a trusted EXECUTOR arc writes the grant of any
  package into its own capabilities, and from then on the bridge hands the verbs of that package to it.\<close>

theorem executor_grants_itself:
  assumes "authorized env now ''state.set'' s (Some u) b" "find_arc u (bdb b) = Some x"
    and "ainteg x = TRUSTED" "aagent x = EXECUTOR" "be_lists env = []" "be_caps env = []"
    and "wf_registry (be_registry env)" "cap_lookup (be_registry env) name = Some e"
  shows "\<exists>b1. validate_and_dispatch env now ''state.set''
        [(''key'', JStr ''_capabilities''), (''value'', JList [JStr (capability_grant_for_package (rv_package e))]),
         (''arc_id'', JInt u)] s conv (Some u) b = (Inr (JObj [(''success'', JBool True)]), b1) \<and>
      validate_and_dispatch env now name ps s conv (Some u) b1 =
        (case rv_handler e (inject conv (Some u) ps) (context_of e) of
           Inl _ \<Rightarrow> (Inl (DispatchError 500), b1) | Inr w \<Rightarrow> (Inr w, b1))"
proof -
  let ?v = "JList [JStr (capability_grant_for_package (rv_package e))]"
  let ?b1 = "set_bdb (put_state now u ''_capabilities'' (Parsed ?v) (bdb b)) b"
  have new: "name \<notin> set DISPATCH" using assms(7,8) by (auto simp: wf_registry_def)
  have "arc_caps u ?b1 = {JStr (capability_grant_for_package (rv_package e))}"
    by (simp add: arc_caps_def get_arc_capabilities_def state_cell_put_state)
  moreover have "find_arc u (bdb ?b1) = Some x" using assms(2) by (simp add: put_state_def)
  moreover have "validate_execution_session now s ?b1 = validate_execution_session now s b"
    by (cases s) (simp_all add: validate_execution_session_def find_session_def)
  moreover have "validate_execution_session now s b"
    using assms(1,5) state_tools by (simp add: authorized_def default_lists)
  moreover have "name \<notin> DEFAULT_EXTERNAL_ACCESS_TOOLS" "name \<notin> DEFAULT_MESSAGING_TOOLS"
    using new default_lists_dispatch by blast+
  moreover have "name \<noteq> ''arc.create'' \<and> name \<noteq> ''arc.add_child''" using new by (auto simp: DISPATCH_def)
  ultimately have ok: "authorized env now name s (Some u) ?b1"
    using assms(4-6,8) new
    by (auto simp: authorized_def default_lists package_for_verb_def tool_allowed_def get_agent_capabilities_def)
  have nm: "name \<notin> {''state.get'', ''state.set'', ''state.delete'', ''state.list'', ''arc.create'', ''arc.add_child'',
      ''arc.create_batch'', ''arc.invoke_coding_change'', ''scheduling.add_cron'', ''scheduling.add_once'', ''kb.add'', ''kb.edit''}"
    using new by (auto simp: DISPATCH_def)
  have run: "call_tool env now name q b2 =
      (case rv_handler e q (context_of e) of Inl _ \<Rightarrow> (Inl (DispatchError 500), b2) | Inr w \<Rightarrow> (Inr w, b2))" for q b2
    using nm new assms(8) by (simp add: call_tool_def run_tool_def cap_dispatch_def split: sum.splits)
  have "link_result env name s w b2 = (Inr w, b2)" for w b2
    using nm by (auto simp: link_result_def split: json.splits)
  then have "validate_and_dispatch env now name ps s conv (Some u) ?b1 =
        (case rv_handler e (inject conv (Some u) ps) (context_of e) of
           Inl _ \<Rightarrow> (Inl (DispatchError 500), ?b1) | Inr w \<Rightarrow> (Inr w, ?b1))"
    using dispatch_passes [OF ok, of ps conv] nm assms(8)
    by (simp add: is_capability_verb_def demote_batch_def check_target_def add_conversation_def run
        split: option.splits sum.splits)
  then show ?thesis using set_plain [OF assms(1-3)] by blast
qed

text \<open>C40: Two ways to read another arc. Through the guarded parameter a reader that is neither an
  ancestor nor granted access is refused; through \<open>arc_id\<close>, the parameter the tool's own signature
  offers, the same reader gets the same cell.\<close>

theorem cross_read_unchecked:
  assumes "find_arc r (bdb b) = Some y" "ainteg y = TRUSTED" "reads_state (aagent y)" "r \<noteq> 0"
    and "be_lists env = []" "be_caps env = []"
    and "find_arc t (bdb b) = Some x" "ainteg x = TRUSTED" "aagent x \<noteq> REVIEWER" "t \<noteq> 0"
    and "state_cell t k (bdb b) = Some (Parsed v)" "\<not> is_encrypted (Parsed v)"
    and "\<not> is_descendant_of (be_depth env) t r (bdb b)" "\<not> has_read_grant r t (bdb b)"
    and "JStr ''system.read'' \<notin> arc_caps r b"
  shows "fst (validate_and_dispatch env now ''state.get'' [(''key'', JStr k), (''_target_arc_id'', JInt t)] s conv (Some r) b) =
      Inl (DispatchError 403) \<and>
    validate_and_dispatch env now ''state.get'' [(''key'', JStr k), (''arc_id'', JInt t)] s conv (Some r) b =
      (Inr (JObj [(''value'', v)]), b)"
proof -
  let ?p = "inject conv (Some r) [(''key'', JStr k), (''_target_arc_id'', JInt t)]"
  note ok = get_authorized [OF assms(1,3,5,6)]
  have p: "map_of ?p ''_target_arc_id'' = Some (JInt t)" "dget ?p ''arc_id'' = JInt r"
    by (simp_all add: inject_other dget_def)
  have "\<not> may_cross env (JInt t) (JInt r) (Some t) (Some r) b"
    using assms(13-15) by (simp add: may_cross_def)
  then have "fst (check_target env now ''state.get'' ?p b) = Inl (DispatchError 403)"
    using p by (simp add: check_target_def refuse_def)
  then have "fst (bbind (check_target env now ''state.get'' ?p b) f) = Inl (DispatchError 403)" for f :: "jdict \<Rightarrow> bridge \<Rightarrow> json bact"
    by (cases "check_target env now ''state.get'' ?p b") simp
  then show ?thesis
    using dispatch_passes [OF ok, where ps = "[(''key'', JStr k), (''_target_arc_id'', JInt t)]" and conv = conv] state_tools
      get_plain [OF assms(1,3,5-12)]
    by (simp add: demote_batch_def)
qed

section \<open>Witnesses\<close>

text \<open>Arc 1 is a trusted EXECUTOR, arc 2 an untrusted one, arc 3 a trusted PLANNER; one package owns the
  verb \<open>mail.fetch\<close>.\<close>

definition demo_bridge :: bridge where
  "demo_bridge =
     \<lparr> br_gate = \<lparr> gdb = empty_db\<lparr> arcs :=
          [blank_arc 1, (blank_arc 2)\<lparr> ainteg := UNTRUSTED \<rparr>, (blank_arc 3)\<lparr> aagent := PLANNER \<rparr>],
          state := [\<lparr> sid = 1, s_arc = 3, s_key = ''plan'', s_value = Parsed (JInt 5), s_updated_at = 0 \<rparr>] \<rparr>,
          taints = [], convs = [], cfiles = [], execs = [], provs = [] \<rparr>,
       br_sessions = [\<lparr> sn_id = ''s'', sn_reviewed = True, sn_conv = None, sn_context = Some ''arc-step'', sn_expires = 100 \<rparr>],
       br_keys = [] \<rparr>"

definition demo_verb :: reg_verb where
  "demo_verb = \<lparr> rv_package = ''mail'', rv_verb = ''mail.fetch'', rv_kind = ''egress'',
     rv_handler = (\<lambda>ps cx. Inr (JStr (cx_host cx))),
     rv_grant = \<lparr> eg_protocol = ''imap'', eg_host_from = ''HOST'', eg_port = 993, eg_credential = ''MAIL'' \<rparr>,
     rv_host = ''imap.example.org'' \<rparr>"

definition demo_registry :: registry where
  "demo_registry = \<lparr> rg_verbs = [(''mail.fetch'', demo_verb)], rg_packages = [(''mail'', [''mail.fetch''])] \<rparr>"

lemma wf_demo_registry: "wf_registry demo_registry"
proof -
  have "register_verb demo_verb empty_registry = Inr demo_registry"
    by (simp add: register_verb_def empty_registry_def demo_registry_def demo_verb_def DISPATCH_def cap_lookup_def
        package_verbs_def or_default_def Let_def)
  then show ?thesis using wf_register wf_registry_empty by blast
qed

definition demo_benv :: benv where
  "demo_benv = \<lparr> be_lists = [], be_caps = [], be_registry = demo_registry, be_depth = 100,
     be_fmt = (\<lambda>_. []), be_repr = (\<lambda>_. []), be_number = (\<lambda>_. None), be_encrypt = (\<lambda>_ s. Inr s), be_enforce = True,
     be_tools = (\<lambda>n ps b. (Inr JNull, b)), be_arc = None, be_conv = None \<rparr>"

lemmas demo_bridge_simps = demo_bridge_def demo_benv_def bdb_def blank_arc_def empty_db_def

lemma demo_arcs_found:
  "find_arc 1 (bdb demo_bridge) = Some (blank_arc 1)"
  "find_arc 2 (bdb demo_bridge) = Some ((blank_arc 2)\<lparr> ainteg := UNTRUSTED \<rparr>)"
  "find_arc 3 (bdb demo_bridge) = Some ((blank_arc 3)\<lparr> aagent := PLANNER \<rparr>)"
  by (simp_all add: demo_bridge_simps)

lemma demo_set_authorized:
  "u = 1 \<or> u = 2 \<Longrightarrow> authorized demo_benv 7 ''state.set'' (Some ''s'') (Some u) demo_bridge"
  by (auto simp: authorized_def demo_arcs_found tool_allowed_def get_agent_capabilities_def default_lists
      validate_execution_session_def find_session_def demo_benv_def DEFAULT_EXTERNAL_ACCESS_TOOLS_def
      DEFAULT_MESSAGING_TOOLS_def DISPATCH_def) (simp_all add: demo_bridge_def blank_arc_def)

theorem trusted_state_forged_witness:
  "\<exists>b1. validate_and_dispatch demo_benv 7 ''state.set''
      [(''key'', JStr ''_agent_response''), (''value'', JStr ''forged''), (''arc_id'', JInt 1)] (Some ''s'') None (Some 2) demo_bridge =
      (Inr (JObj [(''success'', JBool True)]), b1) \<and>
    validate_and_dispatch demo_benv 8 ''state.get''
      [(''key'', JStr ''_agent_response''), (''arc_id'', JInt 1)] None None (Some 3) b1 = (Inr (JObj [(''value'', JStr ''forged'')]), b1)"
  by (rule trusted_state_forged [OF demo_set_authorized demo_arcs_found(1) _ _ _ demo_arcs_found(3)])
    (simp_all add: blank_arc_def reads_state_def demo_benv_def is_encrypted_def encrypted_marker_def starts_with_def)

theorem executor_grants_itself_witness:
  "\<exists>b1. validate_and_dispatch demo_benv 7 ''state.set''
      [(''key'', JStr ''_capabilities''), (''value'', JList [JStr (capability_grant_for_package (rv_package demo_verb))]),
       (''arc_id'', JInt 1)] (Some ''s'') None (Some 1) demo_bridge = (Inr (JObj [(''success'', JBool True)]), b1) \<and>
    validate_and_dispatch demo_benv 7 ''mail.fetch'' [] (Some ''s'') None (Some 1) b1 =
      (case rv_handler demo_verb (inject None (Some 1) []) (context_of demo_verb) of
         Inl _ \<Rightarrow> (Inl (DispatchError 500), b1) | Inr w \<Rightarrow> (Inr w, b1))"
  by (rule executor_grants_itself [OF demo_set_authorized demo_arcs_found(1)])
    (simp_all add: blank_arc_def demo_benv_def wf_demo_registry demo_registry_def cap_lookup_def
      wf_demo_registry [unfolded demo_registry_def])

theorem cross_read_unchecked_witness:
  "fst (validate_and_dispatch demo_benv 7 ''state.get'' [(''key'', JStr ''plan''), (''_target_arc_id'', JInt 3)]
      None None (Some 1) demo_bridge) = Inl (DispatchError 403) \<and>
   validate_and_dispatch demo_benv 7 ''state.get'' [(''key'', JStr ''plan''), (''arc_id'', JInt 3)] None None (Some 1) demo_bridge =
      (Inr (JObj [(''value'', JInt 5)]), demo_bridge)"
proof (rule cross_read_unchecked [OF demo_arcs_found(1) _ _ _ _ _ demo_arcs_found(3)])
  show "\<not> is_descendant_of (be_depth demo_benv) 3 1 (bdb demo_bridge)"
    by (simp add: demo_benv_def demo_arcs_found eval_nat_numeral is_descendant_of.simps blank_arc_def)
  show "\<not> has_read_grant 1 3 (bdb demo_bridge)"
    by (simp add: has_read_grant_def has_grant_row_def grant_walk_spec has_subtree_grant_def demo_bridge_simps)
qed (simp_all add: demo_bridge_simps reads_state_def is_encrypted_def state_cell_def arc_caps_def get_arc_capabilities_def)

theorem dispatch_authorized_witness:
  "authorized demo_benv 7 ''state.get'' None (Some 1) demo_bridge"
proof -
  have "validate_and_dispatch demo_benv 7 ''state.get'' [(''key'', JStr ''plan''), (''arc_id'', JInt 3)] None None (Some 1) demo_bridge =
      (Inr (JObj [(''value'', JInt 5)]), demo_bridge)"
    by (rule get_plain [OF demo_arcs_found(1) _ _ _ demo_arcs_found(3)])
      (simp_all add: demo_bridge_simps reads_state_def is_encrypted_def state_cell_def)
  from dispatch_authorized [OF this] show ?thesis .
qed

end
