(* ===== verification/Templates.thy ===== *)
theory Templates
  imports Subscriptions Tool_Dispatch Startup_Recovery
begin

text \<open>
  Workflow templates (\<open>core/engine/template_manager.py\<close>) and the arcs that subscriptions start from
  them (\<open>handle_subscription_create_arc\<close> of \<open>core/engine/subscriptions.py\<close>).

  A template row holds its parsed steps; reading the YAML file is left out, so \<open>load_template\<close> starts
  from the parsed file. Every step commits several times: the arc, its grants, the rest of its cells,
  its activation. A null in a step counts as a missing key. The list of templates holds in full the rows
  of which the database keeps id and name. Presets of model policies are a parameter (\<open>te_preset\<close>); \<open>te_dumps\<close> is
  \<open>json.dumps\<close>, \<open>te_str\<close> is \<open>str\<close>.
\<close>

section \<open>Templates\<close>

record tstep =
  ts_name :: "string option"
  ts_description :: "string option"
  ts_role :: "string option"
  ts_mutable :: bool
  ts_order :: int
  ts_agent_type :: "string option"
  ts_integrity :: "string option"
  ts_output :: "string option"
  ts_model :: "string option"
  ts_model_role :: "string option"
  ts_agent_role :: "string option"
  ts_arc_role :: "string option"
  ts_agent_model :: "string option"
  ts_policy_id :: "int option"
  ts_contract :: "string option"
  ts_model_policy :: "string option"
  ts_min_tier :: "string option"
  ts_capabilities :: "string list"
  ts_required_pass :: bool
  ts_goal_template :: "string option"
  ts_goal_fields :: jdict
  ts_prompt_template :: "string option"
  ts_prompt_subdir :: json
  ts_activation :: "string option"

record template =
  tp_id :: int
  tp_name :: string
  tp_required_for :: "string list"
  tp_steps :: "tstep list"
  tp_capabilities :: "string list"
  tp_triggers :: "jdict list"
  tp_version :: int
  tp_owner :: "string option"

record yaml_template =
  yt_name :: "string option"
  yt_required_for :: "string list"
  yt_steps :: "tstep list"
  yt_capabilities :: "string list"
  yt_triggers :: "jdict list"

record tenv =
  te_env :: env
  te_preset :: "string \<Rightarrow> (string option \<times> string option \<times> rat option \<times> int option \<times> jtext option) option"
  te_dumps :: "json \<Rightarrow> string"
  te_str :: "json \<Rightarrow> string"

text \<open>A template of the name is replaced, with the next version.\<close>

definition load_template :: "yaml_template \<Rightarrow> string option \<Rightarrow> template list \<Rightarrow> exn + (int \<times> template list)" where
  "load_template y owner ts =
     (case yt_name y of
        None \<Rightarrow> Inl (KeyError ''name'')
      | Some n \<Rightarrow>
          (case List.find (\<lambda>t. tp_name t = n) ts of
             Some t \<Rightarrow>
               Inr (tp_id t, upd_row tp_id (tp_id t) (\<lambda>r. r\<lparr> tp_required_for := yt_required_for y, tp_steps := yt_steps y,
                 tp_capabilities := yt_capabilities y, tp_triggers := yt_triggers y, tp_version := tp_version t + 1,
                 tp_owner := owner \<rparr>) ts)
           | None \<Rightarrow>
               Inr (next_rowid tp_id ts,
                 ts @ [\<lparr> tp_id = next_rowid tp_id ts, tp_name = n, tp_required_for = yt_required_for y, tp_steps = yt_steps y,
                         tp_capabilities = yt_capabilities y, tp_triggers = yt_triggers y, tp_version = 1, tp_owner = owner \<rparr>])))"

definition get_template :: "int option \<Rightarrow> string option \<Rightarrow> template list \<Rightarrow> exn + template option" where
  "get_template i n ts =
     (case (i, n) of
        (Some k, None) \<Rightarrow> Inr (find_row tp_id k ts)
      | (None, Some s) \<Rightarrow> Inr (List.find (\<lambda>t. tp_name t = s) ts)
      | _ \<Rightarrow> Inl (ValueError ''Provide template_id or name''))"

definition text_order :: "string \<Rightarrow> nat list" where
  "text_order s = map of_char s"

definition list_templates :: "template list \<Rightarrow> template list" where
  "list_templates ts = sort_key (\<lambda>t. text_order (tp_name t)) ts"

definition find_template_for_resource :: "string \<Rightarrow> template list \<Rightarrow> template option" where
  "find_template_for_resource r ts = List.find (\<lambda>t. r \<in> set (tp_required_for t)) ts"

text \<open>Triggers get the name of their template in front, unless their name has a colon.\<close>

definition template_trigger :: "string \<Rightarrow> nat \<Rightarrow> jdict \<Rightarrow> jdict" where
  "template_trigger tn n c =
     (let raw = (case text_field (dget c ''name'') of Some s \<Rightarrow> s | None \<Rightarrow> ''trigger-'' @ show_int (int n)) in
      if CHR '':'' \<in> set raw then c else AList.update ''name'' (JStr (tn @ '':'' @ raw)) c)"

definition collect_template_triggers :: "template list \<Rightarrow> jdict list" where
  "collect_template_triggers ts =
     fold (\<lambda>(n, c) acc. acc @ [template_trigger n (length acc) c])
       (List.maps (\<lambda>t. map (Pair (tp_name t)) (tp_triggers t)) (list_templates ts)) []"

definition load_template_triggers :: "template list \<Rightarrow> subscription list \<Rightarrow> (exn + nat) \<times> subscription list" where
  "load_template_triggers ts ss = load_subscriptions (collect_template_triggers ts) ss"

section \<open>Instantiation\<close>

definition enforce_min_tier :: "model_config \<Rightarrow> string \<Rightarrow> string \<Rightarrow> exn + unit" where
  "enforce_min_tier mc m tier =
     xbind (get_cost_tier mc m) (\<lambda>t.
     xbind (compare_cost_tiers t tier) (\<lambda>c. if c < 0 then Inl (ValueError ''below model_min_tier'') else Inr ()))"

definition step_args :: "int \<Rightarrow> int \<Rightarrow> string \<Rightarrow> int option \<Rightarrow> tstep \<Rightarrow> create_args" where
  "step_args tid p nm pol s =
     (default_args nm)\<lparr> ca_goal := ts_description s, ca_parent := Some p, ca_template := Some tid, ca_step_role := ts_role s,
        ca_from_template := True, ca_template_mutable := ts_mutable s, ca_step_order := ts_order s,
        ca_integrity := or_default (ts_integrity s) ''trusted'', ca_output := or_default (ts_output s) ''python'',
        ca_agent := or_default (ts_agent_type s) ''EXECUTOR'', ca_model := ts_model s, ca_model_role := ts_model_role s,
        ca_agent_role := ts_agent_role s, ca_agent_model := ts_agent_model s, ca_policy := pol,
        ca_output_contract := ts_contract s, ca_arc_role := or_default (ts_arc_role s) ''worker'' \<rparr>"

text \<open>The policy of the step: its id, else that of the preset it names.\<close>

definition step_policy :: "tenv \<Rightarrow> time \<Rightarrow> tstep \<Rightarrow> db \<Rightarrow> int option \<times> db" where
  "step_policy te now s d =
     (case (ts_policy_id s, ts_model_policy s) of
        (Some i, _) \<Rightarrow> (Some i, d)
      | (None, Some n) \<Rightarrow>
          (if n = [] then (None, d)
           else case te_preset te n of
               None \<Rightarrow> (None, d)
             | Some (m, r, t, k, pj) \<Rightarrow> (case get_or_create_model_policy now m r t k pj (Some n) d of (i, d1) \<Rightarrow> (Some i, d1)))
      | (None, None) \<Rightarrow> (None, d))"

definition owner_caps :: "string option \<Rightarrow> string list" where
  "owner_caps w = (case w of Some (c # cs) \<Rightarrow> [capability_grant_for_package (c # cs)] | _ \<Rightarrow> [])"

definition merged_caps :: "template \<Rightarrow> tstep \<Rightarrow> string list" where
  "merged_caps t s = sort_key text_order (remdups (tp_capabilities t @ ts_capabilities s @ owner_caps (tp_owner t)))"

text \<open>The cells of a new step arc, in the order they are written.\<close>

definition keep :: "bool \<Rightarrow> string \<Rightarrow> json \<Rightarrow> (string \<times> json) list" where
  "keep b k v = (if b then [(k, v)] else [])"

definition step_cells :: "template \<Rightarrow> tstep \<Rightarrow> (string \<times> json) list" where
  "step_cells t s =
     keep (merged_caps t s \<noteq> []) ''_capabilities'' (JList (map JStr (merged_caps t s)))
     @ keep (truthy_str (ts_min_tier s)) ''_model_min_tier'' (str_json (ts_min_tier s))
     @ keep (ts_required_pass s) ''_required_pass'' (JBool True)
     @ keep (truthy_str (ts_goal_template s)) ''_goal_template_config''
         (JObj [(''template'', str_json (ts_goal_template s)),
                (''subdir'', or_default (map_of (ts_goal_fields s) ''goal_template_subdir'') (JStr [])),
                (''sibling_role'', dget (ts_goal_fields s) ''goal_input_sibling_role''),
                (''output_name'', dget (ts_goal_fields s) ''goal_input_output_name''),
                (''input_field'', dget (ts_goal_fields s) ''goal_input_field'')])
     @ keep (truthy_str (ts_prompt_template s)) ''_prompt_template_config''
         (JObj [(''template'', str_json (ts_prompt_template s)), (''subdir'', ts_prompt_subdir s)])"

definition put_cells :: "time \<Rightarrow> int \<Rightarrow> (string \<times> json) list \<Rightarrow> db \<Rightarrow> db" where
  "put_cells now i cs d = fold (\<lambda>(k, v). put_state now i k (Parsed v)) cs d"

definition step_activation :: "int \<Rightarrow> tstep \<Rightarrow> db \<Rightarrow> db" where
  "step_activation i s d =
     (case ts_activation s of
        Some (c # cs) \<Rightarrow> d\<lparr> activations := activations d @ [(i, c # cs)] \<rparr>
      | _ \<Rightarrow> d)"

definition instantiate_step :: "tenv \<Rightarrow> time \<Rightarrow> template \<Rightarrow> int \<Rightarrow> tstep \<Rightarrow> db \<Rightarrow> int act" where
  "instantiate_step te now t p s d =
     (case step_policy te now s d of
        (pol, d1) \<Rightarrow>
          (case (case (ts_min_tier s, ts_agent_model s) of
                   (Some (x # xs), Some (y # ys)) \<Rightarrow> enforce_min_tier (env_models (te_env te)) (y # ys) (x # xs)
                 | _ \<Rightarrow> Inr ()) of
             Inl e \<Rightarrow> (Inl e, d1)
           | Inr _ \<Rightarrow>
               (case ts_name s of
                  None \<Rightarrow> (Inl (KeyError ''name''), d1)
                | Some nm \<Rightarrow>
                    (case create_arc (te_env te) now (step_args (tp_id t) p nm pol s) d1 of
                       Inl e \<Rightarrow> (Inl e, d1)
                     | Inr (i, d2) \<Rightarrow> (Inr i, step_activation i s (put_cells now i (step_cells t s) d2))))))"

fun instantiate_steps :: "tenv \<Rightarrow> time \<Rightarrow> template \<Rightarrow> int \<Rightarrow> tstep list \<Rightarrow> db \<Rightarrow> int list act" where
  "instantiate_steps te now t p [] d = (Inr [], d)"
| "instantiate_steps te now t p (s # ss) d =
     abind (instantiate_step te now t p s d) (\<lambda>i d1.
     abind (instantiate_steps te now t p ss d1) (\<lambda>is d2. (Inr (i # is), d2)))"

definition instantiate_template :: "tenv \<Rightarrow> time \<Rightarrow> template list \<Rightarrow> int \<Rightarrow> int \<Rightarrow> db \<Rightarrow> int list act" where
  "instantiate_template te now ts tid p d =
     (case find_row tp_id tid ts of
        None \<Rightarrow> (Inl (ValueError ''Template not found''), d)
      | Some t \<Rightarrow> instantiate_steps te now t p (tp_steps t) d)"

definition template_children :: "int \<Rightarrow> db \<Rightarrow> arc list" where
  "template_children p d = filter (\<lambda>a. parent_id a = Some p \<and> from_template a) (arcs d)"

definition validate_template_rigidity :: "template list \<Rightarrow> int \<Rightarrow> db \<Rightarrow> bool" where
  "validate_template_rigidity ts p d =
     (case find_arc p d of
        None \<Rightarrow> False
      | Some a \<Rightarrow>
          (case template_id a of
             None \<Rightarrow> True
           | Some tid \<Rightarrow>
               (case find_row tp_id tid ts of
                  None \<Rightarrow> False
                | Some t \<Rightarrow>
                    length (template_children p d) = length (tp_steps t) \<and>
                    sort (map step_order (template_children p d)) = sort (map ts_order (tp_steps t)))))"

section \<open>Arcs from subscriptions\<close>

text \<open>\<open>{event.payload.KEY}\<close>: the name and the rest of the text behind the brace.\<close>

definition word_char :: "char \<Rightarrow> bool" where
  "word_char c = (letter c \<or> ascii_digit c \<or> c = CHR ''_'')"

definition ref_prefix :: string where
  "ref_prefix = CHR 0x7B # ''event.payload.''"

definition ref_at :: "string \<Rightarrow> (string \<times> string) option" where
  "ref_at s =
     (if starts_with s ref_prefix
      then let r = drop (length ref_prefix) s; k = takeWhile word_char r in
        (case dropWhile word_char r of
           c # rest \<Rightarrow> if c = CHR 0x7D \<and> k \<noteq> [] then Some (k, rest) else None
         | [] \<Rightarrow> None)
      else None)"

lemma ref_at_shorter: "ref_at s = Some (k, rest) \<Longrightarrow> length rest < length s"
proof -
  assume a: "ref_at s = Some (k, rest)"
  let ?r = "drop (length ref_prefix) s"
  have "length (dropWhile word_char ?r) = Suc (length rest)"
    using a by (auto simp: ref_at_def Let_def split: if_splits list.splits)
  moreover have "length (dropWhile word_char ?r) \<le> length ?r" by (rule length_dropWhile_le)
  ultimately show ?thesis by simp
qed

function substitute_text :: "tenv \<Rightarrow> jdict \<Rightarrow> string \<Rightarrow> string" where
  "substitute_text te p [] = []"
| "substitute_text te p (c # cs) =
     (case ref_at (c # cs) of
        None \<Rightarrow> c # substitute_text te p cs
      | Some (k, rest) \<Rightarrow>
          (case map_of p k of
             None \<Rightarrow> take (length (c # cs) - length rest) (c # cs)
           | Some v \<Rightarrow> te_str te v) @ substitute_text te p rest)"
  by pat_completeness auto

termination
  by (relation "measure (\<lambda>(te, p, s). length s)") (use ref_at_shorter in force)+

fun substitute_event_refs :: "tenv \<Rightarrow> jdict \<Rightarrow> json \<Rightarrow> json" where
  "substitute_event_refs te p (JStr s) =
     (case ref_at s of
        Some (k, []) \<Rightarrow> (case map_of p k of Some v \<Rightarrow> v | None \<Rightarrow> JStr (substitute_text te p s))
      | _ \<Rightarrow> JStr (substitute_text te p s))"
| "substitute_event_refs te p (JList xs) = JList (map (substitute_event_refs te p) xs)"
| "substitute_event_refs te p (JObj d) = JObj (map (\<lambda>(k, v). (k, substitute_event_refs te p v)) d)"
| "substitute_event_refs te p v = v"

definition opt_string :: "json \<Rightarrow> string option" where
  "opt_string v = (case v of JStr s \<Rightarrow> Some s | _ \<Rightarrow> None)"

definition opt_number :: "json \<Rightarrow> int option" where
  "opt_number v = (case v of JInt i \<Rightarrow> Some i | _ \<Rightarrow> None)"

text \<open>The arguments of the root; names, goals and types of agents are texts, priorities and ids numbers.\<close>

definition root_name :: "jdict \<Rightarrow> string" where
  "root_name pl =
     (case first_text [dget pl ''arc_name'', dget pl ''template_name''] of Some s \<Rightarrow> s | None \<Rightarrow> ''subscription-arc'')"

definition root_args :: "tenv \<Rightarrow> jdict \<Rightarrow> create_args" where
  "root_args te pl =
     (default_args (root_name pl))\<lparr> ca_goal := opt_string (dget pl ''arc_goal''), ca_template := opt_number (dget pl ''template_id''),
        ca_priority := opt_number (dget pl ''priority''),
        ca_agent := or_default (opt_string (dget pl ''agent_type'')) ''EXECUTOR'', ca_origin_kind := Some ''trigger'',
        ca_origin_ref := Some (te_dumps te (JObj
          (if jtruthy (dget pl ''_subscription'') then [(''subscription'', dget pl ''_subscription'')] else []))) \<rparr>"

definition dict_of :: "json \<Rightarrow> exn + jdict" where
  "dict_of v = (case v of JObj d \<Rightarrow> Inr d | _ \<Rightarrow> if jtruthy v then Inl (AttributeError ''items'') else Inr [])"

fun set_cells :: "time \<Rightarrow> int \<Rightarrow> (string \<times> json) list \<Rightarrow> db \<Rightarrow> unit act" where
  "set_cells now i [] d = (Inr (), d)"
| "set_cells now i ((k, v) # cs) d = abind (stmt (set_arc_state now i k v d) d) (\<lambda>_. set_cells now i cs)"

definition event_payload_of :: "jdict \<Rightarrow> jdict" where
  "event_payload_of pl = (case dget pl ''_event_payload'' of JObj d \<Rightarrow> d | _ \<Rightarrow> [])"

text \<open>The part behind the budget check; its result is the new root.\<close>

definition start_root :: "tenv \<Rightarrow> time \<Rightarrow> template list \<Rightarrow> jdict \<Rightarrow> db \<Rightarrow> int act" where
  "start_root te now ts pl d =
     (case create_arc (te_env te) now (root_args te pl) d of
        Inl e \<Rightarrow> (Inl e, d)
      | Inr (i, d1) \<Rightarrow>
          abind (set_cells now i [(''event_payload'', JObj (event_payload_of pl)), (''subscription_name'', dget pl ''_subscription'')] d1) (\<lambda>_ d2.
          (case dict_of (dget pl ''initial_arc_state'') of
             Inl e \<Rightarrow> (Inl e, d2)
           | Inr cs \<Rightarrow>
               abind (set_cells now i (map (\<lambda>(k, v). (k, substitute_event_refs te (event_payload_of pl) v)) cs) d2) (\<lambda>_ d3.
               (case opt_number (dget pl ''template_id'') of
                  None \<Rightarrow> (Inr i, d3)
                | Some tid \<Rightarrow> abind (instantiate_template te now ts tid i d3) (\<lambda>_ d4. (Inr i, d4)))))))"

definition handle_subscription_create_arc ::
    "tenv \<Rightarrow> budget_config \<Rightarrow> model_entry list \<Rightarrow> usage list \<Rightarrow> time \<Rightarrow> template list \<Rightarrow> jdict \<Rightarrow> budget \<Rightarrow> db \<Rightarrow>
     budget \<times> int option act" where
  "handle_subscription_create_arc te cfg es us now ts pl bud d =
     (case autonomous_allowed cfg es now us bud of
        ((ok, reason), b) \<Rightarrow>
          (b, if \<not> ok then (Inr None, d) else abind (start_root te now ts pl d) (\<lambda>i d1. (Inr (Some i), d1))))"

section \<open>Steps one at a time\<close>

lemma step_policy_frame: "step_policy te now s d = (pol, d') \<Longrightarrow> arcs d' = arcs d \<and> state d' = state d"
  by (auto simp: step_policy_def dest!: get_or_create_frame split: option.splits if_splits prod.splits)

lemma put_cells_Cons [simp]: "put_cells now i ((k, v) # cs) d = put_cells now i cs (put_state now i k (Parsed v) d)"
  by (simp add: put_cells_def)

lemma put_cells_Nil [simp]: "put_cells now i [] d = d"
  by (simp add: put_cells_def)

lemma arcs_put_cells [simp]: "arcs (put_cells now i cs d) = arcs d"
  by (induction cs arbitrary: d) auto

lemma state_cell_put_cells:
  "distinct (map fst cs) \<Longrightarrow> state_cell j k (put_cells now i cs d) =
     (if j = i \<and> k \<in> fst ` set cs then map_option Parsed (map_of cs k) else state_cell j k d)"
proof (induction cs arbitrary: d)
  case (Cons c cs)
  then show ?case by (cases c) (auto simp: state_cell_put_state image_iff)
qed simp

lemma keep_simps [simp]:
  "x \<in> set (keep b k v) \<longleftrightarrow> b \<and> x = (k, v)" "distinct (map fst (keep b k v))" "keep True k v = [(k, v)]"
  by (auto simp: keep_def)

lemma distinct_step_cells: "distinct (map fst (step_cells t s))"
  by (auto simp: step_cells_def)

lemma step_activation_frame [simp]: "arcs (step_activation i s d) = arcs d" "state_cell j k (step_activation i s d) = state_cell j k d"
  by (simp_all add: step_activation_def state_cell_def split: option.splits list.splits)

lemma step_cells_capabilities:
  "merged_caps t s \<noteq> [] \<Longrightarrow>
     map_of (step_cells t s) ''_capabilities'' = Some (JList (map JStr (merged_caps t s)))"
  by (simp add: step_cells_def)

lemma step_cells_keys: "map_of (step_cells t s) k = Some v \<Longrightarrow> k \<in> fst ` set (step_cells t s)"
  by (force dest: map_of_SomeD)

text \<open>The row of a step and the cell with its capabilities.\<close>

definition step_row :: "template \<Rightarrow> int \<Rightarrow> tstep \<Rightarrow> arc \<Rightarrow> bool" where
  "step_row t p s a =
     (parent_id a = Some p \<and> from_template a \<and> template_id a = Some (tp_id t) \<and> ts_name s = Some (aname a) \<and>
      goal a = ts_description s \<and> step_role a = ts_role s \<and> step_order a = ts_order s \<and> template_mutable a = ts_mutable s \<and>
      output_contract a = ts_contract s \<and> ainteg a = TRUSTED \<and>
      astatus a = (if aagent a = SUPERVISOR then Waiting else Pending))"

definition granted_caps :: "template \<Rightarrow> tstep \<Rightarrow> string set" where
  "granted_caps t s =
     set (tp_capabilities t) \<union> set (ts_capabilities s) \<union>
     (case tp_owner t of Some w \<Rightarrow> if w = [] then {} else {''pkg.'' @ w} | None \<Rightarrow> {})"

definition step_capable :: "template \<Rightarrow> tstep \<Rightarrow> int \<Rightarrow> db \<Rightarrow> bool" where
  "step_capable t s i d =
     (granted_caps t s = {} \<or>
      (\<exists>cs. state_cell i ''_capabilities'' d = Some (Parsed (JList (map JStr cs))) \<and>
         distinct cs \<and> set cs = granted_caps t s))"

lemma set_merged_caps: "set (merged_caps t s) = granted_caps t s" "distinct (merged_caps t s)"
  by (cases "tp_owner t"; cases "the (tp_owner t)";
    auto simp: merged_caps_def granted_caps_def owner_caps_def capability_grant_for_package_def)+

lemma step_capable_cell:
  "state_cell i ''_capabilities'' d = Some (Parsed (JList (map JStr (merged_caps t s)))) \<Longrightarrow> step_capable t s i d"
  unfolding step_capable_def using set_merged_caps by blast

lemma new_step_row:
  assumes "ts_name s = Some nm"
  shows "step_row t p s (new_arc_row now (step_args (tp_id t) p nm pol s) TRUSTED ot ag ro po d)"
  using assms by (simp add: step_row_def new_arc_row_def step_args_def default_args_def Let_def)

lemma instantiate_step_Inr:
  assumes "instantiate_step te now t p s d = (Inr i, d')"
  shows "\<exists>a. arcs d' = arcs d @ [a] \<and> aid a = i \<and> step_row t p s a \<and> step_capable t s i d' \<and>
     i \<notin> aid ` set (arcs d) \<and> (\<forall>j k. j \<noteq> i \<longrightarrow> state_cell j k d' = state_cell j k d)"
proof -
  obtain pol d1 nm d2 where p: "step_policy te now s d = (pol, d1)" and nm: "ts_name s = Some nm"
    and c: "create_arc (te_env te) now (step_args (tp_id t) p nm pol s) d1 = Inr (i, d2)"
    and d': "d' = step_activation i s (put_cells now i (step_cells t s) d2)"
    using assms by (auto simp: instantiate_step_def split: prod.splits option.splits sum.splits)
  have f: "arcs d1 = arcs d" "state d1 = state d" using step_policy_frame [OF p] by auto
  obtain a ag ot ro po d0 where a: "arcs d2 = arcs d1 @ [a]" "aid a = i" "i = next_rowid aid (arcs d1)"
    "a = new_arc_row now (step_args (tp_id t) p nm pol s) TRUSTED ot ag ro po d0"
    by (rule create_arc_row [OF c]) blast
  have "i \<notin> aid ` set (arcs d)" using a(3) f(1) next_rowid_gt [of _ "arcs d" aid] by fastforce
  moreover have "step_row t p s a" using a(4) new_step_row [OF nm] by simp
  moreover have "step_capable t s i d'"
  proof (cases "merged_caps t s = []")
    case True
    then show ?thesis using set_merged_caps(1) [of t s] by (simp add: step_capable_def)
  next
    case False
    show ?thesis
      by (rule step_capable_cell)
        (use step_cells_capabilities [OF False] step_cells_keys [OF step_cells_capabilities [OF False]] in
          \<open>simp add: d' state_cell_put_cells [OF distinct_step_cells]\<close>)
  qed
  moreover have "\<forall>j k. j \<noteq> i \<longrightarrow> state_cell j k d' = state_cell j k d"
  proof -
    have "state_cell j k d1 = state_cell j k d" for j k using f(2) by (simp add: state_cell_def)
    then show ?thesis using create_arc_cells(2) [OF c] by (simp add: d' state_cell_put_cells distinct_step_cells)
  qed
  ultimately show ?thesis using a(1,2) f(1) by (auto simp: d')
qed

lemma instantiate_steps_Inr:
  "instantiate_steps te now t p ss d = (Inr ids, d') \<Longrightarrow>
     \<exists>as. arcs d' = arcs d @ as \<and> map aid as = ids \<and> set ids \<inter> aid ` set (arcs d) = {} \<and>
       list_all2 (\<lambda>s a. step_row t p s a \<and> step_capable t s (aid a) d') ss as \<and>
       (\<forall>j k. j \<notin> set ids \<longrightarrow> state_cell j k d' = state_cell j k d)"
proof (induction ss arbitrary: d ids)
  case (Cons s ss)
  obtain i d1 js where s: "instantiate_step te now t p s d = (Inr i, d1)"
    and r: "instantiate_steps te now t p ss d1 = (Inr js, d')" and ids: "ids = i # js"
    using Cons.prems by (auto simp: abind_Inr)
  obtain a where a: "arcs d1 = arcs d @ [a]" "aid a = i" "step_row t p s a" "step_capable t s i d1"
    "i \<notin> aid ` set (arcs d)" "\<forall>j k. j \<noteq> i \<longrightarrow> state_cell j k d1 = state_cell j k d"
    using instantiate_step_Inr [OF s] by blast
  obtain as where as: "arcs d' = arcs d1 @ as" "map aid as = js" "set js \<inter> aid ` set (arcs d1) = {}"
    "list_all2 (\<lambda>s a. step_row t p s a \<and> step_capable t s (aid a) d') ss as"
    "\<forall>j k. j \<notin> set js \<longrightarrow> state_cell j k d' = state_cell j k d1"
    using Cons.IH [OF r] by blast
  have "i \<notin> set js" using as(3) a(1,2) by auto
  then have "step_capable t s (aid a) d'" using a(2,4) as(5) by (simp add: step_capable_def)
  then show ?case
    using a as ids by (intro exI [of _ "a # as"]) auto
qed auto

text \<open>What a failed instantiation leaves: the arcs before it are still there.\<close>

lemma instantiate_step_prefix: "instantiate_step te now t p s d = (r, d') \<Longrightarrow> \<exists>as. arcs d' = arcs d @ as"
proof (cases r)
  case (Inl e)
  moreover assume "instantiate_step te now t p s d = (r, d')"
  ultimately show ?thesis
    by (auto simp: instantiate_step_def dest!: step_policy_frame split: prod.splits option.splits sum.splits)
next
  case (Inr i)
  moreover assume "instantiate_step te now t p s d = (r, d')"
  ultimately show ?thesis using instantiate_step_Inr by blast
qed

lemma instantiate_steps_prefix: "instantiate_steps te now t p ss d = (r, d') \<Longrightarrow> \<exists>as. arcs d' = arcs d @ as"
proof (induction ss arbitrary: d r d')
  case (Cons s ss)
  obtain x d1 where s: "instantiate_step te now t p s d = (x, d1)" by fastforce
  obtain as where as: "arcs d1 = arcs d @ as" using instantiate_step_prefix [OF s] by blast
  obtain y d2 where r: "instantiate_steps te now t p ss d1 = (y, d2)" by fastforce
  obtain bs where bs: "arcs d2 = arcs d1 @ bs" using Cons.IH [OF r] by blast
  show ?case using Cons.prems s r as bs by (cases x; cases y) auto
qed auto

lemma instantiate_template_prefix: "instantiate_template te now ts tid p d = (r, d') \<Longrightarrow> \<exists>as. arcs d' = arcs d @ as"
  by (auto simp: instantiate_template_def split: option.splits dest: instantiate_steps_prefix)

lemma set_cells_arcs: "set_cells now i cs d = (r, d') \<Longrightarrow> arcs d' = arcs d"
proof (induction cs arbitrary: d r)
  case (Cons c cs)
  obtain k v where c: "c = (k, v)" by fastforce
  show ?case
  proof (cases "set_arc_state now i k v d")
    case (Inl e)
    then show ?thesis using Cons.prems by (simp add: c)
  next
    case (Inr d1)
    then have "arcs d1 = arcs d" by (auto simp: set_arc_state_def split: if_splits)
    then show ?thesis using Cons.prems Inr Cons.IH [of d1] by (simp add: c)
  qed
qed simp

lemma set_cells_exists: "arc_exists i d \<Longrightarrow> set_cells now i cs d = (Inr (), put_cells now i cs d)"
  by (induction cs arbitrary: d) (auto simp: set_arc_state_def arc_exists_def)

text \<open>Behind the creation of the root only arcs are added.\<close>

lemma start_root_tail:
  assumes "start_root te now ts pl d = (x, d')" and "create_arc (te_env te) now (root_args te pl) d = Inr r" and "r = (i, d1)"
  shows "\<exists>rest. arcs d' = arcs d1 @ rest"
proof -
  let ?c1 = "set_cells now i [(''event_payload'', JObj (event_payload_of pl)), (''subscription_name'', dget pl ''_subscription'')] d1"
  obtain y d2 where y: "?c1 = (y, d2)" by fastforce
  have d2: "arcs d2 = arcs d1" using set_cells_arcs [OF y] .
  show ?thesis
  proof (cases "\<exists>u cs. y = Inr u \<and> dict_of (dget pl ''initial_arc_state'') = Inr cs")
    case False
    then show ?thesis using assms y d2 by (cases y) (auto simp: start_root_def split: sum.splits)
  next
    case True
    then obtain u cs where cs: "y = Inr u" "dict_of (dget pl ''initial_arc_state'') = Inr cs" by blast
    obtain z d3 where z: "set_cells now i (map (\<lambda>(k, v). (k, substitute_event_refs te (event_payload_of pl) v)) cs) d2 = (z, d3)"
      by fastforce
    have d3: "arcs d3 = arcs d1" using set_cells_arcs [OF z] d2 by simp
    obtain w d4 where w: "instantiate_template te now ts (the (opt_number (dget pl ''template_id''))) i d3 = (w, d4)" by fastforce
    obtain rest where "arcs d4 = arcs d3 @ rest" using instantiate_template_prefix [OF w] by blast
    then show ?thesis using assms y cs z w d3
      by (cases z; cases w) (auto simp: start_root_def split: option.splits)
  qed
qed

section \<open>Examples\<close>

definition blank_step :: "string \<Rightarrow> int \<Rightarrow> tstep" where
  "blank_step nm n = \<lparr> ts_name = Some nm, ts_description = None, ts_role = None, ts_mutable = False, ts_order = n,
     ts_agent_type = None, ts_integrity = None, ts_output = None, ts_model = None, ts_model_role = None,
     ts_agent_role = None, ts_arc_role = None, ts_agent_model = None, ts_policy_id = None, ts_contract = None,
     ts_model_policy = None, ts_min_tier = None, ts_capabilities = [], ts_required_pass = False,
     ts_goal_template = None, ts_goal_fields = [], ts_prompt_template = None, ts_prompt_subdir = JStr [],
     ts_activation = None \<rparr>"

text \<open>A template of the package \<open>mail\<close> whose second step also lists the grant of \<open>bank\<close>, and one whose
  second step asks for an untrusted arc.\<close>

definition demo_template :: template where
  "demo_template = \<lparr> tp_id = 1, tp_name = ''m'', tp_required_for = [],
     tp_steps = [blank_step ''a'' 1, (blank_step ''b'' 2)\<lparr> ts_capabilities := [''pkg.bank''] \<rparr>],
     tp_capabilities = [], tp_triggers = [], tp_version = 1, tp_owner = Some ''mail'' \<rparr>"

definition demo_broken :: template where
  "demo_broken = demo_template\<lparr> tp_steps := [blank_step ''a'' 1, (blank_step ''b'' 2)\<lparr> ts_integrity := Some ''untrusted'' \<rparr>] \<rparr>"

definition demo_tenv :: tenv where
  "demo_tenv = \<lparr> te_env = demo_env, te_preset = (\<lambda>_. None), te_dumps = (\<lambda>_. []), te_str = (\<lambda>_. []) \<rparr>"

definition demo_tdb :: db where
  "demo_tdb = empty_db\<lparr> arcs := [(blank_arc 1)\<lparr> template_id := Some 1 \<rparr>], templates := [(1, ''m'')] \<rparr>"

definition demo_start :: jdict where
  "demo_start = [(''template_id'', JInt 1), (''template_name'', JStr ''m''), (''_subscription'', JStr ''s'')]"

lemma create_blank:
  assumes "ca_parent ca \<noteq> None \<or> ca_code_file ca = None"
    and "integrity_of (ca_integrity ca) = Inr TRUSTED" "validate_output_type (ca_output ca) = Inr ot"
    "validate_agent_type (ca_agent ca) = Inr ag" "arc_role_of (ca_arc_role ca) = Some ro" "ca_verification_target ca = None"
    and "ca_model ca = None" "ca_agent_model ca = None" "ca_model_role ca = None" "ca_agent_role ca = None" and "fks_ok ca d"
  shows "\<exists>i d'. create_arc env now ca d = Inr (i, d') \<and> templates d' = templates d \<and> i = next_rowid aid (arcs d)"
proof -
  have "\<exists>a d1. insert_arc_row env now ca d = Inr (a, d1) \<and> templates d1 = templates d \<and> aid a = next_rowid aid (arcs d)"
    using assms by (simp add: insert_arc_row_def resolve_arc_creation_model_def truthy_str_def Let_def log_history_def)
  then show ?thesis using assms
    by (force simp: create_arc_def is_non_trusted_def insert_arc_def initialize_retry_state_def log_trust_event_def put_state_def
        Let_def split: sum.splits)
qed

lemma templates_put_cells [simp]: "templates (put_cells now i cs d) = templates d"
  by (induction cs arbitrary: d) (auto simp: put_state_def)

lemma templates_step_activation [simp]: "templates (step_activation i s d) = templates d"
  by (simp add: step_activation_def split: option.splits list.splits)

lemma demo_step:
  assumes "arc_exists p d" "(1, ''m'') \<in> set (templates d)" "tp_id t = 1"
  shows "\<exists>i d'. instantiate_step demo_tenv 7 t p ((blank_step nm n)\<lparr> ts_capabilities := cs \<rparr>) d = (Inr i, d') \<and> templates d' = templates d"
proof -
  let ?s = "(blank_step nm n)\<lparr> ts_capabilities := cs \<rparr>"
  have "\<exists>i d'. create_arc (te_env demo_tenv) 7 (step_args (tp_id t) p nm None ?s) d = Inr (i, d') \<and> templates d' = templates d \<and>
      i = next_rowid aid (arcs d)"
    by (rule create_blank)
      (use assms in \<open>force simp: step_args_def default_args_def blank_step_def integrity_of_def validate_output_type_def
        validate_agent_type_def arc_role_of_def fks_ok_def fk_arc_def or_default_def image_iff\<close>)+
  then show ?thesis by (auto simp: instantiate_step_def step_policy_def blank_step_def)
qed

definition demo_b :: tstep where
  "demo_b = (blank_step ''b'' 2)\<lparr> ts_capabilities := [''pkg.bank''] \<rparr>"

lemma demo_template_sel:
  "tp_steps demo_template = [(blank_step ''a'' 1)\<lparr> ts_capabilities := [] \<rparr>, demo_b]" "tp_id demo_template = 1"
  "tp_owner demo_template = Some ''mail''"
  by (simp_all add: demo_template_def blank_step_def demo_b_def)

lemma demo_instantiates:
  "\<exists>i j d'. instantiate_template demo_tenv 7 [demo_template] 1 1 demo_tdb = (Inr [i, j], d')"
proof -
  obtain i d1 where s1: "instantiate_step demo_tenv 7 demo_template 1 ((blank_step ''a'' 1)\<lparr> ts_capabilities := [] \<rparr>) demo_tdb = (Inr i, d1)"
      "templates d1 = templates demo_tdb"
    using demo_step [of 1 demo_tdb demo_template, where nm = "''a''" and n = 1 and cs = "[]"] demo_template_sel(2) by (auto simp: arc_exists_def demo_tdb_def)
  have "arc_exists 1 d1" using instantiate_step_Inr [OF s1(1)] by (auto simp: arc_exists_def demo_tdb_def)
  then obtain j d2 where "instantiate_step demo_tenv 7 demo_template 1 demo_b d1 = (Inr j, d2)"
    using demo_step [of 1 d1 demo_template, where nm = "''b''" and n = 2 and cs = "[''pkg.bank'']"] demo_template_sel(2) s1(2) by (auto simp: demo_tdb_def demo_b_def)
  then show ?thesis using s1(1) by (simp add: instantiate_template_def demo_template_sel)
qed

section \<open>Properties\<close>



text \<open>C33: Rigidity. When a template is instantiated under an arc of that template which has no arcs of
  a template yet, the rigidity check accepts it: the steps are all there and their orders agree.\<close>

theorem instantiated_template_rigid:
  assumes "instantiate_template te now ts tid p d = (Inr ids, d')"
    and "find_arc p d = Some a" and "template_id a = Some tid" and "template_children p d = []"
  shows "validate_template_rigidity ts p d'"
proof -
  obtain t where t: "find_row tp_id tid ts = Some t"
    and r: "instantiate_steps te now t p (tp_steps t) d = (Inr ids, d')"
    using assms(1) by (auto simp: instantiate_template_def split: option.splits)
  obtain as where as: "arcs d' = arcs d @ as"
    "list_all2 (\<lambda>s a. step_row t p s a \<and> step_capable t s (aid a) d') (tp_steps t) as"
    using instantiate_steps_Inr [OF r] by blast
  have "list_all (\<lambda>a. parent_id a = Some p \<and> from_template a) as"
    using as(2) by (auto simp: list_all2_conv_all_nth list_all_length step_row_def)
  then have "template_children p d' = as"
    using assms(4) by (simp add: template_children_def as(1) list_all_iff)
  moreover have "map step_order as = map ts_order (tp_steps t)"
    using as(2) by (auto simp: list_all2_conv_all_nth step_row_def intro!: nth_equalityI)
  moreover have "find_arc p d' = Some a" using assms(2) as(1) by (simp add: find_row_append)
  ultimately show ?thesis using t assms(3) list_all2_lengthD [OF as(2)]
    by (simp add: validate_template_rigidity_def)
qed

theorem instantiated_template_rigid_witness:
  "\<exists>i j d'. instantiate_template demo_tenv 7 [demo_template] 1 1 demo_tdb = (Inr [i, j], d') \<and>
     validate_template_rigidity [demo_template] 1 d'"
proof -
  obtain i j d' where r: "instantiate_template demo_tenv 7 [demo_template] 1 1 demo_tdb = (Inr [i, j], d')"
    using demo_instantiates by blast
  show ?thesis using r instantiated_template_rigid [OF r, of "(blank_arc 1)\<lparr> template_id := Some 1 \<rparr>"]
    by (auto simp: demo_tdb_def template_children_def)
qed

text \<open>The grant of a package reaches a step arc from the owner of the template, and also from any list of
  the template or the step: a template of one package may stamp the grant of another.\<close>

lemma other_grant_stamped:
  "\<exists>i j d' cs. instantiate_template demo_tenv 7 [demo_template] 1 1 demo_tdb = (Inr [i, j], d') \<and>
     tp_owner demo_template = Some ''mail'' \<and>
     state_cell j ''_capabilities'' d' = Some (Parsed (JList (map JStr cs))) \<and> capability_grant_for_package ''bank'' \<in> set cs"
proof -
  obtain i j d' where r: "instantiate_template demo_tenv 7 [demo_template] 1 1 demo_tdb = (Inr [i, j], d')"
    using demo_instantiates by blast
  have run: "instantiate_steps demo_tenv 7 demo_template 1 (tp_steps demo_template) demo_tdb = (Inr [i, j], d')"
    using r by (simp add: instantiate_template_def demo_template_sel)
  obtain as where as: "map aid as = [i, j]"
    "list_all2 (\<lambda>s a. step_row demo_template 1 s a \<and> step_capable demo_template s (aid a) d') (tp_steps demo_template) as"
    using instantiate_steps_Inr [OF run] by (elim exE conjE) (rule that)
  have "step_capable demo_template demo_b j d'"
    using as unfolding demo_template_sel(1) list_all2_Cons1 by (elim exE conjE) simp
  then obtain cs where cs: "state_cell j ''_capabilities'' d' = Some (Parsed (JList (map JStr cs)))"
    "set cs = granted_caps demo_template demo_b"
    by (auto simp: step_capable_def granted_caps_def demo_b_def)
  have "capability_grant_for_package ''bank'' \<in> set cs"
    unfolding cs(2) by (simp add: granted_caps_def demo_b_def capability_grant_for_package_def)
  then show ?thesis using r cs(1) demo_template_sel(3) by blast
qed

text \<open>C34: What a failed start of a subscription's arc leaves behind. When the handler raises, the
  database is as before only if the root could not be created; otherwise the new root, pending (or waiting,
  for a supervisor), without a parent and with the origin of a trigger, stays in the store, in front of the
  steps made so far. Each retry of the work item adds one more.\<close>

theorem failed_start_keeps_root:
  assumes "handle_subscription_create_arc te cfg es us now ts pl bud d = (b, Inl e, d')"
  shows "case create_arc (te_env te) now (root_args te pl) d of
      Inl _ \<Rightarrow> d' = d
    | Inr (i, _) \<Rightarrow> \<exists>a rest. arcs d' = arcs d @ a # rest \<and> aid a = i \<and> parent_id a = None \<and>
        origin_kind a = Some ''trigger'' \<and> (astatus a = Pending \<or> astatus a = Waiting)"
proof (cases "create_arc (te_env te) now (root_args te pl) d")
  case (Inl x)
  then show ?thesis using assms
    by (auto simp: handle_subscription_create_arc_def start_root_def split: prod.splits if_splits)
next
  case (Inr r)
  obtain i d1 where r: "r = (i, d1)" by fastforce
  have s: "start_root te now ts pl d = (Inl e, d')"
    using assms by (cases "start_root te now ts pl d"; cases "fst (start_root te now ts pl d)")
      (auto simp: handle_subscription_create_arc_def split: prod.splits if_splits)
  obtain a ag ot ro po d0 where a: "arcs d1 = arcs d @ [a]" "aid a = i"
    "a = new_arc_row now (root_args te pl) TRUSTED ot ag ro po d0"
    by (rule create_arc_row [of "te_env te" now "root_args te pl" d i d1]) (use Inr r in \<open>simp_all\<close>)
  have "\<exists>rest. arcs d' = arcs d1 @ rest"
    using s Inr r by (rule start_root_tail)
  moreover have "parent_id a = None \<and> origin_kind a = Some ''trigger'' \<and> (astatus a = Pending \<or> astatus a = Waiting)"
    by (simp add: a(3) new_arc_row_def root_args_def default_args_def or_parent_def Let_def)
  ultimately show ?thesis using a(1,2) Inr r by auto
qed

lemma demo_broken_step:
  "\<exists>e. instantiate_step demo_tenv 7 t p ((blank_step nm n)\<lparr> ts_integrity := Some ''untrusted'' \<rparr>) d = (Inl e, d)"
  by (simp add: instantiate_step_def step_policy_def blank_step_def create_arc_def step_args_def default_args_def or_default_def
      integrity_of_def validate_output_type_def validate_agent_type_def is_non_trusted_def split: sum.splits)

text \<open>Every attempt at the broken template raises and leaves its root.\<close>

lemma demo_broken_attempt:
  assumes "templates d = [(1, ''m'')]"
  shows "\<exists>b e d' i d1. handle_subscription_create_arc demo_tenv demo_budget_config [] [] 7 [demo_broken] demo_start no_budget d =
      (b, Inl e, d') \<and> templates d' = templates d \<and> create_arc demo_env 7 (root_args demo_tenv demo_start) d = Inr (i, d1)"
proof -
  have env: "te_env demo_tenv = demo_env" by (simp add: demo_tenv_def)
  have "\<exists>i d1. create_arc demo_env 7 (root_args demo_tenv demo_start) d = Inr (i, d1) \<and> templates d1 = templates d \<and>
      i = next_rowid aid (arcs d)"
    by (rule create_blank) (use assms in \<open>simp_all add: root_args_def default_args_def demo_start_def dget_def opt_string_def
      opt_number_def or_default_def integrity_of_def validate_output_type_def validate_agent_type_def arc_role_of_def
      fks_ok_def fk_arc_def\<close>)
  then obtain i d1 where c: "create_arc demo_env 7 (root_args demo_tenv demo_start) d = Inr (i, d1)"
      "templates d1 = templates d" "i = next_rowid aid (arcs d)"
    by blast
  obtain a where a: "arcs d1 = arcs d @ [a]" "aid a = i" by (rule create_arc_row [OF c(1)])
  have ex: "arc_exists i d1" using a c(3) by (auto simp: arc_exists_def find_row_append)
  let ?cells = "[(''event_payload'', JObj (event_payload_of demo_start)), (''subscription_name'', dget demo_start ''_subscription'')]"
  let ?d2 = "put_cells 7 i ?cells d1"
  have ex2: "arc_exists i ?d2" using ex by (simp add: arc_exists_def)
  have tid: "tp_id demo_broken = 1" and t2: "(1, ''m'') \<in> set (templates ?d2)"
    and st: "tp_steps demo_broken = [blank_step ''a'' 1, (blank_step ''b'' 2)\<lparr> ts_integrity := Some ''untrusted'' \<rparr>]"
    using assms c(2) by (simp_all add: demo_broken_def demo_template_sel(2) del: put_cells_Cons)
  have blank: "(blank_step ''a'' 1)\<lparr> ts_capabilities := [] \<rparr> = blank_step ''a'' 1" by (simp add: blank_step_def)
  obtain j d3 where s1: "instantiate_step demo_tenv 7 demo_broken i (blank_step ''a'' 1) ?d2 = (Inr j, d3)" "templates d3 = templates ?d2"
    using demo_step [OF ex2 t2 tid, of "[]" "''a''" 1] unfolding blank by blast
  obtain e where s2: "instantiate_step demo_tenv 7 demo_broken i ((blank_step ''b'' 2)\<lparr> ts_integrity := Some ''untrusted'' \<rparr>) d3 = (Inl e, d3)"
    using demo_broken_step by blast
  have it: "instantiate_template demo_tenv 7 [demo_broken] 1 i ?d2 = (Inl e, d3)"
    using s1(1) s2 by (simp add: instantiate_template_def tid st del: put_cells_Cons)
  have "start_root demo_tenv 7 [demo_broken] demo_start d = (Inl e, d3)"
    unfolding start_root_def env c(1) using set_cells_exists [OF ex, of 7 ?cells] it
    by (simp add: dict_of_def demo_start_def dget_def opt_number_def del: set_cells.simps(2))
  then show ?thesis using c s1(2) unfolding templates_put_cells by (simp add: handle_subscription_create_arc_def no_budget_allowed)
qed


theorem failed_start_keeps_root_witness:
  "\<exists>b e d' a rest. handle_subscription_create_arc demo_tenv demo_budget_config [] [] 7 [demo_broken] demo_start no_budget demo_tdb =
      (b, Inl e, d') \<and> arcs d' = arcs demo_tdb @ a # rest \<and> parent_id a = None"
proof -
  have "templates demo_tdb = [(1, ''m'')]" by (simp add: demo_tdb_def)
  then obtain b e d' i d1 where
      h: "handle_subscription_create_arc demo_tenv demo_budget_config [] [] 7 [demo_broken] demo_start no_budget demo_tdb = (b, Inl e, d')"
      and c: "create_arc demo_env 7 (root_args demo_tenv demo_start) demo_tdb = Inr (i, d1)"
    using demo_broken_attempt by blast
  have "te_env demo_tenv = demo_env" by (simp add: demo_tenv_def)
  then show ?thesis using failed_start_keeps_root [OF h] h c by auto
qed

end
