(* ===== verification/Spec2Isabelle.thy ===== *)
theory Spec2Isabelle
  imports Circuit_Breaker Judge Read_Gate Rate_Limiter Queue_Spec Retention Templates
begin

text \<open>
  Carpenter: the arc engine, its queue and event bus, model selection and the trust boundary.

  The program. Carpenter (\<open>src/carpenter\<close>) runs plans of AI agents. A plan is a tree of arcs, rows
  of a SQLite table; arcs change status through \<open>core/arcs/manager.py\<close>, whose hooks enqueue
  items on the work queue (\<open>core/engine/work_queue.py\<close>) and record events on the event bus
  (\<open>core/engine/event_bus.py\<close>). The main loop claims items and calls the handlers: dispatch,
  failure, supervisor wake-up. An arc that fails is retried (\<open>core/arcs/retry.py\<close>), escalated to a
  stronger model (\<open>core/arcs/root_failure_handler.py\<close>), or reported to a SUPERVISOR above it. Calls
  of models pass the circuit breaker, the rate limiter and the health tracker; the selector
  chooses the model. Content from outside becomes a resource or an untrusted arc, and only the
  deterministic JUDGE (\<open>security/judge.py\<close>) may make it trusted; the read gate
  (\<open>security/read_gate.py\<close>) keeps it out of trusted contexts until then.

  The model. The database is one record \<open>db\<close> (\<open>Arc_Store\<close>), a list of rows per table, oldest
  rowid first. An operation in one transaction is a function \<open>db \<Rightarrow> exn + db\<close>; an operation with
  several commits returns the database also with an exception (\<open>'a act\<close>). Every raise of the
  source is an \<open>Inl\<close>. Ids and other Python integers are \<open>int\<close>; times are integers of
  microseconds, handed in by the caller and cut to seconds where the schema says
  \<open>CURRENT_TIMESTAMP\<close>; floats are exact rationals; JSON columns are \<open>jtext\<close>, parsed or malformed.
  Callbacks, the configuration, the file system, package code and the network are parameters
  (\<open>env\<close>, \<open>gate_env\<close>, \<open>judge_env\<close>, \<open>rl_config\<close>).

  The theories.

  \<^item> \<open>Prelude\<close>: exceptions, JSON, tables, the contracts \<open>keyed_table\<close> and \<open>lifecycle\<close>;
    \<open>Py_Text\<close>: the string methods of Python.
  \<^item> \<open>Trust_Types\<close>: the integrity lattice, agent types and capabilities (\<open>core/trust\<close>).
  \<^item> \<open>Work_Queue\<close>, \<open>Event_Bus\<close>: the queue and the bus with its filter language
    (\<open>core/engine\<close>); both keep the contract \<open>dedup_queue\<close>.
  \<^item> \<open>Circuit_Breaker\<close>, \<open>Model_Health\<close>, \<open>Rate_Limiter\<close>: what stands in front of a model
    (\<open>agent/circuit_breaker.py\<close>, \<open>agent/providers/retry.py\<close>, \<open>core/models/health.py\<close>,
    \<open>agent/rate_limiter.py\<close>).
  \<^item> \<open>Model_Resolver\<close>, \<open>Model_Selector\<close>: names, roles, escalation stacks, policies, scores.
  \<^item> \<open>Arc_Store\<close>, \<open>Arc_Retry\<close>, \<open>Arc_Tree\<close>, \<open>Resource_Manager\<close>, \<open>Arc_Manager\<close>, \<open>Arc_Failure\<close>:
    the rows, then the operations of \<open>core/arcs\<close> and \<open>core/resources\<close> in the code's order.
  \<^item> \<open>Arc_Cancel\<close>, \<open>Arc_Lifecycle\<close>, \<open>Arc_Structure\<close>, \<open>Arc_Escalation\<close>: what they promise
    together: exact cancellation; a step relation over every operation and its invariant;
    dependencies, counters and grants; failure, escalation and supervision.
  \<^item> \<open>Queue_Spec\<close>: the board of jobs the work queue implements.
  \<^item> \<open>Model_Registry\<close>, \<open>Budget\<close>: the entries with their prices (\<open>core/models/registry.py\<close>) and
    the breaker that bounds what model calls cost (\<open>core/budget.py\<close>).
  \<^item> \<open>Error_Classifier\<close>, \<open>Arc_Ready\<close>, \<open>Verification\<close>, \<open>Arc_Batch\<close>, \<open>Arc_Outputs\<close>, \<open>Arc_Dispatch\<close>:
    the run of an arc: which arcs are ready, the dispatch handler with its failure path, the
    verification of coding changes, batches with their reviewers, named outputs
    (\<open>core/arcs/dispatch_handler.py\<close>, \<open>core/arcs/verification.py\<close>, \<open>core/arcs/judge_verification.py\<close>,
    \<open>tool_backends/arc.py\<close>, \<open>core/engine/arc_outputs.py\<close>, \<open>agent/error_classifier.py\<close>).
  \<^item> \<open>Triggers\<close>, \<open>Subscriptions\<close>, \<open>Templates\<close>: from the clock and the counters to events, from events
    to work items, from templates to arcs; one iteration of the main loop
    (\<open>core/engine/trigger_manager.py\<close>, \<open>triggers\<close>, \<open>subscriptions.py\<close>, \<open>template_manager.py\<close>,
    \<open>main_loop.py\<close>).
  \<^item> \<open>Startup_Recovery\<close>, \<open>Retention\<close>: the repair of the tables at a start (\<open>db.py\<close>) and the nightly
    sweep (\<open>core/engine/retention.py\<close>).
  \<^item> \<open>Pending_Install\<close>, \<open>Package_Capabilities\<close>, \<open>Tool_Dispatch\<close>: approval of packages, the verbs
    they register, and the gates between executed code and the tools (\<open>packages\<close>,
    \<open>executor/dispatch_bridge.py\<close>, \<open>api/callbacks.py\<close>, \<open>tool_backends/state.py\<close>).
  \<^item> \<open>Security_Policies\<close>, \<open>Review_Manager\<close>, \<open>Judge\<close>, \<open>Read_Gate\<close>: the trust boundary
    (\<open>security\<close>, \<open>core/workflows/review_manager.py\<close>).

  The lemmas. Each component proves what its operations do on every branch, errors included,
  and the invariant its state keeps; step relations (\<open>wq_step\<close>, \<open>res_step\<close>, \<open>arc_step\<close>)
  carry the invariants to every reachable state. Contracts shared by several components are
  locales, each interpreted on the definitions of the component that keeps it.

  Bounds and fuel. Walks over the parent column take fuel, the code's own limit of 100 levels
  where it has one and the number of arcs otherwise (enough: the tree invariant makes parents
  older than children). The lineage walk takes one round more than there are resources
  (\<open>get_lineage_total\<close>). Placeholders in texts are replaced from left to right, on what is left
  of the text (\<open>ref_at_shorter\<close>). The rate limiter's waiting loop runs over a list of ticks, one per
  iteration, and ends within the timeout (\<open>acquire_returns\<close>).

  Not modelled. Prompts, HTTP, channels, the sandbox and the knowledge base are input and
  output; the static verifier works on Python's own syntax trees; the installer of packages and
  the coding-change workflow are file and git operations; tool backends other than those of arcs
  and state are parameters of the bridge. Handlers run as tasks of their own: the loop only
  hands items out. Concurrency of threads is the interleaving of whole operations, because every
  write is one SQLite transaction or holds a lock.
\<close>

end
